(* ===== verification/Prelude.thy ===== *)
theory Prelude
  imports Main "HOL-Library.Word"
begin

text \<open>
  Shared vocabulary of the development: the machine integers and byte buffers of the Rust code,
  the parts of Rust's standard library that several components call (little-endian byte
  conversions, string splitting and searching, integer parsing), results with errors as values,
  and the generic lemmas on lists and words that the component proofs use.
\<close>

unbundle bit_operations_syntax

section \<open>Machine integers and buffers\<close>

type_synonym u8 = "8 word"
type_synonym u16 = "16 word"
type_synonym u32 = "32 word"
type_synonym u64 = "64 word"
type_synonym u128 = "128 word"
type_synonym usize = "64 word"
type_synonym bytes = "u8 list"

text \<open>Fallible Rust functions return \<open>Inl\<close> of an error or \<open>Inr\<close> of the value.\<close>

datatype io_error_kind = InvalidData | InvalidInput | NotFound | PermissionDenied | OtherError

datatype io_error = IoError io_error_kind string

named_theorems wire \<open>rules that unfold the byte-level operations of the transport\<close>
named_theorems path_simps \<open>rules on file paths and their components\<close>

section \<open>Little-endian bytes\<close>

text \<open>
  \<open>u16::to_le_bytes\<close>, \<open>u32::to_le_bytes\<close>, \<open>u64::to_le_bytes\<close>, \<open>u128::to_le_bytes\<close> and
  their inverses, as one pair of functions over the number of bytes.
\<close>

fun to_le_bytes :: "nat \<Rightarrow> 'a::len word \<Rightarrow> bytes" where
  "to_le_bytes 0 w = []"
| "to_le_bytes (Suc k) w = ucast w # to_le_bytes k (drop_bit 8 w)"

fun from_le_bytes :: "bytes \<Rightarrow> 'a::len word" where
  "from_le_bytes [] = 0"
| "from_le_bytes (b # bs) = ucast b OR push_bit 8 (from_le_bytes bs)"

lemma length_to_le_bytes [simp]: "length (to_le_bytes k w) = k"
  by (induction k arbitrary: w) auto

lemma from_le_bytes_to_le_bytes_mask:
  fixes w :: "'a::len word"
  shows "from_le_bytes (to_le_bytes k w) = take_bit (8 * k) w"
proof (induction k arbitrary: w)
  case 0
  then show ?case by simp
next
  case (Suc k)
  have "(ucast (ucast w :: u8) :: 'a word) OR push_bit 8 (take_bit (8 * k) (drop_bit 8 w))
    = take_bit (8 * Suc k) w"
    by (rule bit_word_eqI) (auto simp: bit_simps)
  with Suc show ?case by simp
qed

lemma from_le_bytes_to_le_bytes:
  fixes w :: "'a::len word"
  assumes "LENGTH('a) \<le> 8 * k"
  shows "from_le_bytes (to_le_bytes k w) = w"
  using assms by (simp add: from_le_bytes_to_le_bytes_mask take_bit_word_eq_self)

lemma from_le_bytes_append_zeros:
  "from_le_bytes (bs @ replicate n 0) = (from_le_bytes bs :: 'a::len word)"
proof (induction bs)
  case Nil
  then show ?case by (induction n) auto
next
  case (Cons b bs)
  then show ?case by simp
qed

lemma to_le_bytes_nth: "i < k \<Longrightarrow> to_le_bytes k w ! i = ucast (drop_bit (8 * i) w)"
proof (induction k arbitrary: w i)
  case (Suc k)
  then show ?case by (cases i) (auto simp: drop_bit_drop_bit ac_simps)
qed simp

lemma to_le_bytes_ucast:
  fixes x :: "'a::len word"
  assumes "8 * k \<le> LENGTH('b::len)"
  shows "to_le_bytes k (ucast x :: 'b word) = to_le_bytes k x"
proof (rule nth_equalityI)
  fix i assume "i < length (to_le_bytes k (ucast x :: 'b word))"
  then have i: "i < k" by simp
  have "bit (ucast (drop_bit (8 * i) (ucast x :: 'b word)) :: u8) n
      = bit (ucast (drop_bit (8 * i) x) :: u8) n" for n
    using i assms by (auto simp: bit_simps dest: bit_imp_le_length)
  with i show "to_le_bytes k (ucast x :: 'b word) ! i = to_le_bytes k x ! i"
    by (simp add: to_le_bytes_nth bit_eq_iff)
qed simp

lemma to_le_bytes_cong:
  fixes v w :: "'a::len word"
  assumes "\<And>n. n < 8 * k \<Longrightarrow> bit v n = bit w n"
  shows "to_le_bytes k v = to_le_bytes k w"
proof (rule nth_equalityI)
  fix i assume "i < length (to_le_bytes k v)"
  then have "i < k" by simp
  then have "bit (ucast (drop_bit (8 * i) v) :: u8) n = bit (ucast (drop_bit (8 * i) w) :: u8) n" for n
    using assms [of "8 * i + n"] by (auto simp: bit_simps)
  with \<open>i < k\<close> show "to_le_bytes k v ! i = to_le_bytes k w ! i" by (simp add: to_le_bytes_nth bit_eq_iff)
qed simp

lemma to_le_bytes_from_le_bytes:
  "8 * length bs \<le> LENGTH('a) \<Longrightarrow> to_le_bytes (length bs) (from_le_bytes bs :: 'a::len word) = bs"
proof (induction bs)
  case (Cons b bs)
  let ?w = "from_le_bytes (b # bs) :: 'a word"
  have "(ucast ?w :: u8) = b"
    using Cons.prems by (intro bit_word_eqI) (auto simp: bit_simps)
  moreover have "to_le_bytes (length bs) (drop_bit 8 ?w) = to_le_bytes (length bs) (from_le_bytes bs :: 'a word)"
    using Cons.prems by (intro to_le_bytes_cong) (auto simp: bit_simps dest: bit_imp_le_length)
  ultimately show ?case using Cons by simp
qed simp

lemma take_bit_of_nat_word:
  assumes "n < 2 ^ k"
  shows "take_bit k (of_nat n :: 'a::len word) = of_nat n"
  using assms by (metis of_nat_take_bit take_bit_nat_eq_self_iff)

section \<open>Unsigned arithmetic as Rust checks it\<close>

definition saturating_add :: "'a::len word \<Rightarrow> 'a word \<Rightarrow> 'a word" where
  "saturating_add a b = (if unat a + unat b < 2 ^ LENGTH('a) then a + b else - 1)"

lemma unat_all_ones: "unat (- 1 :: 'a::len word) = 2 ^ LENGTH('a) - 1"
  by (simp add: unsigned_minus_1_eq_mask mask_eq_exp_minus_1)

lemma unat_saturating_add:
  "unat (saturating_add a (b :: 'a::len word)) = min (unat a + unat b) (2 ^ LENGTH('a) - 1)"
  by (auto simp: saturating_add_def unat_word_ariths unat_all_ones min_def)

text \<open>Unsigned 32-bit addition where a value is kept as a natural number: it wraps.\<close>

definition u32_add :: "nat \<Rightarrow> nat \<Rightarrow> nat" where
  "u32_add a b = (a + b) mod 2 ^ 32"

lemma u32_add_small: "a + b < 2 ^ 32 \<Longrightarrow> u32_add a b = a + b"
  by (simp add: u32_add_def)

definition u64_add :: "nat \<Rightarrow> nat \<Rightarrow> nat" where
  "u64_add a b = (a + b) mod 2 ^ 64"

lemma u64_add_small: "a + b < 2 ^ 64 \<Longrightarrow> u64_add a b = a + b"
  by (simp add: u64_add_def)

text \<open>Signed 32-bit addition wraps too; \<open>as usize\<close> sign-extends a negative number.\<close>

definition i32_add :: "int \<Rightarrow> int \<Rightarrow> int" where
  "i32_add a b = (a + b + 2 ^ 31) mod 2 ^ 32 - 2 ^ 31"

lemma i32_add_small: "- (2 ^ 31) \<le> a + b \<Longrightarrow> a + b < 2 ^ 31 \<Longrightarrow> i32_add a b = a + b"
  by (simp add: i32_add_def)

definition as_usize :: "int \<Rightarrow> nat" where
  "as_usize i = nat (i mod 2 ^ 64)"

lemma as_usize_nonneg: "0 \<le> i \<Longrightarrow> i < 2 ^ 64 \<Longrightarrow> as_usize i = nat i"
  by (simp add: as_usize_def)

section \<open>Iterators\<close>

text \<open>\<open>Iterator::min\<close>, \<open>Iterator::max\<close> and \<open>Iterator::max_by\<close>; on ties the last maximum wins.\<close>

definition iter_min :: "'a::linorder list \<Rightarrow> 'a option" where
  "iter_min xs = (if xs = [] then None else Some (Min (set xs)))"

definition iter_max :: "'a::linorder list \<Rightarrow> 'a option" where
  "iter_max xs = (if xs = [] then None else Some (Max (set xs)))"

definition iter_max_by :: "('a \<Rightarrow> 'k::linorder) \<Rightarrow> 'a list \<Rightarrow> 'a option" where
  "iter_max_by key xs =
     fold (\<lambda>x acc. case acc of None \<Rightarrow> Some x
                     | Some y \<Rightarrow> Some (if key y \<le> key x then x else y)) xs None"

lemma fold_max_by_Some:
  "\<exists>m. fold (\<lambda>x acc. case acc of None \<Rightarrow> Some x
                     | Some y \<Rightarrow> Some (if key y \<le> (key x :: 'k::linorder) then x else y)) xs (Some a) = Some m
     \<and> m \<in> insert a (set xs) \<and> (\<forall>x \<in> insert a (set xs). key x \<le> key m)"
proof (induction xs arbitrary: a)
  case (Cons x xs)
  let ?b = "if key a \<le> key x then x else a"
  obtain m where m: "fold (\<lambda>x acc. case acc of None \<Rightarrow> Some x
                     | Some y \<Rightarrow> Some (if key y \<le> key x then x else y)) xs (Some ?b) = Some m"
    "m \<in> insert ?b (set xs)" "\<forall>y \<in> insert ?b (set xs). key y \<le> key m"
    using Cons.IH [of ?b] by blast
  have "key a \<le> key ?b" "key x \<le> key ?b" by auto
  with m show ?case by (intro exI [of _ m]) (auto split: if_splits)
qed simp

lemma iter_max_by_Some:
  assumes "iter_max_by key xs = Some m"
  shows "m \<in> set xs \<and> (\<forall>x \<in> set xs. key x \<le> key m)"
proof (cases xs)
  case (Cons a ys)
  with assms fold_max_by_Some [of key ys a] show ?thesis by (auto simp: iter_max_by_def)
qed (use assms in \<open>simp add: iter_max_by_def\<close>)

lemma iter_max_by_None [simp]: "iter_max_by key xs = None \<longleftrightarrow> xs = []"
proof (cases xs)
  case (Cons a ys)
  with fold_max_by_Some [of key ys a] show ?thesis by (auto simp: iter_max_by_def)
qed (simp add: iter_max_by_def)

lemma iter_min_Some: "iter_min xs = Some m \<longleftrightarrow> m \<in> set xs \<and> (\<forall>x \<in> set xs. m \<le> x)"
  by (auto simp: iter_min_def intro: Min_eqI)

lemma iter_min_None [simp]: "iter_min xs = None \<longleftrightarrow> xs = []"
  by (simp add: iter_min_def)

lemma iter_max_Some: "iter_max xs = Some m \<longleftrightarrow> m \<in> set xs \<and> (\<forall>x \<in> set xs. x \<le> m)"
  by (auto simp: iter_max_def intro: Max_eqI)

lemma iter_max_None [simp]: "iter_max xs = None \<longleftrightarrow> xs = []"
  by (simp add: iter_max_def)

section \<open>Case analyses\<close>

lemma sum_option_cases:
  obtains e where "r = Inl e" | "r = Inr None" | n where "r = Inr (Some n)"
  by (metis option.exhaust sumE)

lemma append_split_le:
  assumes "p @ xs = a @ ys" and "length a \<le> length p"
  obtains p' where "p = a @ p'" and "ys = p' @ xs"
proof
  have "take (length a) (p @ xs) = a" using assms(1) by simp
  then have "take (length a) p = a" using assms(2) by simp
  then show "p = a @ drop (length a) p" by (metis append_take_drop_id)
  then show "ys = drop (length a) p @ xs" using assms(1) by (metis append.assoc same_append_eq)
qed

section \<open>Decimal numbers\<close>

text \<open>The decimal digits of a number, as \<open>format!\<close> prints it.\<close>

fun decimal :: "nat \<Rightarrow> string" where
  "decimal n = (if n < 10 then [char_of (48 + n)] else decimal (n div 10) @ [char_of (48 + n mod 10)])"

declare decimal.simps [simp del]

definition undecimal :: "string \<Rightarrow> nat" where
  "undecimal s = foldl (\<lambda>a c. a * 10 + (of_char c - 48)) 0 s"

lemma digit_code: "d < 10 \<Longrightarrow> of_char (char_of (48 + d) :: char) = (48 + d :: nat)"
  by (simp add: of_char_of)

lemma undecimal_decimal: "undecimal (decimal n) = n"
proof (induction n rule: decimal.induct)
  case (1 n)
  show ?case
  proof (cases "n < 10")
    case True
    then show ?thesis by (subst decimal.simps) (simp add: undecimal_def digit_code)
  next
    case False
    with 1 show ?thesis by (subst decimal.simps) (simp add: undecimal_def digit_code)
  qed
qed

lemma decimal_inj: "decimal m = decimal n \<longleftrightarrow> m = n"
  by (metis undecimal_decimal)

section \<open>Splitting\<close>

text \<open>\<open>str::split\<close> and \<open>slice::split\<close> at one separator: the pieces between the separators, empty ones included.\<close>

fun split_on :: "'a \<Rightarrow> 'a list \<Rightarrow> 'a list list" where
  "split_on c [] = [[]]"
| "split_on c (x # xs) =
     (if x = c then [] # split_on c xs
      else case split_on c xs of [] \<Rightarrow> [[x]] | p # ps \<Rightarrow> (x # p) # ps)"

lemma split_on_none: "c \<notin> set s \<Longrightarrow> split_on c s = [s]"
  by (induction s) auto

lemma split_on_first: "c \<notin> set s \<Longrightarrow> split_on c (s @ c # t) = s # split_on c t"
  by (induction s) auto

end
