(* ===== verification/Bytes_Codec.thy ===== *)
theory Bytes_Codec
  imports Prelude
begin

text \<open>
  The length-prefixed framing of every TCP stream of the program
  (\<open>libs/hbb_common/src/bytes_codec.rs\<close>): the codec's state, its decoder with the two
  decoding states, and its encoder with the four header widths.
\<close>

section \<open>State\<close>

datatype decode_state = Head | Data usize

record bytes_codec =
  state :: decode_state
  raw :: bool
  max_packet_length :: usize

definition new :: bytes_codec where
  "new = \<lparr>state = Head, raw = False, max_packet_length = 64 * 1024 * 1024\<rparr>"

definition set_raw :: "bytes_codec \<Rightarrow> bytes_codec" where
  "set_raw c = c\<lparr>raw := True\<rparr>"

definition set_max_packet_length :: "bytes_codec \<Rightarrow> usize \<Rightarrow> bytes_codec" where
  "set_max_packet_length c n = c\<lparr>max_packet_length := n\<rparr>"

section \<open>Decoder\<close>

text \<open>
  \<open>src\<close> is the receive buffer; a function returns its result together with what is left of the
  buffer. \<open>src.reserve(n)\<close> only allocates.
\<close>

definition decode_head :: "bytes_codec \<Rightarrow> bytes \<Rightarrow> (io_error + usize option) \<times> bytes" where
  "decode_head c src =
     (if src = [] then (Inr None, src)
      else
        let head_len = unat ((src ! 0 AND 3) + 1) in
        if length src < head_len then (Inr None, src)
        else
          let n0 = (ucast (src ! 0) :: usize);
              n1 = (if head_len > 1 then n0 OR push_bit 8 (ucast (src ! 1)) else n0);
              n2 = (if head_len > 2 then n1 OR push_bit 16 (ucast (src ! 2)) else n1);
              n3 = (if head_len > 3 then n2 OR push_bit 24 (ucast (src ! 3)) else n2);
              n = drop_bit 2 n3
          in if n > max_packet_length c
             then (Inl (IoError InvalidData ''Too big packet''), src)
             else (Inr (Some n), drop head_len src))"

definition decode_data :: "usize \<Rightarrow> bytes \<Rightarrow> bytes option \<times> bytes" where
  "decode_data n src =
     (if length src < unat n then (None, src)
      else (Some (take (unat n) src), drop (unat n) src))"

definition decode_body :: "bytes_codec \<Rightarrow> usize \<Rightarrow> bytes \<Rightarrow>
    (io_error + bytes option) \<times> bytes_codec \<times> bytes" where
  "decode_body c n src =
     (case decode_data n src of
        (Some data, src') \<Rightarrow> (Inr (Some data), c\<lparr>state := Head\<rparr>, src')
      | (None, src') \<Rightarrow> (Inr None, c, src'))"

definition decode :: "bytes_codec \<Rightarrow> bytes \<Rightarrow>
    (io_error + bytes option) \<times> bytes_codec \<times> bytes" where
  "decode c src =
     (if raw c then
        (if src \<noteq> [] then (Inr (Some src), c, []) else (Inr None, c, src))
      else
        (case state c of
           Head \<Rightarrow>
             (case decode_head c src of
                (Inl e, src') \<Rightarrow> (Inl e, c, src')
              | (Inr None, src') \<Rightarrow> (Inr None, c, src')
              | (Inr (Some n), src') \<Rightarrow> decode_body (c\<lparr>state := Data n\<rparr>) n src')
         | Data n \<Rightarrow> decode_body c n src))"

section \<open>Encoder\<close>

definition encode :: "bytes_codec \<Rightarrow> bytes \<Rightarrow> bytes \<Rightarrow> io_error + bytes" where
  "encode c data buf =
     (let len = length data; shifted = push_bit 2 (of_nat len :: usize) in
      if raw c then Inr (buf @ data)
      else if len \<le> 0x3F then Inr (buf @ [ucast shifted] @ data)
      else if len \<le> 0x3FFF then
        Inr (buf @ to_le_bytes 2 ((ucast shifted :: u16) OR 1) @ data)
      else if len \<le> 0x3FFFFF then
        (let h = (ucast shifted :: u32) OR 2 in
         Inr (buf @ to_le_bytes 2 (ucast (h AND 0xFFFF) :: u16) @ [ucast (drop_bit 16 h)] @ data))
      else if len \<le> 0x3FFFFFFF then
        Inr (buf @ to_le_bytes 4 ((ucast shifted :: u32) OR 3) @ data)
      else Inl (IoError InvalidInput ''Overflow''))"

section \<open>The header on the wire\<close>

text \<open>
  What the four branches of \<open>encode\<close> put in front of the data, as one little-endian number of one
  to four bytes whose two low bits say how many bytes follow the first.
\<close>

definition header :: "bytes_codec \<Rightarrow> nat \<Rightarrow> bytes" where
  "header c len = (if raw c then [] else
     let shifted = push_bit 2 (of_nat len :: usize) in
     if len < 2 ^ 6 then to_le_bytes 1 shifted
     else if len < 2 ^ 14 then to_le_bytes 2 (shifted OR 1)
     else if len < 2 ^ 22 then to_le_bytes 3 (shifted OR 2)
     else to_le_bytes 4 (shifted OR 3))"

lemma header_value:
  fixes w tag :: "'a::len word"
  assumes "take_bit m w = w" "take_bit 2 tag = tag" "m + 2 \<le> LENGTH('a)"
  shows "drop_bit 2 (take_bit (m + 2) (push_bit 2 w OR tag)) = w"
proof (rule bit_word_eqI)
  fix n assume n: "n < LENGTH('a)"
  have "bit w i \<Longrightarrow> i < m" "bit tag i \<Longrightarrow> i < 2" for i
    using assms(1,2) by (metis bit_take_bit_iff)+
  then show "bit (drop_bit 2 (take_bit (m + 2) (push_bit 2 w OR tag))) n = bit w n"
    using assms(3) n by (force simp: bit_simps)
qed

lemma decode_head_nonempty:
  assumes "src \<noteq> []"
  defines "k \<equiv> Suc (unat (take_bit 2 (hd src)))"
  defines "n \<equiv> drop_bit 2 (from_le_bytes (take k src)) :: usize"
  shows "decode_head c src = (if length src < k then (Inr None, src)
     else if n > max_packet_length c then (Inl (IoError InvalidData ''Too big packet''), src)
     else (Inr (Some n), drop k src))"
proof -
  obtain b bs where src: "src = b # bs" using assms(1) by (cases src) auto
  have and3: "b AND 3 = take_bit 2 b"
    by (simp add: take_bit_eq_mask mask_eq_exp_minus_1)
  have lt: "unat (take_bit 2 b) < 4"
    using take_bit_nat_less_exp [of 2 "unat b"] by (simp only: unsigned_take_bit_eq) simp
  have k: "unat ((b AND 3) + 1) = k"
    using lt by (simp add: and3 src k_def unat_word_ariths)
  consider "k = 1" | "k = 2" | "k = 3" | "k = 4"
    using lt unfolding k_def src by force
  then show ?thesis
  proof cases
    case 1
    then show ?thesis using k
      by (simp add: decode_head_def src n_def Let_def)
  next
    case 2
    then show ?thesis using k
      by (cases bs) (simp_all add: decode_head_def src n_def Let_def numeral_2_eq_2 take_Suc_Cons)
  next
    case 3
    then show ?thesis using k
      by (cases bs; cases "tl bs") (simp_all add: decode_head_def src n_def Let_def numeral_3_eq_3 or.assoc)
  next
    case 4
    then show ?thesis using k
      by (cases bs; cases "tl bs"; cases "tl (tl bs)") (simp_all add: decode_head_def src n_def Let_def or.assoc)
  qed
qed

lemma encode_header:
  "encode c data buf =
     (if raw c \<or> length data < 2 ^ 30 then Inr (buf @ header c (length data) @ data)
      else Inl (IoError InvalidInput ''Overflow''))"
proof -
  define x where "x = push_bit 2 (of_nat (length data) :: usize)"
  have b1: "to_le_bytes 1 x = [ucast x]" by (simp add: eval_nat_numeral)
  have b2: "to_le_bytes 2 ((ucast x :: u16) OR 1) = to_le_bytes 2 (x OR 1)"
    using to_le_bytes_ucast [of 2 "x OR 1", where 'b = 16] by (simp add: unsigned_or_eq)
  have b4: "to_le_bytes 4 ((ucast x :: u32) OR 3) = to_le_bytes 4 (x OR 3)"
    using to_le_bytes_ucast [of 4 "x OR 3", where 'b = 32] by (simp add: unsigned_or_eq)
  have b3: "to_le_bytes 2 (ucast (((ucast x :: u32) OR 2) AND 0xFFFF) :: u16)
      @ [ucast (drop_bit 16 ((ucast x :: u32) OR 2))] = to_le_bytes 3 (x OR 2)"
  proof -
    define z where "z = (ucast (x OR 2) :: u32)"
    have "z AND 0xFFFF = take_bit 16 z" by (simp add: take_bit_eq_mask mask_eq_exp_minus_1)
    then have "(ucast (z AND 0xFFFF) :: u16) = ucast z"
      by (simp only:) (rule bit_word_eqI, simp add: bit_simps)
    then have "to_le_bytes 2 (ucast (z AND 0xFFFF) :: u16) @ [ucast (drop_bit 16 z)]
        = to_le_bytes 2 z @ [ucast (drop_bit 16 z)]"
      by (simp add: to_le_bytes_ucast)
    also have "\<dots> = to_le_bytes 3 z"
      by (simp add: numeral_2_eq_2 numeral_3_eq_3 drop_bit_drop_bit)
    also have "\<dots> = to_le_bytes 3 (x OR 2)"
      unfolding z_def by (rule to_le_bytes_ucast) simp
    finally show ?thesis by (simp add: z_def unsigned_or_eq)
  qed
  show ?thesis
    using b1 b2 b3 b4 by (simp add: encode_def header_def x_def [symmetric] Let_def)
qed
lemma decode_head_le:
  assumes "unat (take_bit 2 y) = k"
  shows "decode_head c (to_le_bytes (Suc k) y @ rest) =
    (if drop_bit 2 (take_bit (8 * Suc k) y) > max_packet_length c
     then (Inl (IoError InvalidData ''Too big packet''), to_le_bytes (Suc k) y @ rest)
     else (Inr (Some (drop_bit 2 (take_bit (8 * Suc k) y))), rest))"
proof -
  have "take_bit 2 (ucast y :: u8) = ucast (take_bit 2 y)"
    by (rule bit_word_eqI) (auto simp: bit_simps)
  moreover have "unat (take_bit 2 y) < 4"
    using take_bit_nat_less_exp [of 2 "unat y"] by (simp only: unsigned_take_bit_eq) simp
  ultimately have "unat (take_bit 2 (hd (to_le_bytes (Suc k) y @ rest))) = k"
    using assms by (simp add: unsigned_ucast_eq take_bit_nat_eq_self_iff)
  moreover have "to_le_bytes (Suc k) y @ rest \<noteq> []"
    by simp
  ultimately show ?thesis
    by (subst decode_head_nonempty)
      (simp_all add: from_le_bytes_to_le_bytes_mask del: to_le_bytes.simps)
qed

lemma take_bit_tag: "take_bit 2 (push_bit 2 w OR tag) = take_bit 2 tag" for w :: "'a::len word"
  by (rule bit_word_eqI) (auto simp: bit_simps)

lemma decode_head_header:
  assumes "len < 2 ^ 30" and "\<not> raw c" 
  shows "decode_head c (header c len @ rest) =
    (if of_nat len > max_packet_length c 
     then (Inl (IoError InvalidData ''Too big packet''), header c len @ rest)
     else (Inr (Some (of_nat len)), rest))"
proof -
  let ?w = "of_nat len :: usize"
  have step: "decode_head c (to_le_bytes (Suc k) (push_bit 2 ?w OR of_nat k) @ rest) =
    (if ?w > max_packet_length c 
     then (Inl (IoError InvalidData ''Too big packet''), to_le_bytes (Suc k) (push_bit 2 ?w OR of_nat k) @ rest)
     else (Inr (Some ?w), rest))"
    if "k < 4" "len < 2 ^ (8 * k + 6)" for k
  proof -
    have tag: "take_bit 2 (of_nat k :: usize) = of_nat k" "unat (of_nat k :: usize) = k"
      using that(1) by (simp_all add: take_bit_of_nat_word unat_of_nat)
    have "drop_bit 2 (take_bit (8 * k + 6 + 2) (push_bit 2 ?w OR of_nat k)) = ?w"
      using that tag by (intro header_value take_bit_of_nat_word) auto
    then have "drop_bit 2 (take_bit (8 * Suc k) (push_bit 2 ?w OR of_nat k)) = ?w"
      by (simp add: ac_simps)
    moreover have "unat (take_bit 2 (push_bit 2 ?w OR of_nat k)) = k"
      by (simp only: take_bit_tag tag)
    ultimately show ?thesis by (simp only: decode_head_le)
  qed
  show ?thesis
    using step [of 0] step [of 1] step [of 2] step [of 3] assms
    by (simp add: header_def Let_def numeral_2_eq_2 [symmetric] numeral_3_eq_3 [symmetric]
        eval_nat_numeral(3) [symmetric] del: to_le_bytes.simps)
qed

lemma decode_roundtrip:
  assumes "encode c data [] = Inr frame" and "\<not> raw c" and "state c = Head"
    and "length data \<le> unat (max_packet_length c)"
  shows "decode c (frame @ rest) = (Inr (Some data), c, rest)"
proof -
  from assms(1,2) have len: "length data < 2 ^ 30" and frame: "frame = header c (length data) @ data"
    by (auto simp: encode_header split: if_splits)
  have n: "unat (of_nat (length data) :: usize) = length data"
    using len by (simp add: unat_of_nat)
  then have "\<not> max_packet_length c < of_nat (length data)"
    using assms(4) by (simp add: word_less_nat_alt)
  with len n assms show ?thesis
    by (simp add: decode_def frame decode_head_header decode_body_def decode_data_def)
qed

lemma decode_head_resume:
  "decode_head c src = (Inr None, src') \<Longrightarrow> src' = src"
  by (cases "src = []") (auto simp: decode_head_def decode_head_nonempty Let_def split: if_splits)

lemma decode_head_append:
  assumes "decode_head c src = (Inr (Some n), src')"
  shows "decode_head c (src @ later) = (Inr (Some n), src' @ later)"
proof -
  from assms have "src \<noteq> []" by (auto simp: decode_head_def)
  with assms show ?thesis
    by (simp add: decode_head_nonempty split: if_splits)
qed

lemma decode_body_resume:
  assumes "decode_body c n src = (Inr None, c', src')"
  shows "c' = c \<and> src' = src"
  using assms by (auto simp: decode_body_def decode_data_def split: if_splits)

lemma decode_resume:
  assumes "decode c src = (Inr None, c', src')"
  shows "decode c' (src' @ later) = decode c (src @ later)"
proof (cases "raw c")
  case True
  with assms show ?thesis by (auto simp: decode_def split: if_splits)
next
  case nraw: False
  show ?thesis
  proof (cases "state c")
    case (Data n)
    with assms nraw have "decode_body c n src = (Inr None, c', src')"
      by (simp add: decode_def)
    then have "c' = c \<and> src' = src" by (rule decode_body_resume)
    then show ?thesis by simp
  next
    case Head
    obtain r src1 where r: "decode_head c src = (r, src1)" by (cases "decode_head c src")
    consider e where "r = Inl e" | "r = Inr None" | n where "r = Inr (Some n)"
      by (rule sum_option_cases)
    then show ?thesis
    proof cases
      case 1
      with assms nraw Head r show ?thesis by (simp add: decode_def)
    next
      case 2
      with r have "src1 = src" by (auto intro: decode_head_resume)
      with 2 assms nraw Head r show ?thesis by (simp add: decode_def)
    next
      case 3
      with assms nraw Head r have "decode_body (c\<lparr>state := Data n\<rparr>) n src1 = (Inr None, c', src')"
        by (simp add: decode_def)
      then have "c' = c\<lparr>state := Data n\<rparr> \<and> src' = src1" by (rule decode_body_resume)
      with 3 r nraw Head show ?thesis by (simp add: decode_def decode_head_append)
    qed
  qed
qed

section \<open>The decoder interface\<close>

text \<open>
  What the reader of a stream relies on: a frame that has arrived whole is delivered and leaves the
  rest of the buffer, a frame that has arrived in part is not delivered, and a call that delivered
  nothing has lost nothing. The reader (\<open>tokio_util::codec::Framed\<close>) calls the decoder until it
  delivers nothing and then appends the next chunk read from the socket.
\<close>

locale frame_codec =
  fixes enc :: "'a \<Rightarrow> 'b list"
    and dec :: "'s \<Rightarrow> 'b list \<Rightarrow> ('e + 'a option) \<times> 's \<times> 'b list"
    and s0 :: 's
    and ok :: "'a \<Rightarrow> bool"
  assumes dec_enc: "ok x \<Longrightarrow> dec s0 (enc x @ rest) = (Inr (Some x), s0, rest)"
    and dec_nil: "dec s0 [] = (Inr None, s0, [])"
    and dec_partial: "ok x \<Longrightarrow> enc x = p @ q \<Longrightarrow> q \<noteq> [] \<Longrightarrow> \<exists>s' p'. dec s0 p = (Inr None, s', p')"
    and dec_resume: "dec s src = (Inr None, s', src') \<Longrightarrow> dec s' (src' @ later) = dec s (src @ later)"
begin

inductive reads :: "'s \<Rightarrow> 'b list \<Rightarrow> 'b list list \<Rightarrow> 'a list \<Rightarrow> 's \<Rightarrow> 'b list \<Rightarrow> bool" where
  idle: "dec s buf = (Inr None, s', buf') \<Longrightarrow> reads s buf [] [] s' buf'"
| chunk: "dec s buf = (Inr None, s', buf') \<Longrightarrow> reads s' (buf' @ ch) chs xs t b \<Longrightarrow>
    reads s buf (ch # chs) xs t b"
| frame: "dec s buf = (Inr (Some x), s', buf') \<Longrightarrow> reads s' buf' chs xs t b \<Longrightarrow>
    reads s buf chs (x # xs) t b"

lemma reads_deterministic:
  assumes "reads s buf chs xs t b" and "reads s buf chs xs' t' b'"
  shows "xs' = xs \<and> t' = t \<and> b' = b"
  using assms
proof (induction arbitrary: xs' t' b' rule: reads.induct)
  case (idle s buf s1 buf1)
  from idle.prems idle.hyps show ?case by (auto elim: reads.cases)
next
  case (chunk s buf s1 buf1 ch chs xs t b)
  from chunk.prems chunk.hyps have "reads s1 (buf1 @ ch) chs xs' t' b'"
    by (auto elim: reads.cases)
  then show ?case by (rule chunk.IH)
next
  case (frame s buf x s1 buf1 chs xs t b)
  from frame.prems frame.hyps obtain ys where "xs' = x # ys" and "reads s1 buf1 chs ys t' b'"
    by (auto elim: reads.cases)
  with frame.IH show ?case by simp
qed

lemma reads_silence:
  assumes "\<forall>ch \<in> set chs. ch = []" and "\<forall>later. dec s (buf @ later) = dec s0 later"
  shows "reads s buf chs [] s0 []"
  using assms
proof (induction chs arbitrary: s buf)
  case Nil
  from Nil.prems(2) [THEN spec, of "[]"] dec_nil show ?case by (auto intro: idle)
next
  case (Cons ch chs)
  from Cons.prems(2) [THEN spec, of "[]"] dec_nil have "dec s buf = (Inr None, s0, [])" by simp
  moreover have "reads s0 ([] @ ch) chs [] s0 []"
    using Cons.prems(1) by (intro Cons.IH) auto
  ultimately show ?case by (rule chunk)
qed

lemma reads_pending:
  assumes "\<forall>x \<in> set xs. ok x" and "p @ concat chs = concat (map enc xs)"
    and "\<forall>later. dec s (buf @ later) = dec s0 (p @ later)"
  shows "reads s buf chs xs s0 []"
  using assms
proof (induction xs arbitrary: s buf p chs)
  case Nil
  then show ?case by (intro reads_silence) auto
next
  case (Cons x xs)
  from Cons.prems show ?case
  proof (induction chs arbitrary: s buf p)
    case Nil
    then have p: "p = enc x @ concat (map enc xs)" by simp
    from Nil.prems(3) [THEN spec, of "[]"] have "dec s buf = (Inr (Some x), s0, concat (map enc xs))"
      using Nil.prems(1) p dec_enc by simp
    moreover have "reads s0 (concat (map enc xs)) [] xs s0 []"
      using Nil.prems(1) by (intro Cons.IH) auto
    ultimately show ?case by (rule frame)
  next
    case inner: (Cons ch chs)
    show ?case
    proof (cases "length (enc x) \<le> length p")
      case True
      with inner.prems(2) obtain p' where p: "p = enc x @ p'"
        and rest: "concat (map enc xs) = p' @ concat (ch # chs)"
        by (auto elim: append_split_le)
      from inner.prems(3) [THEN spec, of "[]"] have "dec s buf = (Inr (Some x), s0, p')"
        using inner.prems(1) p dec_enc by simp
      moreover have "reads s0 p' (ch # chs) xs s0 []"
        using inner.prems(1) rest by (intro Cons.IH) auto
      ultimately show ?thesis by (rule frame)
    next
      case False
      with inner.prems(2) [symmetric] obtain q where "enc x = p @ q" "q \<noteq> []"
        by (auto elim: append_split_le)
      then obtain s' buf' where none: "dec s0 p = (Inr None, s', buf')"
        using dec_partial [of x p q] inner.prems(1) by auto
      have "dec s buf = (Inr None, s', buf')"
        using inner.prems(3) [THEN spec, of "[]"] none by simp
      moreover have "reads s' (buf' @ ch) chs (x # xs) s0 []"
        using inner.prems none
        by (intro inner.IH [where p = "p @ ch"]) (simp_all add: dec_resume [OF none])
      ultimately show ?thesis by (rule chunk)
    qed
  qed
qed

theorem reads_frames:
  assumes "\<forall>x \<in> set xs. ok x" and "concat chs = concat (map enc xs)"
  shows "reads s0 [] chs ys t b \<longleftrightarrow> ys = xs \<and> t = s0 \<and> b = []"
proof -
  have "reads s0 [] chs xs s0 []"
    using assms by (intro reads_pending [where p = "[]"]) simp_all
  then show ?thesis using reads_deterministic by blast
qed

end

lemma length_header:
  assumes "len < 2 ^ 30" and "\<not> raw c"
  shows "header c len \<noteq> [] \<and> length (header c len) = Suc (unat (take_bit 2 (hd (header c len))))"
proof -
  let ?c = "c\<lparr>max_packet_length := - 1\<rparr>"
  have h: "header ?c len = header c len" by (simp add: header_def)
  have ne: "header c len \<noteq> []" using assms by (simp add: header_def Let_def length_greater_0_conv [symmetric] del: length_greater_0_conv)
  have "decode_head ?c (header c len) = (Inr (Some (of_nat len)), [])"
    using decode_head_header [of len ?c "[]"] assms by (simp add: h)
  with ne show ?thesis
    by (auto simp: decode_head_nonempty split: if_splits)
qed

lemma decode_partial:
  assumes "length data < 2 ^ 30" and "length data \<le> unat (max_packet_length c)"
    and "\<not> raw c" and "state c = Head"
    and split: "header c (length data) @ data = p @ q" and "q \<noteq> []"
  shows "\<exists>c'. decode c p = (Inr None, c', if length p < length (header c (length data)) then p
    else drop (length (header c (length data))) p)"
proof (cases "length p < length (header c (length data))")
  case True
  with split obtain h' where h: "header c (length data) = p @ h'"
    by (auto elim: append_split_le)
  have "p \<noteq> [] \<Longrightarrow> length p < Suc (unat (take_bit 2 (hd p)))"
    using True length_header [of "length data" c] assms(1,3) by (cases h') (auto simp: h)
  then have "p \<noteq> [] \<Longrightarrow> decode_head c p = (Inr None, p)"
    by (simp add: decode_head_nonempty)
  moreover have "p = [] \<Longrightarrow> decode_head c p = (Inr None, p)"
    by (simp add: decode_head_def)
  ultimately show ?thesis using True assms(3,4) by (cases "p = []") (auto simp: decode_def)
next
  case False
  with split [symmetric] obtain d where p: "p = header c (length data) @ d" and data: "data = d @ q"
    by (auto elim: append_split_le)
  have n: "unat (of_nat (length data) :: usize) = length data"
    using assms(1) by (simp add: unat_of_nat)
  then have "\<not> max_packet_length c < of_nat (length data)"
    using assms(2) by (simp add: word_less_nat_alt)
  then have "decode_head c p = (Inr (Some (of_nat (length data))), d)"
    using decode_head_header assms(1,3) p by simp
  moreover have "length d < length data" using data \<open>q \<noteq> []\<close> by simp
  ultimately show ?thesis
    using n assms(3,4) False by (simp add: decode_def decode_body_def decode_data_def p)
qed

definition frame_of :: "bytes \<Rightarrow> bytes" where
  "frame_of data = (case encode new data [] of Inr f \<Rightarrow> f | Inl _ \<Rightarrow> [])"

interpretation codec: frame_codec frame_of decode new "\<lambda>d. length d \<le> 64 * 1024 * 1024"
proof
  have new: "\<not> raw new" "state new = Head" "unat (max_packet_length new) = 64 * 1024 * 1024"
    by (simp_all add: new_def)
  fix x rest :: bytes
  assume x: "length x \<le> 64 * 1024 * 1024"
  then have e: "encode new x [] = Inr (frame_of x)" "frame_of x = header new (length x) @ x"
    by (simp_all add: encode_header frame_of_def)
  show "decode new (frame_of x @ rest) = (Inr (Some x), new, rest)"
    using decode_roundtrip [OF e(1)] x new by simp
  fix p q :: bytes
  assume "frame_of x = p @ q" "q \<noteq> []"
  then show "\<exists>s' p'. decode new p = (Inr None, s', p')"
    using decode_partial [of x new p q] x new e(2) by auto
next
  show "decode new [] = (Inr None, new, [])"
    by (simp add: decode_def decode_head_def new_def)
next
  fix s s' src src' later
  assume "decode s src = (Inr None, s', src')"
  then show "decode s' (src' @ later) = decode s (src @ later)"
    by (rule decode_resume)
qed

section \<open>Properties\<close>

text \<open>The length a codec waits for is within its limit.\<close>

definition codec_ok :: "bytes_codec \<Rightarrow> bool" where
  "codec_ok c = (case state c of Head \<Rightarrow> True | Data n \<Rightarrow> n \<le> max_packet_length c)"

lemma decode_head_cases:
  assumes "decode_head c src = (r, src')"
  shows "(case r of Inl e \<Rightarrow> src' = src | Inr None \<Rightarrow> src' = src
    | Inr (Some n) \<Rightarrow> n \<le> max_packet_length c \<and>
        (\<exists>hdr. src = hdr @ src' \<and> 1 \<le> length hdr \<and> length hdr \<le> 4))"
proof (cases "src = []")
  case True
  with assms show ?thesis by (auto simp: decode_head_def)
next
  case False
  have "unat (take_bit 2 (hd src)) < 4"
    using take_bit_nat_less_exp [of 2 "unat (hd src)"] by (simp only: unsigned_take_bit_eq) simp
  then have "length src \<ge> Suc (unat (take_bit 2 (hd src))) \<Longrightarrow>
      \<exists>hdr. src = hdr @ drop (Suc (unat (take_bit 2 (hd src)))) src \<and> 1 \<le> length hdr \<and> length hdr \<le> 4"
    by (intro exI [of _ "take (Suc (unat (take_bit 2 (hd src)))) src"]) auto
  with False assms show ?thesis
    by (auto simp: decode_head_nonempty not_less split: if_splits)
qed

lemma decode_body_Some:
  assumes "decode_body c n src = (r, c', src')"
  shows "(length src < unat n \<and> r = Inr None \<and> c' = c \<and> src' = src) \<or>
    (\<exists>data. r = Inr (Some data) \<and> c' = c\<lparr>state := Head\<rparr> \<and> src = data @ src' \<and> length data = unat n)"
  using assms by (auto simp: decode_body_def decode_data_def min_def split: if_splits)

text \<open>
  C3: the framing is transparent to how the network cuts the stream. Packets of at most 64 MB are
  encoded one after the other; whatever the sizes of the chunks in which the bytes arrive, a reader
  that runs \<open>decode\<close> delivers exactly those packets, in order, and ends in the initial state with
  an empty buffer.
\<close>

theorem decode_stream_chunks:
  assumes "\<forall>x \<in> set xs. length x \<le> 64 * 1024 * 1024"
    and "map (\<lambda>x. encode new x []) xs = map Inr frames"
    and "concat chunks = concat frames"
  shows "codec.reads new [] chunks ys t b \<longleftrightarrow> ys = xs \<and> t = new \<and> b = []"
proof -
  have "frames = map frame_of xs"
    using assms(2) by (induction xs arbitrary: frames) (auto simp: frame_of_def)
  with assms(1,3) show ?thesis by (intro codec.reads_frames) simp_all
qed

theorem decode_stream_chunks_witness:
  "codec.reads new [] [[8, 7], [7, 4], [1]] [[7, 7], [1]] new []"
  by (rule decode_stream_chunks [of "[[7, 7], [1]]" "[[8, 7, 7], [4, 1]]", THEN iffD2])
    (simp_all add: encode_def new_def)

text \<open>
  A delivered packet is a contiguous piece of the buffer right behind a header of one to four
  bytes, is no longer than the codec's limit, and leaves the rest of the buffer and the initial
  decoding state; every other outcome keeps the limit on the length the codec waits for.
\<close>

theorem decode_delivers_bounded:
  assumes "codec_ok c" and "\<not> raw c" and "decode c src = (r, c', rest)"
  shows "codec_ok c' \<and> max_packet_length c' = max_packet_length c \<and>
    (\<forall>data. r = Inr (Some data) \<longrightarrow> state c' = Head \<and> length data \<le> unat (max_packet_length c) \<and>
      (\<exists>hdr. src = hdr @ data @ rest \<and> length hdr \<le> 4 \<and> (state c = Head \<longrightarrow> 1 \<le> length hdr)))"
proof (cases "state c")
  case (Data n)
  then have body: "decode_body c n src = (r, c', rest)" using assms(2,3) by (simp add: decode_def)
  have n: "unat n \<le> unat (max_packet_length c)"
    using assms(1) Data by (simp add: codec_ok_def word_le_nat_alt)
  from decode_body_Some [OF body] show ?thesis
    using assms(1) Data n by (auto simp: codec_ok_def)
next
  case Head
  obtain q src1 where h: "decode_head c src = (q, src1)" by (cases "decode_head c src")
  consider e where "q = Inl e" | "q = Inr None" | n where "q = Inr (Some n)"
    by (rule sum_option_cases)
  then show ?thesis
  proof cases
    case 3
    then have body: "decode_body (c\<lparr>state := Data n\<rparr>) n src1 = (r, c', rest)"
      using assms(2,3) Head h by (simp add: decode_def)
    from decode_head_cases [OF h] 3 obtain hdr where hdr: "n \<le> max_packet_length c" "src = hdr @ src1"
      "1 \<le> length hdr" "length hdr \<le> 4" by auto
    then have "unat n \<le> unat (max_packet_length c)" by (simp add: word_le_nat_alt)
    with decode_body_Some [OF body] hdr show ?thesis by (auto simp: codec_ok_def)
  qed (use assms Head h in \<open>auto simp: decode_def\<close>)
qed

theorem decode_delivers_bounded_witness:
  "codec_ok new \<and> \<not> raw new \<and> decode new [8, 7, 7, 4] = (Inr (Some [7, 7]), new, [4]) \<and> codec_ok new"
proof -
  have *: "codec_ok new" "\<not> raw new" "decode new [8, 7, 7, 4] = (Inr (Some [7, 7]), new, [4])"
    by (simp add: codec_ok_def new_def, simp add: new_def, 
        simp add: decode_def decode_head_def new_def decode_body_def decode_data_def)
  show ?thesis using * decode_delivers_bounded [OF *] by blast
qed

text \<open>
  \<open>encode\<close> refuses exactly the packets of 2 to the 30 bytes or more (unless the codec is raw),
  and otherwise appends to the buffer a header of at most four bytes and the packet itself.
\<close>

theorem encode_appends_or_overflows:
  "(encode c data buf = Inl (IoError InvalidInput ''Overflow'') \<longleftrightarrow> \<not> raw c \<and> 2 ^ 30 \<le> length data)
   \<and> (\<exists>hdr. length hdr \<le> 4 \<and> encode c data buf \<in> {Inr (buf @ hdr @ data), Inl (IoError InvalidInput ''Overflow'')})"
proof -
  have "length (header c (length data)) \<le> 4" by (simp add: header_def Let_def)
  then show ?thesis by (auto simp: encode_header intro!: exI [of _ "header c (length data)"])
qed

text \<open>
  A stream whose next header announces more than the limit fails at once with
  \<open>InvalidData\<close>, before any of the packet is buffered, and a header never fails otherwise.
\<close>

theorem decode_rejects_oversize:
  assumes "\<not> raw c" and "state c = Head" and "len < 2 ^ 30"
  shows "fst (decode c (header c len @ rest)) = Inl (IoError InvalidData ''Too big packet'')
    \<longleftrightarrow> unat (max_packet_length c) < len"
proof -
  have "unat (of_nat len :: usize) = len" using assms(3) by (simp add: unat_of_nat)
  then show ?thesis using assms
    by (auto simp: decode_def decode_head_header word_less_nat_alt decode_body_def decode_data_def)
qed

theorem decode_rejects_oversize_witness:
  "fst (decode (set_max_packet_length new 2) (header (set_max_packet_length new 2) 3 @ [1, 2, 3]))
     = Inl (IoError InvalidData ''Too big packet'')"
  by (rule decode_rejects_oversize [THEN iffD2]) (simp_all add: set_max_packet_length_def new_def)
end
