(* ===== verification/Secure_Stream.thy ===== *)
theory Secure_Stream
  imports Bytes_Codec
begin

text \<open>
  The encrypted stream on top of the framing (\<open>libs/hbb_common/src/tcp.rs\<close>): the \<open>Encrypt\<close> state
  with its two sequence numbers, the nonces made from them, the key exchange message, and the
  sending and receiving side of \<open>FramedStream\<close>. The ciphers of the sodium library are parameters
  (\<open>seal\<close>, \<open>open_box\<close>, \<open>box_open\<close>); what the socket delivers is an argument of \<open>next\<close>.
\<close>

type_synonym seal_fn = "bytes \<Rightarrow> bytes \<Rightarrow> bytes \<Rightarrow> bytes"
type_synonym open_fn = "bytes \<Rightarrow> bytes \<Rightarrow> bytes \<Rightarrow> bytes option"

section \<open>Encrypt\<close>

definition NONCEBYTES :: nat where [simp]: "NONCEBYTES = 24"
definition KEYBYTES :: nat where [simp]: "KEYBYTES = 32"
definition PUBLICKEYBYTES :: nat where [simp]: "PUBLICKEYBYTES = 32"

record Encrypt =
  enc_key :: bytes
  enc_seq :: u64
  dec_seq :: u64

definition new_encrypt :: "bytes \<Rightarrow> Encrypt" where
  "new_encrypt k = \<lparr>enc_key = k, enc_seq = 0, dec_seq = 0\<rparr>"

definition get_nonce :: "u64 \<Rightarrow> bytes" where
  "get_nonce seqnum = to_le_bytes 8 seqnum @ replicate (NONCEBYTES - 8) 0"

definition dec :: "open_fn \<Rightarrow> Encrypt \<Rightarrow> bytes \<Rightarrow> (io_error + unit) \<times> Encrypt \<times> bytes" where
  "dec open_box e data =
     (if length data \<le> 1 then (Inr (), e, data)
      else
        let e' = e\<lparr>dec_seq := dec_seq e + 1\<rparr> in
        case open_box data (get_nonce (dec_seq e')) (enc_key e') of
          Some res \<Rightarrow> (Inr (), e', res)
        | None \<Rightarrow> (Inl (IoError OtherError ''decryption error''), e', data))"

definition enc :: "seal_fn \<Rightarrow> Encrypt \<Rightarrow> bytes \<Rightarrow> Encrypt \<times> bytes" where
  "enc seal e data =
     (let e' = e\<lparr>enc_seq := enc_seq e + 1\<rparr>
      in (e', seal data (get_nonce (enc_seq e')) (enc_key e')))"

text \<open>\<open>Encrypt::decode\<close>: the symmetric key out of the peer's key exchange message.\<close>

datatype handshake_error = PkLength nat | BoxDecryptionFailure | InvalidSecretKeyLength

definition encrypt_decode :: "(bytes \<Rightarrow> bytes \<Rightarrow> bytes \<Rightarrow> bytes \<Rightarrow> bytes option) \<Rightarrow>
    bytes \<Rightarrow> bytes \<Rightarrow> bytes \<Rightarrow> handshake_error + bytes" where
  "encrypt_decode box_open symmetric_data their_pk_b our_sk_b =
     (if length their_pk_b \<noteq> PUBLICKEYBYTES then Inl (PkLength (length their_pk_b))
      else case box_open symmetric_data (replicate NONCEBYTES 0) their_pk_b our_sk_b of
        None \<Rightarrow> Inl BoxDecryptionFailure
      | Some symmetric_key \<Rightarrow>
          if length symmetric_key \<noteq> KEYBYTES then Inl InvalidSecretKeyLength
          else Inr symmetric_key)"

section \<open>FramedStream\<close>

record FramedStream =
  fs_codec :: bytes_codec
  fs_encrypt :: "Encrypt option"
  fs_send_timeout :: u64

definition framed_new :: FramedStream where
  "framed_new = \<lparr>fs_codec = new, fs_encrypt = None, fs_send_timeout = 0\<rparr>"

definition framed_set_send_timeout :: "FramedStream \<Rightarrow> u64 \<Rightarrow> FramedStream" where
  "framed_set_send_timeout s ms = s\<lparr>fs_send_timeout := ms\<rparr>"

definition framed_set_raw :: "FramedStream \<Rightarrow> FramedStream" where
  "framed_set_raw s = s\<lparr>fs_codec := set_raw (fs_codec s), fs_encrypt := None\<rparr>"

definition is_secured :: "FramedStream \<Rightarrow> bool" where
  "is_secured s = (fs_encrypt s \<noteq> None)"

definition set_key :: "FramedStream \<Rightarrow> bytes \<Rightarrow> FramedStream" where
  "set_key s k = s\<lparr>fs_encrypt := Some (new_encrypt k)\<rparr>"

text \<open>
  \<open>send_raw\<close> returns the stream and what it hands to the socket: \<open>send_bytes\<close> of the possibly
  encrypted message, which the codec encodes.
\<close>

definition send_raw :: "seal_fn \<Rightarrow> FramedStream \<Rightarrow> bytes \<Rightarrow> FramedStream \<times> (io_error + bytes)" where
  "send_raw seal s msg =
     (case fs_encrypt s of
        None \<Rightarrow> (s, encode (fs_codec s) msg [])
      | Some e \<Rightarrow>
          (case enc seal e msg of
             (e', msg') \<Rightarrow> (s\<lparr>fs_encrypt := Some e'\<rparr>, encode (fs_codec s) msg' [])))"

text \<open>\<open>next\<close>: \<open>res\<close> is what the framed socket delivers, \<open>None\<close> at the end of the stream.\<close>

definition next_frame :: "open_fn \<Rightarrow> FramedStream \<Rightarrow> (io_error + bytes) option \<Rightarrow>
    FramedStream \<times> (io_error + bytes) option" where
  "next_frame open_box s res =
     (case res of
        Some (Inr data) \<Rightarrow>
          (case fs_encrypt s of
             None \<Rightarrow> (s, res)
           | Some e \<Rightarrow>
               (case dec open_box e data of
                  (Inl err, e', _) \<Rightarrow> (s\<lparr>fs_encrypt := Some e'\<rparr>, Some (Inl err))
                | (Inr _, e', data') \<Rightarrow> (s\<lparr>fs_encrypt := Some e'\<rparr>, Some (Inr data'))))
      | _ \<Rightarrow> (s, res))"

fun send_all :: "seal_fn \<Rightarrow> FramedStream \<Rightarrow> bytes list \<Rightarrow> FramedStream \<times> (io_error + bytes) list" where
  "send_all seal s [] = (s, [])"
| "send_all seal s (m # ms) =
     (case send_raw seal s m of
        (s1, w) \<Rightarrow> (case send_all seal s1 ms of (s2, ws) \<Rightarrow> (s2, w # ws)))"

fun next_all :: "open_fn \<Rightarrow> FramedStream \<Rightarrow> bytes list \<Rightarrow>
    FramedStream \<times> (io_error + bytes) option list" where
  "next_all open_box s [] = (s, [])"
| "next_all open_box s (f # fs) =
     (case next_frame open_box s (Some (Inr f)) of
        (s1, r) \<Rightarrow> (case next_all open_box s1 fs of (s2, rs) \<Rightarrow> (s2, r # rs)))"

section \<open>Nonces\<close>

lemma get_nonce_inj: "get_nonce a = get_nonce b \<longleftrightarrow> a = b"
proof
  assume "get_nonce a = get_nonce b"
  then have "to_le_bytes 8 a = to_le_bytes 8 b" by (simp add: get_nonce_def)
  then have "(from_le_bytes (to_le_bytes 8 a) :: u64) = from_le_bytes (to_le_bytes 8 b)"
    by (simp only:)
  then show "a = b" by (simp add: from_le_bytes_to_le_bytes)
qed simp

lemma length_get_nonce [simp]: "length (get_nonce a) = 24"
  by (simp add: get_nonce_def)

fun enc_all :: "seal_fn \<Rightarrow> Encrypt \<Rightarrow> bytes list \<Rightarrow> bytes list" where
  "enc_all seal e [] = []"
| "enc_all seal e (m # ms) = (case enc seal e m of (e', c) \<Rightarrow> c # enc_all seal e' ms)"

lemma enc_all_nth:
  "i < length ms \<Longrightarrow>
     enc_all seal e ms ! i = seal (ms ! i) (get_nonce (enc_seq e + of_nat i + 1)) (enc_key e)"
proof (induction ms arbitrary: e i)
  case (Cons m ms)
  then show ?case by (cases i) (auto simp: enc_def Let_def ac_simps)
qed simp

lemma length_enc_all [simp]: "length (enc_all seal e ms) = length ms"
  by (induction ms arbitrary: e) (auto simp: enc_def Let_def)

section \<open>Properties\<close>

lemma dec_enc:
  assumes "\<And>m q. open_box (seal m (get_nonce q) (enc_key e)) (get_nonce q) (enc_key e) = Some m"
    and "\<And>m q. 1 < length (seal m (get_nonce q) (enc_key e))"
    and "enc_key d = enc_key e" and "dec_seq d = enc_seq e"
  shows "dec open_box d (snd (enc seal e m)) =
    (Inr (), d\<lparr>dec_seq := enc_seq (fst (enc seal e m))\<rparr>, m)"
  using assms by (simp add: dec_def enc_def Let_def not_le [symmetric])

text \<open>
  C4: the encrypted stream delivers what was sent. When both ends hold the same key and the
  sender's sending number is the receiver's receiving number, the frames that \<open>send_raw\<close> hands to
  the socket, decoded by the peer's codec and passed to \<open>next\<close>, give back the messages in order,
  for any number of messages; the hypotheses on the cipher are the documented ones of the sodium
  secret box.
\<close>

theorem secure_stream_roundtrip:
  assumes cipher: "\<And>m q. open_box (seal m (get_nonce q) k) (get_nonce q) k = Some m"
      "\<And>m q. length (seal m (get_nonce q) k) = length m + 16"
    and sender: "fs_encrypt s = Some e" "enc_key e = k" "fs_codec s = new"
    and receiver: "fs_encrypt r = Some d" "enc_key d = k" "dec_seq d = enc_seq e"
    and small: "\<forall>m \<in> set ms. length m + 16 \<le> 64 * 1024 * 1024"
  shows "\<exists>cs. snd (send_all seal s ms) = map (\<lambda>c. encode new c []) cs \<and>
      (\<forall>c \<in> set cs. length c \<le> 64 * 1024 * 1024) \<and>
      snd (next_all open_box r cs) = map (\<lambda>m. Some (Inr m)) ms"
  using sender receiver small
proof (induction ms arbitrary: s r e d)
  case Nil
  then show ?case by (intro exI [of _ "[]"]) simp
next
  case (Cons m ms)
  let ?e = "fst (enc seal e m)" and ?c = "snd (enc seal e m)"
  let ?s = "s\<lparr>fs_encrypt := Some ?e\<rparr>"
  let ?d = "d\<lparr>dec_seq := enc_seq ?e\<rparr>"
  let ?r = "r\<lparr>fs_encrypt := Some ?d\<rparr>"
  have key: "enc_key ?e = k" using Cons.prems(2) by (simp add: enc_def Let_def)
  obtain cs where cs: "snd (send_all seal ?s ms) = map (\<lambda>c. encode new c []) cs"
      "\<forall>c \<in> set cs. length c \<le> 64 * 1024 * 1024"
      "snd (next_all open_box ?r cs) = map (\<lambda>m. Some (Inr m)) ms"
    using Cons.IH [of ?s ?e ?r ?d] Cons.prems key by auto
  have c: "length ?c \<le> 64 * 1024 * 1024"
    using Cons.prems by (simp add: enc_def Let_def cipher)
  have "send_raw seal s m = (?s, encode new ?c [])"
    using Cons.prems by (simp add: send_raw_def split: prod.splits)
  moreover have "next_frame open_box r (Some (Inr ?c)) = (?r, Some (Inr m))"
    using dec_enc [of open_box seal e d m] Cons.prems cipher by (simp add: next_frame_def)
  ultimately show ?case using cs c
    by (intro exI [of _ "?c # cs"]) (simp add: case_prod_beta)
qed

text \<open>
  A stand-in cipher for the instances below: the message behind the first sixteen bytes of the
  nonce, accepted only under the nonce it was made with.
\<close>

definition toy_seal :: seal_fn where
  "toy_seal m n k = take 16 n @ m"

definition toy_open :: open_fn where
  "toy_open c n k = (if 16 \<le> length c \<and> take 16 c = take 16 n then Some (drop 16 c) else None)"

lemma toy_cipher:
  "toy_open (toy_seal m (get_nonce q) k) (get_nonce q) k = Some m"
  "length (toy_seal m (get_nonce q) k) = length m + 16"
  by (simp_all add: toy_seal_def toy_open_def)

lemma toy_open_other_nonce:
  assumes "p \<noteq> q"
  shows "toy_open (toy_seal m (get_nonce p) k) (get_nonce q) k = None"
proof -
  have "get_nonce x = take 16 (get_nonce x) @ replicate 8 0" for x
    by (simp add: get_nonce_def flip: replicate_add)
  then have "take 16 (get_nonce p) \<noteq> take 16 (get_nonce q)"
    using assms get_nonce_inj by metis
  then show ?thesis by (simp add: toy_seal_def toy_open_def)
qed

theorem secure_stream_roundtrip_witness:
  "\<exists>cs. snd (send_all toy_seal (set_key framed_new (replicate 32 7)) [[1, 2], []])
        = map (\<lambda>c. encode new c []) cs \<and>
      (\<forall>c \<in> set cs. length c \<le> 64 * 1024 * 1024) \<and>
      snd (next_all toy_open (set_key framed_new (replicate 32 7)) cs)
        = map (\<lambda>m. Some (Inr m)) [[1, 2], []]"
  by (rule secure_stream_roundtrip [where k = "replicate 32 7"
        and e = "new_encrypt (replicate 32 7)" and d = "new_encrypt (replicate 32 7)"])
    (simp_all add: toy_cipher set_key_def framed_new_def new_encrypt_def)



text \<open>
  Within one direction no nonce is used twice under a key before the 64-bit number wraps: up to
  2 to the 64 messages are sealed under pairwise different nonces.
\<close>

theorem enc_nonces_distinct:
  assumes "length ms \<le> 2 ^ 64"
  shows "\<exists>nonces. distinct nonces \<and> length nonces = length ms \<and>
    enc_all seal e ms = map2 (\<lambda>m n. seal m n (enc_key e)) ms nonces"
proof -
  let ?n = "map (\<lambda>i. get_nonce (enc_seq e + of_nat i + 1)) [0..<length ms]"
  have "(of_nat i :: u64) = of_nat j \<longleftrightarrow> i = j" if "i < 2 ^ 64" "j < 2 ^ 64" for i j
    using that by (simp add: word_of_nat_eq_iff take_bit_nat_eq_self)
  then have "distinct ?n"
    using assms by (auto simp: distinct_map inj_on_def get_nonce_inj)
  moreover have "enc_all seal e ms = map2 (\<lambda>m n. seal m n (enc_key e)) ms ?n"
    by (rule nth_equalityI) (simp_all add: enc_all_nth)
  ultimately show ?thesis by (intro exI [of _ ?n]) simp
qed

theorem enc_nonces_distinct_witness:
  "\<exists>nonces. distinct nonces \<and> length nonces = length [[1], [2 :: u8]] \<and>
    enc_all toy_seal (new_encrypt [9]) [[1], [2]]
      = map2 (\<lambda>m n. toy_seal m n (enc_key (new_encrypt [9]))) [[1], [2]] nonces"
  by (rule enc_nonces_distinct) simp

text \<open>
  The two directions of a connection are not separated. Both ends of a freshly keyed stream
  seal their first message under the same key and the same nonce, and an end accepts its own first
  frame when it is sent back to it.
\<close>

theorem directions_share_nonces:
  assumes "open_box (seal ma (get_nonce 1) k) (get_nonce 1) k = Some ma"
    and "1 < length (seal ma (get_nonce 1) k)"
  shows "snd (send_raw seal (set_key a k) ma) = encode (fs_codec a) (seal ma (get_nonce 1) k) [] \<and>
    snd (send_raw seal (set_key b k) mb) = encode (fs_codec b) (seal mb (get_nonce 1) k) [] \<and>
    snd (next_frame open_box (fst (send_raw seal (set_key a k) ma))
      (Some (Inr (seal ma (get_nonce 1) k)))) = Some (Inr ma)"
  using assms
  by (simp add: send_raw_def set_key_def new_encrypt_def enc_def next_frame_def dec_def Let_def)

theorem directions_share_nonces_witness:
  "snd (next_frame toy_open (fst (send_raw toy_seal (set_key framed_new [9]) [1, 2]))
      (Some (Inr (toy_seal [1, 2] (get_nonce 1) [9])))) = Some (Inr [1, 2])"
  using directions_share_nonces [of toy_open toy_seal "[1, 2]" "[9]" framed_new] toy_cipher by simp

text \<open>
  Replay, loss and reordering are detected. If the cipher refuses a box under another nonce, a
  frame sealed for sending number \<open>q\<close> is accepted by a secured receiver only as its frame number
  \<open>q\<close>; at any other position it gives an error.
\<close>

theorem next_frame_rejects_out_of_order:
  assumes "\<And>p. p \<noteq> q \<Longrightarrow> open_box (seal m (get_nonce q) k) (get_nonce p) k = None"
    and "1 < length (seal m (get_nonce q) k)"
    and "fs_encrypt s = Some e" "enc_key e = k" and "dec_seq e + 1 \<noteq> q"
  shows "snd (next_frame open_box s (Some (Inr (seal m (get_nonce q) k))))
    = Some (Inl (IoError OtherError ''decryption error''))"
  using assms by (simp add: next_frame_def dec_def Let_def)

theorem next_frame_rejects_out_of_order_witness:
  "snd (next_frame toy_open (set_key framed_new [9]) (Some (Inr (toy_seal [1, 2] (get_nonce 2) [9]))))
    = Some (Inl (IoError OtherError ''decryption error''))"
  by (rule next_frame_rejects_out_of_order [where e = "new_encrypt [9]"])
    (simp_all add: toy_open_other_nonce toy_cipher set_key_def new_encrypt_def)

end
