(* ===== verification/F32.thy ===== *)
theory F32
  imports Prelude Complex_Main "HOL-Library.Log_Nat"
begin

text \<open>
  Rust's \<open>f32\<close> on the finite values the program computes with: a value is the rational it stands
  for, an operation is the exact operation followed by rounding to the nearest value with a 24 bit
  significand, ties to even, as IEEE 754 prescribes for binary32 (subnormal values included;
  overflow to infinity is out of the range of the code modelled here). Also the conversions
  \<open>as u32\<close> and \<open>as f32\<close>, and \<open>clamp\<close>, which panics when its bounds are crossed.
\<close>

section \<open>Rounding\<close>

definition two_pow :: "int \<Rightarrow> rat" where
  "two_pow e = (if 0 \<le> e then 2 ^ nat e else 1 / 2 ^ nat (- e))"

definition round_half_even :: "rat \<Rightarrow> int" where
  "round_half_even x =
     (let f = \<lfloor>x\<rfloor>; r = x - of_int f
      in if r < 1 / 2 \<or> (r = 1 / 2 \<and> even f) then f else f + 1)"

text \<open>The exponent of the binade of a positive rational.\<close>

definition ilog2 :: "rat \<Rightarrow> int" where
  "ilog2 q =
     (case quotient_of q of (n, d) \<Rightarrow>
        let b = bitlen n - bitlen d
        in if two_pow b \<le> q then b else b - 1)"

definition f32_round :: "rat \<Rightarrow> rat" where
  "f32_round q =
     (if q = 0 then 0
      else let e = max (- 149) (ilog2 \<bar>q\<bar> - 23)
           in of_int (round_half_even (q / two_pow e)) * two_pow e)"

section \<open>Operations and conversions\<close>

definition f32_add :: "rat \<Rightarrow> rat \<Rightarrow> rat" where
  "f32_add a b = f32_round (a + b)"

definition f32_sub :: "rat \<Rightarrow> rat \<Rightarrow> rat" where
  "f32_sub a b = f32_round (a - b)"

definition f32_mul :: "rat \<Rightarrow> rat \<Rightarrow> rat" where
  "f32_mul a b = f32_round (a * b)"

text \<open>Division by a nonzero value only: no caller divides by zero.\<close>

definition f32_div :: "rat \<Rightarrow> rat \<Rightarrow> rat" where
  "f32_div a b = f32_round (a / b)"

definition f32_of_u32 :: "nat \<Rightarrow> rat" where
  "f32_of_u32 n = f32_round (of_nat n)"

text \<open>\<open>as u32\<close> truncates towards zero and saturates.\<close>

definition f32_as_u32 :: "rat \<Rightarrow> nat" where
  "f32_as_u32 x = (if x \<le> 0 then 0 else min (nat \<lfloor>x\<rfloor>) (2 ^ 32 - 1))"

definition f32_ceil :: "rat \<Rightarrow> rat" where
  "f32_ceil x = of_int \<lceil>x\<rceil>"

text \<open>\<open>Ord::clamp\<close> and \<open>f32::clamp\<close> panic (\<open>None\<close>) when the bounds are crossed.\<close>

definition clamp :: "'a::linorder \<Rightarrow> 'a \<Rightarrow> 'a \<Rightarrow> 'a option" where
  "clamp v lo hi =
     (if lo \<le> hi then Some (if v < lo then lo else if v > hi then hi else v) else None)"

lemma clamp_Some: "lo \<le> hi \<Longrightarrow> clamp v lo hi = Some (max lo (min v hi))"
  by (auto simp: clamp_def min_def max_def)

section \<open>Facts on rounding\<close>

lemma two_pow_pos [simp]: "0 < two_pow e"
  by (simp add: two_pow_def)

lemma two_pow_nonzero [simp]: "two_pow e \<noteq> 0"
  using two_pow_pos [of e] by linarith

lemma two_pow_add_nat: "two_pow (e + int n) = two_pow e * 2 ^ n"
proof (induction n)
  case (Suc n)
  have "two_pow (x + 1) = two_pow x * 2" for x
  proof (cases "0 \<le> x")
    case True
    then show ?thesis by (simp add: two_pow_def nat_add_distrib)
  next
    case False
    then have "nat (- x) = Suc (nat (- (x + 1)))" by simp
    with False show ?thesis by (auto simp: two_pow_def)
  qed
  from this [of "e + int n"] Suc show ?case by (simp add: ac_simps)
qed simp

lemma two_pow_0 [simp]: "two_pow 0 = 1" by (simp add: two_pow_def)

lemma two_pow_mono: "a \<le> b \<Longrightarrow> two_pow a \<le> two_pow b"
  using two_pow_add_nat [of a "nat (b - a)"] one_le_power [of "2::rat" "nat (b - a)"]
  by (simp add: mult_left_le)

lemma two_pow_less_cancel: "two_pow a < two_pow b \<Longrightarrow> a < b"
  using two_pow_mono [of b a] by linarith

lemma two_pow_diff: "two_pow a / two_pow b = two_pow (a - b)"
proof (cases "b \<le> a")
  case True
  then show ?thesis using two_pow_add_nat [of b "nat (a - b)"] two_pow_add_nat [of 0 "nat (a - b)"]
    by simp
next
  case False
  then have "two_pow b = two_pow a * 2 ^ nat (b - a)" using two_pow_add_nat [of a "nat (b - a)"] by simp
  with False show ?thesis by (simp add: two_pow_def)
qed

lemma bitlen_two_pow:
  assumes "0 < n"
  shows "two_pow (bitlen n - 1) \<le> of_int n" and "of_int n < two_pow (bitlen n)"
proof -
  have b: "2 ^ nat (bitlen n - 1) \<le> n" "n < 2 ^ nat (bitlen n)"
    using bitlen_bounds [OF assms] by auto
  have one: "1 \<le> bitlen n" using b(2) assms by (cases "bitlen n \<le> 0") auto
  have "(of_int (2 ^ nat (bitlen n - 1)) :: rat) \<le> of_int n" "(of_int n :: rat) < of_int (2 ^ nat (bitlen n))"
    using b by (simp_all only: of_int_le_iff of_int_less_iff)
  with one show "two_pow (bitlen n - 1) \<le> of_int n" "of_int n < two_pow (bitlen n)"
    by (simp_all add: two_pow_def)
qed

lemma ilog2_bounds:
  assumes "0 < q"
  shows "two_pow (ilog2 q) \<le> q" and "q < two_pow (ilog2 q + 1)"
proof -
  obtain n d where nd: "quotient_of q = (n, d)" by (cases "quotient_of q")
  then have q: "q = of_int n / of_int d" and d: "0 < d"
    by (auto dest: quotient_of_div quotient_of_denom_pos)
  have n: "0 < n" using assms q d by (simp add: zero_less_divide_iff)
  let ?b = "bitlen n - bitlen d"
  have "q < two_pow (bitlen n) / two_pow (bitlen d - 1)"
    unfolding q using bitlen_two_pow [OF n] bitlen_two_pow [OF d] n d
    by (intro frac_less) auto
  then have up: "q < two_pow (?b + 1)" by (simp add: two_pow_diff algebra_simps)
  have "two_pow (bitlen n - 1) / two_pow (bitlen d) \<le> q"
    unfolding q using bitlen_two_pow [OF n] bitlen_two_pow [OF d] n d
    by (intro frac_le) auto
  then have lo: "two_pow (?b - 1) \<le> q" by (simp add: two_pow_diff algebra_simps)
  show "two_pow (ilog2 q) \<le> q" "q < two_pow (ilog2 q + 1)"
    using up lo by (auto simp: ilog2_def nd Let_def)
qed

lemma ilog2_mono:
  assumes "0 < x" and "x \<le> y"
  shows "ilog2 x \<le> ilog2 y"
proof -
  have "two_pow (ilog2 x) < two_pow (ilog2 y + 1)"
    using ilog2_bounds(1) [of x] ilog2_bounds(2) [of y] assms by linarith
  then show ?thesis using two_pow_less_cancel by force
qed

lemma round_half_even_int [simp]: "round_half_even (of_int n) = n"
  by (simp add: round_half_even_def)

lemma round_half_even_floor: "\<lfloor>x\<rfloor> \<le> round_half_even x \<and> round_half_even x \<le> \<lfloor>x\<rfloor> + 1"
  by (simp add: round_half_even_def Let_def)

lemma round_half_even_mono:
  assumes "x \<le> y"
  shows "round_half_even x \<le> round_half_even y"
proof (cases "\<lfloor>x\<rfloor> = \<lfloor>y\<rfloor>")
  case True
  with assms show ?thesis by (auto simp: round_half_even_def Let_def)
next
  case False
  then have "\<lfloor>x\<rfloor> + 1 \<le> \<lfloor>y\<rfloor>" using floor_mono [OF assms] by linarith
  then show ?thesis using round_half_even_floor [of x] round_half_even_floor [of y] by linarith
qed

lemma f32_round_0 [simp]: "f32_round 0 = 0" by (simp add: f32_round_def)

lemma f32_round_nonneg:
  assumes "0 \<le> z"
  shows "0 \<le> f32_round z"
proof -
  have "0 \<le> z / two_pow e" for e using assms by (simp add: less_imp_le)
  then have "0 \<le> round_half_even (z / two_pow e)" for e
    using round_half_even_mono [of 0] round_half_even_int [of 0] by simp
  then show ?thesis
    using assms by (auto simp: f32_round_def Let_def intro!: mult_nonneg_nonneg less_imp_le [OF two_pow_pos])
qed

lemma f32_round_mono:
  assumes "0 \<le> x" and "x \<le> y"
  shows "f32_round x \<le> f32_round y"
proof -
  define ex where "ex = max (- 149) (ilog2 x - 23)"
  define ey where "ey = max (- 149) (ilog2 y - 23)"
  show ?thesis
  proof (cases "x = 0")
    case True
    then show ?thesis using f32_round_nonneg assms by simp
  next
    case False
    then have x: "0 < x" and y: "0 < y" using assms by auto
    have rx: "f32_round x = of_int (round_half_even (x / two_pow ex)) * two_pow ex"
      and ry: "f32_round y = of_int (round_half_even (y / two_pow ey)) * two_pow ey"
      using x y by (simp_all add: f32_round_def ex_def ey_def Let_def)
    have le: "ex \<le> ey" using ilog2_mono [OF x assms(2)] by (simp add: ex_def ey_def)
    show ?thesis
    proof (cases "ex = ey")
      case True
      have "x / two_pow ey \<le> y / two_pow ey" using assms(2) less_imp_le [OF two_pow_pos] by (rule divide_right_mono)
      then show ?thesis unfolding rx ry True
        by (intro mult_right_mono) (auto intro: round_half_even_mono less_imp_le)
    next
      case False
      with le have lt: "ex < ey" by simp
      then have ey: "ey = ilog2 y - 23" by (auto simp: ex_def ey_def)
      have "ilog2 x + 1 \<le> ex + 24" by (simp add: ex_def)
      then have "x < two_pow (ex + 24)"
        using ilog2_bounds(2) [OF x] two_pow_mono [of "ilog2 x + 1" "ex + 24"] by linarith
      then have "x / two_pow ex \<le> 2 ^ 24"
        using two_pow_add_nat [of ex 24] by (simp add: divide_le_eq mult.commute)
      then have "round_half_even (x / two_pow ex) \<le> 2 ^ 24"
        using round_half_even_mono [of _ "of_int (2 ^ 24)"] round_half_even_int [of "2 ^ 24"] by simp
      then have ux: "f32_round x \<le> two_pow (ex + 24)"
        unfolding rx using two_pow_add_nat [of ex 24] of_int_le_iff [of _ "2 ^ 24", where 'a = rat]
        by (simp add: mult.commute)
      have "two_pow (ey + 23) \<le> y"
        using ilog2_bounds(1) [OF y] ey by simp
      then have "2 ^ 23 \<le> y / two_pow ey"
        using two_pow_add_nat [of ey 23] by (simp add: le_divide_eq mult.commute)
      then have "2 ^ 23 \<le> round_half_even (y / two_pow ey)"
        using round_half_even_mono [of "of_int (2 ^ 23)"] round_half_even_int [of "2 ^ 23"] by simp
      then have "two_pow (ey + 23) \<le> f32_round y"
        unfolding ry using two_pow_add_nat [of ey 23] of_int_le_iff [of "2 ^ 23", where 'a = rat]
        by (simp add: mult.commute)
      then show ?thesis using ux two_pow_mono [of "ex + 24" "ey + 23"] lt by linarith
    qed
  qed
qed

lemma f32_round_of_nat:
  assumes "n \<le> 2 ^ 24"
  shows "f32_round (of_nat n) = of_nat n"
proof (cases "n = 0")
  case False
  let ?q = "of_nat n :: rat"
  define e where "e = max (- 149) (ilog2 ?q - 23)"
  have q: "0 < ?q" using False by simp
  have "?q \<le> 2 ^ 24" using of_nat_mono [OF assms, where 'a = rat] by simp
  then have "two_pow (ilog2 ?q) < two_pow 25"
    using ilog2_bounds(1) [OF q] by (simp add: two_pow_def)
  then have l: "ilog2 ?q \<le> 24" using two_pow_less_cancel by force
  have r: "f32_round ?q = of_int (round_half_even (?q / two_pow e)) * two_pow e"
    using q by (simp add: f32_round_def e_def Let_def)
  show ?thesis
  proof (cases "e \<le> 0")
    case True
    then have "?q / two_pow e = of_int (int n * 2 ^ nat (- e))"
      by (auto simp: two_pow_def)
    then have "round_half_even (?q / two_pow e) = int n * 2 ^ nat (- e)"
      by (simp only: round_half_even_int)
    with True show ?thesis unfolding r by (auto simp: two_pow_def)
  next
    case False
    with l have "e = 1" "ilog2 ?q = 24" by (auto simp: e_def)
    then have "2 ^ 24 \<le> ?q" using ilog2_bounds(1) [OF q] by (simp add: two_pow_def)
    then have "(of_nat (2 ^ 24) :: rat) \<le> of_nat n" by simp
    then have "n = 2 ^ 24" using assms by (simp only: of_nat_le_iff)
    then show ?thesis unfolding r \<open>e = 1\<close> using round_half_even_int [of "2 ^ 23"] by (simp add: two_pow_def)
  qed
qed simp

text \<open>A bound that is itself representable is kept by rounding.\<close>

lemma f32_round_le:
  assumes "0 \<le> x" and "x \<le> c" and "f32_round c = c"
  shows "f32_round x \<le> c"
  using f32_round_mono [OF assms(1,2)] assms(3) by simp

lemma f32_round_ge:
  assumes "0 \<le> c" and "c \<le> x" and "f32_round c = c"
  shows "c \<le> f32_round x"
  using f32_round_mono [OF assms(1,2)] assms(3) by simp

lemma f32_of_u32_exact: "n \<le> 2 ^ 24 \<Longrightarrow> f32_of_u32 n = of_nat n"
  by (simp add: f32_of_u32_def f32_round_of_nat)

end
