(* ===== verification/Video_Qos.thy ===== *)
theory Video_Qos
  imports F32 "HOL-Library.AList" "HOL-Library.Monad_Syntax"
begin

text \<open>
  The adaptive frame rate and bit rate controller (\<open>src/server/video_qos.rs\<close>): the round trip
  estimator, the delay record of a user, and the controller with its users and displays. A hash
  map is an association list in some iteration order. The clock is an argument: \<open>now\<close> is the
  monotonic time in nanoseconds. An operation returns \<open>None\<close> when the code would panic (a
  \<open>clamp\<close> with crossed bounds).
\<close>

section \<open>Constants\<close>

definition FPS :: nat where "FPS = 30"
definition MIN_FPS :: nat where "MIN_FPS = 1"
definition MAX_FPS :: nat where "MAX_FPS = 120"
definition INIT_FPS :: nat where "INIT_FPS = 30"
definition BR_MAX :: rat where "BR_MAX = 40"
definition BR_MIN :: rat where "BR_MIN = f32_round (2 / 10)"
definition BR_MIN_HIGH_RESOLUTION :: rat where "BR_MIN_HIGH_RESOLUTION = f32_round (1 / 10)"
definition MAX_BR_MULTIPLE :: rat where "MAX_BR_MULTIPLE = f32_round (15 / 10)"
definition HISTORY_DELAY_LEN :: nat where "HISTORY_DELAY_LEN = 8"
definition ADJUST_RATIO_INTERVAL :: nat where "ADJUST_RATIO_INTERVAL = 2"
definition DYNAMIC_SCREEN_THRESHOLD :: nat where "DYNAMIC_SCREEN_THRESHOLD = 2"
definition DELAY_THRESHOLD_150MS :: nat where "DELAY_THRESHOLD_150MS = 150"
definition BR_BEST :: rat where "BR_BEST = f32_round (15 / 10)"
definition BR_BALANCED :: rat where "BR_BALANCED = f32_round (8 / 10)"
definition BR_SPEED :: rat where "BR_SPEED = f32_round (5 / 10)"

lemmas fps_consts = FPS_def MIN_FPS_def MAX_FPS_def INIT_FPS_def HISTORY_DELAY_LEN_def
  ADJUST_RATIO_INTERVAL_def DYNAMIC_SCREEN_THRESHOLD_def DELAY_THRESHOLD_150MS_def

datatype Quality = Best | Balanced | Low | Custom rat

fun quality_ratio :: "Quality \<Rightarrow> rat" where
  "quality_ratio Best = BR_BEST"
| "quality_ratio Balanced = BR_BALANCED"
| "quality_ratio Low = BR_SPEED"
| "quality_ratio (Custom v) = v"

section \<open>Round trip estimation\<close>

record RttCalculator =
  min_rtt :: "nat option"
  window_min_rtt :: "nat option"
  smoothed_rtt :: "nat option"
  samples :: "nat list"

definition rtt_default :: RttCalculator where
  "rtt_default = \<lparr>min_rtt = None, window_min_rtt = None, smoothed_rtt = None, samples = []\<rparr>"

definition WINDOW_SAMPLES :: nat where "WINDOW_SAMPLES = 60"
definition MIN_SAMPLES :: nat where "MIN_SAMPLES = 10"
definition ALPHA :: rat where "ALPHA = f32_round (5 / 10)"

text \<open>\<open>update\<close>, in the four steps of the code.\<close>

definition rtt_update_min :: "nat \<Rightarrow> RttCalculator \<Rightarrow> RttCalculator" where
  "rtt_update_min delay r =
     (case min_rtt r of
        Some m \<Rightarrow> (if delay < m then r\<lparr>min_rtt := Some delay\<rparr> else r)
      | None \<Rightarrow> r\<lparr>min_rtt := Some delay\<rparr>)"

definition rtt_evict :: "RttCalculator \<Rightarrow> RttCalculator" where
  "rtt_evict r =
     (if length (samples r) \<ge> WINDOW_SAMPLES then
        (case samples r of
           [] \<Rightarrow> r
         | old # rest \<Rightarrow>
             (let r' = r\<lparr>samples := rest\<rparr> in
              if Some old = window_min_rtt r then r'\<lparr>window_min_rtt := iter_min rest\<rparr> else r'))
      else r)"

definition rtt_push :: "nat \<Rightarrow> RttCalculator \<Rightarrow> RttCalculator" where
  "rtt_push delay r =
     r\<lparr>samples := samples r @ [delay],
       window_min_rtt := (case window_min_rtt r of
          Some wm \<Rightarrow> if delay < wm then Some delay else Some wm
        | None \<Rightarrow> Some delay)\<rparr>"

definition rtt_smooth :: "RttCalculator \<Rightarrow> RttCalculator" where
  "rtt_smooth r =
     (if length (samples r) \<ge> WINDOW_SAMPLES then
        (case (min_rtt r, window_min_rtt r) of
           (Some mn, Some wm) \<Rightarrow>
             r\<lparr>smoothed_rtt := Some (f32_as_u32
               (f32_add (f32_mul (f32_sub 1 ALPHA) (f32_of_u32 mn)) (f32_mul ALPHA (f32_of_u32 wm))))\<rparr>
         | _ \<Rightarrow> r)
      else r)"

definition rtt_update :: "nat \<Rightarrow> RttCalculator \<Rightarrow> RttCalculator" where
  "rtt_update delay r = rtt_smooth (rtt_push delay (rtt_evict (rtt_update_min delay r)))"

definition get_rtt :: "RttCalculator \<Rightarrow> nat option" where
  "get_rtt r =
     (case smoothed_rtt r of
        Some rtt \<Rightarrow> Some rtt
      | None \<Rightarrow>
          if length (samples r) \<ge> MIN_SAMPLES then
            (case min_rtt r of Some rtt \<Rightarrow> Some rtt | None \<Rightarrow> None)
          else None)"

section \<open>The delay record of a user\<close>

record UserDelay =
  response_delayed :: bool
  delay_history :: "nat list"
  delay_fps :: "nat option"
  rtt_calculator :: RttCalculator
  quick_increase_fps_count :: nat
  increase_fps_count :: nat

definition user_delay_default :: UserDelay where
  "user_delay_default = \<lparr>response_delayed = False, delay_history = [], delay_fps = None,
     rtt_calculator = rtt_default, quick_increase_fps_count = 0, increase_fps_count = 0\<rparr>"

definition add_delay :: "nat \<Rightarrow> UserDelay \<Rightarrow> UserDelay" where
  "add_delay d u =
     (let u1 = u\<lparr>rtt_calculator := rtt_update d (rtt_calculator u)\<rparr>;
          h = (if length (delay_history u1) > HISTORY_DELAY_LEN then tl (delay_history u1)
               else delay_history u1)
      in u1\<lparr>delay_history := h @ [d]\<rparr>)"

definition avg_delay :: "UserDelay \<Rightarrow> nat" where
  "avg_delay u =
     (let len = length (delay_history u) in
      if len > 0 then
        (let avg = (sum_list (delay_history u) mod 2 ^ 32) div len in
         case get_rtt (rtt_calculator u) of
           Some rtt \<Rightarrow> if avg > rtt then avg - rtt else avg
         | None \<Rightarrow> avg)
      else DELAY_THRESHOLD_150MS)"

section \<open>The controller\<close>

record UserData =
  auto_adjust_fps :: "nat option"
  custom_fps :: "nat option"
  quality :: "(int \<times> Quality) option"
  delay :: UserDelay
  record_flag :: bool

definition user_data_default :: UserData where
  "user_data_default = \<lparr>auto_adjust_fps = None, custom_fps = None, quality = None,
     delay = user_delay_default, record_flag = False\<rparr>"

record DisplayData =
  send_counter :: nat
  support_changing_quality :: bool

definition display_data_default :: DisplayData where
  "display_data_default = \<lparr>send_counter = 0, support_changing_quality = False\<rparr>"

record VideoQoS =
  fps :: nat
  ratio :: rat
  users :: "(int \<times> UserData) list"
  displays :: "(string \<times> DisplayData) list"
  bitrate_store :: nat
  adjust_ratio_instant :: nat
  abr_config :: bool
  new_user_instant :: nat

definition qos_default :: "nat \<Rightarrow> VideoQoS" where
  "qos_default now = \<lparr>fps = FPS, ratio = BR_BALANCED, users = [], displays = [], bitrate_store = 0,
     adjust_ratio_instant = now, abr_config = True, new_user_instant = now\<rparr>"

definition elapsed_secs :: "nat \<Rightarrow> nat \<Rightarrow> nat" where
  "elapsed_secs now since = (now - since) div 10 ^ 9"

subsection \<open>Basic functionality\<close>

definition get_fps :: "VideoQoS \<Rightarrow> nat" where
  "get_fps s = (if fps s \<ge> MIN_FPS \<and> fps s \<le> MAX_FPS then fps s else FPS)"

definition store_bitrate :: "nat \<Rightarrow> VideoQoS \<Rightarrow> VideoQoS" where
  "store_bitrate b s = s\<lparr>bitrate_store := b\<rparr>"

definition bitrate :: "VideoQoS \<Rightarrow> nat" where
  "bitrate s = bitrate_store s"

definition get_ratio :: "VideoQoS \<Rightarrow> VideoQoS \<times> rat" where
  "get_ratio s =
     (let s' = (if ratio s < BR_MIN_HIGH_RESOLUTION \<or> ratio s > BR_MAX
                then s\<lparr>ratio := BR_BALANCED\<rparr> else s)
      in (s', ratio s'))"

definition any_record :: "VideoQoS \<Rightarrow> bool" where
  "any_record s = list_ex (\<lambda>(_, u). record_flag u) (users s)"

definition set_support_changing_quality :: "string \<Rightarrow> bool \<Rightarrow> VideoQoS \<Rightarrow> VideoQoS" where
  "set_support_changing_quality name b s =
     s\<lparr>displays := AList.map_entry name (\<lambda>d. d\<lparr>support_changing_quality := b\<rparr>) (displays s)\<rparr>"

definition in_vbr_state :: "VideoQoS \<Rightarrow> bool" where
  "in_vbr_state s = (abr_config s \<and> list_all (\<lambda>(_, d). support_changing_quality d) (displays s))"

subsection \<open>Common adjust functions\<close>

definition user_fps :: "UserData \<Rightarrow> nat" where
  "user_fps u =
     (let f = (case custom_fps u of Some f \<Rightarrow> f | None \<Rightarrow> FPS) in
      case auto_adjust_fps u of
        Some a \<Rightarrow> if f = 0 \<or> a < f then a else f
      | None \<Rightarrow> f)"

text \<open>The bounds of this clamp are constants in order, so it cannot panic.\<close>

definition highest_fps :: "VideoQoS \<Rightarrow> nat" where
  "highest_fps s =
     (let f = (case iter_min (filter (\<lambda>f. f \<ge> MIN_FPS) (map (\<lambda>(_, u). user_fps u) (users s))) of
                 Some f \<Rightarrow> f | None \<Rightarrow> FPS)
      in max MIN_FPS (min f MAX_FPS))"

definition latest_quality :: "VideoQoS \<Rightarrow> Quality" where
  "latest_quality s =
     (case iter_max_by (\<lambda>q. case q of Some (t, _) \<Rightarrow> t | None \<Rightarrow> 0)
             (filter (\<lambda>q. q \<noteq> None) (map (\<lambda>(_, u). quality u) (users s))) of
        Some (Some (_, q)) \<Rightarrow> q
      | _ \<Rightarrow> Balanced)"

text \<open>The lower bound of the ratio for a quality mode, given the current ratio and bit rate.\<close>

definition ratio_1mbps :: "rat \<Rightarrow> nat \<Rightarrow> rat option" where
  "ratio_1mbps current_ratio current_bitrate =
     (if current_bitrate > 0
      then Some (max (f32_div (f32_mul current_ratio 1000) (f32_of_u32 current_bitrate))
                     BR_MIN_HIGH_RESOLUTION)
      else None)"

definition ratio_add_step_kbps :: "rat \<Rightarrow> nat \<Rightarrow> rat option" where
  "ratio_add_step_kbps current_ratio current_bitrate =
     (if current_bitrate > 0
      then Some (f32_div (f32_mul (f32_of_u32 (u32_add current_bitrate 300)) current_ratio)
                   (f32_of_u32 current_bitrate))
      else None)"

fun min_ratio :: "Quality \<Rightarrow> rat option \<Rightarrow> rat" where
  "min_ratio Best r1 =
     (let m = f32_div BR_BEST (f32_round (25 / 10));
          m = (case r1 of Some r \<Rightarrow> if m > r then r else m | None \<Rightarrow> m)
      in max m BR_MIN)"
| "min_ratio Balanced r1 =
     (let m = min (f32_div BR_BALANCED 2) (f32_round (4 / 10));
          m = (case r1 of Some r \<Rightarrow> if m > r then r else m | None \<Rightarrow> m)
      in max m BR_MIN_HIGH_RESOLUTION)"
| "min_ratio Low r1 = BR_MIN_HIGH_RESOLUTION"
| "min_ratio (Custom _) r1 = BR_MIN_HIGH_RESOLUTION"

definition scale_ratio :: "nat \<Rightarrow> bool \<Rightarrow> rat \<Rightarrow> rat" where
  "scale_ratio max_delay dynamic_screen current_ratio =
     (if max_delay < 50 then
        (if dynamic_screen then f32_mul current_ratio (f32_round (115 / 100)) else current_ratio)
      else if max_delay < 100 then
        (if dynamic_screen then f32_mul current_ratio (f32_round (11 / 10)) else current_ratio)
      else if max_delay < DELAY_THRESHOLD_150MS then
        (if dynamic_screen then f32_mul current_ratio (f32_round (105 / 100)) else current_ratio)
      else if max_delay < 200 then f32_mul current_ratio (f32_round (95 / 100))
      else if max_delay < 300 then f32_mul current_ratio (f32_round (9 / 10))
      else if max_delay < 500 then f32_mul current_ratio (f32_round (85 / 100))
      else f32_mul current_ratio (f32_round (8 / 10)))"

definition adjust_ratio :: "nat \<Rightarrow> bool \<Rightarrow> VideoQoS \<Rightarrow> VideoQoS option" where
  "adjust_ratio now dynamic_screen s =
     (if \<not> in_vbr_state s then Some s
      else case iter_max (map (\<lambda>(_, u). avg_delay (delay u)) (users s)) of
        None \<Rightarrow> Some s
      | Some max_delay \<Rightarrow>
          let target_quality = latest_quality s;
              target_ratio = quality_ratio target_quality;
              current_ratio = ratio s;
              current_bitrate = bitrate s;
              lo = min_ratio target_quality (ratio_1mbps current_ratio current_bitrate);
              hi = f32_mul target_ratio MAX_BR_MULTIPLE;
              v = scale_ratio max_delay dynamic_screen current_ratio;
              v = (case ratio_add_step_kbps current_ratio current_bitrate of
                     Some r \<Rightarrow> if v > r \<and> r > current_ratio \<and> current_ratio \<ge> BR_SPEED then r else v
                   | None \<Rightarrow> v)
          in do { r \<leftarrow> clamp v lo hi;
                  Some (s\<lparr>ratio := r, adjust_ratio_instant := now\<rparr>) })"

definition adjust_fps :: "nat \<Rightarrow> VideoQoS \<Rightarrow> VideoQoS option" where
  "adjust_fps now s =
     (let f = (case iter_min (map (\<lambda>(_, u). case delay_fps (delay u) of Some f \<Rightarrow> f | None \<Rightarrow> INIT_FPS)
                               (users s)) of Some f \<Rightarrow> f | None \<Rightarrow> INIT_FPS);
          f = (if list_ex (\<lambda>(_, u). response_delayed (delay u)) (users s)
               then (if f > MIN_FPS + 1 then MIN_FPS + 1 else f) else f);
          f = (if elapsed_secs now (new_user_instant s) < 1
               then (if f > INIT_FPS then INIT_FPS else f) else f)
      in do { f \<leftarrow> clamp f MIN_FPS (highest_fps s); Some (s\<lparr>fps := f\<rparr>) })"

subsection \<open>User session management\<close>

definition on_connection_open :: "nat \<Rightarrow> string \<Rightarrow> int \<Rightarrow> VideoQoS \<Rightarrow> VideoQoS" where
  "on_connection_open now enable_abr conn s =
     s\<lparr>users := AList.update conn user_data_default (users s),
       abr_config := (enable_abr \<noteq> ''N''), new_user_instant := now\<rparr>"

definition on_connection_close :: "nat \<Rightarrow> int \<Rightarrow> VideoQoS \<Rightarrow> VideoQoS" where
  "on_connection_close now conn s =
     (let s' = s\<lparr>users := AList.delete conn (users s)\<rparr>
      in if users s' = [] then qos_default now else s')"

definition user_custom_fps :: "int \<Rightarrow> nat \<Rightarrow> VideoQoS \<Rightarrow> VideoQoS" where
  "user_custom_fps conn f s =
     (if f < MIN_FPS \<or> f > MAX_FPS then s
      else s\<lparr>users := AList.map_entry conn (\<lambda>u. u\<lparr>custom_fps := Some f\<rparr>) (users s)\<rparr>)"

definition user_auto_adjust_fps :: "int \<Rightarrow> nat \<Rightarrow> VideoQoS \<Rightarrow> VideoQoS" where
  "user_auto_adjust_fps conn f s =
     (if f < MIN_FPS \<or> f > MAX_FPS then s
      else s\<lparr>users := AList.map_entry conn (\<lambda>u. u\<lparr>auto_adjust_fps := Some f\<rparr>) (users s)\<rparr>)"

text \<open>\<open>q\<close> is a signed number: \<open>q >> 8 & 0xFFF\<close> is an arithmetic shift and a mask.\<close>

definition convert_quality :: "int \<Rightarrow> Quality" where
  "convert_quality q =
     (if q = 3 then Balanced
      else if q = 2 then Low
      else if q = 4 then Best
      else
        let b = f32_div (f32_of_u32 (nat ((q div 2 ^ 8) mod 2 ^ 12) * 2)) 100
        in Custom (max BR_MIN (min b BR_MAX)))"

definition user_image_quality :: "int \<Rightarrow> int \<Rightarrow> int \<Rightarrow> VideoQoS \<Rightarrow> VideoQoS" where
  "user_image_quality time conn q s =
     (case map_of (users s) conn of
        None \<Rightarrow> s
      | Some _ \<Rightarrow>
          let s' = s\<lparr>users := AList.map_entry conn
                       (\<lambda>u. u\<lparr>quality := Some (time, convert_quality q)\<rparr>) (users s)\<rparr>
          in s'\<lparr>ratio := quality_ratio (latest_quality s')\<rparr>)"

definition user_record :: "int \<Rightarrow> bool \<Rightarrow> VideoQoS \<Rightarrow> VideoQoS" where
  "user_record conn v s =
     s\<lparr>users := AList.map_entry conn (\<lambda>u. u\<lparr>record_flag := v\<rparr>) (users s)\<rparr>"

text \<open>
  \<open>user_network_delay\<close>: the frame rate for a user from the new average delay. \<open>delay_step\<close> is the
  body of the branch for a known user, up to the final clamp.
\<close>

definition fps_floor :: "rat \<Rightarrow> nat \<times> nat" where
  "fps_floor target_ratio =
     (if target_ratio \<ge> BR_BEST then (8, 16)
      else if target_ratio \<ge> BR_BALANCED then (10, 20) else (12, 24))"

definition delay_to_fps :: "nat \<Rightarrow> nat \<Rightarrow> nat \<Rightarrow> nat \<Rightarrow> nat \<Rightarrow> nat \<Rightarrow> nat" where
  "delay_to_fps min_fps normal_fps old_avg avg quick_count f =
     (if avg < 50 then
        (let step = (if f < normal_fps then 1 else 0);
             step = (if quick_count \<ge> 3 then 5 else step)
         in max min_fps (u32_add f step))
      else if avg < 100 then
        (let step = (if avg < old_avg then (if f < normal_fps then 1 else 0) else 0)
         in max min_fps (u32_add f step))
      else if avg < DELAY_THRESHOLD_150MS then max min_fps f
      else
        (let dividend_ms = DELAY_THRESHOLD_150MS * min_fps;
             devide_fps = f32_as_u32 (f32_ceil (f32_div (f32_of_u32 f)
               (f32_div (f32_of_u32 avg) (f32_of_u32 DELAY_THRESHOLD_150MS))))
         in if avg < 200 then max min_fps devide_fps
            else if avg < 300 then min min_fps devide_fps
            else if avg < 600 then dividend_ms div avg
            else min (dividend_ms div avg) devide_fps))"

definition delay_step :: "nat \<Rightarrow> nat \<Rightarrow> nat \<Rightarrow> nat \<Rightarrow> UserDelay \<Rightarrow> UserDelay \<times> nat" where
  "delay_step min_fps normal_fps f d u0 =
     (let d = max d 10;
          old_avg = avg_delay u0;
          u = add_delay d u0;
          avg = max (avg_delay u) 10;
          quick = (if avg < 50 then quick_increase_fps_count u + 1 else quick_increase_fps_count u);
          f = delay_to_fps min_fps normal_fps old_avg avg quick f;
          quick = (if avg < 50 \<and> quick \<ge> 3 then 0 else quick);
          inc = (if avg < DELAY_THRESHOLD_150MS then increase_fps_count u + 1 else 0);
          f = (if inc \<ge> 3 then u32_add f 1 else f);
          inc = (if inc \<ge> 3 then 0 else inc);
          quick = (if avg > 50 then 0 else quick)
      in (u\<lparr>quick_increase_fps_count := quick, increase_fps_count := inc\<rparr>, f))"

definition user_network_delay :: "bool \<Rightarrow> nat \<Rightarrow> int \<Rightarrow> nat \<Rightarrow> VideoQoS \<Rightarrow> VideoQoS option" where
  "user_network_delay linux now conn d s =
     (let highest = highest_fps s;
          (min_fps, normal_fps) = fps_floor (quality_ratio (latest_quality s))
      in case map_of (users s) conn of
           None \<Rightarrow> adjust_fps now s
         | Some u \<Rightarrow>
             (case delay_step min_fps normal_fps (fps s) d (delay u) of
                (dl, f) \<Rightarrow>
                  do { f \<leftarrow> clamp f MIN_FPS highest;
                       let first = (delay_fps dl = None);
                       s1 \<leftarrow> adjust_fps now (s\<lparr>users := AList.map_entry conn
                               (\<lambda>u. u\<lparr>delay := dl\<lparr>delay_fps := Some f\<rparr>\<rparr>) (users s)\<rparr>);
                       if first \<and> \<not> linux then adjust_ratio now False s1 else Some s1 }))"

definition user_delay_response_elapsed :: "nat \<Rightarrow> int \<Rightarrow> nat \<Rightarrow> VideoQoS \<Rightarrow> VideoQoS option" where
  "user_delay_response_elapsed now conn elapsed s =
     (case map_of (users s) conn of
        None \<Rightarrow> Some s
      | Some u \<Rightarrow>
          if elapsed > 2000 then
            adjust_fps now (s\<lparr>users := AList.map_entry conn
              (\<lambda>u. u\<lparr>delay := add_delay (elapsed mod 2 ^ 32) ((delay u)\<lparr>response_delayed := True\<rparr>)\<rparr>) (users s)\<rparr>)
          else Some (s\<lparr>users := AList.map_entry conn
              (\<lambda>u. u\<lparr>delay := (delay u)\<lparr>response_delayed := False\<rparr>\<rparr>) (users s)\<rparr>))"

subsection \<open>Displays\<close>

definition new_display :: "string \<Rightarrow> VideoQoS \<Rightarrow> VideoQoS" where
  "new_display name s = s\<lparr>displays := AList.update name display_data_default (displays s)\<rparr>"

definition remove_display :: "string \<Rightarrow> VideoQoS \<Rightarrow> VideoQoS" where
  "remove_display name s = s\<lparr>displays := AList.delete name (displays s)\<rparr>"

definition update_display_data :: "nat \<Rightarrow> string \<Rightarrow> nat \<Rightarrow> VideoQoS \<Rightarrow> VideoQoS option" where
  "update_display_data now name counter s =
     do { s1 \<leftarrow> adjust_fps now (s\<lparr>displays := AList.map_entry name
             (\<lambda>d. d\<lparr>send_counter := send_counter d + counter\<rparr>) (displays s)\<rparr>);
          if in_vbr_state s1 then
            (if elapsed_secs now (adjust_ratio_instant s1) \<ge> ADJUST_RATIO_INTERVAL then
               (let dynamic_screen = list_ex (\<lambda>(_, d). send_counter d
                      \<ge> ADJUST_RATIO_INTERVAL * DYNAMIC_SCREEN_THRESHOLD) (displays s1)
                in adjust_ratio now dynamic_screen
                     (s1\<lparr>displays := map (\<lambda>(n, d). (n, d\<lparr>send_counter := 0\<rparr>)) (displays s1)\<rparr>))
             else Some s1)
          else Some (s1\<lparr>ratio := quality_ratio (latest_quality s1)\<rparr>) }"

section \<open>Values of the constants\<close>

lemma br_values:
  "BR_MIN = 13421773 / 67108864" "BR_MIN_HIGH_RESOLUTION = 13421773 / 134217728"
  "MAX_BR_MULTIPLE = 3 / 2" "BR_BEST = 3 / 2" "BR_BALANCED = 13421773 / 16777216" "BR_SPEED = 1 / 2"
  "BR_MAX = 40" "ALPHA = 1 / 2"
  by code_simp+

lemma f32_round_br:
  "f32_round (13421773 / 134217728) = 13421773 / 134217728"
  "f32_round (13421773 / 67108864) = 13421773 / 67108864"
  "f32_round 60 = 60" "f32_round (4 / 10) = 13421773 / 33554432" "f32_round (25 / 10) = 5 / 2"
  "f32_round (3 / 5) = 5033165 / 8388608" "f32_round (13421773 / 33554432) = 13421773 / 33554432"
  by code_simp+

section \<open>The round trip estimator\<close>

text \<open>What the estimator stands for, given all the samples it has seen.\<close>

definition last_samples :: "nat \<Rightarrow> 'a list \<Rightarrow> 'a list" where
  "last_samples n xs = drop (length xs - n) xs"

definition rtt_spec :: "nat list \<Rightarrow> RttCalculator \<Rightarrow> bool" where
  "rtt_spec seen r \<longleftrightarrow>
     samples r = last_samples WINDOW_SAMPLES seen \<and>
     min_rtt r = iter_min seen \<and>
     window_min_rtt r = iter_min (last_samples WINDOW_SAMPLES seen)"

definition rtt_run :: "nat list \<Rightarrow> RttCalculator" where
  "rtt_run ds = fold rtt_update ds rtt_default"

lemma iter_min_snoc:
  "iter_min (xs @ [d]) = (case iter_min xs of None \<Rightarrow> Some d | Some m \<Rightarrow> if d < m then Some d else Some m)"
  by (cases "xs = []") (auto simp: iter_min_def min_def intro!: Min_eqI [symmetric] dest: antisym)

lemma iter_min_Cons_other:
  assumes "iter_min (old # rest) \<noteq> Some old"
  shows "iter_min (old # rest) = iter_min rest"
proof (cases "rest = []")
  case False
  with assms show ?thesis by (auto simp: iter_min_def min_def split: if_splits)
qed (use assms in \<open>simp add: iter_min_def\<close>)

lemma last_samples_snoc:
  assumes "0 < n"
  shows "last_samples n (xs @ [x]) = (if length xs \<ge> n then tl (last_samples n xs) else last_samples n xs) @ [x]"
proof (cases "length xs \<ge> n")
  case True
  then have "Suc (length xs) - n = Suc (length xs - n)" by simp
  with True assms show ?thesis by (simp add: last_samples_def drop_Suc tl_drop)
next
  case False
  with assms show ?thesis by (simp add: last_samples_def)
qed

lemma rtt_update_spec:
  assumes "rtt_spec seen r"
  shows "rtt_spec (seen @ [d]) (rtt_update d r)"
proof -
  have W: "0 < WINDOW_SAMPLES" by (simp add: WINDOW_SAMPLES_def)
  let ?w = "last_samples WINDOW_SAMPLES seen"
  let ?e = "if length seen \<ge> WINDOW_SAMPLES then tl ?w else ?w"
  have lw: "length ?w \<ge> WINDOW_SAMPLES \<longleftrightarrow> length seen \<ge> WINDOW_SAMPLES"
    by (auto simp: last_samples_def)
  have m: "samples (rtt_update_min d r) = ?w" "window_min_rtt (rtt_update_min d r) = iter_min ?w"
    "min_rtt (rtt_update_min d r) = iter_min (seen @ [d])"
    unfolding iter_min_snoc using assms
    by (auto simp: rtt_spec_def rtt_update_min_def iter_min_None [symmetric] simp del: iter_min_None split: option.splits)
  have e: "samples (rtt_evict (rtt_update_min d r)) = ?e"
    "window_min_rtt (rtt_evict (rtt_update_min d r)) = iter_min ?e"
    "min_rtt (rtt_evict (rtt_update_min d r)) = iter_min (seen @ [d])"
    using m lw by (auto simp: rtt_evict_def Let_def intro: iter_min_Cons_other [OF not_sym] split: list.splits)
  have w: "window_min_rtt (rtt_push d (rtt_evict (rtt_update_min d r))) = iter_min (?e @ [d])"
    unfolding iter_min_snoc using e(2) by (auto simp: rtt_push_def split: option.splits)
  have "samples (rtt_push d (rtt_evict (rtt_update_min d r))) = ?e @ [d]"
    "min_rtt (rtt_push d (rtt_evict (rtt_update_min d r))) = iter_min (seen @ [d])"
    using e by (simp_all add: rtt_push_def)
  with w show ?thesis
    by (auto simp: rtt_update_def rtt_spec_def rtt_smooth_def last_samples_snoc [OF W] split: option.splits)
qed

lemma rtt_run_snoc: "rtt_run (ds @ [d]) = rtt_update d (rtt_run ds)"
  by (simp add: rtt_run_def)

lemma rtt_run_spec: "rtt_spec ds (rtt_run ds)"
proof (induction ds rule: rev_induct)
  case Nil
  show ?case by (simp add: rtt_run_def rtt_spec_def rtt_default_def last_samples_def iter_min_def)
next
  case (snoc d ds)
  then show ?case by (simp add: rtt_run_snoc rtt_update_spec)
qed

text \<open>C40: the sliding-window minimum of the round trip estimator, which the code maintains
  incrementally and recomputes only when the evicted sample was the minimum, always equals the
  minimum of the last sixty samples, and the overall minimum is the minimum of all of them.\<close>

theorem rtt_window_minimum:
  "samples (rtt_run ds) = last_samples 60 ds \<and>
   window_min_rtt (rtt_run ds) = iter_min (last_samples 60 ds) \<and>
   min_rtt (rtt_run ds) = iter_min ds"
  using rtt_run_spec [of ds] by (simp add: rtt_spec_def WINDOW_SAMPLES_def)

lemma f32_round_half_nat:
  assumes "n \<le> 2 ^ 24"
  shows "f32_round (of_nat n / 2) = of_nat n / 2"
proof (cases "n = 0")
  case False
  let ?q = "of_nat n / 2 :: rat"
  define e where "e = max (- 149) (ilog2 ?q - 23)"
  have q: "0 < ?q" using False by simp
  have "?q \<le> 2 ^ 23" using of_nat_mono [OF assms, where 'a = rat] by simp
  then have "two_pow (ilog2 ?q) < two_pow 24"
    using ilog2_bounds(1) [OF q] by (simp add: two_pow_def)
  then have l: "ilog2 ?q \<le> 23" using two_pow_less_cancel by force
  have r: "f32_round ?q = of_int (round_half_even (?q / two_pow e)) * two_pow e"
    using q by (simp add: f32_round_def e_def Let_def)
  show ?thesis
  proof (cases "e \<le> - 1")
    case True
    then have "nat (- e) = Suc (nat (- e - 1))" by simp
    then have tp: "two_pow e = 1 / (2 * 2 ^ nat (- e - 1))" using True by (simp add: two_pow_def)
    then have "?q / two_pow e = of_int (int n * 2 ^ nat (- e - 1))" by simp
    then have "round_half_even (?q / two_pow e) = int n * 2 ^ nat (- e - 1)"
      by (simp only: round_half_even_int)
    then show ?thesis unfolding r tp by simp
  next
    case False
    with l have e: "e = 0" "ilog2 ?q = 23" by (auto simp: e_def)
    then have "2 ^ 23 \<le> ?q" using ilog2_bounds(1) [OF q] by (simp add: two_pow_def)
    then have "(of_nat (2 ^ 24) :: rat) \<le> of_nat n" by simp
    then have "n = 2 ^ 24" using assms by (simp only: of_nat_le_iff)
    then show ?thesis unfolding r e(1) using round_half_even_int [of "2 ^ 23"] by simp
  qed
qed simp

lemma rtt_smooth_between:
  assumes "mn \<le> wm" and "wm \<le> 2 ^ 24"
  defines "s \<equiv> f32_as_u32 (f32_add (f32_mul (f32_sub 1 ALPHA) (f32_of_u32 mn)) (f32_mul ALPHA (f32_of_u32 wm)))"
  shows "mn \<le> s \<and> s \<le> wm"
proof -
  let ?x = "of_nat mn / 2 + of_nat wm / 2 :: rat"
  have half: "f32_sub 1 ALPHA = 1 / 2" by code_simp
  have m: "f32_mul (1 / 2) (f32_of_u32 n) = of_nat n / 2" if "n \<le> 2 ^ 24" for n
    using f32_round_half_nat [OF that] by (simp only: f32_mul_def f32_of_u32_exact [OF that] mult_1 times_divide_eq_left)
  have s: "s = f32_as_u32 (f32_round ?x)"
    unfolding s_def half using assms(1,2) by (simp add: f32_add_def m br_values)
  have "of_nat mn \<le> ?x" "?x \<le> of_nat wm" using assms(1) by (simp_all add: field_simps)
  moreover have "f32_round (of_nat mn) = of_nat mn" "f32_round (of_nat wm) = of_nat wm"
    using assms(1,2) by (simp_all add: f32_round_of_nat)
  ultimately have b: "of_nat mn \<le> f32_round ?x" "f32_round ?x \<le> of_nat wm"
    by (auto intro: f32_round_ge f32_round_le)
  then have "mn = 0" if "f32_round ?x \<le> 0" using that
    by (metis of_nat_le_0_iff order_trans)
  moreover from b have "int mn \<le> \<lfloor>f32_round ?x\<rfloor>" "\<lfloor>f32_round ?x\<rfloor> \<le> int wm"
    by (simp_all add: le_floor_iff floor_le_iff)
  ultimately show ?thesis unfolding s f32_as_u32_def using assms(2) by (auto simp: min_def)
qed

lemma rtt_run_smoothed:
  assumes "\<forall>d \<in> set ds. d \<le> 2 ^ 24" and "60 \<le> length ds"
  shows "\<exists>r m w. smoothed_rtt (rtt_run ds) = Some r \<and> iter_min ds = Some m \<and>
      iter_min (last_samples 60 ds) = Some w \<and> m \<le> r \<and> r \<le> w"
proof -
  obtain ds' d where ds: "ds = ds' @ [d]" using assms(2) by (cases ds rule: rev_cases) auto
  let ?p = "rtt_push d (rtt_evict (rtt_update_min d (rtt_run ds')))"
  have eq: "rtt_run ds = rtt_smooth ?p" by (simp add: ds rtt_run_snoc rtt_update_def)
  have keep: "samples (rtt_smooth x) = samples x" "min_rtt (rtt_smooth x) = min_rtt x"
    "window_min_rtt (rtt_smooth x) = window_min_rtt x" for x
    by (auto simp: rtt_smooth_def split: option.splits)
  have sp: "samples ?p = last_samples 60 ds" "min_rtt ?p = iter_min ds"
    "window_min_rtt ?p = iter_min (last_samples 60 ds)"
    using rtt_run_spec [of ds] by (simp_all add: eq keep rtt_spec_def WINDOW_SAMPLES_def)
  have len: "length (last_samples 60 ds) = 60" using assms(2) by (simp add: last_samples_def)
  then have ne: "last_samples 60 ds \<noteq> []" "ds \<noteq> []" using assms(2) by auto
  then obtain m w where m: "iter_min ds = Some m" and w: "iter_min (last_samples 60 ds) = Some w"
    by (meson iter_min_None not_None_eq)
  have "w \<in> set ds" using w by (auto simp: iter_min_Some last_samples_def dest: in_set_dropD)
  then have "m \<le> w" "w \<le> 2 ^ 24" using m assms(1) by (auto simp: iter_min_Some)
  from rtt_smooth_between [OF this] show ?thesis
    using sp len m w by (auto simp: eq rtt_smooth_def WINDOW_SAMPLES_def)
qed

lemma rtt_run_no_smoothed:
  assumes "length ds < 60"
  shows "smoothed_rtt (rtt_run ds) = None"
  using assms
proof (induction ds rule: rev_induct)
  case Nil
  show ?case by (simp add: rtt_run_def rtt_default_def)
next
  case (snoc d ds)
  have "samples (rtt_run (ds @ [d])) = ds @ [d]"
    using rtt_run_spec [of "ds @ [d]"] snoc.prems by (simp add: rtt_spec_def last_samples_def WINDOW_SAMPLES_def)
  then have "length (samples (rtt_push d (rtt_evict (rtt_update_min d (rtt_run ds))))) < 60"
    using snoc.prems by (auto simp: rtt_run_snoc rtt_update_def rtt_smooth_def split: option.splits if_splits)
  moreover have "smoothed_rtt (rtt_push d (rtt_evict (rtt_update_min d r))) = smoothed_rtt r" for r
    by (auto simp: rtt_push_def rtt_evict_def rtt_update_min_def Let_def split: option.splits list.splits)
  ultimately show ?case using snoc by (simp add: rtt_run_snoc rtt_update_def rtt_smooth_def WINDOW_SAMPLES_def)
qed

text \<open>Once ten delays of at most \<open>2 ^ 24\<close> ms are in, the estimator has an estimate, and it lies
  between the smallest delay ever seen and the smallest of the last sixty; before that it has none.\<close>

theorem rtt_estimate_bounds:
  assumes "\<forall>d \<in> set ds. d \<le> 2 ^ 24" and "ds \<noteq> []"
  shows "case get_rtt (rtt_run ds) of
           None \<Rightarrow> length ds < 10
         | Some r \<Rightarrow> 10 \<le> length ds \<and> Min (set ds) \<le> r \<and> r \<le> Min (set (last_samples 60 ds))"
proof (cases "60 \<le> length ds")
  case True
  from rtt_run_smoothed [OF assms(1) True] True show ?thesis
    by (auto simp: get_rtt_def iter_min_def split: if_splits)
next
  case False
  then have "last_samples 60 ds = ds" "samples (rtt_run ds) = ds" "min_rtt (rtt_run ds) = Some (Min (set ds))"
    using rtt_run_spec [of ds] assms(2)
    by (simp_all add: last_samples_def rtt_spec_def WINDOW_SAMPLES_def iter_min_def)
  with False rtt_run_no_smoothed [of ds] show ?thesis
    by (auto simp: get_rtt_def MIN_SAMPLES_def)
qed

theorem rtt_estimate_bounds_witness:
  "(case get_rtt (rtt_run (replicate 9 50 @ [20])) of
      None \<Rightarrow> False | Some r \<Rightarrow> 20 \<le> r)"
  using rtt_estimate_bounds [of "replicate 9 50 @ [20]"]
  by (auto split: option.splits)

section \<open>The invariant of the controller\<close>

definition fps_opt_ok :: "nat option \<Rightarrow> bool" where
  "fps_opt_ok f = (case f of None \<Rightarrow> True | Some f \<Rightarrow> MIN_FPS \<le> f \<and> f \<le> MAX_FPS)"

fun quality_ok :: "Quality \<Rightarrow> bool" where
  "quality_ok (Custom v) = (BR_MIN \<le> v \<and> v \<le> BR_MAX)"
| "quality_ok _ = True"

definition delay_ok :: "UserDelay \<Rightarrow> bool" where
  "delay_ok u = (fps_opt_ok (delay_fps u) \<and> length (delay_history u) \<le> HISTORY_DELAY_LEN + 1 \<and>
     length (samples (rtt_calculator u)) \<le> WINDOW_SAMPLES \<and>
     quick_increase_fps_count u < 3 \<and> increase_fps_count u < 3)"

definition user_ok :: "UserData \<Rightarrow> bool" where
  "user_ok u = (fps_opt_ok (custom_fps u) \<and> fps_opt_ok (auto_adjust_fps u) \<and> delay_ok (delay u) \<and>
     (case quality u of None \<Rightarrow> True | Some (_, q) \<Rightarrow> quality_ok q))"

definition qos_inv :: "VideoQoS \<Rightarrow> bool" where
  "qos_inv s = (MIN_FPS \<le> fps s \<and> fps s \<le> MAX_FPS \<and>
     BR_MIN_HIGH_RESOLUTION \<le> ratio s \<and> ratio s \<le> BR_MAX * MAX_BR_MULTIPLE \<and>
     distinct (map fst (users s)) \<and> distinct (map fst (displays s)) \<and>
     (\<forall>(c, u) \<in> set (users s). user_ok u))"

lemma map_entry_all:
  assumes "\<forall>(c, u) \<in> set xs. P u" and "\<And>u. P u \<Longrightarrow> P (f u)"
  shows "\<forall>(c, u) \<in> set (AList.map_entry k f xs). P u"
  using assms(1) by (induction xs) (auto intro: assms(2))

lemma map_entry_all_at:
  assumes "\<forall>(c, u) \<in> set xs. P u" and "\<And>u. P u \<Longrightarrow> map_of xs k = Some u \<Longrightarrow> P (f u)"
  shows "\<forall>(c, u) \<in> set (AList.map_entry k f xs). P u"
  using assms by (induction xs) (auto split: if_splits)

lemma fst_map_entry [simp]: "map fst (AList.map_entry k f xs) = map fst xs"
  by (induction xs) auto

lemma quality_ratio_bounds:
  assumes "quality_ok q"
  shows "BR_MIN \<le> quality_ratio q \<and> quality_ratio q \<le> BR_MAX"
  using assms by (cases q) (auto simp: br_values)

lemma latest_quality_ok:
  assumes "\<forall>(c, u) \<in> set (users s). user_ok u"
  shows "quality_ok (latest_quality s)"
proof (cases "iter_max_by (\<lambda>q. case q of Some (t, _) \<Rightarrow> t | None \<Rightarrow> 0)
    (filter (\<lambda>q. q \<noteq> None) (map (\<lambda>(_, u). quality u) (users s)))")
  case None
  then show ?thesis by (simp only: latest_quality_def) simp
next
  case (Some a)
  from iter_max_by_Some [OF this] obtain c u t q where "(c, u) \<in> set (users s)" "quality u = a" "a = Some (t, q)"
    by auto
  with assms Some show ?thesis by (fastforce simp: latest_quality_def user_ok_def)
qed

lemma highest_fps_bounds: "MIN_FPS \<le> highest_fps s \<and> highest_fps s \<le> MAX_FPS"
  by (auto simp: highest_fps_def fps_consts Let_def)

lemma adjust_fps_total:
  "\<exists>f. adjust_fps now s = Some (s\<lparr>fps := f\<rparr>) \<and> MIN_FPS \<le> f \<and> f \<le> highest_fps s"
  using highest_fps_bounds [of s] unfolding adjust_fps_def Let_def
  by (subst clamp_Some) auto

lemma adjust_fps_inv:
  assumes "qos_inv s"
  shows "\<exists>s'. adjust_fps now s = Some s' \<and> qos_inv s'"
  using adjust_fps_total [of now s] assms highest_fps_bounds [of s] by (auto simp: qos_inv_def)

lemma min_ratio_bases:
  "f32_div BR_BEST (f32_round (25 / 10)) = 5033165 / 8388608"
  "min (f32_div BR_BALANCED 2) (f32_round (4 / 10)) = 13421773 / 33554432"
  by code_simp+

lemma min_ratio_bounds:
  "BR_MIN_HIGH_RESOLUTION \<le> min_ratio q r1 \<and> min_ratio q r1 \<le> 5033165 / 8388608"
proof (cases q)
  case Best
  show ?thesis unfolding Best min_ratio.simps Let_def unfolding min_ratio_bases unfolding br_values
    by (auto simp: max_def split: option.splits)
next
  case Balanced
  show ?thesis unfolding Balanced min_ratio.simps Let_def unfolding min_ratio_bases unfolding br_values
    by (auto simp: max_def split: option.splits)
qed (simp_all add: br_values)

lemma hi_bounds:
  assumes "quality_ok q"
  shows "min_ratio q r1 \<le> f32_mul (quality_ratio q) MAX_BR_MULTIPLE
       \<and> f32_mul (quality_ratio q) MAX_BR_MULTIPLE \<le> BR_MAX * MAX_BR_MULTIPLE"
proof (cases q)
  case Best
  have "f32_mul BR_BEST MAX_BR_MULTIPLE = 9 / 4" by code_simp
  with Best min_ratio_bounds [of q r1] show ?thesis by (simp add: br_values)
next
  case Balanced
  have "f32_mul BR_BALANCED MAX_BR_MULTIPLE = 5033165 / 4194304" by code_simp
  with Balanced min_ratio_bounds [of q r1] show ?thesis by (simp add: br_values)
next
  case Low
  have "f32_mul BR_SPEED MAX_BR_MULTIPLE = 3 / 4" by code_simp
  with Low min_ratio_bounds [of q r1] show ?thesis by (simp add: br_values)
next
  case (Custom v)
  with assms have v: "13421773 / 67108864 \<le> v" "v \<le> 40" by (simp_all add: br_values)
  have "13421773 / 134217728 \<le> f32_round (v * (3 / 2))"
    by (rule f32_round_ge) (use v f32_round_br in simp_all)
  moreover have "f32_round (v * (3 / 2)) \<le> 60"
    by (rule f32_round_le) (use v f32_round_br in simp_all)
  ultimately show ?thesis using Custom by (simp add: f32_mul_def br_values)
qed

lemma adjust_ratio_inv:
  assumes "qos_inv s"
  shows "\<exists>s'. adjust_ratio now dyn s = Some s' \<and> qos_inv s'"
proof (cases "in_vbr_state s \<and> users s \<noteq> []")
  case False
  then show ?thesis using assms by (auto simp: adjust_ratio_def iter_max_def)
next
  case True
  let ?q = "latest_quality s"
  let ?lo = "min_ratio ?q (ratio_1mbps (ratio s) (bitrate s))"
  let ?hi = "f32_mul (quality_ratio ?q) MAX_BR_MULTIPLE"
  have ok: "quality_ok ?q" using assms by (intro latest_quality_ok) (auto simp: qos_inv_def)
  have b: "?lo \<le> ?hi" "?hi \<le> BR_MAX * MAX_BR_MULTIPLE" "BR_MIN_HIGH_RESOLUTION \<le> ?lo"
    using hi_bounds [OF ok] min_ratio_bounds by auto
  have "\<exists>r. adjust_ratio now dyn s = Some (s\<lparr>ratio := r, adjust_ratio_instant := now\<rparr>) \<and> ?lo \<le> r \<and> r \<le> ?hi"
    using True b(1) by (auto simp: adjust_ratio_def iter_max_def Let_def clamp_Some)
  with b show ?thesis using assms by (auto simp: qos_inv_def)
qed

section \<open>Every operation keeps the invariant and none panics\<close>

text \<open>The calls the rest of the server makes on the controller.\<close>

datatype qos_event =
    ConnectionOpen string int
  | ConnectionClose int
  | CustomFps int nat
  | AutoAdjustFps int nat
  | ImageQuality int int int
  | Record int bool
  | NetworkDelay int nat
  | DelayResponseElapsed int nat
  | NewDisplay string
  | RemoveDisplay string
  | UpdateDisplayData string nat
  | SetSupportChangingQuality string bool
  | StoreBitrate nat
  | Ratio

fun qos_step :: "bool \<Rightarrow> nat \<Rightarrow> qos_event \<Rightarrow> VideoQoS \<Rightarrow> VideoQoS option" where
  "qos_step linux now (ConnectionOpen abr c) s = Some (on_connection_open now abr c s)"
| "qos_step linux now (ConnectionClose c) s = Some (on_connection_close now c s)"
| "qos_step linux now (CustomFps c f) s = Some (user_custom_fps c f s)"
| "qos_step linux now (AutoAdjustFps c f) s = Some (user_auto_adjust_fps c f s)"
| "qos_step linux now (ImageQuality t c q) s = Some (user_image_quality t c q s)"
| "qos_step linux now (Record c v) s = Some (user_record c v s)"
| "qos_step linux now (NetworkDelay c d) s = user_network_delay linux now c d s"
| "qos_step linux now (DelayResponseElapsed c e) s = user_delay_response_elapsed now c e s"
| "qos_step linux now (NewDisplay n) s = Some (new_display n s)"
| "qos_step linux now (RemoveDisplay n) s = Some (remove_display n s)"
| "qos_step linux now (UpdateDisplayData n k) s = update_display_data now n k s"
| "qos_step linux now (SetSupportChangingQuality n b) s = Some (set_support_changing_quality n b s)"
| "qos_step linux now (StoreBitrate b) s = Some (store_bitrate b s)"
| "qos_step linux now Ratio s = Some (fst (get_ratio s))"

fun qos_run :: "bool \<Rightarrow> (nat \<times> qos_event) list \<Rightarrow> VideoQoS \<Rightarrow> VideoQoS option" where
  "qos_run linux [] s = Some s"
| "qos_run linux ((now, e) # es) s = do { s' \<leftarrow> qos_step linux now e s; qos_run linux es s' }"

lemma inv_map_entry:
  assumes "qos_inv s" and "\<And>u. user_ok u \<Longrightarrow> map_of (users s) k = Some u \<Longrightarrow> user_ok (f u)"
  shows "qos_inv (s\<lparr>users := AList.map_entry k f (users s)\<rparr>)"
  using assms map_entry_all_at [of "users s" user_ok k f] by (auto simp: qos_inv_def)

lemma user_ok_default: "user_ok user_data_default"
  by (simp add: user_ok_def user_data_default_def user_delay_default_def delay_ok_def fps_opt_ok_def rtt_default_def)

lemma qos_default_inv: "qos_inv (qos_default now)"
  by (simp add: qos_inv_def qos_default_def fps_consts br_values)

lemma convert_quality_ok: "quality_ok (convert_quality q)"
  by (auto simp: convert_quality_def Let_def br_values)

lemma set_alist_update: "set (AList.update k v xs) \<subseteq> insert (k, v) (set xs)"
  by (induction xs) auto

lemma set_ratio_latest_inv:
  assumes "qos_inv s"
  shows "qos_inv (s\<lparr>ratio := quality_ratio (latest_quality s)\<rparr>)"
proof -
  have "quality_ok (latest_quality s)" using assms by (intro latest_quality_ok) (auto simp: qos_inv_def)
  from quality_ratio_bounds [OF this] assms show ?thesis by (auto simp: qos_inv_def br_values)
qed

lemma rtt_update_length:
  assumes "length (samples r) \<le> WINDOW_SAMPLES"
  shows "length (samples (rtt_update d r)) \<le> WINDOW_SAMPLES"
proof -
  have "samples (rtt_smooth x) = samples x" "samples (rtt_update_min d x) = samples x" for x
    by (auto simp: rtt_smooth_def rtt_update_min_def split: option.splits)
  with assms show ?thesis
    by (auto simp: rtt_update_def rtt_push_def rtt_evict_def Let_def WINDOW_SAMPLES_def split: list.splits)
qed

lemma add_delay_ok: "delay_ok u \<Longrightarrow> delay_ok (add_delay d u)"
  using rtt_update_length by (auto simp: delay_ok_def add_delay_def Let_def HISTORY_DELAY_LEN_def)

lemma delay_ok_flag: "delay_ok (u\<lparr>response_delayed := b\<rparr>) = delay_ok u"
  by (simp add: delay_ok_def)

lemma delay_step_ok:
  assumes "delay_ok u" and "delay_step a b f d u = (u', f')"
  shows "delay_ok u'"
proof -
  define w where "w = add_delay (max d 10) u"
  define avg where "avg = max (avg_delay w) 10"
  have "delay_ok w" using assms(1) by (simp add: w_def add_delay_ok)
  then have "delay_ok (fst (delay_step a b f d u))"
    unfolding delay_step_def Let_def fst_conv w_def [symmetric] avg_def [symmetric] DELAY_THRESHOLD_150MS_def
    by (auto simp: delay_ok_def)
  with assms(2) show ?thesis by simp
qed

lemma user_network_delay_inv:
  assumes "qos_inv s"
  shows "\<exists>s'. user_network_delay linux now c d s = Some s' \<and> qos_inv s'"
proof (cases "map_of (users s) c")
  case None
  with adjust_fps_inv [OF assms] show ?thesis by (auto simp: user_network_delay_def split_beta Let_def)
next
  case (Some u)
  obtain a b where ab: "fps_floor (quality_ratio (latest_quality s)) = (a, b)" by fastforce
  obtain dl f where st: "delay_step a b (fps s) d (delay u) = (dl, f)" by fastforce
  define f' where "f' = max MIN_FPS (min f (highest_fps s))"
  define s1 where "s1 = s\<lparr>users := AList.map_entry c (\<lambda>u. u\<lparr>delay := dl\<lparr>delay_fps := Some f'\<rparr>\<rparr>) (users s)\<rparr>"
  have "user_ok u" using Some assms by (auto simp: qos_inv_def dest!: map_of_SomeD)
  then have "delay_ok dl" using delay_step_ok [OF _ st] by (simp add: user_ok_def)
  moreover have "MIN_FPS \<le> f'" "f' \<le> MAX_FPS" using highest_fps_bounds [of s] by (auto simp: f'_def fps_consts)
  ultimately have "delay_ok (dl\<lparr>delay_fps := Some f'\<rparr>)" by (simp add: delay_ok_def fps_opt_ok_def)
  then have "qos_inv s1" unfolding s1_def by (intro inv_map_entry assms) (auto simp: user_ok_def)
  then obtain s2 where s2: "adjust_fps now s1 = Some s2" "qos_inv s2" using adjust_fps_inv by blast
  have cl: "clamp f MIN_FPS (highest_fps s) = Some f'"
    using highest_fps_bounds [of s] by (simp add: clamp_Some f'_def)
  have "user_network_delay linux now c d s =
      (if delay_fps dl = None \<and> \<not> linux then adjust_ratio now False s2 else Some s2)"
    by (simp add: user_network_delay_def ab st Some cl s2(1) s1_def [symmetric] Let_def)
  with adjust_ratio_inv [OF s2(2)] s2(2) show ?thesis by auto
qed

lemma user_delay_response_elapsed_inv:
  assumes "qos_inv s"
  shows "\<exists>s'. user_delay_response_elapsed now c e s = Some s' \<and> qos_inv s'"
proof -
  have "qos_inv (s\<lparr>users := AList.map_entry c
      (\<lambda>u. u\<lparr>delay := add_delay (e mod 2 ^ 32) ((delay u)\<lparr>response_delayed := True\<rparr>)\<rparr>) (users s)\<rparr>)"
    by (intro inv_map_entry assms) (use add_delay_ok in \<open>simp add: user_ok_def delay_ok_flag\<close>)
  moreover have "qos_inv (s\<lparr>users := AList.map_entry c
      (\<lambda>u. u\<lparr>delay := (delay u)\<lparr>response_delayed := False\<rparr>\<rparr>) (users s)\<rparr>)"
    by (intro inv_map_entry assms) (simp add: user_ok_def delay_ok_flag)
  ultimately show ?thesis using assms adjust_fps_inv
    by (auto simp: user_delay_response_elapsed_def split: option.splits)
qed

lemma update_display_data_inv:
  assumes "qos_inv s"
  shows "\<exists>s'. update_display_data now n k s = Some s' \<and> qos_inv s'"
proof -
  have "qos_inv (s\<lparr>displays := AList.map_entry n (\<lambda>d. d\<lparr>send_counter := send_counter d + k\<rparr>) (displays s)\<rparr>)"
    using assms by (simp add: qos_inv_def)
  from adjust_fps_inv [OF this, of now] obtain s1 where s1: "adjust_fps now
      (s\<lparr>displays := AList.map_entry n (\<lambda>d. d\<lparr>send_counter := send_counter d + k\<rparr>) (displays s)\<rparr>) = Some s1"
    "qos_inv s1" by blast
  have "qos_inv (s1\<lparr>displays := map (\<lambda>(n, d). (n, d\<lparr>send_counter := 0\<rparr>)) (displays s1)\<rparr>)"
    using s1(2) by (simp add: qos_inv_def split_beta comp_def)
  from adjust_ratio_inv [OF this] s1(2) show ?thesis
    using set_ratio_latest_inv [OF s1(2)] by (simp add: update_display_data_def s1(1) Let_def)
qed

lemma qos_step_inv:
  assumes "qos_inv s"
  shows "\<exists>s'. qos_step linux now e s = Some s' \<and> qos_inv s'"
proof (cases e)
  case (ConnectionOpen abr c)
  with assms set_alist_update [of c user_data_default "users s"] user_ok_default show ?thesis
    by (auto simp: on_connection_open_def qos_inv_def distinct_update)
next
  case (ConnectionClose c)
  with assms qos_default_inv [of now] show ?thesis
    by (auto simp: on_connection_close_def qos_inv_def Let_def AList.delete_eq distinct_map_filter)
next
  case (CustomFps c f)
  have "qos_inv (user_custom_fps c f s)" unfolding user_custom_fps_def
    by (auto intro!: inv_map_entry assms simp: user_ok_def fps_opt_ok_def)
  with CustomFps show ?thesis by simp
next
  case (AutoAdjustFps c f)
  have "qos_inv (user_auto_adjust_fps c f s)" unfolding user_auto_adjust_fps_def
    by (auto intro!: inv_map_entry assms simp: user_ok_def fps_opt_ok_def)
  with AutoAdjustFps show ?thesis by simp
next
  case (ImageQuality t c q)
  have "qos_inv (s\<lparr>users := AList.map_entry c (\<lambda>u. u\<lparr>quality := Some (t, convert_quality q)\<rparr>) (users s)\<rparr>)"
    by (intro inv_map_entry assms) (auto simp: user_ok_def convert_quality_ok)
  from set_ratio_latest_inv [OF this] ImageQuality assms show ?thesis
    by (auto simp: user_image_quality_def Let_def split: option.splits)
next
  case (Record c v)
  have "qos_inv (user_record c v s)" unfolding user_record_def
    by (intro inv_map_entry assms) (auto simp: user_ok_def)
  with Record show ?thesis by simp
next
  case (NewDisplay n)
  with assms show ?thesis by (simp add: new_display_def qos_inv_def distinct_update)
next
  case (RemoveDisplay n)
  with assms show ?thesis by (simp add: remove_display_def qos_inv_def AList.delete_eq distinct_map_filter)
next
  case Ratio
  with assms show ?thesis by (simp add: get_ratio_def qos_inv_def Let_def br_values)
qed (use assms user_network_delay_inv [OF assms] user_delay_response_elapsed_inv [OF assms] update_display_data_inv [OF assms]
     in \<open>auto simp: set_support_changing_quality_def store_bitrate_def qos_inv_def\<close>)

text \<open>C6: whatever calls the server makes on the video controller, in any order and at any time, no
  operation panics and the controller stays well formed: the frame rate in [1, 120], the ratio
  between the high-resolution floor and 1.5 times the largest custom quality, at most one entry per
  user and display, each user's settings, histories and counters within their bounds.\<close>

theorem qos_never_panics:
  "\<exists>s. qos_run linux es (qos_default t) = Some s \<and> qos_inv s"
proof -
  have "\<exists>s'. qos_run linux es s = Some s' \<and> qos_inv s'" if "qos_inv s" for s
    using that
  proof (induction es arbitrary: s)
    case (Cons a es)
    obtain now e where a: "a = (now, e)" by fastforce
    from qos_step_inv [OF Cons.prems] obtain s1 where "qos_step linux now e s = Some s1" "qos_inv s1" by blast
    with Cons.IH show ?case by (simp add: a)
  qed simp
  from this [OF qos_default_inv] show ?thesis .
qed

section \<open>What the adjustments compute\<close>

text \<open>A controller with one client on a quiet network that asked for the largest custom quality; the
  run below reaches it.\<close>

definition example_delay :: UserDelay where
  "example_delay = \<lparr>response_delayed = False, delay_history = [20], delay_fps = Some 30,
     rtt_calculator = \<lparr>min_rtt = Some 20, window_min_rtt = Some 20, smoothed_rtt = None, samples = [20]\<rparr>,
     quick_increase_fps_count = 1, increase_fps_count = 1\<rparr>"

definition example_qos :: VideoQoS where
  "example_qos = \<lparr>fps = 30, ratio = 40,
     users = [(1, \<lparr>auto_adjust_fps = None, custom_fps = None, quality = Some (7, Custom 40),
        delay = example_delay, record_flag = False\<rparr>)],
     displays = [(''d'', \<lparr>send_counter = 0, support_changing_quality = True\<rparr>)],
     bitrate_store = 0, adjust_ratio_instant = 0, abr_config = True, new_user_instant = 0\<rparr>"

lemma example_rounding:
  "f32_mul 40 (f32_round (23 / 20)) = 46" "f32_mul 40 (3 / 2) = 60" "f32_mul 40 MAX_BR_MULTIPLE = 60"
  by code_simp+

lemma convert_quality_example: "convert_quality 512000 = Custom 40"
  using f32_round_of_nat [of 40]
  by (simp add: convert_quality_def Let_def f32_of_u32_exact f32_div_def br_values)

lemma latest_quality_single:
  assumes "users s = [(c, u)]"
  shows "latest_quality s = (case quality u of None \<Rightarrow> Balanced | Some (_, q) \<Rightarrow> q)"
  by (cases "quality u") (auto simp: latest_quality_def iter_max_by_def assms)

lemma highest_fps_single:
  assumes "users s = [(c, u)]" and "1 \<le> user_fps u" and "user_fps u \<le> 120"
  shows "highest_fps s = user_fps u"
  using assms by (auto simp: highest_fps_def iter_min_def fps_consts)

lemma example_delay_step:
  "delay_step 8 16 30 20 user_delay_default = (example_delay\<lparr>delay_fps := None\<rparr>, 30)"
  by (simp add: delay_step_def Let_def avg_delay_def add_delay_def user_delay_default_def rtt_default_def
      rtt_update_def rtt_update_min_def rtt_evict_def rtt_push_def rtt_smooth_def get_rtt_def fps_consts
      WINDOW_SAMPLES_def MIN_SAMPLES_def delay_to_fps_def u32_add_def example_delay_def)

lemma example_adjust_fps:
  "adjust_fps now (example_qos\<lparr>displays := ds\<rparr>) = Some (example_qos\<lparr>displays := ds\<rparr>)"
proof -
  have "highest_fps (example_qos\<lparr>displays := ds\<rparr>) = 30"
    by (subst highest_fps_single) (auto simp: user_fps_def example_qos_def FPS_def)
  then show ?thesis
    by (simp add: adjust_fps_def Let_def clamp_Some fps_consts iter_min_def example_qos_def example_delay_def)
qed

lemma example_run:
  "qos_run True [(0, ConnectionOpen ''Y'' 1), (0, NewDisplay ''d''), (0, SetSupportChangingQuality ''d'' True),
      (0, ImageQuality 7 1 512000), (0, NetworkDelay 1 20)] (qos_default 0) = Some example_qos"
proof -
  let ?s = "example_qos\<lparr>users := [(1, user_data_default\<lparr>quality := Some (7, Custom 40)\<rparr>)]\<rparr>"
  have "qos_run True [(0, ConnectionOpen ''Y'' 1), (0, NewDisplay ''d''), (0, SetSupportChangingQuality ''d'' True),
      (0, ImageQuality 7 1 512000)] (qos_default 0) = Some ?s"
    by (simp add: qos_default_def on_connection_open_def new_display_def set_support_changing_quality_def
      user_image_quality_def convert_quality_example latest_quality_single user_data_default_def
      display_data_default_def Let_def example_qos_def FPS_def)
  moreover have "user_network_delay True 0 1 20 ?s = Some example_qos"
  proof -
    have h: "highest_fps ?s = 30" by (subst highest_fps_single) (auto simp: user_fps_def user_data_default_def FPS_def)
    have q: "fps_floor (quality_ratio (latest_quality ?s)) = (8, 16)"
      by (subst latest_quality_single) (auto simp: user_data_default_def fps_floor_def br_values)
    have st: "fps ?s = 30" "delay (user_data_default\<lparr>quality := Some (7, Custom 40)\<rparr>) = user_delay_default"
      by (simp_all add: example_qos_def user_data_default_def)
    have eq: "?s\<lparr>users := [(1, user_data_default\<lparr>quality := Some (7, Custom 40), delay := example_delay\<rparr>)]\<rparr> = example_qos"
      by (simp add: example_qos_def user_data_default_def)
    have d: "example_delay\<lparr>delay_fps := None, delay_fps := Some 30\<rparr> = example_delay"
      by (simp add: example_delay_def)
    show ?thesis
      using eq d by (simp add: user_network_delay_def h q st example_delay_step clamp_Some MIN_FPS_def
          example_adjust_fps [of _ "displays example_qos", simplified])
  qed
  ultimately show ?thesis by simp
qed

lemma example_facts:
  "qos_inv example_qos" "in_vbr_state example_qos" "latest_quality example_qos = Custom 40"
  "iter_max (map (\<lambda>(_, u). avg_delay (delay u)) (users example_qos)) = Some 20"
  by (auto simp: example_qos_def qos_inv_def fps_consts br_values user_ok_def fps_opt_ok_def delay_ok_def
      example_delay_def WINDOW_SAMPLES_def in_vbr_state_def latest_quality_single iter_max_def avg_delay_def get_rtt_def
      MIN_SAMPLES_def)

lemma example_adjust_ratio:
  "adjust_ratio now True (example_qos\<lparr>displays := [(''d'', \<lparr>send_counter = 0, support_changing_quality = True\<rparr>)]\<rparr>)
     = Some (example_qos\<lparr>ratio := 46, adjust_ratio_instant := now\<rparr>)"
proof -
  have eq: "example_qos\<lparr>displays := [(''d'', \<lparr>send_counter = 0, support_changing_quality = True\<rparr>)]\<rparr> = example_qos"
    by (simp add: example_qos_def)
  have st: "ratio example_qos = 40" "bitrate example_qos = 0" by (simp_all add: example_qos_def bitrate_def)
  show ?thesis
    unfolding eq adjust_ratio_def Let_def example_facts(3,4) using example_facts(2)
    by (simp add: st ratio_1mbps_def ratio_add_step_kbps_def scale_ratio_def example_rounding clamp_Some br_values
        del: One_nat_def)
qed

text \<open>After every frame rate adjustment the rate is at most what each user asked for (custom or
  auto-adjusted), is 2 at most while some client is not answering, and is 30 at most within a second of
  a new connection.\<close>

theorem adjust_fps_respects_users:
  assumes "adjust_fps now s = Some s'" and "qos_inv s"
  shows "(\<forall>(c, u) \<in> set (users s). fps s' \<le> user_fps u) \<and>
    ((\<exists>(c, u) \<in> set (users s). response_delayed (delay u)) \<longrightarrow> fps s' \<le> 2) \<and>
    (elapsed_secs now (new_user_instant s) < 1 \<longrightarrow> fps s' \<le> 30)"
proof -
  obtain f where f: "s' = s\<lparr>fps := f\<rparr>" "f \<le> highest_fps s"
    using adjust_fps_total [of now s] assms(1) by auto
  have "highest_fps s \<le> user_fps u" if "(c, u) \<in> set (users s)" for c u
  proof -
    let ?fs = "filter (\<lambda>f. f \<ge> MIN_FPS) (map (\<lambda>(_, u). user_fps u) (users s))"
    have "user_ok u" using assms(2) that by (auto simp: qos_inv_def)
    then have "MIN_FPS \<le> user_fps u"
      by (auto simp: user_ok_def fps_opt_ok_def user_fps_def Let_def fps_consts split: option.splits)
    with that have mem: "user_fps u \<in> set ?fs" by force
    then obtain m where "iter_min ?fs = Some m" "m \<le> user_fps u"
      by (metis empty_iff iter_min_None iter_min_Some list.set(1) not_None_eq)
    with \<open>MIN_FPS \<le> user_fps u\<close> show ?thesis by (simp add: highest_fps_def)
  qed
  moreover have "fps s' \<le> 2" if "\<exists>(c, u) \<in> set (users s). response_delayed (delay u)"
    using assms(1) that highest_fps_bounds [of s]
    by (auto simp: adjust_fps_def Let_def list_ex_iff clamp_Some fps_consts)
  moreover have "fps s' \<le> 30" if "elapsed_secs now (new_user_instant s) < 1"
    using assms(1) that highest_fps_bounds [of s]
    by (auto simp: adjust_fps_def Let_def clamp_Some fps_consts)
  ultimately show ?thesis using f by fastforce
qed

theorem adjust_fps_respects_users_witness:
  "adjust_fps 0 example_qos = Some example_qos \<and> fps example_qos \<le> 30"
proof -
  have eq: "adjust_fps 0 example_qos = Some example_qos"
    using example_adjust_fps [of 0 "displays example_qos"] by simp
  have "elapsed_secs 0 (new_user_instant example_qos) < 1"
    by (simp add: elapsed_secs_def)
  with eq adjust_fps_respects_users [OF eq example_facts(1)] show ?thesis by blast
qed

lemma f32_ceil_div_le:
  assumes "150 \<le> avg" and "avg \<le> 2 ^ 24" and "f \<le> 2 ^ 24"
  shows "f32_as_u32 (f32_ceil (f32_div (f32_of_u32 f) (f32_div (f32_of_u32 avg) (f32_of_u32 150)))) \<le> f"
proof -
  let ?d = "f32_div (f32_of_u32 avg) (f32_of_u32 150)"
  have "(1 :: rat) \<le> of_nat avg / 150" using assms(1) by simp
  then have "1 \<le> f32_round (of_nat avg / 150)"
    by (rule f32_round_ge [rotated]) (use f32_round_of_nat [of 1] in simp_all)
  then have d: "1 \<le> ?d" using assms(2) by (simp add: f32_div_def f32_of_u32_exact)
  then have "of_nat f / ?d \<le> of_nat f" "0 \<le> of_nat f / ?d"
    by (simp_all add: divide_le_eq mult_left_le_one_le mult_le_cancel_left1)
  then have "f32_round (of_nat f / ?d) \<le> of_nat f"
    by (intro f32_round_le) (use assms(3) in \<open>simp_all add: f32_round_of_nat\<close>)
  then have "\<lceil>f32_div (f32_of_u32 f) ?d\<rceil> \<le> int f"
    using assms(3) by (simp add: f32_div_def f32_of_u32_exact ceiling_le_iff)
  then show ?thesis by (auto simp: f32_as_u32_def f32_ceil_def min_def)
qed

text \<open>What the averaged delay of a client does to its frame rate: below 200 ms the rate never goes
  below the minimum of the quality mode, from 200 ms on it never goes above that minimum, and
  a delay of at least 150 ms never raises the rate above both.\<close>

theorem delay_to_fps_thresholds:
  assumes "f \<le> MAX_FPS" and "min_fps \<le> MAX_FPS" and "avg \<le> 2 ^ 24"
  shows "let f' = delay_to_fps min_fps normal_fps old_avg avg quick f in
    (avg < 200 \<longrightarrow> min_fps \<le> f') \<and> (200 \<le> avg \<longrightarrow> f' \<le> min_fps) \<and>
    (150 \<le> avg \<longrightarrow> f' \<le> max min_fps f) \<and> f' \<le> max min_fps (f + 5)"
proof -
  have a: "u32_add f k = f + k" if "k \<le> 5" for k
    using assms(1) that by (intro u32_add_small) (simp add: fps_consts)
  define dv where "dv = f32_as_u32 (f32_ceil (f32_div (f32_of_u32 f)
               (f32_div (f32_of_u32 avg) (f32_of_u32 150))))"
  have dv: "dv \<le> f" if "150 \<le> avg" using f32_ceil_div_le [OF that assms(3), of f] assms(1)
    by (simp add: dv_def fps_consts)
  have q: "150 * min_fps div avg \<le> min_fps" if "150 \<le> avg"
    using div_le_mono2 [of 150 avg "150 * min_fps"] that by simp
  show ?thesis
    unfolding delay_to_fps_def Let_def DELAY_THRESHOLD_150MS_def dv_def [symmetric]
    using dv q by (auto simp: a min_def max_def)
qed

theorem delay_to_fps_thresholds_witness:
  "delay_to_fps 10 20 150 250 0 30 \<le> 10"
  using delay_to_fps_thresholds [of 30 10 250 20 150 0] by (simp add: fps_consts Let_def)

text \<open>The adaptive ratio moves the right way: with a delay of 150 ms or more it never rises above
  its old value unless the floor of the quality mode forces it, below 150 ms it never falls unless
  the ceiling of the quality mode does, and it always ends between the two.\<close>

theorem adjust_ratio_direction:
  assumes "qos_inv s" and "in_vbr_state s" and "adjust_ratio now dyn s = Some s'"
    and "iter_max (map (\<lambda>(_, u). avg_delay (delay u)) (users s)) = Some d"
    and "f32_round (ratio s) = ratio s"
  defines "lo \<equiv> min_ratio (latest_quality s) (ratio_1mbps (ratio s) (bitrate s))"
    and "hi \<equiv> f32_mul (quality_ratio (latest_quality s)) MAX_BR_MULTIPLE"
  shows "lo \<le> ratio s' \<and> ratio s' \<le> hi \<and>
    (150 \<le> d \<longrightarrow> ratio s' \<le> max lo (ratio s)) \<and> (d < 150 \<longrightarrow> min hi (ratio s) \<le> ratio s')"
proof -
  define v where "v = scale_ratio d dyn (ratio s)"
  define w where "w = (case ratio_add_step_kbps (ratio s) (bitrate s) of
       Some r \<Rightarrow> if v > r \<and> r > ratio s \<and> ratio s \<ge> BR_SPEED then r else v | None \<Rightarrow> v)"
  have ok: "quality_ok (latest_quality s)" using assms(1) by (intro latest_quality_ok) (auto simp: qos_inv_def)
  have lohi: "lo \<le> hi" using hi_bounds [OF ok] by (simp add: lo_def hi_def)
  have pos: "0 \<le> ratio s" using assms(1) by (auto simp: qos_inv_def br_values)
  have r: "ratio s' = max lo (min w hi)"
    using assms(2-4) clamp_Some [OF lohi, of w]
    unfolding adjust_ratio_def Let_def v_def w_def lo_def hi_def by (auto simp del: split_paired_All)
  have down: "f32_mul (ratio s) c \<le> ratio s" if "0 \<le> c" "c \<le> 1" for c
    unfolding f32_mul_def using that pos assms(5) by (intro f32_round_le) (simp_all add: mult_left_le)
  have up: "ratio s \<le> f32_mul (ratio s) c" if "1 \<le> c" for c
    unfolding f32_mul_def using that pos assms(5) by (intro f32_round_ge) (simp_all add: mult_le_cancel_left1)
  have c: "0 \<le> f32_round (95 / 100)" "f32_round (95 / 100) \<le> 1" "0 \<le> f32_round (9 / 10)" "f32_round (9 / 10) \<le> 1"
    "0 \<le> f32_round (85 / 100)" "f32_round (85 / 100) \<le> 1" "0 \<le> f32_round (8 / 10)" "f32_round (8 / 10) \<le> 1"
    "1 \<le> f32_round (115 / 100)" "1 \<le> f32_round (11 / 10)" "1 \<le> f32_round (105 / 100)"
    by code_simp+
  have "v \<le> ratio s" if "150 \<le> d"
    using that down [OF c(1,2)] down [OF c(3,4)] down [OF c(5,6)] down [OF c(7,8)]
    unfolding v_def scale_ratio_def DELAY_THRESHOLD_150MS_def by simp
  moreover have "ratio s \<le> v" if "d < 150"
    using that up [OF c(9)] up [OF c(10)] up [OF c(11)]
    unfolding v_def scale_ratio_def DELAY_THRESHOLD_150MS_def by simp
  ultimately have "150 \<le> d \<Longrightarrow> w \<le> ratio s" "d < 150 \<Longrightarrow> ratio s \<le> w"
    by (auto simp: w_def split: option.splits)
  then show ?thesis using lohi by (auto simp: r)
qed

theorem adjust_ratio_direction_witness:
  "ratio example_qos \<le> ratio (example_qos\<lparr>ratio := 46, adjust_ratio_instant := 0\<rparr>)"
proof -
  have a: "adjust_ratio 0 True example_qos = Some (example_qos\<lparr>ratio := 46, adjust_ratio_instant := 0\<rparr>)"
    using example_adjust_ratio [of 0] by (simp add: example_qos_def)
  have r: "ratio example_qos = 40" "f32_round 40 = 40"
    using f32_round_of_nat [of 40] by (simp_all add: example_qos_def)
  show ?thesis
    using adjust_ratio_direction [OF example_facts(1,2) a example_facts(4)] r
    by (simp add: example_facts(3) example_rounding)
qed

text \<open>The ceiling of 1.5 times the target lets the ratio of a custom quality climb above the limit
  that \<open>ratio()\<close> accepts, and the accessor then throws the ratio away: with the largest custom quality
  (ratio 40), a fast network and a changing screen, one adjustment raises the ratio to 46 and the next
  read drops it to the balanced 0.8.\<close>

theorem custom_quality_collapses:
  "\<exists>s. qos_run True
     [(0, ConnectionOpen ''Y'' 1), (0, NewDisplay ''d''), (0, SetSupportChangingQuality ''d'' True),
      (0, ImageQuality 7 1 512000), (0, NetworkDelay 1 20),
      (3000000000, UpdateDisplayData ''d'' 4)] (qos_default 0) = Some s \<and>
    latest_quality s = Custom BR_MAX \<and> ratio s = 46 \<and> snd (get_ratio s) = BR_BALANCED"
proof -
  have app: "qos_run l (xs @ ys) s = do { s' \<leftarrow> qos_run l xs s; qos_run l ys s' }" for l xs ys s
    by (induction l xs s rule: qos_run.induct) (auto split: bind_splits)
  have vbr: "in_vbr_state (example_qos\<lparr>displays := [(''d'', \<lparr>send_counter = 4, support_changing_quality = True\<rparr>)]\<rparr>)"
    by (simp add: in_vbr_state_def example_qos_def)
  have u: "update_display_data 3000000000 ''d'' 4 example_qos
    = Some (example_qos\<lparr>ratio := 46, adjust_ratio_instant := 3000000000\<rparr>)"
    using vbr example_adjust_ratio [of 3000000000]
    by (simp add: update_display_data_def example_adjust_fps example_qos_def [THEN arg_cong, of displays]
        example_qos_def [THEN arg_cong, of adjust_ratio_instant] elapsed_secs_def fps_consts)
  have "latest_quality (example_qos\<lparr>ratio := r, adjust_ratio_instant := i\<rparr>) = Custom 40" for r i
    by (simp add: latest_quality_single example_qos_def)
  moreover have "qos_run True ([(0, ConnectionOpen ''Y'' 1), (0, NewDisplay ''d''), (0, SetSupportChangingQuality ''d'' True),
      (0, ImageQuality 7 1 512000), (0, NetworkDelay 1 20)] @ [(3000000000, UpdateDisplayData ''d'' 4)]) (qos_default 0)
    = Some (example_qos\<lparr>ratio := 46, adjust_ratio_instant := 3000000000\<rparr>)"
    unfolding app example_run by (simp add: u)
  ultimately show ?thesis
    by (intro exI [of _ "example_qos\<lparr>ratio := 46, adjust_ratio_instant := 3000000000\<rparr>"])
      (simp add: get_ratio_def br_values)
qed

end
