(* ===== verification/Std_Fs.thy ===== *)
theory Std_Fs
  imports Prelude "HOL-Library.AList" "HOL-Library.Sublist"
begin

text \<open>
  The parts of Rust's \<open>std::path\<close> and \<open>std::fs\<close> that the file transfer code calls, on a Unix
  file system held as an explicit state: a finite table from locations (the names from the root)
  to directories, files with their bytes and modification time (in nanoseconds), and symbolic links. Paths are strings;
  a call resolves its path name by name, follows links (at most forty, as Linux does), and returns
  an error value where the system call fails.
\<close>

section \<open>Paths\<close>

type_synonym path = string
type_synonym location = "string list"

datatype component = RootDir | CurDir | ParentDir | Normal string

definition is_absolute :: "path \<Rightarrow> bool" where
  "is_absolute p = (p \<noteq> [] \<and> hd p = CHR ''/'')"

text \<open>\<open>Path::components\<close>: empty names are dropped, and so is \<open>.\<close> except at the front of a relative path.\<close>

definition name_component :: "string \<Rightarrow> component" where
  "name_component s = (if s = ''..'' then ParentDir else Normal s)"

definition path_components :: "path \<Rightarrow> component list" where
  "path_components p =
     (let parts = split_on (CHR ''/'') p in
      (if is_absolute p then [RootDir] else if hd parts = ''.'' then [CurDir] else []) @
      map name_component (filter (\<lambda>s. s \<noteq> [] \<and> s \<noteq> ''.'') parts))"

text \<open>\<open>Path::join\<close>\<close>

definition path_join :: "path \<Rightarrow> path \<Rightarrow> path" where
  "path_join p name =
     (if is_absolute name then name
      else if p = [] \<or> last p = CHR ''/'' then p @ name else p @ CHR ''/'' # name)"

text \<open>\<open>Path::file_name\<close>\<close>

definition file_name :: "path \<Rightarrow> string option" where
  "file_name p =
     (case rev (path_components p) of Normal s # _ \<Rightarrow> Some s | _ \<Rightarrow> None)"

section \<open>The file system\<close>

datatype node = DirNode | FileNode bytes nat | LinkNode path

record Fs =
  nodes :: "(location \<times> node) list"
  cwd :: location
  readonly :: "location list"
  clock :: nat

definition node_at :: "Fs \<Rightarrow> location \<Rightarrow> node option" where
  "node_at fs q = (if q = [] then Some DirNode else map_of (nodes fs) q)"

definition put_node :: "location \<Rightarrow> node \<Rightarrow> Fs \<Rightarrow> Fs" where
  "put_node q v fs = fs\<lparr>nodes := AList.update q v (nodes fs)\<rparr>"

definition del_node :: "location \<Rightarrow> Fs \<Rightarrow> Fs" where
  "del_node q fs = fs\<lparr>nodes := AList.delete q (nodes fs)\<rparr>"

datatype fs_error = NotFoundErr | NotADirectory | IsADirectory | AlreadyExists | Denied
  | FilesystemLoop | InvalidPath | OtherFs

definition MAX_LINKS :: nat where "MAX_LINKS = 40"

function walk :: "nat \<Rightarrow> Fs \<Rightarrow> location \<Rightarrow> component list \<Rightarrow> fs_error + location" where
  "walk n fs cur [] = Inr cur"
| "walk n fs cur (RootDir # cs) = walk n fs [] cs"
| "walk n fs cur (CurDir # cs) = walk n fs cur cs"
| "walk n fs cur (ParentDir # cs) = walk n fs (butlast cur) cs"
| "walk n fs cur (Normal s # cs) =
     (case node_at fs (cur @ [s]) of
        Some (LinkNode t) \<Rightarrow>
          (case n of 0 \<Rightarrow> Inl FilesystemLoop | Suc m \<Rightarrow> walk m fs cur (path_components t @ cs))
      | Some DirNode \<Rightarrow> walk n fs (cur @ [s]) cs
      | Some (FileNode _ _) \<Rightarrow> if cs = [] then Inr (cur @ [s]) else Inl NotADirectory
      | None \<Rightarrow> if cs = [] then Inr (cur @ [s]) else Inl NotFoundErr)"
  by pat_completeness auto
termination by (relation "measures [\<lambda>(n, fs, cur, cs). n, \<lambda>(n, fs, cur, cs). length cs]") auto

definition resolve_components :: "Fs \<Rightarrow> component list \<Rightarrow> fs_error + location" where
  "resolve_components fs cs = walk MAX_LINKS fs (cwd fs) cs"

text \<open>
  The path a system call gets: an empty path does not exist, a null byte is refused by Rust, and a
  path that ends in a slash or a dot names a directory.
\<close>

definition names_directory :: "path \<Rightarrow> bool" where
  "names_directory p = (last (split_on (CHR ''/'') p) \<in> {[], ''.'', ''..''})"

definition resolve :: "Fs \<Rightarrow> path \<Rightarrow> fs_error + location" where
  "resolve fs p =
     (if p = [] then Inl NotFoundErr
      else if CHR 0x00 \<in> set p then Inl InvalidPath
      else case resolve_components fs (path_components p) of
        Inl e \<Rightarrow> Inl e
      | Inr q \<Rightarrow>
          if names_directory p \<and> node_at fs q \<noteq> Some DirNode
          then Inl (if node_at fs q = None then NotFoundErr else NotADirectory) else Inr q)"

text \<open>The directory entry a path names, its last name not followed if it is a link.\<close>

definition entry_of_components :: "Fs \<Rightarrow> component list \<Rightarrow> fs_error + location" where
  "entry_of_components fs cs =
     (case rev cs of
        Normal s # rcs \<Rightarrow>
          (case resolve_components fs (rev rcs) of
             Inl e \<Rightarrow> Inl e
           | Inr q \<Rightarrow> (case node_at fs q of
                 Some DirNode \<Rightarrow> Inr (q @ [s])
               | None \<Rightarrow> Inl NotFoundErr
               | _ \<Rightarrow> Inl NotADirectory))
      | _ \<Rightarrow> resolve_components fs cs)"

definition entry :: "Fs \<Rightarrow> path \<Rightarrow> fs_error + location" where
  "entry fs p =
     (if p = [] then Inl NotFoundErr
      else if CHR 0x00 \<in> set p then Inl InvalidPath
      else if names_directory p then resolve fs p
      else entry_of_components fs (path_components p))"

definition node_result :: "Fs \<Rightarrow> fs_error + location \<Rightarrow> fs_error + node" where
  "node_result fs r =
     (case r of Inl e \<Rightarrow> Inl e
      | Inr q \<Rightarrow> (case node_at fs q of None \<Rightarrow> Inl NotFoundErr | Some v \<Rightarrow> Inr v))"

definition metadata :: "Fs \<Rightarrow> path \<Rightarrow> fs_error + node" where
  "metadata fs p = node_result fs (resolve fs p)"

definition symlink_metadata :: "Fs \<Rightarrow> path \<Rightarrow> fs_error + node" where
  "symlink_metadata fs p = node_result fs (entry fs p)"

definition path_exists :: "Fs \<Rightarrow> path \<Rightarrow> bool" where
  "path_exists fs p = (case metadata fs p of Inr _ \<Rightarrow> True | Inl _ \<Rightarrow> False)"

definition is_dir :: "Fs \<Rightarrow> path \<Rightarrow> bool" where
  "is_dir fs p = (metadata fs p = Inr DirNode)"

definition is_file :: "Fs \<Rightarrow> path \<Rightarrow> bool" where
  "is_file fs p = (case metadata fs p of Inr (FileNode _ _) \<Rightarrow> True | _ \<Rightarrow> False)"

section \<open>Calls that change the file system\<close>

text \<open>Each returns the result and the new state; a failing call changes nothing.\<close>

definition file_create :: "path \<Rightarrow> Fs \<Rightarrow> (fs_error + location) \<times> Fs" where
  "file_create p fs =
     (case resolve fs p of
        Inl e \<Rightarrow> (Inl e, fs)
      | Inr q \<Rightarrow>
          if q \<in> set (readonly fs) then (Inl Denied, fs)
          else if node_at fs q = Some DirNode then (Inl IsADirectory, fs)
          else if node_at fs (butlast q) \<noteq> Some DirNode then (Inl NotFoundErr, fs)
          else (Inr q, put_node q (FileNode [] (clock fs)) fs))"

text \<open>\<open>OpenOptions::new().create(true).write(true).open(p)\<close>: nothing is truncated.\<close>

definition file_open_write :: "path \<Rightarrow> Fs \<Rightarrow> (fs_error + location) \<times> Fs" where
  "file_open_write p fs =
     (case resolve fs p of
        Inl e \<Rightarrow> (Inl e, fs)
      | Inr q \<Rightarrow>
          if q \<in> set (readonly fs) then (Inl Denied, fs)
          else (case node_at fs q of
              Some DirNode \<Rightarrow> (Inl IsADirectory, fs)
            | Some _ \<Rightarrow> (Inr q, fs)
            | None \<Rightarrow>
                if node_at fs (butlast q) \<noteq> Some DirNode then (Inl NotFoundErr, fs)
                else (Inr q, put_node q (FileNode [] (clock fs)) fs)))"

text \<open>Opening for reading: a handle on a directory is refused here; on Linux its first read fails.\<close>

definition file_open :: "path \<Rightarrow> Fs \<Rightarrow> fs_error + location" where
  "file_open p fs =
     (case resolve fs p of
        Inl e \<Rightarrow> Inl e
      | Inr q \<Rightarrow> (case node_at fs q of None \<Rightarrow> Inl NotFoundErr | Some DirNode \<Rightarrow> Inl IsADirectory | Some _ \<Rightarrow> Inr q))"

text \<open>Writing \<open>d\<close> at an offset of a file: a gap is filled with zeros.\<close>

definition overwrite_at :: "nat \<Rightarrow> bytes \<Rightarrow> bytes \<Rightarrow> bytes" where
  "overwrite_at pos d old =
     take pos old @ replicate (pos - length old) 0 @ d @ drop (pos + length d) old"

definition write_at :: "location \<Rightarrow> nat \<Rightarrow> bytes \<Rightarrow> Fs \<Rightarrow> (fs_error + unit) \<times> Fs" where
  "write_at q pos d fs =
     (case node_at fs q of
        Some (FileNode old _) \<Rightarrow> (Inr (), put_node q (FileNode (overwrite_at pos d old) (clock fs)) fs)
      | _ \<Rightarrow> (Inl OtherFs, fs))"

definition write_file :: "path \<Rightarrow> bytes \<Rightarrow> Fs \<Rightarrow> (fs_error + unit) \<times> Fs" where
  "write_file p d fs =
     (case file_create p fs of
        (Inl e, fs1) \<Rightarrow> (Inl e, fs1)
      | (Inr q, fs1) \<Rightarrow> write_at q 0 d fs1)"

definition fs_remove_file :: "path \<Rightarrow> Fs \<Rightarrow> (fs_error + unit) \<times> Fs" where
  "fs_remove_file p fs =
     (case entry fs p of
        Inl e \<Rightarrow> (Inl e, fs)
      | Inr q \<Rightarrow>
          if q \<in> set (readonly fs) then (Inl Denied, fs)
          else (case node_at fs q of
              None \<Rightarrow> (Inl NotFoundErr, fs)
            | Some DirNode \<Rightarrow> (Inl IsADirectory, fs)
            | Some _ \<Rightarrow> (Inr (), del_node q fs)))"

text \<open>A renamed directory takes everything below it along.\<close>

definition move_location :: "location \<Rightarrow> location \<Rightarrow> location \<Rightarrow> location" where
  "move_location src dst q = (if prefix src q then dst @ drop (length src) q else q)"

definition has_children :: "Fs \<Rightarrow> location \<Rightarrow> bool" where
  "has_children fs q = list_ex (\<lambda>(x, _). strict_prefix q x) (nodes fs)"

definition fs_rename :: "path \<Rightarrow> path \<Rightarrow> Fs \<Rightarrow> (fs_error + unit) \<times> Fs" where
  "fs_rename p1 p2 fs =
     (case (entry fs p1, entry fs p2) of
        (Inr src, Inr dst) \<Rightarrow>
          if src \<in> set (readonly fs) \<or> dst \<in> set (readonly fs) then (Inl Denied, fs)
          else (case node_at fs src of
              None \<Rightarrow> (Inl NotFoundErr, fs)
            | Some v \<Rightarrow>
                if src = dst then (Inr (), fs)
                else if prefix src dst then (Inl OtherFs, fs)
                else if v = DirNode then
                  (if node_at fs dst = None \<or> (node_at fs dst = Some DirNode \<and> \<not> has_children fs dst)
                   then (Inr (), fs\<lparr>nodes := map (\<lambda>(x, w). (move_location src dst x, w))
                                     (AList.delete dst (nodes fs))\<rparr>)
                   else (Inl OtherFs, fs))
                else if node_at fs dst = Some DirNode then (Inl IsADirectory, fs)
                else (Inr (), put_node dst v (del_node src fs)))
      | (Inl e, _) \<Rightarrow> (Inl e, fs)
      | (_, Inl e) \<Rightarrow> (Inl e, fs))"

text \<open>\<open>filetime::set_file_mtime\<close> with a time in whole seconds.\<close>

definition set_file_mtime :: "path \<Rightarrow> nat \<Rightarrow> Fs \<Rightarrow> (fs_error + unit) \<times> Fs" where
  "set_file_mtime p t fs =
     (case resolve fs p of
        Inl e \<Rightarrow> (Inl e, fs)
      | Inr q \<Rightarrow> (case node_at fs q of
            Some (FileNode d _) \<Rightarrow> (Inr (), put_node q (FileNode d (t * 10 ^ 9)) fs)
          | Some _ \<Rightarrow> (Inr (), fs)
          | None \<Rightarrow> (Inl NotFoundErr, fs)))"

definition mkdir_components :: "component list \<Rightarrow> Fs \<Rightarrow> (fs_error + unit) \<times> Fs" where
  "mkdir_components cs fs =
     (case entry_of_components fs cs of
        Inl e \<Rightarrow> (Inl e, fs)
      | Inr q \<Rightarrow>
          if node_at fs q \<noteq> None then (Inl AlreadyExists, fs)
          else if q \<in> set (readonly fs) then (Inl Denied, fs)
          else (Inr (), put_node q DirNode fs))"

definition is_dir_components :: "Fs \<Rightarrow> component list \<Rightarrow> bool" where
  "is_dir_components fs cs =
     (case resolve_components fs cs of Inr q \<Rightarrow> node_at fs q = Some DirNode | Inl _ \<Rightarrow> False)"

text \<open>\<open>create_dir_all\<close>: make the directory; when its parent is missing, make that first.\<close>

function create_dir_all_components :: "component list \<Rightarrow> Fs \<Rightarrow> (fs_error + unit) \<times> Fs" where
  "create_dir_all_components cs fs =
     (if cs = [] then (Inr (), fs)
      else case mkdir_components cs fs of
        (Inr _, fs1) \<Rightarrow> (Inr (), fs1)
      | (Inl e, _) \<Rightarrow>
          if e \<noteq> NotFoundErr then
            (if is_dir_components fs cs then (Inr (), fs) else (Inl e, fs))
          else if last cs = RootDir then (Inl e, fs)
          else case create_dir_all_components (butlast cs) fs of
              (Inl e1, fs1) \<Rightarrow> (Inl e1, fs1)
            | (Inr _, fs1) \<Rightarrow>
                (case mkdir_components cs fs1 of
                   (Inr _, fs2) \<Rightarrow> (Inr (), fs2)
                 | (Inl e2, _) \<Rightarrow> if is_dir_components fs1 cs then (Inr (), fs1) else (Inl e2, fs1)))"
  by pat_completeness auto
termination by (relation "measure (\<lambda>(cs, fs). length cs)") auto

declare create_dir_all_components.simps [simp del]

section \<open>Facts on paths\<close>

lemma split_on_nonempty [simp]: "split_on c xs \<noteq> []"
  by (induction xs) (auto split: list.splits)

lemma split_on_append_sep: "split_on c (xs @ c # ys) = split_on c xs @ split_on c ys"
  by (induction xs) (auto split: list.splits)

lemma split_on_append_names:
  "filter (\<lambda>s. s \<noteq> [] \<and> P s) (split_on c (xs @ [c])) = filter (\<lambda>s. s \<noteq> [] \<and> P s) (split_on c xs)"
  using split_on_append_sep [of c xs "[]"] by simp

lemma hd_split_on_append: "p \<noteq> [] \<Longrightarrow> hd (split_on c (p @ c # q)) = hd (split_on c p)"
  by (simp add: split_on_append_sep)

section \<open>Facts on the table\<close>

lemma node_at_root [simp]: "node_at fs [] = Some DirNode"
  by (simp add: node_at_def)

lemma node_at_put [simp]:
  "node_at (put_node q v fs) x = (if x = q \<and> q \<noteq> [] then Some v else node_at fs x)"
  by (auto simp: node_at_def put_node_def update_conv')

lemma node_at_del [simp]:
  "node_at (del_node q fs) x = (if x = q \<and> q \<noteq> [] then None else node_at fs x)"
  by (auto simp: node_at_def del_node_def delete_conv')

lemma put_node_fields [simp]:
  "cwd (put_node q v fs) = cwd fs" "clock (put_node q v fs) = clock fs" "readonly (put_node q v fs) = readonly fs"
  by (simp_all add: put_node_def)

lemma del_node_fields [simp]:
  "cwd (del_node q fs) = cwd fs" "clock (del_node q fs) = clock fs" "readonly (del_node q fs) = readonly fs"
  by (simp_all add: del_node_def)

end
