(* ===== verification/File_Transfer.thy ===== *)
theory File_Transfer
  imports Std_Fs
begin

text \<open>
  File transfer (\<open>libs/hbb_common/src/fs.rs\<close>, \<open>libs/hbb_common/src/compress.rs\<close>): the checks on
  file names, the transfer job with its write, read, confirmation and resume operations, the job
  list the server drives, and the overwrite detection. The build is the Unix one. The compressor
  (zstd) and the JSON form of a digest (serde) are parameters. An operation on a job returns its
  result, the new job and the new file system; \<open>None\<close> of \<open>confirm\<close> is a panic.
\<close>

section \<open>Third-party code\<close>

record FileDigest =
  dg_size :: nat
  dg_modified :: nat

record Env =
  zstd_compress :: "bytes \<Rightarrow> bytes option"
  zstd_decode :: "bytes \<Rightarrow> bytes option"
  digest_to_json :: "FileDigest \<Rightarrow> bytes"
  digest_from_json :: "bytes \<Rightarrow> FileDigest option"

definition compress :: "Env \<Rightarrow> bytes \<Rightarrow> bytes" where
  "compress env data = (case zstd_compress env data of Some res \<Rightarrow> res | None \<Rightarrow> [])"

definition decompress :: "Env \<Rightarrow> bytes \<Rightarrow> bytes" where
  "decompress env data = (case zstd_decode env data of Some res \<Rightarrow> res | None \<Rightarrow> [])"

text \<open>What is relied upon of the compressor: it succeeds, and decoding gives the data back.\<close>

definition zstd_ok :: "Env \<Rightarrow> bool" where
  "zstd_ok env \<longleftrightarrow> (\<forall>x. \<exists>c. zstd_compress env x = Some c \<and> zstd_decode env c = Some x)"

section \<open>Data\<close>

datatype transfer_error = Bail string | FsErr fs_error

datatype FileType = Dir | DirLink | DirDrive | File | FileLink

record FileEntry =
  entry_type :: FileType
  name :: string
  is_hidden :: bool
  size :: nat
  modified_time :: nat

datatype JobType = Generic | Printer

definition job_type_from_i32 :: "int \<Rightarrow> JobType" where
  "job_type_from_i32 v = (if v = 0 then Generic else if v = 1 then Printer else Generic)"

definition job_type_into_i32 :: "JobType \<Rightarrow> int" where
  "job_type_into_i32 t = (case t of Generic \<Rightarrow> 0 | Printer \<Rightarrow> 1)"

text \<open>A cursor is its bytes and its position.\<close>

datatype DataSource = FilePath path | MemoryCursor bytes nat

fun data_source_to_meta :: "DataSource \<Rightarrow> string" where
  "data_source_to_meta (FilePath p) = p"
| "data_source_to_meta (MemoryCursor _ _) = []"

text \<open>An open file is the location it was opened at and the position in it.\<close>

datatype DataStream = FileStream location nat | BufStream bytes nat

record FileTransferBlock =
  blk_id :: int
  blk_file_num :: int
  blk_data :: bytes
  blk_compressed :: bool

record FileTransferDigest =
  fd_id :: int
  fd_file_num :: int
  fd_last_modified :: nat
  fd_file_size :: nat
  fd_is_identical :: bool
  fd_transferred_size :: nat
  fd_is_resume :: bool

datatype confirm_union = Skip bool | OffsetBlk nat

record FileTransferSendConfirmRequest =
  cf_id :: int
  cf_file_num :: int
  cf_union :: "confirm_union option"

record TransferJob =
  job_id :: int
  job_type :: JobType
  remote :: string
  data_source :: DataSource
  show_hidden :: bool
  is_remote :: bool
  is_last_job :: bool
  is_resume :: bool
  file_num :: int
  files :: "FileEntry list"
  conn_id :: int
  data_stream :: "DataStream option"
  total_size :: nat
  finished_size :: nat
  transferred :: nat
  enable_overwrite_detection :: bool
  file_confirmed :: bool
  file_skipped :: bool
  file_is_waiting :: bool
  default_overwrite_strategy :: "bool option"
  digest :: FileDigest

record TransferJobMeta =
  tm_id :: int
  tm_remote :: string
  tm_to :: string
  tm_show_hidden :: bool
  tm_file_num :: int
  tm_is_remote :: bool

section \<open>Checks on names\<close>

definition get_ext :: "string \<Rightarrow> string" where
  "get_ext n = (if CHR ''.'' \<in> set n then rev (takeWhile (\<lambda>c. c \<noteq> CHR ''.'') (rev n)) else [])"

definition is_compressed_file :: "string \<Rightarrow> bool" where
  "is_compressed_file n =
     (get_ext n \<in> set [''xz'', ''gz'', ''zip'', ''7z'', ''rar'', ''bz2'', ''tgz'', ''png'', ''jpg''])"

definition validate_file_name_no_traversal :: "string \<Rightarrow> transfer_error + unit" where
  "validate_file_name_no_traversal n =
     (if CHR 0x00 \<in> set n then Inl (Bail ''file name contains null bytes'')
      else if list_ex (\<lambda>s. s = ''..'') (filter (\<lambda>s. s \<noteq> []) (split_on (CHR ''/'') n))
        then Inl (Bail ''path traversal detected in file name'')
      else if is_absolute n then Inl (Bail ''absolute path detected in file name'')
      else Inr ())"

fun validate_each :: "FileEntry list \<Rightarrow> transfer_error + unit" where
  "validate_each [] = Inr ()"
| "validate_each (f # fs) =
     (if name f = [] then Inl (Bail ''empty file name in multi-file transfer'')
      else case validate_file_name_no_traversal (name f) of
        Inl e \<Rightarrow> Inl e
      | Inr _ \<Rightarrow> validate_each fs)"

definition validate_transfer_file_names :: "FileEntry list \<Rightarrow> transfer_error + unit" where
  "validate_transfer_file_names fs =
     (if length fs = 1 \<and> name (hd fs) = [] then Inr () else validate_each fs)"

definition validate_fs_path_argument :: "path \<Rightarrow> string \<Rightarrow> transfer_error + unit" where
  "validate_fs_path_argument p arg_name =
     (if p = [] then Inl (Bail (arg_name @ '' cannot be empty''))
      else if CHR 0x00 \<in> set p then Inl (Bail (arg_name @ '' contains null bytes''))
      else Inr ())"

fun check_symlinks :: "Fs \<Rightarrow> path \<Rightarrow> component list \<Rightarrow> transfer_error + unit" where
  "check_symlinks fs current [] = Inr ()"
| "check_symlinks fs current (Normal seg # cs) =
     (let current = path_join current seg in
      case symlink_metadata fs current of
        Inr (LinkNode _) \<Rightarrow> Inl (Bail ''symlink path component is not allowed'')
      | Inr _ \<Rightarrow> check_symlinks fs current cs
      | Inl e \<Rightarrow> if e = NotFoundErr then check_symlinks fs current cs
                else Inl (Bail ''failed to validate path component''))"
| "check_symlinks fs current (CurDir # cs) = check_symlinks fs current cs"
| "check_symlinks fs current (_ # cs) = Inl (Bail ''invalid file name component'')"

definition validate_no_symlink_components :: "Fs \<Rightarrow> path \<Rightarrow> string \<Rightarrow> transfer_error + unit" where
  "validate_no_symlink_components fs base n =
     (if n = [] then Inr () else check_symlinks fs base (path_components n))"

definition job_join :: "path \<Rightarrow> string \<Rightarrow> path" where
  "job_join p n = (if n = [] then p else path_join p n)"

definition join_validated_path :: "Fs \<Rightarrow> path \<Rightarrow> string \<Rightarrow> transfer_error + path" where
  "join_validated_path fs base n =
     (case validate_file_name_no_traversal n of
        Inl e \<Rightarrow> Inl e
      | Inr _ \<Rightarrow> (case validate_no_symlink_components fs base n of
            Inl e \<Rightarrow> Inl e
          | Inr _ \<Rightarrow> Inr (job_join base n)))"

section \<open>Jobs\<close>

definition job_default :: TransferJob where
  "job_default = \<lparr>job_id = 0, job_type = Generic, remote = [], data_source = FilePath [],
     show_hidden = False, is_remote = False, is_last_job = False, is_resume = False, file_num = 0,
     files = [], conn_id = 0, data_stream = None, total_size = 0, finished_size = 0, transferred = 0,
     enable_overwrite_detection = False, file_confirmed = False, file_skipped = False,
     file_is_waiting = False, default_overwrite_strategy = None,
     digest = \<lparr>dg_size = 0, dg_modified = 0\<rparr>\<rparr>"

definition new_write :: "int \<Rightarrow> JobType \<Rightarrow> string \<Rightarrow> DataSource \<Rightarrow> int \<Rightarrow> bool \<Rightarrow> bool \<Rightarrow> bool \<Rightarrow> TransferJob" where
  "new_write i t rem src num hidden is_rem detect =
     job_default\<lparr>job_id := i, job_type := t, remote := rem, data_source := src, file_num := num,
       show_hidden := hidden, is_remote := is_rem, files := [], total_size := 0,
       enable_overwrite_detection := detect\<rparr>"

definition sum_sizes :: "FileEntry list \<Rightarrow> nat" where
  "sum_sizes fs = sum_list (map size fs) mod 2 ^ 64"

fun first_error :: "('a \<Rightarrow> 'e + unit) \<Rightarrow> 'a list \<Rightarrow> 'e + unit" where
  "first_error f [] = Inr ()"
| "first_error f (x # xs) = (case f x of Inl e \<Rightarrow> Inl e | Inr _ \<Rightarrow> first_error f xs)"

definition set_files :: "FileEntry list \<Rightarrow> Fs \<Rightarrow> TransferJob \<Rightarrow> (transfer_error + unit) \<times> TransferJob" where
  "set_files fl fs job =
     (case validate_transfer_file_names fl of
        Inl e \<Rightarrow> (Inl e, job)
      | Inr _ \<Rightarrow>
          (case (case data_source job of
                   FilePath base \<Rightarrow> first_error (\<lambda>f. validate_no_symlink_components fs base (name f)) fl
                 | MemoryCursor _ _ \<Rightarrow> Inr ()) of
             Inl e \<Rightarrow> (Inl e, job)
           | Inr _ \<Rightarrow> (Inr (), job\<lparr>total_size := sum_sizes fl, files := fl\<rparr>)))"

definition with_files :: "FileEntry list \<Rightarrow> Fs \<Rightarrow> TransferJob \<Rightarrow> transfer_error + TransferJob" where
  "with_files fl fs job = (case set_files fl fs job of (Inl e, _) \<Rightarrow> Inl e | (Inr _, job') \<Rightarrow> Inr job')"

definition get_buf_data :: "TransferJob \<Rightarrow> bytes option" where
  "get_buf_data job = (case data_stream job of Some (BufStream b _) \<Rightarrow> Some b | _ \<Rightarrow> None)"

definition set_digest :: "nat \<Rightarrow> nat \<Rightarrow> TransferJob \<Rightarrow> TransferJob" where
  "set_digest sz md job = job\<lparr>digest := \<lparr>dg_size = sz, dg_modified = md\<rparr>\<rparr>"

definition resolve_entry_path :: "Fs \<Rightarrow> TransferJob \<Rightarrow> path \<Rightarrow> string \<Rightarrow> path option" where
  "resolve_entry_path fs job base n =
     (if job_type job = Generic then
        (case join_validated_path fs base n of Inr p \<Rightarrow> Some p | Inl _ \<Rightarrow> None)
      else Some (job_join base n))"

definition download_path :: "path \<Rightarrow> path" where "download_path p = p @ ''.download''"
definition digest_path :: "path \<Rightarrow> path" where "digest_path p = p @ ''.digest''"

definition modify_time :: "TransferJob \<Rightarrow> Fs \<Rightarrow> Fs" where
  "modify_time job fs =
     (if job_type job = Printer then fs
      else case data_source job of
        MemoryCursor _ _ \<Rightarrow> fs
      | FilePath p \<Rightarrow>
          (let n = as_usize (file_num job) in
           if n < length (files job) then
             (case resolve_entry_path fs job p (name (files job ! n)) of
                None \<Rightarrow> fs
              | Some q \<Rightarrow>
                  (let fs1 = snd (fs_remove_file (digest_path q) fs);
                       fs2 = snd (fs_rename (download_path q) q fs1)
                   in snd (set_file_mtime q (modified_time (files job ! n)) fs2)))
           else fs))"

definition remove_download_file :: "TransferJob \<Rightarrow> Fs \<Rightarrow> Fs" where
  "remove_download_file job fs =
     (if job_type job = Printer then fs
      else case data_source job of
        MemoryCursor _ _ \<Rightarrow> fs
      | FilePath p \<Rightarrow>
          (let n = as_usize (file_num job) in
           if n < length (files job) then
             (case resolve_entry_path fs job p (name (files job ! n)) of
                None \<Rightarrow> fs
              | Some q \<Rightarrow> snd (fs_remove_file (digest_path q) (snd (fs_remove_file (download_path q) fs))))
           else fs))"

definition set_finished_size_on_resume :: "TransferJob \<Rightarrow> TransferJob" where
  "set_finished_size_on_resume job =
     (if is_resume job \<and> file_num job > 0
      then job\<lparr>finished_size := sum_sizes (take (as_usize (file_num job)) (files job))\<rparr> else job)"

subsection \<open>Writing a block\<close>

text \<open>\<open>DataStream::write_all\<close>\<close>

definition stream_write_all :: "bytes \<Rightarrow> DataStream \<Rightarrow> Fs \<Rightarrow> (transfer_error + DataStream) \<times> Fs" where
  "stream_write_all d st fs =
     (case st of
        FileStream q pos \<Rightarrow>
          (case write_at q pos d fs of
             (Inl e, fs1) \<Rightarrow> (Inl (FsErr e), fs1)
           | (Inr _, fs1) \<Rightarrow> (Inr (FileStream q (pos + length d)), fs1))
      | BufStream b pos \<Rightarrow> (Inr (BufStream (overwrite_at pos d b) (pos + length d)), fs))"

text \<open>\<open>Path::parent\<close> and \<open>create_dir_all\<close> of it, its result ignored.\<close>

definition create_parent :: "path \<Rightarrow> Fs \<Rightarrow> Fs" where
  "create_parent p fs =
     (let cs = path_components p in
      if cs = [] \<or> last cs = RootDir then fs
      else if CHR 0x00 \<in> set p then fs
      else snd (create_dir_all_components (butlast cs) fs))"

text \<open>The branch of \<open>write\<close> that opens the file of a new block.\<close>

definition write_open :: "Env \<Rightarrow> path \<Rightarrow> FileTransferBlock \<Rightarrow> TransferJob \<Rightarrow> Fs \<Rightarrow>
    (transfer_error + unit) \<times> TransferJob \<times> Fs" where
  "write_open env p block job fs0 =
     (let fs = modify_time job fs0;
          job = job\<lparr>file_num := blk_file_num block\<rparr>;
          e = files job ! as_usize (blk_file_num block);
          paths = (if job_type job = Printer then Inr (p, None, fs)
                   else case join_validated_path fs p (name e) of
                     Inl er \<Rightarrow> Inl er
                   | Inr path \<Rightarrow> Inr (download_path path, Some (digest_path path), create_parent path fs))
      in case paths of
           Inl er \<Rightarrow> (Inl er, job, fs)
         | Inr (path, dp, fs1) \<Rightarrow>
             (let (r, fs2) = (case dp of
                     Some d \<Rightarrow> if path_exists fs1 d then fs_remove_file d fs1 else (Inr (), fs1)
                   | None \<Rightarrow> (Inr (), fs1))
              in case r of
                   Inl er \<Rightarrow> (Inl (FsErr er), job, fs2)
                 | Inr _ \<Rightarrow>
                     (case file_create path fs2 of
                        (Inl er, fs3) \<Rightarrow> (Inl (FsErr er), job, fs3)
                      | (Inr q, fs3) \<Rightarrow>
                          (Inr (), job\<lparr>data_stream := Some (FileStream q 0)\<rparr>,
                           (case dp of Some d \<Rightarrow> snd (write_file d (digest_to_json env (digest job)) fs3)
                                     | None \<Rightarrow> fs3)))))"

definition write_prepare :: "Env \<Rightarrow> FileTransferBlock \<Rightarrow> TransferJob \<Rightarrow> Fs \<Rightarrow>
    (transfer_error + unit) \<times> TransferJob \<times> Fs" where
  "write_prepare env block job fs =
     (case data_source job of
        FilePath p \<Rightarrow>
          if as_usize (blk_file_num block) \<ge> length (files job)
          then (Inl (Bail ''Wrong file number''), job, fs)
          else if as_usize (blk_file_num block) \<noteq> as_usize (file_num job) \<or> data_stream job = None
          then write_open env p block job fs
          else (Inr (), job, fs)
      | MemoryCursor b pos \<Rightarrow>
          if data_stream job = None then (Inr (), job\<lparr>data_stream := Some (BufStream b pos)\<rparr>, fs)
          else (Inr (), job, fs))"

definition block_bytes :: "Env \<Rightarrow> FileTransferBlock \<Rightarrow> bytes" where
  "block_bytes env block = (if blk_compressed block then decompress env (blk_data block) else blk_data block)"

definition write_data :: "Env \<Rightarrow> FileTransferBlock \<Rightarrow> TransferJob \<Rightarrow> Fs \<Rightarrow>
    (transfer_error + unit) \<times> TransferJob \<times> Fs" where
  "write_data env block job fs =
     (let d = block_bytes env block in
      case data_stream job of
        None \<Rightarrow> (Inl (Bail (if blk_compressed block then ''data stream is None'' else ''file is None'')), job, fs)
      | Some st \<Rightarrow>
          (case stream_write_all d st fs of
             (Inl e, fs1) \<Rightarrow> (Inl e, job, fs1)
           | (Inr st', fs1) \<Rightarrow>
               (Inr (), job\<lparr>data_stream := Some st',
                  finished_size := u64_add (finished_size job) (length d),
                  transferred := u64_add (transferred job) (length (blk_data block))\<rparr>, fs1)))"

definition write_block :: "Env \<Rightarrow> FileTransferBlock \<Rightarrow> TransferJob \<Rightarrow> Fs \<Rightarrow>
    (transfer_error + unit) \<times> TransferJob \<times> Fs" where
  "write_block env block job fs =
     (if blk_id block \<noteq> job_id job then (Inl (Bail ''Wrong id''), job, fs)
      else case write_prepare env block job fs of
        (Inl e, job1, fs1) \<Rightarrow> (Inl e, job1, fs1)
      | (Inr _, job1, fs1) \<Rightarrow> write_data env block job1 fs1)"

subsection \<open>Reading blocks\<close>

definition BUF_SIZE :: nat where "BUF_SIZE = 128 * 1024"

text \<open>
  \<open>DataStream::read\<close> of at most \<open>space\<close> bytes. A call may return fewer bytes than are there:
  \<open>grab\<close> is how many the system hands over at each position, never none before the end.
\<close>

definition stream_read :: "(nat \<Rightarrow> nat) \<Rightarrow> nat \<Rightarrow> DataStream \<Rightarrow> Fs \<Rightarrow> fs_error + bytes \<times> DataStream" where
  "stream_read grab space st fs =
     (case st of
        FileStream q pos \<Rightarrow>
          (case node_at fs q of
             Some (FileNode d _) \<Rightarrow>
               (let b = take (min space (max 1 (grab pos))) (drop pos d)
                in Inr (b, FileStream q (pos + length b)))
           | _ \<Rightarrow> Inl IsADirectory)
      | BufStream d pos \<Rightarrow>
          (let b = take (min space (max 1 (grab pos))) (drop pos d)
           in Inr (b, BufStream d (pos + length b))))"

text \<open>The loop that fills the buffer; \<open>acc\<close> is \<open>buf[..offset]\<close>.\<close>

function read_loop :: "(nat \<Rightarrow> nat) \<Rightarrow> bytes \<Rightarrow> DataStream \<Rightarrow> Fs \<Rightarrow> fs_error + bytes \<times> DataStream" where
  "read_loop grab acc st fs =
     (case stream_read grab (BUF_SIZE - length acc) st fs of
        Inl e \<Rightarrow> Inl e
      | Inr (b, st') \<Rightarrow>
          if b = [] \<or> length acc + length b \<ge> BUF_SIZE then Inr (acc @ b, st')
          else read_loop grab (acc @ b) st' fs)"
  by pat_completeness auto
termination
  by (relation "measure (\<lambda>(grab, acc, st, fs). BUF_SIZE - length acc)") (auto simp: neq_Nil_conv)

declare read_loop.simps [simp del]

definition next_file :: "TransferJob \<Rightarrow> TransferJob" where
  "next_file job = job\<lparr>file_num := i32_add (file_num job) 1, data_stream := None,
     file_confirmed := False, file_is_waiting := False\<rparr>"

text \<open>The name that decides about compression.\<close>

definition read_name :: "TransferJob \<Rightarrow> string" where
  "read_name job =
     (case data_source job of
        FilePath p \<Rightarrow>
          (let e = files job ! as_usize (file_num job) in
           if length (files job) = 1 \<and> name e = []
           then (case file_name p of Some n \<Rightarrow> n | None \<Rightarrow> []) else name e)
      | MemoryCursor _ _ \<Rightarrow> [])"

definition from_file :: "TransferJob \<Rightarrow> bool" where
  "from_file job = (case data_source job of FilePath _ \<Rightarrow> True | MemoryCursor _ _ \<Rightarrow> False)"

text \<open>What becomes of the buffer: whether it goes out compressed.\<close>

definition pack_block :: "Env \<Rightarrow> TransferJob \<Rightarrow> bytes \<Rightarrow> bytes \<times> bool" where
  "pack_block env job buf =
     (if from_file job \<and> \<not> is_compressed_file (read_name job) then
        (let tmp = compress env buf in
         if length tmp < length buf then (tmp, True) else (buf, False))
      else (buf, False))"

definition read_block :: "Env \<Rightarrow> (nat \<Rightarrow> nat) \<Rightarrow> TransferJob \<Rightarrow> Fs \<Rightarrow>
    (transfer_error + FileTransferBlock option) \<times> TransferJob" where
  "read_block env grab job fs =
     (if job_type job = Generic \<and> enable_overwrite_detection job \<and> \<not> file_confirmed job then (Inr None, job)
      else if from_file job \<and> as_usize (file_num job) \<ge> length (files job)
      then (Inr None, job\<lparr>data_stream := None\<rparr>)
      else case data_stream job of
        None \<Rightarrow> (Inl (Bail ''data stream is None''), job)
      | Some st \<Rightarrow>
          (case read_loop grab [] st fs of
             Inl e \<Rightarrow> (Inl (FsErr e), next_file job)
           | Inr (buf, st') \<Rightarrow>
               if buf = [] \<and> \<not> from_file job then (Inr None, job\<lparr>data_stream := None\<rparr>)
               else
                 (let (d, c) = (if buf = [] then ([], False) else pack_block env job buf);
                      job' = (if buf = [] then next_file job
                              else job\<lparr>data_stream := Some st',
                                finished_size := u64_add (finished_size job) (length buf),
                                transferred := u64_add (transferred job) (length d)\<rparr>)
                  in (Inr (Some \<lparr>blk_id = job_id job, blk_file_num = file_num job,
                        blk_data = d, blk_compressed = c\<rparr>), job'))))"

text \<open>Opening the current file for reading. \<open>Ok(true)\<close>: the job is done.\<close>

definition open_data_stream :: "TransferJob \<Rightarrow> Fs \<Rightarrow> (transfer_error + bool) \<times> TransferJob" where
  "open_data_stream job fs =
     (case data_source job of
        FilePath p \<Rightarrow>
          if as_usize (file_num job) \<ge> length (files job) then (Inr True, job\<lparr>data_stream := None\<rparr>)
          else if data_stream job = None then
            (case file_open (job_join p (name (files job ! as_usize (file_num job)))) fs of
               Inr q \<Rightarrow> (Inr False, job\<lparr>data_stream := Some (FileStream q 0),
                          file_confirmed := False, file_is_waiting := False\<rparr>)
             | Inl e \<Rightarrow> (Inl (FsErr e), job\<lparr>file_num := i32_add (file_num job) 1,
                          file_confirmed := False, file_is_waiting := False\<rparr>))
          else (Inr False, job)
      | MemoryCursor b pos \<Rightarrow>
          if data_stream job = None
          then (Inr False, job\<lparr>data_source := MemoryCursor [] 0, data_stream := Some (BufStream b pos)\<rparr>)
          else (Inr False, job))"

definition get_current_digest :: "TransferJob \<Rightarrow> Fs \<Rightarrow> transfer_error + nat \<times> nat" where
  "get_current_digest job fs =
     (case data_stream job of
        None \<Rightarrow> Inl (Bail ''file is None'')
      | Some (BufStream _ _) \<Rightarrow> Inl (Bail ''No digest for buf stream'')
      | Some (FileStream q _) \<Rightarrow>
          (case node_at fs q of
             Some (FileNode d m) \<Rightarrow> Inr (m div 10 ^ 9, length d)
           | _ \<Rightarrow> Inl (FsErr NotFoundErr)))"

subsection \<open>Messages\<close>

datatype FileMessage =
    MsgError int transfer_error int
  | MsgDir int string "FileEntry list"
  | MsgBlock FileTransferBlock
  | MsgDigest FileTransferDigest
  | MsgDone int int
  | MsgSendConfirm FileTransferSendConfirmRequest
  | MsgReceive int string "FileEntry list" int nat
  | MsgSend int string bool int JobType

definition new_error :: "int \<Rightarrow> transfer_error \<Rightarrow> int \<Rightarrow> FileMessage" where
  "new_error i err n = MsgError i err n"

definition new_dir :: "int \<Rightarrow> string \<Rightarrow> FileEntry list \<Rightarrow> FileMessage" where
  "new_dir i p fl = MsgDir i p fl"

definition new_block :: "FileTransferBlock \<Rightarrow> FileMessage" where
  "new_block b = MsgBlock b"

definition new_send_confirm :: "FileTransferSendConfirmRequest \<Rightarrow> FileMessage" where
  "new_send_confirm r = MsgSendConfirm r"

definition new_receive :: "int \<Rightarrow> string \<Rightarrow> int \<Rightarrow> FileEntry list \<Rightarrow> nat \<Rightarrow> FileMessage" where
  "new_receive i p n fl sz = MsgReceive i p fl n sz"

definition new_send :: "int \<Rightarrow> JobType \<Rightarrow> string \<Rightarrow> int \<Rightarrow> bool \<Rightarrow> FileMessage" where
  "new_send i t p n hidden = MsgSend i p hidden n t"

definition new_done :: "int \<Rightarrow> int \<Rightarrow> FileMessage" where
  "new_done i n = MsgDone i n"

text \<open>The connection the messages go to; on a broken one a send fails.\<close>

record OutStream =
  sent :: "FileMessage list"
  broken :: bool

definition send :: "FileMessage \<Rightarrow> OutStream \<Rightarrow> (transfer_error + unit) \<times> OutStream" where
  "send m out = (if broken out then (Inl (Bail ''send''), out) else (Inr (), out\<lparr>sent := sent out @ [m]\<rparr>))"

definition send_current_digest :: "TransferJob \<Rightarrow> Fs \<Rightarrow> OutStream \<Rightarrow> (transfer_error + unit) \<times> OutStream" where
  "send_current_digest job fs out =
     (case get_current_digest job fs of
        Inl e \<Rightarrow> (Inl e, out)
      | Inr (m, len) \<Rightarrow>
          send (MsgDigest \<lparr>fd_id = job_id job, fd_file_num = file_num job, fd_last_modified = m,
                  fd_file_size = len, fd_is_identical = False, fd_transferred_size = 0,
                  fd_is_resume = is_resume job\<rparr>) out)"

definition needs_digest :: "TransferJob \<Rightarrow> bool" where
  "needs_digest job = (job_type job = Generic \<and> enable_overwrite_detection job \<and>
     \<not> file_confirmed job \<and> \<not> file_is_waiting job)"

definition init_data_stream :: "TransferJob \<Rightarrow> Fs \<Rightarrow> OutStream \<Rightarrow> (transfer_error + unit) \<times> TransferJob \<times> OutStream" where
  "init_data_stream job fs out =
     (case open_data_stream job fs of
        (Inl e, job1) \<Rightarrow> (Inl e, job1, out)
      | (Inr True, job1) \<Rightarrow> (Inr (), job1, out)
      | (Inr False, job1) \<Rightarrow>
          if needs_digest job1 then
            (case send_current_digest job1 fs out of
               (Inl e, out1) \<Rightarrow> (Inl e, job1, out1)
             | (Inr _, out1) \<Rightarrow> (Inr (), job1\<lparr>file_is_waiting := True\<rparr>, out1))
          else (Inr (), job1, out))"

definition init_data_stream_for_cm :: "TransferJob \<Rightarrow> Fs \<Rightarrow> (transfer_error + (nat \<times> nat) option) \<times> TransferJob" where
  "init_data_stream_for_cm job fs =
     (case open_data_stream job fs of
        (Inl e, job1) \<Rightarrow> (Inl e, job1)
      | (Inr True, job1) \<Rightarrow> (Inr None, job1)
      | (Inr False, job1) \<Rightarrow>
          if needs_digest job1 then
            (case get_current_digest job1 fs of
               Inl e \<Rightarrow> (Inl e, job1)
             | Inr dg \<Rightarrow> (Inr (Some dg), job1\<lparr>file_is_waiting := True\<rparr>))
          else (Inr None, job1))"

subsection \<open>Confirmation, skipping, resuming\<close>

definition set_overwrite_strategy :: "bool option \<Rightarrow> TransferJob \<Rightarrow> TransferJob" where
  "set_overwrite_strategy v job = job\<lparr>default_overwrite_strategy := v\<rparr>"

definition set_file_confirmed :: "bool \<Rightarrow> TransferJob \<Rightarrow> TransferJob" where
  "set_file_confirmed b job = job\<lparr>file_confirmed := b, file_skipped := False\<rparr>"

definition set_file_is_waiting :: "bool \<Rightarrow> TransferJob \<Rightarrow> TransferJob" where
  "set_file_is_waiting b job = job\<lparr>file_is_waiting := b\<rparr>"

definition job_skipped :: "TransferJob \<Rightarrow> bool" where
  "job_skipped job = (file_skipped job \<and> length (files job) = 1)"

definition job_completed :: "TransferJob \<Rightarrow> bool" where
  "job_completed job = (\<not> enable_overwrite_detection job \<or> (\<not> file_confirmed job \<and> \<not> file_is_waiting job))"

definition job_error :: "TransferJob \<Rightarrow> string option" where
  "job_error job = (if job_skipped job then Some ''skipped'' else None)"

definition set_file_skipped :: "TransferJob \<Rightarrow> TransferJob" where
  "set_file_skipped job =
     (let job = job\<lparr>data_stream := None\<rparr>;
          job = set_file_is_waiting False (set_file_confirmed False job)
      in job\<lparr>file_num := i32_add (file_num job) 1, file_skipped := True\<rparr>)"

text \<open>\<open>self.files[file_num]\<close> panics (\<open>None\<close>) when the number is out of range.\<close>

definition set_stream_offset :: "nat \<Rightarrow> nat \<Rightarrow> TransferJob \<Rightarrow> Fs \<Rightarrow> (TransferJob \<times> Fs) option" where
  "set_stream_offset num offset job fs =
     (case data_source job of
        MemoryCursor _ _ \<Rightarrow> Some (job, fs)
      | FilePath p \<Rightarrow>
          if num \<ge> length (files job) then None
          else case resolve_entry_path fs job p (name (files job ! num)) of
            None \<Rightarrow> Some (job, fs)
          | Some q \<Rightarrow>
              (let seek = (\<lambda>l. job\<lparr>data_stream := Some (FileStream l offset),
                             transferred := u64_add (transferred job) offset,
                             finished_size := u64_add (finished_size job) offset\<rparr>)
               in if path_exists fs (download_path q) \<and> path_exists fs (digest_path q) then
                    (case file_open_write (download_path q) fs of
                       (Inr l, fs1) \<Rightarrow> Some (seek l, fs1)
                     | (Inl _, fs1) \<Rightarrow> Some (job, fs1))
                  else if path_exists fs q then
                    (case file_open q fs of
                       Inr l \<Rightarrow> Some (seek l, fs)
                     | Inl _ \<Rightarrow> Some (job, fs))
                  else Some (job, fs)))"

definition confirm :: "FileTransferSendConfirmRequest \<Rightarrow> TransferJob \<Rightarrow> Fs \<Rightarrow> (TransferJob \<times> Fs) option" where
  "confirm r job fs =
     (if file_num job \<noteq> cf_file_num r then Some (job, fs)
      else case cf_union r of
        Some (Skip s) \<Rightarrow> Some (if s then set_file_skipped job else set_file_confirmed True job, fs)
      | Some (OffsetBlk offset) \<Rightarrow>
          (let job = set_file_confirmed True job in
           if offset > 0 then set_stream_offset (as_usize (cf_file_num r)) offset job fs
           else Some (job, fs))
      | None \<Rightarrow> Some (job, fs))"

definition gen_meta :: "TransferJob \<Rightarrow> TransferJobMeta" where
  "gen_meta job = \<lparr>tm_id = job_id job, tm_remote = remote job, tm_to = data_source_to_meta (data_source job),
     tm_show_hidden = show_hidden job, tm_file_num = file_num job, tm_is_remote = is_remote job\<rparr>"

section \<open>The job list\<close>

fun remove_job :: "int \<Rightarrow> TransferJob list \<Rightarrow> TransferJob option \<times> TransferJob list" where
  "remove_job i [] = (None, [])"
| "remove_job i (j # js) =
     (if job_id j = i then (Some j, js) else case remove_job i js of (r, js') \<Rightarrow> (r, j # js'))"

definition get_job :: "int \<Rightarrow> TransferJob list \<Rightarrow> TransferJob option" where
  "get_job i js = find (\<lambda>j. job_id j = i) js"

fun init_jobs :: "TransferJob list \<Rightarrow> Fs \<Rightarrow> OutStream \<Rightarrow> (transfer_error + unit) \<times> TransferJob list \<times> OutStream" where
  "init_jobs [] fs out = (Inr (), [], out)"
| "init_jobs (j # js) fs out =
     (if is_last_job j then
        (case init_jobs js fs out of (r, js', out') \<Rightarrow> (r, j # js', out'))
      else case init_data_stream j fs out of
        (Inl e, j1, out1) \<Rightarrow>
          (case send (new_error (job_id j1) e (file_num j1)) out1 of
             (Inl e2, out2) \<Rightarrow> (Inl e2, j1 # js, out2)
           | (Inr _, out2) \<Rightarrow> (case init_jobs js fs out2 of (r, js', out') \<Rightarrow> (r, j1 # js', out')))
      | (Inr _, j1, out1) \<Rightarrow> (case init_jobs js fs out1 of (r, js', out') \<Rightarrow> (r, j1 # js', out')))"

text \<open>The log entry of a finished job: the job, done, cancelled, the error. Its JSON text is not modelled.\<close>

type_synonym job_log = "(TransferJob \<times> bool \<times> bool \<times> string) option"

text \<open>One turn for the first job that is not a last job of an earlier session.\<close>

fun read_first :: "Env \<Rightarrow> (nat \<Rightarrow> nat) \<Rightarrow> TransferJob list \<Rightarrow> Fs \<Rightarrow> OutStream \<Rightarrow>
    (transfer_error + job_log \<times> int list) \<times> TransferJob list \<times> OutStream" where
  "read_first env grab [] fs out = (Inr (None, []), [], out)"
| "read_first env grab (j # js) fs out =
     (if is_last_job j then
        (case read_first env grab js fs out of (r, js', out') \<Rightarrow> (r, j # js', out'))
      else case read_block env grab j fs of
        (Inl e, j1) \<Rightarrow>
          (case send (new_error (job_id j1) e (file_num j1)) out of
             (Inl e2, out1) \<Rightarrow> (Inl e2, j1 # js, out1)
           | (Inr _, out1) \<Rightarrow> (Inr (None, []), j1 # js, out1))
      | (Inr (Some block), j1) \<Rightarrow>
          (case send (new_block block) out of
             (Inl e2, out1) \<Rightarrow> (Inl e2, j1 # js, out1)
           | (Inr _, out1) \<Rightarrow> (Inr (None, []), j1 # js, out1))
      | (Inr None, j1) \<Rightarrow>
          if job_completed j1 then
            (case job_error j1 of
               Some err \<Rightarrow>
                 (case send (new_error (job_id j1) (Bail err) (file_num j1)) out of
                    (Inl e2, out1) \<Rightarrow> (Inl e2, j1 # js, out1)
                  | (Inr _, out1) \<Rightarrow> (Inr (Some (j1, False, False, err), [job_id j1]), j1 # js, out1))
             | None \<Rightarrow>
                 (case send (new_done (job_id j1) (file_num j1)) out of
                    (Inl e2, out1) \<Rightarrow> (Inl e2, j1 # js, out1)
                  | (Inr _, out1) \<Rightarrow> (Inr (Some (j1, True, False, []), [job_id j1]), j1 # js, out1)))
          else (Inr (None, []), j1 # js, out))"

definition handle_read_jobs :: "Env \<Rightarrow> (nat \<Rightarrow> nat) \<Rightarrow> TransferJob list \<Rightarrow> Fs \<Rightarrow> OutStream \<Rightarrow>
    (transfer_error + job_log) \<times> TransferJob list \<times> OutStream" where
  "handle_read_jobs env grab js fs out =
     (case init_jobs js fs out of
        (Inl e, js1, out1) \<Rightarrow> (Inl e, js1, out1)
      | (Inr _, js1, out1) \<Rightarrow>
          (case read_first env grab js1 fs out1 of
             (Inl e, js2, out2) \<Rightarrow> (Inl e, js2, out2)
           | (Inr (lg, finished), js2, out2) \<Rightarrow>
               (Inr lg, fold (\<lambda>i js. snd (remove_job i js)) finished js2, out2)))"

section \<open>Operations on files\<close>

definition remove_file :: "path \<Rightarrow> Fs \<Rightarrow> (transfer_error + unit) \<times> Fs" where
  "remove_file p fs =
     (case validate_fs_path_argument p ''file path'' of
        Inl e \<Rightarrow> (Inl e, fs)
      | Inr _ \<Rightarrow> (case fs_remove_file p fs of (Inl e, fs1) \<Rightarrow> (Inl (FsErr e), fs1) | (Inr u, fs1) \<Rightarrow> (Inr u, fs1)))"

definition create_dir :: "path \<Rightarrow> Fs \<Rightarrow> (transfer_error + unit) \<times> Fs" where
  "create_dir p fs =
     (case validate_fs_path_argument p ''directory path'' of
        Inl e \<Rightarrow> (Inl e, fs)
      | Inr _ \<Rightarrow> (case create_dir_all_components (path_components p) fs of
            (Inl e, fs1) \<Rightarrow> (Inl (FsErr e), fs1) | (Inr u, fs1) \<Rightarrow> (Inr u, fs1)))"

text \<open>\<open>Path::parent\<close> as a string, for a path whose last component is a plain name: the text before it.\<close>

definition path_parent :: "path \<Rightarrow> path option" where
  "path_parent p =
     (let p1 = rev (dropWhile (\<lambda>c. c = CHR ''/'') (rev p));
          dir = rev (dropWhile (\<lambda>c. c \<noteq> CHR ''/'') (rev p1));
          dir1 = rev (dropWhile (\<lambda>c. c = CHR ''/'') (rev dir))
      in if p1 = [] then None
         else Some (if dir1 = [] \<and> dir \<noteq> [] then ''/'' else dir1))"

definition rename_file :: "path \<Rightarrow> string \<Rightarrow> Fs \<Rightarrow> (transfer_error + unit) \<times> Fs" where
  "rename_file p new_name fs =
     (case validate_fs_path_argument p ''path'' of
        Inl e \<Rightarrow> (Inl e, fs)
      | Inr _ \<Rightarrow>
          if new_name = [] then (Inl (Bail ''new file name cannot be empty''), fs)
          else case validate_file_name_no_traversal new_name of
            Inl e \<Rightarrow> (Inl e, fs)
          | Inr _ \<Rightarrow>
              if path_exists fs p then
                (case path_parent p of
                   None \<Rightarrow> (Inl (Bail ''Parent directoy not exists''), fs)
                 | Some d \<Rightarrow>
                     (case fs_rename p (path_join d new_name) fs of
                        (Inl e, fs1) \<Rightarrow> (Inl (FsErr e), fs1) | (Inr u, fs1) \<Rightarrow> (Inr u, fs1)))
              else (Inl (Bail ''not exists''), fs))"

definition transform_windows_path :: "FileEntry list \<Rightarrow> FileEntry list" where
  "transform_windows_path es =
     map (\<lambda>e. e\<lparr>name := map (\<lambda>c. if c = CHR 0x5C then CHR ''/'' else c) (name e)\<rparr>) es"

section \<open>Overwrite detection\<close>

datatype DigestCheckResult = IsSame | NeedConfirm FileTransferDigest | NoSuchFile

text \<open>The size already downloaded, when there is an interrupted transfer of the same file to resume.\<close>

definition resumable_size :: "Env \<Rightarrow> bool \<Rightarrow> path \<Rightarrow> FileTransferDigest \<Rightarrow> Fs \<Rightarrow> nat option" where
  "resumable_size env resume p dg fs =
     (if resume \<and> path_exists fs (digest_path p) \<and> path_exists fs (download_path p) then
        (case metadata fs (digest_path p) of
           Inr (FileNode content _) \<Rightarrow>
             (case digest_from_json env content of
                Some l \<Rightarrow>
                  if dg_modified l = fd_last_modified dg \<and> dg_size l = fd_file_size dg then
                    (case metadata fs (download_path p) of
                       Inr (FileNode d _) \<Rightarrow> if length d > 0 then Some (length d) else None
                     | _ \<Rightarrow> None)
                  else None
              | None \<Rightarrow> None)
         | _ \<Rightarrow> None)
      else None)"

definition is_write_need_confirmation :: "Env \<Rightarrow> bool \<Rightarrow> path \<Rightarrow> FileTransferDigest \<Rightarrow> Fs \<Rightarrow> DigestCheckResult" where
  "is_write_need_confirmation env resume p dg fs =
     (case resumable_size env resume p dg fs of
        Some n \<Rightarrow> NeedConfirm \<lparr>fd_id = fd_id dg, fd_file_num = fd_file_num dg,
            fd_last_modified = fd_last_modified dg, fd_file_size = fd_file_size dg,
            fd_is_identical = True, fd_transferred_size = n, fd_is_resume = False\<rparr>
      | None \<Rightarrow>
          (case metadata fs p of
             Inr (FileNode d m) \<Rightarrow> NeedConfirm \<lparr>fd_id = fd_id dg, fd_file_num = fd_file_num dg,
               fd_last_modified = m div 10 ^ 9, fd_file_size = length d,
               fd_is_identical = (fd_last_modified dg * 10 ^ 9 = m \<and> fd_file_size dg = length d),
               fd_transferred_size = 0, fd_is_resume = False\<rparr>
           | _ \<Rightarrow> NoSuchFile))"

end
