(* ===== verification/File_Confinement.thy ===== *)
theory File_Confinement
  imports File_Transfer
begin

text \<open>
  Writing files never leaves the download directory (\<open>libs/hbb_common/src/fs.rs\<close>): the facts on paths and
  on walking them, that the validation of names finds every link, that each call the job makes changes only
  what lies below the directory, and the theorem on \<open>write\<close>. At the end, what the code does not cover:
  a link at the download file, a stale download, and a confirmation that panics.
\<close>

section \<open>Names of a relative path\<close>

definition path_names :: "path \<Rightarrow> string list" where
  "path_names n = filter (\<lambda>s. s \<noteq> [] \<and> s \<noteq> ''.'') (split_on (CHR ''/'') n)"

lemma path_components_join:
  assumes "base \<noteq> []" and "\<not> is_absolute n"
  shows "path_components (path_join base n) = path_components base @ map name_component (path_names n)"
proof -
  have "\<exists>b. path_join base n = b @ CHR ''/'' # n \<and> (base = b \<or> base = b @ ''/'')"
  proof (cases "last base = CHR ''/''")
    case True
    then have "base = butlast base @ ''/''" using assms(1) by (metis append_butlast_last_id)
    with True assms show ?thesis
      by (intro exI [of _ "butlast base"]) (auto simp: path_join_def append_eq_Cons_conv)
  qed (use assms in \<open>auto simp: path_join_def\<close>)
  then obtain b where b: "path_join base n = b @ CHR ''/'' # n" "base = b \<or> base = b @ ''/''" by blast
  have abs: "is_absolute (b @ CHR ''/'' # n) = is_absolute base"
    using b(2) assms(1) by (cases b) (auto simp: is_absolute_def)
  show ?thesis
    unfolding b(1) path_components_def abs Let_def path_names_def
    using b(2) assms(1) split_on_append_sep [of "CHR ''/''" b n] split_on_append_sep [of "CHR ''/''" b "[]"]
    by auto
qed

lemma split_on_snoc_suffix:
  assumes "c \<notin> set suf"
  shows "split_on c (n @ suf) = butlast (split_on c n) @ [last (split_on c n) @ suf]"
proof (induction n)
  case Nil
  from assms have "split_on c suf = [suf]" by (induction suf) auto
  then show ?case by simp
next
  case (Cons x n)
  obtain w ws where "split_on c n = w # ws" by (cases "split_on c n") auto
  with Cons show ?case by (cases ws) (auto simp: butlast_append)
qed

definition dir_names :: "path \<Rightarrow> string list" where
  "dir_names n = filter (\<lambda>s. s \<noteq> [] \<and> s \<noteq> ''.'') (butlast (split_on (CHR ''/'') n))"

definition last_name :: "path \<Rightarrow> string" where
  "last_name n = last (split_on (CHR ''/'') n)"

lemma path_names_split:
  "path_names n = dir_names n @ (if last_name n = [] \<or> last_name n = ''.'' then [] else [last_name n])"
proof -
  define ps where "ps = split_on (CHR ''/'') n"
  have "ps = butlast ps @ [last_name n]" by (simp add: last_name_def ps_def)
  then have "filter (\<lambda>s. s \<noteq> [] \<and> s \<noteq> ''.'') ps
    = filter (\<lambda>s. s \<noteq> [] \<and> s \<noteq> ''.'') (butlast ps) @ filter (\<lambda>s. s \<noteq> [] \<and> s \<noteq> ''.'') [last_name n]"
    by (metis filter_append)
  then show ?thesis unfolding path_names_def dir_names_def ps_def [symmetric] by simp
qed

lemma path_names_suffix:
  assumes "CHR ''/'' \<notin> set suf" and "2 < length suf"
  shows "path_names (n @ suf) = dir_names n @ [last_name n @ suf]"
proof -
  have "2 < length (last_name n @ suf)" using assms(2) by simp
  then have "last_name n @ suf \<noteq> []" "last_name n @ suf \<noteq> ''.''"
    by (intro notI, simp)+
  then show ?thesis using assms(1) by (auto simp: path_names_def dir_names_def last_name_def split_on_snoc_suffix)
qed

lemma path_join_suffix: "n \<noteq> [] \<Longrightarrow> path_join base n @ suf = path_join base (n @ suf)"
  by (simp add: path_join_def is_absolute_def)

text \<open>A validated name has plain names only.\<close>

definition plain :: "string list \<Rightarrow> component list" where
  "plain ss = map Normal ss"

lemma validated_plain:
  assumes "validate_file_name_no_traversal n = Inr ()"
  shows "\<not> is_absolute n" and "map name_component (path_names n) = plain (path_names n)"
    and "CHR 0x00 \<notin> set n" and "''..'' \<notin> set (split_on (CHR ''/'') n)"
proof -
  show "\<not> is_absolute n" "CHR 0x00 \<notin> set n" and dd: "''..'' \<notin> set (split_on (CHR ''/'') n)"
    using assms by (auto simp: validate_file_name_no_traversal_def list_ex_iff split: if_splits)
  then show "map name_component (path_names n) = plain (path_names n)"
    by (auto simp: plain_def path_names_def name_component_def)
qed

section \<open>Walking\<close>

definition fs_tree :: "Fs \<Rightarrow> bool" where
  "fs_tree fs \<longleftrightarrow> (\<forall>q s. node_at fs (q @ [s]) \<noteq> None \<longrightarrow> node_at fs q = Some DirNode) \<and>
     node_at fs (cwd fs) = Some DirNode"

definition no_links :: "Fs \<Rightarrow> location \<Rightarrow> string list \<Rightarrow> bool" where
  "no_links fs cur ss \<longleftrightarrow> (\<forall>k t. 0 < k \<longrightarrow> k \<le> length ss \<longrightarrow> node_at fs (cur @ take k ss) \<noteq> Some (LinkNode t))"

lemma no_links_Cons:
  "no_links fs cur (s # ss) \<longleftrightarrow> (\<forall>t. node_at fs (cur @ [s]) \<noteq> Some (LinkNode t)) \<and> no_links fs (cur @ [s]) ss"
proof -
  have "(\<forall>k t. 0 < k \<longrightarrow> k \<le> Suc (length ss) \<longrightarrow> node_at fs (cur @ take k (s # ss)) \<noteq> Some (LinkNode t)) \<longleftrightarrow>
    (\<forall>k t. k \<le> length ss \<longrightarrow> node_at fs (cur @ s # take k ss) \<noteq> Some (LinkNode t))"
    by (metis Suc_le_mono Suc_pred take_Suc_Cons zero_less_Suc)
  also have "\<dots> \<longleftrightarrow> (\<forall>t. node_at fs (cur @ [s]) \<noteq> Some (LinkNode t)) \<and> no_links fs (cur @ [s]) ss"
    unfolding no_links_def by (metis append.assoc append_Cons append_Nil gr0I le0 take0)
  finally show ?thesis by (simp add: no_links_def)
qed

lemma walk_no_links:
  assumes "no_links fs cur ss" and "walk n fs cur (plain ss) = Inr r"
  shows "r = cur @ ss"
  using assms
proof (induction ss arbitrary: cur)
  case (Cons s ss)
  from Cons.prems have "r = cur @ [s] \<and> ss = [] \<or> walk n fs (cur @ [s]) (plain ss) = Inr r"
    by (auto simp: plain_def no_links_Cons split: option.splits node.splits if_splits)
  with Cons.IH [of "cur @ [s]"] Cons.prems(1) show ?case by (auto simp: no_links_Cons)
qed (simp add: plain_def)

lemma walk_append:
  assumes "walk n fs cur xs = Inr q" and "node_at fs q = Some DirNode"
  shows "\<exists>m. walk n fs cur (xs @ ys) = walk m fs q ys"
  using assms
proof (induction n fs cur xs rule: walk.induct)
  case (5 n fs cur s cs)
  then show ?case by (auto split: option.splits node.splits if_splits nat.splits)
qed auto

lemma butlast_dir:
  assumes "fs_tree fs" and "node_at fs cur = Some DirNode"
  shows "node_at fs (butlast cur) = Some DirNode"
proof (cases cur rule: rev_cases)
  case (snoc p s)
  with assms have "node_at fs p = Some DirNode" unfolding fs_tree_def by (metis option.distinct(1))
  with snoc show ?thesis by simp
qed simp

lemma walk_prefix:
  assumes "walk n fs cur (xs @ ys) = Inr r" and "node_at fs r = Some DirNode"
    and "fs_tree fs" and "node_at fs cur = Some DirNode"
  shows "\<exists>q m. walk n fs cur xs = Inr q \<and> node_at fs q = Some DirNode \<and> walk m fs q ys = Inr r"
  using assms
proof (induction n fs cur "xs" rule: walk.induct)
  case (1 n fs cur)
  then show ?case by auto
next
  case (4 n fs cur cs)
  then show ?case using butlast_dir by auto
next
  case (5 n fs cur s cs)
  then show ?case by (auto split: option.splits node.splits if_splits nat.splits)
qed auto

text \<open>Only directories and links matter for reaching a directory.\<close>

lemma walk_stable:
  assumes "walk n fs cur xs = Inr r" and "node_at fs r = Some DirNode"
    and "\<And>q. node_at fs q = Some DirNode \<Longrightarrow> node_at fs' q = Some DirNode"
    and "\<And>q t. node_at fs q = Some (LinkNode t) \<Longrightarrow> node_at fs' q = Some (LinkNode t)"
  shows "walk n fs' cur xs = Inr r"
  using assms
proof (induction n fs cur xs rule: walk.induct)
  case (5 n fs cur s cs)
  from 5(3-) show ?case
    by (auto split: option.splits node.splits if_splits nat.splits intro: 5(1,2))
qed auto

section \<open>Confinement to a directory\<close>

text \<open>A change of the file system that touches only what lies below \<open>rb\<close>, keeps every directory and
  neither adds nor removes a link.\<close>

definition confined :: "location \<Rightarrow> Fs \<Rightarrow> Fs \<Rightarrow> bool" where
  "confined rb fs fs' \<longleftrightarrow> fs_tree fs' \<and> cwd fs' = cwd fs \<and> clock fs' = clock fs \<and>
     (\<forall>q. node_at fs' q \<noteq> node_at fs q \<longrightarrow> strict_prefix rb q) \<and>
     (\<forall>q. node_at fs q = Some DirNode \<longrightarrow> node_at fs' q = Some DirNode) \<and>
     (\<forall>q t. node_at fs' q = Some (LinkNode t) \<longleftrightarrow> node_at fs q = Some (LinkNode t))"

lemma confined_refl: "fs_tree fs \<Longrightarrow> confined rb fs fs"
  by (simp add: confined_def)

lemma confined_trans [trans]: "confined rb a b \<Longrightarrow> confined rb b c \<Longrightarrow> confined rb a c"
  unfolding confined_def
proof (intro conjI allI impI; elim conjE)
  fix q
  assume "\<forall>q. node_at b q \<noteq> node_at a q \<longrightarrow> strict_prefix rb q" "\<forall>q. node_at c q \<noteq> node_at b q \<longrightarrow> strict_prefix rb q"
    and "node_at c q \<noteq> node_at a q"
  then show "strict_prefix rb q" by (cases "node_at b q = node_at a q") auto
qed simp_all

lemma confined_tree: "confined rb fs fs' \<Longrightarrow> fs_tree fs'"
  by (simp add: confined_def)

lemma confined_no_links: "confined rb fs fs' \<Longrightarrow> no_links fs' cur ss = no_links fs cur ss"
  by (simp add: confined_def no_links_def)

lemma tree_parent:
  assumes "fs_tree fs" and "node_at fs (p @ [s]) \<noteq> None"
  shows "node_at fs p = Some DirNode"
  using assms unfolding fs_tree_def by blast

lemma confined_put:
  assumes "fs_tree fs" and "strict_prefix rb q" and "node_at fs (butlast q) = Some DirNode"
    and "node_at fs q \<noteq> Some DirNode" and "\<And>t. node_at fs q \<noteq> Some (LinkNode t)" and "\<And>t. v \<noteq> LinkNode t"
  shows "confined rb fs (put_node q v fs)"
proof -
  have q: "q \<noteq> []" using assms(2) by auto
  have "fs_tree (put_node q v fs)"
    unfolding fs_tree_def
  proof (intro conjI allI impI)
    fix p s assume n: "node_at (put_node q v fs) (p @ [s]) \<noteq> None"
    show "node_at (put_node q v fs) p = Some DirNode"
    proof (cases "p @ [s] = q")
      case True
      then have "butlast q = p" "p \<noteq> q" by auto
      with assms(3) q show ?thesis by simp
    next
      case False
      then have "node_at fs p = Some DirNode" using n q tree_parent [OF assms(1)] by simp
      then show ?thesis using assms(4) q by auto
    qed
  next
    show "node_at (put_node q v fs) (cwd (put_node q v fs)) = Some DirNode"
      using assms(1,4) q by (auto simp: fs_tree_def)
  qed
  then show ?thesis using assms q by (auto simp: confined_def)
qed

lemma confined_del:
  assumes "fs_tree fs" and "strict_prefix rb q" and "node_at fs q = Some (FileNode d m)"
  shows "confined rb fs (del_node q fs)"
proof -
  have q: "q \<noteq> []" using assms(2) by auto
  have "fs_tree (del_node q fs)"
    unfolding fs_tree_def
  proof (intro conjI allI impI)
    fix p s assume "node_at (del_node q fs) (p @ [s]) \<noteq> None"
    then have "node_at fs p = Some DirNode" using q tree_parent [OF assms(1)] by (auto split: if_splits)
    then show "node_at (del_node q fs) p = Some DirNode" using assms(3) q by auto
  next
    show "node_at (del_node q fs) (cwd (del_node q fs)) = Some DirNode"
      using assms(1,3) q by (auto simp: fs_tree_def)
  qed
  then show ?thesis using assms q by (auto simp: confined_def)
qed

section \<open>Paths below a base directory\<close>

definition base_at :: "Fs \<Rightarrow> path \<Rightarrow> location \<Rightarrow> bool" where
  "base_at fs base rb \<longleftrightarrow> base \<noteq> [] \<and> CHR 0x00 \<notin> set base \<and>
     resolve_components fs (path_components base) = Inr rb \<and> node_at fs rb = Some DirNode"

lemma base_at_confined: "base_at fs base rb \<Longrightarrow> confined rb' fs fs' \<Longrightarrow> base_at fs' base rb"
  unfolding base_at_def resolve_components_def confined_def
  by (elim conjE, intro conjI) (auto intro: walk_stable)

definition plain_name :: "path \<Rightarrow> bool" where
  "plain_name n \<longleftrightarrow> \<not> is_absolute n \<and> CHR 0x00 \<notin> set n \<and> map name_component (path_names n) = plain (path_names n)"

lemma components_below:
  assumes "base_at fs base rb" and "plain_name n"
  shows "path_components (path_join base n) = path_components base @ plain (path_names n)"
  using path_components_join assms by (simp add: base_at_def plain_name_def)

lemma walk_dirs:
  assumes "fs_tree fs" and "node_at fs (cur @ ss) = Some DirNode"
  shows "walk m fs cur (plain ss) = Inr (cur @ ss)"
  using assms(2)
proof (induction ss arbitrary: cur)
  case (Cons s ss)
  have "node_at fs (cur @ [s]) = Some DirNode"
    using Cons.prems
  proof (induction ss rule: rev_induct)
    case (snoc x xs)
    then show ?case using tree_parent [OF assms(1), of "cur @ s # xs" x] by simp
  qed simp
  with Cons.IH [of "cur @ [s]"] Cons.prems show ?case by (simp add: plain_def)
qed (simp add: plain_def)

lemma resolve_components_below:
  assumes "base_at fs base rb" and "no_links fs rb ss"
    and "resolve_components fs (path_components base @ plain ss) = Inr q"
  shows "q = rb @ ss"
proof -
  obtain m where "resolve_components fs (path_components base @ plain ss) = walk m fs rb (plain ss)"
    using assms(1) walk_append unfolding base_at_def resolve_components_def by blast
  with walk_no_links [OF assms(2)] assms(3) show ?thesis by simp
qed

lemma resolve_below:
  assumes "base_at fs base rb" and "plain_name n" and "no_links fs rb (path_names n)"
    and "resolve fs (path_join base n) = Inr q"
  shows "q = rb @ path_names n"
  using assms(4) resolve_components_below [OF assms(1,3)] components_below [OF assms(1,2)]
  by (auto simp: resolve_def split: if_splits sum.splits)

lemma last_split_join:
  assumes "base \<noteq> []" and "\<not> is_absolute n"
  shows "last (split_on (CHR ''/'') (path_join base n)) = last_name n"
proof (cases "last base = CHR ''/''")
  case True
  then have b: "base = butlast base @ ''/''" using assms(1) by (metis append_butlast_last_id)
  have "path_join base n = butlast base @ CHR ''/'' # n"
    using True assms(2) b by (simp add: path_join_def)
  then show ?thesis by (simp add: split_on_append_sep last_name_def)
next
  case False
  with assms show ?thesis by (simp add: path_join_def split_on_append_sep last_name_def)
qed

lemma no_links_append: "no_links fs cur (a @ b) \<Longrightarrow> no_links fs cur a"
  unfolding no_links_def by (intro allI impI) (metis append_Nil2 le_add1 length_append order_trans take_append take_eq_Nil diff_is_0_eq)

lemma entry_below:
  assumes "base_at fs base rb" and "plain_name n" and "no_links fs rb (path_names n)"
    and "entry fs (path_join base n) = Inr q"
  shows "q = rb @ path_names n \<and> node_at fs (butlast q) = Some DirNode \<or> node_at fs q = Some DirNode"
proof (cases "names_directory (path_join base n)")
  case True
  then show ?thesis using assms(4) by (auto simp: entry_def resolve_def split: if_splits sum.splits)
next
  case False
  have "base \<noteq> []" "\<not> is_absolute n" using assms(1,2) by (auto simp: base_at_def plain_name_def)
  from False last_split_join [OF this] have "last_name n \<noteq> []" "last_name n \<noteq> ''.''"
    by (auto simp: names_directory_def)
  then have pn: "path_names n = dir_names n @ [last_name n]" by (simp add: path_names_split)
  have "entry_of_components fs (path_components base @ plain (dir_names n) @ [Normal (last_name n)]) = Inr q"
    using assms(4) False components_below [OF assms(1,2)] by (auto simp: entry_def pn plain_def split: if_splits)
  moreover have "no_links fs rb (dir_names n)"
    using assms(3) no_links_append unfolding pn by blast
  note resolve_components_below [OF assms(1) this]
  ultimately show ?thesis
    by (auto simp: entry_of_components_def pn butlast_append split: sum.splits option.splits node.splits)
qed

section \<open>Validation finds every link\<close>

lemma split_on_no_sep: "s \<in> set (split_on c n) \<Longrightarrow> c \<notin> set s"
proof (induction n arbitrary: s)
  case (Cons x n)
  then show ?case by (cases "split_on c n") (auto split: if_splits)
qed simp

lemma split_on_subset: "s \<in> set (split_on c n) \<Longrightarrow> set s \<subseteq> set n"
proof (induction n arbitrary: s)
  case (Cons x n)
  obtain w ws where w: "split_on c n = w # ws" by (cases "split_on c n") auto
  with Cons.IH [of w] Cons.IH [of s] Cons.prems show ?case by (auto split: if_splits)
qed simp

lemma path_names_single:
  assumes "seg \<in> set (path_names n)"
  shows "path_names seg = [seg]" and "\<not> is_absolute seg" and "seg \<noteq> []" and "set seg \<subseteq> set n"
    and "last_name seg = seg" and "seg \<noteq> ''.''"
proof -
  have "seg \<in> set (split_on (CHR ''/'') n)" "seg \<noteq> []" "seg \<noteq> ''.''" using assms by (auto simp: path_names_def)
  then have s: "CHR ''/'' \<notin> set seg" "seg \<noteq> []" "seg \<noteq> ''.''" "set seg \<subseteq> set n"
    by (simp_all add: split_on_no_sep split_on_subset)
  then have "split_on (CHR ''/'') seg = [seg]"
    using split_on_snoc_suffix [of "CHR ''/''" seg "[]"] by simp
  with s show "path_names seg = [seg]" "seg \<noteq> []" "set seg \<subseteq> set n" "last_name seg = seg" "seg \<noteq> ''.''"
    by (auto simp: path_names_def last_name_def)
  show "\<not> is_absolute seg" using s by (cases seg) (auto simp: is_absolute_def)
qed

text \<open>A path below the base extended by one more name.\<close>

lemma extend_path:
  assumes "seg \<in> set (path_names n)" and "plain_name n" and "path_components cur = path_components base @ plain pre"
    and "cur \<noteq> []" and "CHR 0x00 \<notin> set cur" and "fs_tree fs" and "base_at fs base rb"
  defines "p \<equiv> path_join cur seg"
  shows "path_components p = path_components base @ plain (pre @ [seg])" and "p \<noteq> []" and "CHR 0x00 \<notin> set p"
    and "node_at fs (rb @ pre) = Some DirNode \<Longrightarrow> entry fs p = Inr (rb @ pre @ [seg])"
proof -
  note sg = path_names_single [OF assms(1)]
  have "map name_component (path_names n) = map Normal (path_names n)" using assms(2) by (simp add: plain_name_def plain_def)
  with assms(1) have nc: "name_component seg = Normal seg" by (simp add: map_eq_conv)
  then show comps: "path_components p = path_components base @ plain (pre @ [seg])"
    using path_components_join [OF assms(4) sg(2)] assms(3) by (simp add: sg(1) plain_def p_def)
  show p: "p \<noteq> []" "CHR 0x00 \<notin> set p"
    using assms(2,4,5) sg(2,4) by (auto simp: path_join_def plain_name_def p_def)
  have "seg \<noteq> ''..''" using nc by (auto simp: name_component_def)
  then have nd: "\<not> names_directory p"
    using last_split_join [OF assms(4) sg(2)] sg(3,5,6) by (simp add: names_directory_def p_def)
  assume dir: "node_at fs (rb @ pre) = Some DirNode"
  obtain m where "resolve_components fs (path_components base @ plain pre) = walk m fs rb (plain pre)"
    using assms(7) walk_append unfolding base_at_def resolve_components_def by blast
  with walk_dirs [OF assms(6) dir] dir show "entry fs p = Inr (rb @ pre @ [seg])"
    using p nd by (simp add: entry_def comps entry_of_components_def plain_def)
qed

lemma check_symlinks_finds:
  assumes "check_symlinks fs cur (plain ss) = Inr ()" and "fs_tree fs" and "base_at fs base rb"
    and "path_components cur = path_components base @ plain pre" and "cur \<noteq> []" and "CHR 0x00 \<notin> set cur"
    and "set ss \<subseteq> set (path_names n)" and "plain_name n"
  shows "no_links fs (rb @ pre) ss"
  using assms(1,4-7)
proof (induction ss arbitrary: cur pre)
  case Nil
  then show ?case by (simp add: no_links_def)
next
  case (Cons seg ss)
  let ?p = "path_join cur seg"
  have "seg \<in> set (path_names n)" using Cons.prems by simp
  note e = extend_path [OF this assms(8) Cons.prems(2-4) assms(2,3)]
  have nolink: "node_at fs (rb @ pre @ [seg]) \<noteq> Some (LinkNode t)" for t
  proof
    assume l: "node_at fs (rb @ pre @ [seg]) = Some (LinkNode t)"
    then have "node_at fs (rb @ pre) = Some DirNode"
      using tree_parent [OF assms(2), of "rb @ pre" seg] by simp
    from e(4) [OF this] l have "symlink_metadata fs ?p = Inr (LinkNode t)" by (simp add: symlink_metadata_def node_result_def)
    with Cons.prems(1) show False by (simp add: plain_def)
  qed
  have "check_symlinks fs ?p (plain ss) = Inr ()"
    using Cons.prems(1) by (auto simp: plain_def Let_def split: sum.splits node.splits if_splits)
  from Cons.IH [OF this e(1-3)] Cons.prems(5) have "no_links fs (rb @ pre @ [seg]) ss" by simp
  with nolink show ?case by (simp add: no_links_Cons)
qed

lemma check_symlinks_passes:
  assumes "fs_tree fs" and "base_at fs base rb"
    and "path_components cur = path_components base @ plain pre" and "cur \<noteq> []" and "CHR 0x00 \<notin> set cur"
    and "set (ss @ [s]) \<subseteq> set (path_names n)" and "plain_name n"
    and "node_at fs (rb @ pre @ ss) = Some DirNode" and "\<And>t. node_at fs (rb @ pre @ ss @ [s]) \<noteq> Some (LinkNode t)"
  shows "check_symlinks fs cur (plain (ss @ [s])) = Inr ()"
  using assms(3-6,8,9)
proof (induction ss arbitrary: cur pre)
  case Nil
  then have "s \<in> set (path_names n)" by simp
  note e = extend_path [OF this assms(7) Nil.prems(1-3) assms(1,2)]
  from e(4) Nil.prems(5,6) show ?case
    by (cases "node_at fs (rb @ pre @ [s])")
      (auto simp: plain_def Let_def symlink_metadata_def node_result_def split: node.splits)
next
  case (Cons seg ss)
  then have "seg \<in> set (path_names n)" by simp
  note e = extend_path [OF this assms(7) Cons.prems(1-3) assms(1,2)]
  have d: "node_at fs (rb @ pre @ [seg]) = Some DirNode"
    using Cons.prems(5) assms(1)
  proof (induction ss rule: rev_induct)
    case (snoc x xs)
    then show ?case using tree_parent [OF assms(1), of "rb @ pre @ seg # xs" x] by simp
  qed simp
  then have "node_at fs (rb @ pre) = Some DirNode" using tree_parent [OF assms(1), of "rb @ pre" seg] by simp
  from e(4) [OF this] d have "symlink_metadata fs (path_join cur seg) = Inr DirNode"
    by (simp add: symlink_metadata_def node_result_def)
  moreover have "check_symlinks fs (path_join cur seg) (plain (ss @ [s])) = Inr ()"
    using Cons.IH [OF e(1-3)] Cons.prems by simp
  ultimately show ?case by (simp add: plain_def Let_def)
qed

lemma components_relative:
  assumes "plain_name n"
  shows "path_components n = plain (path_names n) \<or> path_components n = CurDir # plain (path_names n)"
  using assms by (auto simp: path_components_def plain_name_def Let_def path_names_def)

lemma validated_no_links:
  assumes "join_validated_path fs base n = Inr p" and "n \<noteq> []" and "fs_tree fs" and "base_at fs base rb"
  shows "p = path_join base n" and "plain_name n" and "no_links fs rb (path_names n)"
proof -
  have v: "validate_file_name_no_traversal n = Inr ()" "validate_no_symlink_components fs base n = Inr ()"
    and "p = path_join base n"
    using assms(1,2) by (auto simp: join_validated_path_def job_join_def split: sum.splits)
  show "p = path_join base n" by fact
  show pl: "plain_name n" using validated_plain [OF v(1)] by (simp add: plain_name_def)
  from components_relative [OF this] have "check_symlinks fs base (plain (path_names n)) = Inr ()"
    using v(2) assms(2) by (auto simp: validate_no_symlink_components_def)
  from check_symlinks_finds [OF this assms(3,4), of "[]" n] pl assms(4)
  show "no_links fs rb (path_names n)" by (simp add: plain_def base_at_def)
qed

section \<open>Each call stays below the base\<close>

definition trailing :: "path \<Rightarrow> bool" where
  "trailing n \<longleftrightarrow> last_name n \<in> {[], ''.'', ''..''}"

definition below :: "Fs \<Rightarrow> path \<Rightarrow> location \<Rightarrow> path \<Rightarrow> bool" where
  "below fs base rb n \<longleftrightarrow> fs_tree fs \<and> base_at fs base rb \<and> plain_name n \<and> no_links fs rb (path_names n)"

lemma below_confined: "below fs base rb n \<Longrightarrow> confined rb fs fs' \<Longrightarrow> below fs' base rb n"
  by (auto simp: below_def confined_no_links confined_tree intro: base_at_confined)

lemma below_not_link:
  assumes "below fs base rb n" and "path_names n \<noteq> []"
  shows "node_at fs (rb @ path_names n) \<noteq> Some (LinkNode t)"
  using assms unfolding below_def no_links_def by (metis length_greater_0_conv order_refl take_all)

lemma names_directory_below:
  assumes "below fs base rb n"
  shows "names_directory (path_join base n) = trailing n"
  using assms last_split_join [of base n] by (auto simp: below_def base_at_def plain_name_def names_directory_def trailing_def)

lemma entry_below_name:
  assumes "below fs base rb n" and "\<not> trailing n" and "entry fs (path_join base n) = Inr q"
  shows "q = rb @ path_names n" and "node_at fs (butlast q) = Some DirNode" and "strict_prefix rb q"
proof -
  have pn: "path_names n = dir_names n @ [last_name n]"
    using assms(2) by (auto simp: trailing_def path_names_split)
  have "entry_of_components fs (path_components base @ plain (dir_names n) @ [Normal (last_name n)]) = Inr q"
    using assms components_below [of fs base rb n] names_directory_below [OF assms(1)]
    by (auto simp: entry_def pn plain_def below_def split: if_splits)
  moreover have "no_links fs rb (dir_names n)"
    using assms(1) no_links_append unfolding below_def pn by blast
  note resolve_components_below [OF _ this]
  ultimately show q: "q = rb @ path_names n" and "node_at fs (butlast q) = Some DirNode"
    using assms(1) by (auto simp: entry_of_components_def pn butlast_append below_def
        split: sum.splits option.splits node.splits)
  then show "strict_prefix rb q" by (simp add: pn strict_prefix_def)
qed

lemma entry_trailing:
  assumes "below fs base rb n" and "trailing n" and "entry fs (path_join base n) = Inr q"
  shows "node_at fs q = Some DirNode"
  using assms names_directory_below [OF assms(1)]
  by (auto simp: entry_def resolve_def split: if_splits sum.splits)

lemma remove_file_confined:
  assumes "below fs base rb n" and "\<not> trailing n"
  shows "confined rb fs (snd (fs_remove_file (path_join base n) fs))"
proof -
  have tree: "fs_tree fs" using assms(1) by (simp add: below_def)
  show ?thesis
  proof (cases "entry fs (path_join base n)")
    case (Inl e)
    then show ?thesis using confined_refl [OF tree] by (simp add: fs_remove_file_def)
  next
    case (Inr q)
    note e = entry_below_name [OF assms Inr]
    have "path_names n \<noteq> []" using e(1,3) by auto
    from below_not_link [OF assms(1) this] Inr e show ?thesis
      using confined_refl [OF tree] confined_del [OF tree e(3)]
      by (auto simp: fs_remove_file_def split: option.splits node.splits)
  qed
qed

lemma rename_confined:
  assumes "below fs base rb n1" and "below fs base rb n2" and "\<not> trailing n1"
    and "node_at fs (rb @ path_names n1) \<noteq> Some DirNode"
  shows "confined rb fs (snd (fs_rename (path_join base n1) (path_join base n2) fs))"
proof -
  have tree: "fs_tree fs" using assms(1) by (simp add: below_def)
  note refl = confined_refl [OF tree, of rb]
  show ?thesis
  proof (cases "(\<exists>q1. entry fs (path_join base n1) = Inr q1) \<and> (\<exists>q2. entry fs (path_join base n2) = Inr q2)")
    case False
    then show ?thesis using refl by (auto simp: fs_rename_def split: sum.splits)
  next
    case True
    then obtain q1 q2 where q1: "entry fs (path_join base n1) = Inr q1" and q2: "entry fs (path_join base n2) = Inr q2"
      by blast
    note e1 = entry_below_name [OF assms(1,3) q1]
    have n1: "path_names n1 \<noteq> []" using e1(1,3) by auto
    show ?thesis
    proof (cases "node_at fs q2 = Some DirNode \<or> (\<forall>d m. node_at fs q1 \<noteq> Some (FileNode d m)) \<or> q1 = q2")
      case True
      have "v = DirNode \<or> (\<exists>t. v = LinkNode t) \<or> (\<exists>d m. v = FileNode d m)" for v by (cases v) auto
      with True show ?thesis
        using refl q1 q2 assms(4) below_not_link [OF assms(1) n1] e1(1)
        by (fastforce simp: fs_rename_def split: option.splits)
    next
      case False
      then obtain d m where d: "node_at fs q1 = Some (FileNode d m)" and nd: "node_at fs q2 \<noteq> Some DirNode" "q1 \<noteq> q2"
        by blast
      have nt: "\<not> trailing n2" using entry_trailing [OF assms(2) _ q2] nd by blast
      note e2 = entry_below_name [OF assms(2) nt q2]
      have n2: "path_names n2 \<noteq> []" using e2(1,3) by auto
      note cd = confined_del [OF tree e1(3) d]
      have "confined rb (del_node q1 fs) (put_node q2 (FileNode d m) (del_node q1 fs))"
        using below_not_link [OF assms(2) n2] e1 e2 nd d
        by (intro confined_put confined_tree [OF cd]) (auto split: if_splits)
      with cd have "confined rb fs (put_node q2 (FileNode d m) (del_node q1 fs))" by (rule confined_trans)
      then show ?thesis using refl q1 q2 d nd by (auto simp: fs_rename_def)
    qed
  qed
qed

lemma put_file_confined:
  assumes "fs_tree fs" and "strict_prefix rb q" and "node_at fs q = Some (FileNode d m)"
  shows "confined rb fs (put_node q (FileNode d' m') fs)"
proof (rule confined_put)
  show "node_at fs (butlast q) = Some DirNode"
  proof -
    have "q \<noteq> []" using assms(2) by auto
    then show ?thesis using assms(3) tree_parent [OF assms(1), of "butlast q" "last q"] by simp
  qed
qed (use assms in auto)

lemma write_at_confined:
  assumes "fs_tree fs" and "strict_prefix rb q"
  shows "confined rb fs (snd (write_at q pos d fs))"
  using assms put_file_confined [OF assms] confined_refl [OF assms(1)]
  by (auto simp: write_at_def split: option.splits node.splits)

lemma resolve_below_name:
  assumes "below fs base rb n" and "resolve fs (path_join base n) = Inr q"
  shows "q = rb @ path_names n" and "node_at fs q \<noteq> Some DirNode \<Longrightarrow> strict_prefix rb q \<and> path_names n \<noteq> []"
proof -
  show q: "q = rb @ path_names n" using assms by (auto simp: below_def intro: resolve_below)
  show "strict_prefix rb q \<and> path_names n \<noteq> []" if "node_at fs q \<noteq> Some DirNode"
    using q that assms(1) by (auto simp: below_def base_at_def strict_prefix_def)
qed

lemma set_file_mtime_confined:
  assumes "below fs base rb n"
  shows "confined rb fs (snd (set_file_mtime (path_join base n) t fs))"
proof -
  have tree: "fs_tree fs" using assms by (simp add: below_def)
  show ?thesis
    using confined_refl [OF tree, of rb] resolve_below_name [OF assms] put_file_confined [OF tree]
    by (fastforce simp: set_file_mtime_def split: sum.splits option.splits node.splits)
qed

lemma file_create_confined:
  assumes "below fs base rb n" and "file_create (path_join base n) fs = (r, fs')"
  shows "confined rb fs fs'" and "r = Inr q \<Longrightarrow> strict_prefix rb q \<and> q = rb @ path_names n \<and>
    node_at fs' q = Some (FileNode [] (clock fs))"
proof -
  have tree: "fs_tree fs" using assms(1) by (simp add: below_def)
  note refl = confined_refl [OF tree, of rb]
  have *: "confined rb fs fs' \<and> (\<forall>q. r = Inr q \<longrightarrow> strict_prefix rb q \<and> q = rb @ path_names n \<and>
    node_at fs' q = Some (FileNode [] (clock fs)))"
  proof (cases "\<exists>q. resolve fs (path_join base n) = Inr q \<and> node_at fs q \<noteq> Some DirNode \<and> r = Inr q")
    case True
    then obtain q where q: "resolve fs (path_join base n) = Inr q" "node_at fs q \<noteq> Some DirNode" "r = Inr q" by blast
    note b = resolve_below_name [OF assms(1) q(1)]
    have s: "strict_prefix rb q" "path_names n \<noteq> []" using b(2) [OF q(2)] by auto
    have "node_at fs (butlast q) = Some DirNode" and fs': "fs' = put_node q (FileNode [] (clock fs)) fs"
      using assms(2) q by (auto simp: file_create_def split: if_splits)
    then have "confined rb fs fs'" using below_not_link [OF assms(1) s(2)] b(1) q(2) s tree
      by (auto intro!: confined_put)
    moreover have "q \<noteq> []" using s(1) by auto
    ultimately show ?thesis using q(3) s b(1) fs' by simp
  next
    case False
    then show ?thesis using assms(2) refl by (auto simp: file_create_def split: sum.splits if_splits)
  qed
  then show "confined rb fs fs'" "r = Inr q \<Longrightarrow> strict_prefix rb q \<and> q = rb @ path_names n \<and>
    node_at fs' q = Some (FileNode [] (clock fs))" by auto
qed

lemma write_file_confined:
  assumes "below fs base rb n"
  shows "confined rb fs (snd (write_file (path_join base n) d fs))"
proof (cases "file_create (path_join base n) fs")
  case (Pair r fs1)
  note c = file_create_confined [OF assms Pair]
  show ?thesis
  proof (cases r)
    case (Inr q)
    with c(2) have "confined rb fs1 (snd (write_at q 0 d fs1))"
      using confined_tree [OF c(1)] by (intro write_at_confined) auto
    with c(1) Inr Pair show ?thesis by (auto simp: write_file_def intro: confined_trans)
  qed (use c(1) Pair in \<open>auto simp: write_file_def\<close>)
qed

lemma create_dir_all_existing:
  assumes "fs_tree fs" and "is_dir_components fs cs"
  shows "create_dir_all_components cs fs = (Inr (), fs)"
proof -
  obtain r where r: "resolve_components fs cs = Inr r" "node_at fs r = Some DirNode"
    using assms(2) by (auto simp: is_dir_components_def split: sum.splits)
  have "\<exists>q. entry_of_components fs cs = Inr q \<and> node_at fs q \<noteq> None"
  proof (cases "\<exists>xs s. cs = xs @ [Normal s]")
    case True
    then obtain xs s where cs: "cs = xs @ [Normal s]" by blast
    have "walk MAX_LINKS fs (cwd fs) (xs @ [Normal s]) = Inr r" using r(1) cs by (simp add: resolve_components_def)
    from walk_prefix [OF this r(2) assms(1)] assms(1) obtain q m where
      q: "walk MAX_LINKS fs (cwd fs) xs = Inr q" "node_at fs q = Some DirNode" "walk m fs q [Normal s] = Inr r"
      by (auto simp: fs_tree_def)
    have "node_at fs (q @ [s]) \<noteq> None" using q(3) r(2) by (auto split: option.splits)
    with q show ?thesis by (simp add: entry_of_components_def cs resolve_components_def)
  next
    case False
    then have "entry_of_components fs cs = resolve_components fs cs"
      by (auto simp: entry_of_components_def split: list.splits component.splits)
    with r show ?thesis by simp
  qed
  then show ?thesis
    using assms(2) by (subst create_dir_all_components.simps) (auto simp: mkdir_components_def)
qed

lemma mkdir_confined:
  assumes "fs_tree fs" and "base_at fs base rb" and "no_links fs rb (ss @ [s])"
  shows "confined rb fs (snd (mkdir_components (path_components base @ plain (ss @ [s])) fs))"
proof -
  let ?cs = "path_components base @ plain (ss @ [s])"
  have "q = rb @ ss @ [s] \<and> node_at fs (rb @ ss) = Some DirNode" if "entry_of_components fs ?cs = Inr q" for q
    using that resolve_components_below [OF assms(2) no_links_append [OF assms(3)]]
    by (auto simp: entry_of_components_def plain_def split: sum.splits option.splits node.splits)
  moreover have "strict_prefix rb (rb @ ss @ [s])" by (simp add: strict_prefix_def)
  ultimately show ?thesis
    using assms(1) confined_refl [OF assms(1)]
    by (auto simp: mkdir_components_def butlast_append split: sum.splits intro!: confined_put)
qed

lemma create_dir_all_confined:
  assumes "fs_tree fs" and "base_at fs base rb" and "no_links fs rb ss"
  shows "confined rb fs (snd (create_dir_all_components (path_components base @ plain ss) fs))"
  using assms(3)
proof (induction ss rule: rev_induct)
  case Nil
  have "is_dir_components fs (path_components base)" using assms(2) by (simp add: is_dir_components_def base_at_def)
  from create_dir_all_existing [OF assms(1) this] show ?case by (simp add: plain_def confined_refl [OF assms(1)])
next
  case (snoc s ss)
  let ?cs = "path_components base @ plain (ss @ [s])"
  have cs: "?cs \<noteq> []" "butlast ?cs = path_components base @ plain ss" "last ?cs = Normal s"
    by (simp_all add: plain_def butlast_append)
  note mk = mkdir_confined [OF assms(1,2) snoc.prems]
  have ih: "confined rb fs (snd (create_dir_all_components (path_components base @ plain ss) fs))"
    using snoc no_links_append by blast
  have mk1: "confined rb fs1 (snd (mkdir_components ?cs fs1))" if "confined rb fs fs1" for fs1
    using that assms(2) snoc.prems by (intro mkdir_confined) (auto simp: confined_no_links confined_tree intro: base_at_confined)
  obtain r1 f1 where m1: "mkdir_components ?cs fs = (r1, f1)" by fastforce
  obtain r2 f2 where c2: "create_dir_all_components (path_components base @ plain ss) fs = (r2, f2)" by fastforce
  obtain r3 f3 where m3: "mkdir_components ?cs f2 = (r3, f3)" by fastforce
  have "confined rb fs f1" "confined rb fs f2" "confined rb fs f3"
    using mk ih mk1 m1 c2 m3 confined_trans [of rb fs f2 f3] by force+
  then show ?case
    using confined_refl [OF assms(1), of rb] cs
    by (subst create_dir_all_components.simps) (simp add: m1 c2 m3 split: sum.splits)
qed

lemma create_parent_confined:
  assumes "below fs base rb n"
  shows "confined rb fs (create_parent (path_join base n) fs)"
proof -
  have tree: "fs_tree fs" and b: "base_at fs base rb" and nl: "no_links fs rb (path_names n)"
    using assms by (auto simp: below_def)
  have c: "path_components (path_join base n) = path_components base @ plain (path_names n)"
    using assms by (auto simp: below_def intro: components_below)
  show ?thesis
  proof (cases "path_names n" rule: rev_cases)
    case Nil
    show ?thesis
    proof (cases "path_components base = [] \<or> last (path_components base) = RootDir")
      case True
      then show ?thesis using confined_refl [OF tree] by (auto simp: create_parent_def c Nil plain_def)
    next
      case False
      then have "walk MAX_LINKS fs (cwd fs) (butlast (path_components base) @ [last (path_components base)]) = Inr rb"
        using b by (simp add: base_at_def resolve_components_def)
      from walk_prefix [OF this _ tree] b tree have "is_dir_components fs (butlast (path_components base))"
        by (auto simp: is_dir_components_def resolve_components_def base_at_def fs_tree_def)
      from create_dir_all_existing [OF tree this] show ?thesis
        using confined_refl [OF tree] by (simp add: create_parent_def c Nil plain_def Let_def)
    qed
  next
    case (snoc ss s)
    then have "no_links fs rb ss" using nl no_links_append by simp
    from create_dir_all_confined [OF tree b this] show ?thesis
      using confined_refl [OF tree] by (simp add: create_parent_def c snoc plain_def butlast_append Let_def)
  qed
qed

section \<open>Writing stays below the base\<close>

definition sidecar :: "location \<Rightarrow> path \<Rightarrow> string \<Rightarrow> location" where
  "sidecar rb n suf = rb @ dir_names n @ [last_name n @ suf]"

text \<open>Where the download and the digest of a file go, there is nothing, or a plain file.\<close>

definition sidecars_plain :: "Fs \<Rightarrow> location \<Rightarrow> path \<Rightarrow> bool" where
  "sidecars_plain fs rb n \<longleftrightarrow>
     list_all (\<lambda>suf. case node_at fs (sidecar rb n suf) of
        None \<Rightarrow> True | Some (FileNode _ _) \<Rightarrow> True | _ \<Rightarrow> False) [''.download'', ''.digest'']"

lemma below_sidecar:
  assumes "below fs base rb n" and "n \<noteq> []" and "suf \<in> {''.download'', ''.digest''}"
    and "\<And>t. node_at fs (sidecar rb n suf) \<noteq> Some (LinkNode t)"
  shows "below fs base rb (n @ suf)" and "\<not> trailing (n @ suf)" and "rb @ path_names (n @ suf) = sidecar rb n suf"
    and "path_join base n @ suf = path_join base (n @ suf)"
proof -
  have s: "CHR ''/'' \<notin> set suf" "2 < length suf" "CHR 0x00 \<notin> set suf" using assms(3) by auto
  have len: "2 < length (last_name n @ suf)" using s(2) by simp
  then have nd: "last_name n @ suf \<noteq> ''..''" "last_name n @ suf \<noteq> ''.''" "last_name n @ suf \<noteq> []" by (intro notI, simp)+
  note pn = path_names_suffix [OF s(1,2), of n]
  show "path_join base n @ suf = path_join base (n @ suf)" using path_join_suffix [OF assms(2)] .
  show "rb @ path_names (n @ suf) = sidecar rb n suf" by (simp add: pn sidecar_def)
  have "last_name (n @ suf) = last_name n @ suf" using s(1) by (simp add: last_name_def split_on_snoc_suffix)
  then show "\<not> trailing (n @ suf)" using nd by (simp add: trailing_def)
  have "map name_component (dir_names n) = map Normal (dir_names n)"
    using assms(1) by (auto simp: below_def plain_name_def plain_def path_names_split split: if_splits)
  then have "plain_name (n @ suf)"
    using assms(1,2) s nd by (auto simp: below_def plain_name_def pn plain_def name_component_def is_absolute_def)
  moreover have nl: "no_links fs rb (dir_names n)"
    using assms(1) no_links_append unfolding below_def path_names_split by blast
  have "no_links fs rb (dir_names n @ [last_name n @ suf])"
    unfolding no_links_def
  proof (intro allI impI)
    fix k t assume k: "0 < k" "k \<le> length (dir_names n @ [last_name n @ suf])"
    show "node_at fs (rb @ take k (dir_names n @ [last_name n @ suf])) \<noteq> Some (LinkNode t)"
    proof (cases "k \<le> length (dir_names n)")
      case True
      then show ?thesis using nl k by (simp add: no_links_def)
    next
      case False
      then have "take k (dir_names n @ [last_name n @ suf]) = dir_names n @ [last_name n @ suf]" using k by simp
      then show ?thesis using assms(4) by (simp add: sidecar_def)
    qed
  qed
  ultimately show "below fs base rb (n @ suf)" using assms(1) by (simp add: below_def pn)
qed

lemma modify_time_confined:
  assumes "fs_tree fs" and "data_source job = FilePath base" and "base_at fs base rb" and "job_type job = Generic"
    and "\<And>f. f \<in> set (files job) \<Longrightarrow> name f \<noteq> [] \<and> sidecars_plain fs rb (name f)"
  shows "confined rb fs (modify_time job fs)"
proof -
  let ?k = "as_usize (file_num job)"
  let ?n = "name (files job ! ?k)"
  note refl = confined_refl [OF assms(1), of rb]
  show ?thesis
  proof (cases "?k < length (files job) \<and> (\<exists>q. resolve_entry_path fs job base ?n = Some q)")
    case False
    then show ?thesis using assms(2,4) refl by (auto simp: modify_time_def Let_def)
  next
    case True
    then obtain q where k: "?k < length (files job)" and "resolve_entry_path fs job base ?n = Some q" by blast
    then have j: "join_validated_path fs base ?n = Inr q" using assms(4) by (auto simp: resolve_entry_path_def split: sum.splits)
    have n: "?n \<noteq> []" "sidecars_plain fs rb ?n" using assms(5) k by auto
    note v = validated_no_links [OF j n(1) assms(1,3)]
    have b: "below fs base rb ?n" using v assms(1,3) by (simp add: below_def)
    have sc: "node_at fs (sidecar rb ?n suf) \<noteq> Some (LinkNode t)" "node_at fs (sidecar rb ?n suf) \<noteq> Some DirNode"
      if "suf \<in> {''.download'', ''.digest''}" for suf t
      using n(2) that by (auto simp: sidecars_plain_def split: option.splits node.splits)
    note bd = below_sidecar [OF b n(1), of "''.download''", simplified, OF sc(1), simplified]
    note bg = below_sidecar [OF b n(1), of "''.digest''", simplified, OF sc(1), simplified]
    define f1 where "f1 = snd (fs_remove_file (digest_path q) fs)"
    define f2 where "f2 = snd (fs_rename (download_path q) q f1)"
    have c1: "confined rb fs f1"
      using remove_file_confined [OF bg(1,2)] by (simp add: f1_def digest_path_def v(1) bg(4))
    have "node_at f1 (sidecar rb ?n ''.download'') \<noteq> Some DirNode"
    proof -
      have "node_at f1 x = node_at fs x \<or> node_at f1 x = None" for x
        by (auto simp: f1_def fs_remove_file_def split: sum.splits option.splits node.splits)
      then show ?thesis using sc(2) [of "''.download''"] by (metis insertI1 option.distinct(1))
    qed
    then have c2: "confined rb f1 f2"
      using rename_confined [of f1 base rb "?n @ ''.download''" ?n] below_confined [OF bd(1) c1] below_confined [OF b c1] bd(2,3)
      by (simp add: f2_def download_path_def v(1) bd(4))
    have c: "confined rb fs f2" using c1 c2 by (rule confined_trans)
    have "confined rb f2 (snd (set_file_mtime q t f2))" for t
      using set_file_mtime_confined [OF below_confined [OF b c]] by (simp add: v(1))
    with c have "confined rb fs (snd (set_file_mtime q t f2))" for t by (rule confined_trans)
    moreover have "modify_time job fs = snd (set_file_mtime q (modified_time (files job ! ?k)) f2)"
      using assms(2,4) k \<open>resolve_entry_path fs job base ?n = Some q\<close>
      by (simp add: modify_time_def Let_def f1_def f2_def)
    ultimately show ?thesis by simp
  qed
qed

text \<open>The open file of a job, if any, lies below the base.\<close>

definition stream_below :: "location \<Rightarrow> TransferJob \<Rightarrow> bool" where
  "stream_below rb job \<longleftrightarrow>
     (case data_stream job of Some (FileStream q _) \<Rightarrow> strict_prefix rb q | _ \<Rightarrow> True)"

definition writable_job :: "Fs \<Rightarrow> path \<Rightarrow> location \<Rightarrow> TransferJob \<Rightarrow> bool" where
  "writable_job fs base rb job \<longleftrightarrow> job_type job = Generic \<and> data_source job = FilePath base \<and>
     base_at fs base rb \<and> stream_below rb job \<and>
     list_all (\<lambda>f. name f \<noteq> [] \<and> sidecars_plain fs rb (name f)) (files job)"

lemma write_open_confined:
  assumes "fs_tree fs" and "writable_job fs base rb job" and "as_usize (blk_file_num block) < length (files job)"
    and "write_open env base block job fs = (r, job', fs')"
  shows "confined rb fs fs' \<and> stream_below rb job'"
proof -
  let ?f1 = "modify_time job fs"
  let ?n = "name (files job ! as_usize (blk_file_num block))"
  have w: "job_type job = Generic" "data_source job = FilePath base" "base_at fs base rb" "stream_below rb job"
    and f: "\<And>f. f \<in> set (files job) \<Longrightarrow> name f \<noteq> [] \<and> sidecars_plain fs rb (name f)"
    using assms(2) by (auto simp: writable_job_def list_all_iff)
  have c1: "confined rb fs ?f1" using modify_time_confined [OF assms(1) w(2,3,1) f] .
  note t1 = confined_tree [OF c1] and b1 = base_at_confined [OF w(3) c1]
  have n: "?n \<noteq> []" and sp: "sidecars_plain fs rb ?n" using f assms(3) by auto
  have sb: "stream_below rb (job\<lparr>file_num := x\<rparr>)" for x using w(4) by (simp add: stream_below_def)
  show ?thesis
  proof (cases "join_validated_path ?f1 base ?n")
    case (Inl e)
    then show ?thesis using assms(4) w(1) c1 sb by (auto simp: write_open_def Let_def)
  next
    case (Inr p)
    note v = validated_no_links [OF Inr n t1 b1]
    have b: "below ?f1 base rb ?n" using v t1 b1 by (simp add: below_def)
    let ?f2 = "create_parent p ?f1"
    have c2: "confined rb ?f1 ?f2" using create_parent_confined [OF b] by (simp add: v(1))
    have c12: "confined rb fs ?f2" using c1 c2 by (rule confined_trans)
    have sc: "node_at ?f2 (sidecar rb ?n suf) \<noteq> Some (LinkNode t)" if "suf \<in> {''.download'', ''.digest''}" for suf t
      using sp that c12 by (auto simp: sidecars_plain_def confined_def split: option.splits node.splits)
    note bp = below_confined [OF b c2]
    note bd = below_sidecar [OF bp n, of "''.download''", simplified, OF sc, simplified]
    note bg = below_sidecar [OF bp n, of "''.digest''", simplified, OF sc, simplified]
    define f3 where "f3 = (if path_exists ?f2 (digest_path p) then snd (fs_remove_file (digest_path p) ?f2) else ?f2)"
    have c3: "confined rb ?f2 f3"
      using remove_file_confined [OF bg(1,2)] confined_refl [OF confined_tree [OF c2]]
      by (simp add: f3_def digest_path_def v(1) bg(4))
    have c123: "confined rb fs f3" using c12 c3 by (rule confined_trans)
    obtain rc f4 where fc: "file_create (download_path p) f3 = (rc, f4)" by fastforce
    have fc': "file_create (path_join base (?n @ ''.download'')) f3 = (rc, f4)"
      using fc by (simp add: download_path_def v(1) bd(4))
    note cr = file_create_confined [OF below_confined [OF bd(1) c3] fc']
    have c4: "confined rb fs f4" using c123 cr(1) by (rule confined_trans)
    let ?f5 = "snd (write_file (digest_path p) (digest_to_json env (digest job)) f4)"
    have bg4: "below f4 base rb (?n @ ''.digest'')"
      using below_confined [OF below_confined [OF bg(1) c3] cr(1)] .
    have "confined rb f4 ?f5"
      using write_file_confined [OF bg4] by (simp add: digest_path_def v(1) bg(4))
    with c4 have c5: "confined rb fs ?f5" by (rule confined_trans)
    have out: "write_open env base block job fs =
       (case (if path_exists ?f2 (digest_path p) then fst (fs_remove_file (digest_path p) ?f2) else Inr ()) of
          Inl er \<Rightarrow> (Inl (FsErr er), job\<lparr>file_num := blk_file_num block\<rparr>, f3)
        | Inr _ \<Rightarrow> (case rc of
            Inl er \<Rightarrow> (Inl (FsErr er), job\<lparr>file_num := blk_file_num block\<rparr>, f4)
          | Inr q \<Rightarrow> (Inr (), job\<lparr>file_num := blk_file_num block, data_stream := Some (FileStream q 0)\<rparr>, ?f5)))"
      using w(1) Inr fc
      by (cases "path_exists ?f2 (digest_path p)"; cases "fs_remove_file (digest_path p) ?f2"; cases rc)
        (auto simp: write_open_def Let_def f3_def split: sum.splits)
    show ?thesis
      using assms(4) c123 c4 c5 sb cr(2) unfolding out by (auto simp: stream_below_def split: sum.splits if_splits)
  qed
qed

lemma write_prepare_confined:
  assumes "fs_tree fs" and "writable_job fs base rb job" and "write_prepare env block job fs = (r, job', fs')"
  shows "confined rb fs fs' \<and> stream_below rb job'"
proof (cases "as_usize (blk_file_num block) < length (files job) \<and>
    (as_usize (blk_file_num block) \<noteq> as_usize (file_num job) \<or> data_stream job = None)")
  case True
  then have "write_open env base block job fs = (r, job', fs')"
    using assms(2,3) by (auto simp: write_prepare_def writable_job_def)
  then show ?thesis using write_open_confined [OF assms(1,2)] True by blast
next
  case False
  then have "fs' = fs \<and> job' = job"
    using assms(2,3) by (auto simp: write_prepare_def writable_job_def split: if_splits)
  then show ?thesis using confined_refl [OF assms(1)] assms(2) by (simp add: writable_job_def)
qed

lemma write_data_confined:
  assumes "fs_tree fs" and "stream_below rb job" and "write_data env block job fs = (r, job', fs')"
  shows "confined rb fs fs' \<and> stream_below rb job'"
proof (cases "data_stream job")
  case None
  then show ?thesis using assms confined_refl [OF assms(1)] by (simp add: write_data_def Let_def)
next
  case (Some st)
  show ?thesis
  proof (cases st)
    case (FileStream q pos)
    then have q: "strict_prefix rb q" using assms(2) Some by (simp add: stream_below_def)
    obtain x f1 where w: "write_at q pos (block_bytes env block) fs = (x, f1)" by fastforce
    then have "confined rb fs f1" using write_at_confined [OF assms(1) q, of pos "block_bytes env block"] by simp
    then show ?thesis using assms(2,3) Some FileStream w q
      by (cases x) (auto simp: write_data_def Let_def stream_write_all_def stream_below_def)
  next
    case (BufStream b pos)
    then show ?thesis using assms Some confined_refl [OF assms(1)]
      by (auto simp: write_data_def Let_def stream_write_all_def stream_below_def)
  qed
qed


text \<open>A small file system with one download directory, a job that receives one file, and a
  concrete stand-in for the third-party code (a compressor that stores, a unary digest text).\<close>

definition unary_digest :: "FileDigest \<Rightarrow> bytes" where
  "unary_digest d = replicate (dg_size d) 1 @ [0] @ replicate (dg_modified d) 1"

definition parse_unary_digest :: "bytes \<Rightarrow> FileDigest option" where
  "parse_unary_digest b =
     Some \<lparr>dg_size = length (takeWhile (\<lambda>x. x = 1) b), dg_modified = length (takeWhile (\<lambda>x. x = 1) (rev b))\<rparr>"

definition example_env :: Env where
  "example_env = \<lparr>zstd_compress = Some, zstd_decode = Some, digest_to_json = unary_digest,
     digest_from_json = parse_unary_digest\<rparr>"

definition example_fs :: "(location \<times> node) list \<Rightarrow> Fs" where
  "example_fs extra = \<lparr>nodes = [([''d''], DirNode), ([''etc''], DirNode)] @ extra, cwd = [], readonly = [], clock = 5\<rparr>"

definition example_entry :: FileEntry where
  "example_entry = \<lparr>entry_type = File, name = ''f'', is_hidden = False, size = 2, modified_time = 7\<rparr>"

definition example_job :: TransferJob where
  "example_job = (new_write 1 Generic ''r'' (FilePath ''/d'') 0 False True False)\<lparr>files := [example_entry]\<rparr>"

definition example_block :: FileTransferBlock where
  "example_block = \<lparr>blk_id = 1, blk_file_num = 0, blk_data = [1, 2], blk_compressed = False\<rparr>"

lemmas example_defs = example_env_def example_fs_def example_entry_def example_job_def example_block_def
  new_write_def job_default_def

lemmas fs_call_defs = file_create_def fs_remove_file_def write_file_def write_at_def resolve_def entry_def
  resolve_components_def entry_of_components_def names_directory_def path_components_def is_absolute_def
  path_join_def path_exists_def metadata_def symlink_metadata_def node_result_def name_component_def
  fs_rename_def set_file_mtime_def MAX_LINKS_def

lemmas job_call_defs = write_block_def write_prepare_def write_open_def write_data_def modify_time_def
  resolve_entry_path_def join_validated_path_def validate_file_name_no_traversal_def
  validate_no_symlink_components_def job_join_def download_path_def digest_path_def create_parent_def
  stream_write_all_def block_bytes_def overwrite_at_def as_usize_def

lemma example_paths:
  "path_components ''/d/f'' = [RootDir, Normal ''d'', Normal ''f'']"
  "path_components ''/d/f.download'' = [RootDir, Normal ''d'', Normal ''f.download'']"
  "path_components ''/d/f.digest'' = [RootDir, Normal ''d'', Normal ''f.digest'']"
  "path_components ''/d'' = [RootDir, Normal ''d'']" "path_components ''f'' = [Normal ''f'']"
  "path_join ''/d'' ''f'' = ''/d/f''"
  "\<not> names_directory ''/d/f''" "\<not> names_directory ''/d/f.download''" "\<not> names_directory ''/d/f.digest''"
  by (simp_all add: path_components_def is_absolute_def name_component_def path_join_def names_directory_def)

lemma node_at_example:
  "node_at (example_fs extra) q =
     (if q = [] \<or> q = [''d''] \<or> q = [''etc''] then Some DirNode else map_of extra q)"
  by (auto simp: node_at_def example_fs_def)

lemma example_resolve:
  assumes "node_at fs [''d''] = Some DirNode" and "\<And>t. node_at fs [''d'', s] \<noteq> Some (LinkNode t)"
  shows "walk n fs c [RootDir, Normal ''d'', Normal s] = Inr [''d'', s]"
  using assms by (auto split: option.splits node.splits)

lemma example_create_parent:
  assumes "node_at fs [''d''] = Some DirNode"
  shows "create_parent ''/d/f'' fs = fs"
  using assms by (simp add: create_parent_def example_paths Let_def create_dir_all_components.simps
      mkdir_components_def entry_of_components_def resolve_components_def is_dir_components_def)

lemma example_write:
  "snd (snd (write_block example_env example_block example_job (example_fs []))) =
     put_node [''d'', ''f.download''] (FileNode [1, 2] 5)
       (put_node [''d'', ''f.digest''] (FileNode [0] 5)
         (put_node [''d'', ''f.digest''] (FileNode [] 5)
           (put_node [''d'', ''f.download''] (FileNode [] 5) (example_fs []))))"
proof -
  have st: "data_source example_job = FilePath ''/d''" "files example_job = [example_entry]" "name example_entry = ''f''"
    "job_type example_job = Generic" "file_num example_job = 0" "data_stream example_job = None" "job_id example_job = 1"
    "digest example_job = \<lparr>dg_size = 0, dg_modified = 0\<rparr>" "modified_time example_entry = 7"
    "blk_id example_block = 1" "blk_file_num example_block = 0" "blk_data example_block = [1, 2]"
    "blk_compressed example_block = False" "readonly (example_fs [])  = []" "clock (example_fs []) = 5" "cwd (example_fs []) = []"
    "digest_to_json example_env = unary_digest"
    by (simp_all add: example_defs)
  have jv: "join_validated_path (example_fs []) ''/d'' ''f'' = Inr ''/d/f''"
    by (simp add: join_validated_path_def validate_file_name_no_traversal_def is_absolute_def
        validate_no_symlink_components_def example_paths job_join_def symlink_metadata_def node_result_def
        entry_def entry_of_components_def resolve_components_def node_at_example st)
  have mt: "modify_time example_job (example_fs []) = example_fs []"
    by (simp add: modify_time_def st as_usize_def resolve_entry_path_def jv Let_def digest_path_def download_path_def
        fs_remove_file_def entry_def entry_of_components_def resolve_components_def example_paths node_at_example
        fs_rename_def set_file_mtime_def resolve_def)
  show ?thesis
    by (simp add: write_block_def write_prepare_def write_open_def write_data_def st as_usize_def jv mt Let_def
       example_create_parent node_at_example digest_path_def download_path_def path_exists_def metadata_def
       node_result_def resolve_def example_paths resolve_components_def file_create_def write_file_def write_at_def
       unary_digest_def overwrite_at_def stream_write_all_def block_bytes_def)
qed

lemma example_tree: "fs_tree (example_fs [])"
proof -
  have "cwd (example_fs []) = []" by (simp add: example_fs_def)
  then show ?thesis by (auto simp: fs_tree_def node_at_example Cons_eq_append_conv append_eq_Cons_conv split: if_splits)
qed

lemma example_writable: "writable_job (example_fs []) ''/d'' [''d''] example_job"
  by (simp add: writable_job_def example_defs stream_below_def base_at_def resolve_components_def
      example_paths node_at_def sidecars_plain_def sidecar_def dir_names_def last_name_def)


section \<open>Where the code falls short\<close>

definition link_fs :: Fs where
  "link_fs = example_fs [([''d'', ''f.download''], LinkNode ''/etc/x'')]"

definition two_file_job :: TransferJob where
  "two_file_job = example_job\<lparr>files := [example_entry\<lparr>name := ''e''\<rparr>, example_entry]\<rparr>"

text \<open>The check for links looks at the components of the file name but not at the \<open>.download\<close>
  companion that is really opened: with a link at \<open>/d/f.download\<close>, a block for the second file of a job
  on \<open>/d\<close> is accepted and its bytes are written to \<open>/etc/x\<close>.\<close>

theorem download_link_escapes:
  "\<exists>job'. write_block example_env (example_block\<lparr>blk_file_num := 1\<rparr>) two_file_job link_fs
     = (Inr (), job', snd (snd (write_block example_env (example_block\<lparr>blk_file_num := 1\<rparr>) two_file_job link_fs))) \<and>
   node_at link_fs [''etc'', ''x''] = None \<and>
   node_at (snd (snd (write_block example_env (example_block\<lparr>blk_file_num := 1\<rparr>) two_file_job link_fs))) [''etc'', ''x'']
     = Some (FileNode [1, 2] 5)"
proof -
  have st: "data_source two_file_job = FilePath ''/d''" "files two_file_job = [example_entry\<lparr>name := ''e''\<rparr>, example_entry]"
    "name example_entry = ''f''"
    "job_type two_file_job = Generic" "file_num two_file_job = 0" "data_stream two_file_job = None" "job_id two_file_job = 1"
    "digest two_file_job = \<lparr>dg_size = 0, dg_modified = 0\<rparr>" "modified_time example_entry = 7"
    "blk_id example_block = 1" "blk_data example_block = [1, 2]"
    "blk_compressed example_block = False" "readonly link_fs  = []" "clock link_fs = 5" "cwd link_fs = []"
    "digest_to_json example_env = unary_digest"
    by (simp_all add: example_defs two_file_job_def link_fs_def)
  have nd: "node_at link_fs q = (if q = [] \<or> q = [''d''] \<or> q = [''etc''] then Some DirNode
      else if q = [''d'', ''f.download''] then Some (LinkNode ''/etc/x'') else None)" for q
    by (simp add: link_fs_def node_at_example)
  have pc: "path_components ''/d/e'' = [RootDir, Normal ''d'', Normal ''e'']" "path_components ''e'' = [Normal ''e'']"
    "path_components ''/d/e.download'' = [RootDir, Normal ''d'', Normal ''e.download'']"
    "path_components ''/d/e.digest'' = [RootDir, Normal ''d'', Normal ''e.digest'']"
    "path_components ''/etc/x'' = [RootDir, Normal ''etc'', Normal ''x'']"
    "path_join ''/d'' ''e'' = ''/d/e''"
    "\<not> names_directory ''/d/e''" "\<not> names_directory ''/d/e.download''" "\<not> names_directory ''/d/e.digest''"
    by (simp_all add: path_components_def is_absolute_def name_component_def path_join_def names_directory_def)
  have jv: "join_validated_path link_fs ''/d'' ''f'' = Inr ''/d/f''" "join_validated_path link_fs ''/d'' ''e'' = Inr ''/d/e''"
    by (simp_all add: join_validated_path_def validate_file_name_no_traversal_def is_absolute_def
        validate_no_symlink_components_def example_paths pc job_join_def symlink_metadata_def node_result_def
        entry_def entry_of_components_def resolve_components_def nd st)
  have mt: "modify_time two_file_job link_fs = link_fs"
    by (simp add: modify_time_def st as_usize_def resolve_entry_path_def jv Let_def digest_path_def download_path_def
        fs_remove_file_def entry_def entry_of_components_def resolve_components_def pc nd
        fs_rename_def set_file_mtime_def resolve_def)
  have w40: "MAX_LINKS = Suc 39" by (simp add: MAX_LINKS_def)
  show ?thesis
    by (simp add: write_block_def write_prepare_def write_open_def write_data_def st as_usize_def jv mt Let_def
       example_create_parent nd digest_path_def download_path_def path_exists_def metadata_def
       node_result_def resolve_def example_paths pc resolve_components_def file_create_def write_file_def write_at_def
       unary_digest_def overwrite_at_def stream_write_all_def block_bytes_def w40)
qed

text \<open>The first block of a new transfer finishes an interrupted one: a stale partial download next to the
  file is renamed over the file before the new data arrives, so the file the user had is gone and the
  truncated one stands in its place until the transfer completes.\<close>

theorem stale_download_replaces_file:
  "node_at (snd (snd (write_block example_env example_block example_job
      (example_fs [([''d'', ''f''], FileNode whole m), ([''d'', ''f.download''], FileNode part m')])))) [''d'', ''f'']
   = Some (FileNode part (7 * 10 ^ 9))"
proof -
  let ?fs = "example_fs [([''d'', ''f''], FileNode whole m), ([''d'', ''f.download''], FileNode part m')]"
  have st: "data_source example_job = FilePath ''/d''" "files example_job = [example_entry]" "name example_entry = ''f''"
    "job_type example_job = Generic" "file_num example_job = 0" "data_stream example_job = None" "job_id example_job = 1"
    "digest example_job = \<lparr>dg_size = 0, dg_modified = 0\<rparr>" "modified_time example_entry = 7"
    "blk_id example_block = 1" "blk_file_num example_block = 0" "blk_data example_block = [1, 2]"
    "blk_compressed example_block = False" "readonly ?fs  = []" "clock ?fs = 5" "cwd ?fs = []"
    "digest_to_json example_env = unary_digest"
    by (simp_all add: example_defs)
  define fs1 where "fs1 = put_node [''d'', ''f''] (FileNode part (7 * 10 ^ 9))
      (put_node [''d'', ''f''] (FileNode part m') (del_node [''d'', ''f.download''] ?fs))"
  have nd1: "node_at fs1 q = (if q = [] \<or> q = [''d''] \<or> q = [''etc''] then Some DirNode
      else if q = [''d'', ''f''] then Some (FileNode part (7 * 10 ^ 9)) else None)" for q
    by (simp add: fs1_def node_at_example)
  have f1: "readonly fs1 = []" "clock fs1 = 5" "cwd fs1 = []" by (simp_all add: fs1_def st)
  have jv: "join_validated_path fs ''/d'' ''f'' = Inr ''/d/f''"
    if "\<And>t. node_at fs [''d'', ''f''] \<noteq> Some (LinkNode t)" "node_at fs [''d''] = Some DirNode" for fs
    using that by (auto simp: join_validated_path_def validate_file_name_no_traversal_def is_absolute_def
        validate_no_symlink_components_def example_paths job_join_def symlink_metadata_def node_result_def
        entry_def entry_of_components_def resolve_components_def Let_def split: option.splits node.splits)
  have mt: "modify_time example_job ?fs = fs1"
    by (simp add: modify_time_def st as_usize_def resolve_entry_path_def jv Let_def digest_path_def download_path_def
        fs_remove_file_def entry_def entry_of_components_def resolve_components_def example_paths node_at_example
        fs_rename_def set_file_mtime_def resolve_def fs1_def)
  show ?thesis
    by (simp add: write_block_def write_prepare_def write_open_def write_data_def st as_usize_def jv mt Let_def
       example_create_parent nd1 f1 digest_path_def download_path_def path_exists_def metadata_def
       node_result_def resolve_def example_paths resolve_components_def file_create_def write_file_def write_at_def
       unary_digest_def overwrite_at_def stream_write_all_def block_bytes_def)
qed

text \<open>Exactly which confirmation requests make the process panic: an offset confirmation for the current
  file number of a job, when that number is not below the number of files. Both numbers come from the peer,
  and the release build aborts on a panic.\<close>

theorem confirm_panics_iff:
  "confirm r job fs = None \<longleftrightarrow>
     cf_file_num r = file_num job \<and> (\<exists>offset > 0. cf_union r = Some (OffsetBlk offset)) \<and>
     (\<exists>p. data_source job = FilePath p) \<and> length (files job) \<le> as_usize (file_num job)"
  by (auto simp: confirm_def set_stream_offset_def set_file_confirmed_def Let_def
      split: option.splits confirm_union.splits DataSource.splits sum.splits prod.splits)

end
