(* ===== verification/File_Delivery.thy ===== *)
theory File_Delivery
  imports File_Confinement
begin

text \<open>
  A file sent is the file received (\<open>libs/hbb_common/src/fs.rs\<close>): reading a file in blocks, writing the blocks,
  finishing and resuming a transfer, and the confirmation protocol of the job list.
\<close>

section \<open>Reading a file in blocks\<close>

lemma take_split:
  assumes "k \<le> n" and "b = take k xs"
  shows "b @ take (n - length b) (drop (length b) xs) = take n xs"
proof (cases "k \<le> length xs")
  case True
  then have "length b = k" "b = take k xs" using assms by auto
  then show ?thesis using take_add [of k "n - k" xs] assms(1) by simp
qed (use assms in simp)

text \<open>The bytes of a stream from its position, and the stream moved on.\<close>

fun stream_rest :: "Fs \<Rightarrow> DataStream \<Rightarrow> bytes option" where
  "stream_rest fs (FileStream q pos) =
     (case node_at fs q of Some (FileNode d _) \<Rightarrow> Some (drop pos d) | _ \<Rightarrow> None)"
| "stream_rest fs (BufStream d pos) = Some (drop pos d)"

fun stream_skip :: "nat \<Rightarrow> DataStream \<Rightarrow> DataStream" where
  "stream_skip k (FileStream q pos) = FileStream q (pos + k)"
| "stream_skip k (BufStream d pos) = BufStream d (pos + k)"

lemma stream_skip_0 [simp]: "stream_skip 0 st = st"
  by (cases st) auto

lemma stream_skip_skip [simp]: "stream_skip k (stream_skip j st) = stream_skip (j + k) st"
  by (cases st) auto

lemma stream_rest_skip: "stream_rest fs st = Some xs \<Longrightarrow> stream_rest fs (stream_skip k st) = Some (drop k xs)"
  by (cases st) (auto simp: add.commute split: option.splits node.splits)

lemma stream_read_rest:
  assumes "stream_rest fs st = Some xs"
  shows "\<exists>k > 0. stream_read grab space st fs
     = Inr (take (min space k) xs, stream_skip (length (take (min space k) xs)) st)"
proof (cases st)
  case (FileStream q pos)
  with assms show ?thesis
    by (intro exI [of _ "max 1 (grab pos)"]) (auto simp: stream_read_def Let_def split: option.splits node.splits)
next
  case (BufStream d pos)
  with assms show ?thesis
    by (intro exI [of _ "max 1 (grab pos)"]) (auto simp: stream_read_def Let_def)
qed

text \<open>However few bytes each read returns, the loop fills the buffer or reaches the end.\<close>

lemma read_loop_rest:
  assumes "stream_rest fs st = Some xs" and "length acc < BUF_SIZE"
  shows "read_loop grab acc st fs =
    Inr (acc @ take (BUF_SIZE - length acc) xs, stream_skip (length (take (BUF_SIZE - length acc) xs)) st)"
  using assms
proof (induction "BUF_SIZE - length acc" arbitrary: acc st xs rule: less_induct)
  case less
  let ?space = "BUF_SIZE - length acc"
  obtain k where k: "0 < k" "stream_read grab ?space st fs
     = Inr (take (min ?space k) xs, stream_skip (length (take (min ?space k) xs)) st)"
    using stream_read_rest [OF less.prems(1)] by blast
  define b where "b = take (min ?space k) xs"
  have split: "b @ take (?space - length b) (drop (length b) xs) = take ?space xs"
    by (rule take_split [of "min ?space k"]) (auto simp: b_def)
  have rd: "stream_read grab ?space st fs = Inr (b, stream_skip (length b) st)"
    using k(2) by (simp add: b_def)
  have bs: "length b \<le> ?space" by (simp add: b_def)
  show ?case
  proof (cases "b = [] \<or> length acc + length b \<ge> BUF_SIZE")
    case True
    have "take ?space xs = b"
    proof (cases "b = []")
      case True
      then show ?thesis using k(1) less.prems(2) by (auto simp: b_def)
    next
      case False
      then have "length b = ?space" using True bs by simp
      then show ?thesis using split by simp
    qed
    with True show ?thesis by (subst read_loop.simps) (simp add: rd)
  next
    case False
    have "read_loop grab (acc @ b) (stream_skip (length b) st) fs =
      Inr ((acc @ b) @ take (BUF_SIZE - length (acc @ b)) (drop (length b) xs),
        stream_skip (length (take (BUF_SIZE - length (acc @ b)) (drop (length b) xs))) (stream_skip (length b) st))"
    proof (rule less.hyps)
      have "0 < length b" using False by simp
      moreover have "length acc + length b < BUF_SIZE" using False by simp
      ultimately show "BUF_SIZE - length (acc @ b) < ?space" unfolding length_append by linarith
    qed (use False less.prems in \<open>auto intro: stream_rest_skip\<close>)
    moreover have "BUF_SIZE - length (acc @ b) = ?space - length b" by simp
    moreover have "length b + length (take (?space - length b) (drop (length b) xs)) = length (take ?space xs)"
      using split by (metis length_append)
    ultimately show ?thesis using False split
      by (subst read_loop.simps) (simp add: rd del: length_take)
  qed
qed

lemma pack_block_bytes:
  assumes "zstd_ok env" and "pack_block env job buf = (d, c)"
  shows "(if c then decompress env d else d) = buf"
proof -
  obtain z where "zstd_compress env buf = Some z" "zstd_decode env z = Some buf"
    using assms(1) unfolding zstd_ok_def by blast
  then show ?thesis using assms(2)
    by (auto simp: pack_block_def compress_def decompress_def Let_def split: if_splits)
qed

text \<open>The reading side of a transfer: the next blocks of the current file, up to its end mark.\<close>

fun read_blocks :: "Env \<Rightarrow> (nat \<Rightarrow> nat) \<Rightarrow> nat \<Rightarrow> TransferJob \<Rightarrow> Fs \<Rightarrow> FileTransferBlock list \<times> TransferJob" where
  "read_blocks env grab 0 job fs = ([], job)"
| "read_blocks env grab (Suc k) job fs =
     (case read_block env grab job fs of
        (Inr (Some b), job1) \<Rightarrow> (case read_blocks env grab k job1 fs of (bs, job2) \<Rightarrow> (b # bs, job2))
      | (_, job1) \<Rightarrow> ([], job1))"

definition block_count :: "nat \<Rightarrow> nat" where
  "block_count n = Suc ((n + BUF_SIZE - 1) div BUF_SIZE)"

definition ready_to_read :: "TransferJob \<Rightarrow> bool" where
  "ready_to_read job \<longleftrightarrow> from_file job \<and> as_usize (file_num job) < length (files job) \<and>
     (job_type job = Generic \<and> enable_overwrite_detection job \<longrightarrow> file_confirmed job)"

lemma block_count_step:
  assumes "0 < n"
  shows "block_count n = Suc (block_count (n - BUF_SIZE))"
proof (cases "n \<le> BUF_SIZE")
  case True
  then have "n + BUF_SIZE - 1 = (n - 1) + BUF_SIZE" "(n - 1) div BUF_SIZE = 0" using assms by auto
  then show ?thesis using True by (simp add: block_count_def BUF_SIZE_def)
next
  case False
  then have "n + BUF_SIZE - 1 = (n - BUF_SIZE + BUF_SIZE - 1) + BUF_SIZE" by simp
  then show ?thesis using False by (simp add: block_count_def BUF_SIZE_def)
qed

lemma read_blocks_file:
  assumes "zstd_ok env" and "ready_to_read job" and "data_stream job = Some st" and "stream_rest fs st = Some xs"
  shows "\<exists>bs. fst (read_blocks env grab (block_count (length xs)) job fs) = bs \<and>
     concat (map (block_bytes env) bs) = xs \<and> (\<forall>b \<in> set bs. blk_id b = job_id job \<and> blk_file_num b = file_num job) \<and>
     (let job' = snd (read_blocks env grab (block_count (length xs)) job fs) in
      file_num job' = i32_add (file_num job) 1 \<and> data_stream job' = None \<and> \<not> file_confirmed job')"
  using assms(2-4)
proof (induction "length xs" arbitrary: xs job st rule: less_induct)
  case less
  have B: "0 < BUF_SIZE" by (simp add: BUF_SIZE_def)
  have rl: "read_loop grab [] st fs = Inr (take BUF_SIZE xs, stream_skip (length (take BUF_SIZE xs)) st)"
    using read_loop_rest [OF less.prems(3), of "[]" grab] B by simp
  have rd: "from_file job" "\<not> as_usize (file_num job) \<ge> length (files job)"
    "\<not> (job_type job = Generic \<and> enable_overwrite_detection job \<and> \<not> file_confirmed job)"
    using less.prems(1) by (auto simp: ready_to_read_def)
  show ?case
  proof (cases "xs = []")
    case True
    have "read_block env grab job fs = (Inr (Some \<lparr>blk_id = job_id job, blk_file_num = file_num job,
        blk_data = [], blk_compressed = False\<rparr>), next_file job)"
      using rl rd less.prems(2) True by (simp add: read_block_def)
    then show ?thesis
      using True by (simp add: block_count_def BUF_SIZE_def block_bytes_def next_file_def)
  next
    case False
    define buf where "buf = take BUF_SIZE xs"
    have ne: "buf \<noteq> []" using False B by (simp add: buf_def)
    obtain d c where pk: "pack_block env job buf = (d, c)" by fastforce
    define job1 where "job1 = job\<lparr>data_stream := Some (stream_skip (length buf) st),
        finished_size := u64_add (finished_size job) (length buf),
        transferred := u64_add (transferred job) (length d)\<rparr>"
    define b where "b = \<lparr>blk_id = job_id job, blk_file_num = file_num job, blk_data = d, blk_compressed = c\<rparr>"
    have rb: "read_block env grab job fs = (Inr (Some b), job1)"
      using rl rd less.prems(2) ne pk by (simp add: read_block_def buf_def [symmetric] b_def job1_def del: length_take)
    have bb: "block_bytes env b = buf" using pack_block_bytes [OF assms(1) pk] by (cases c) (simp_all add: block_bytes_def b_def)
    have "length (drop (length buf) xs) < length xs" using ne False by simp
    moreover have "ready_to_read job1" using less.prems(1) by (simp add: ready_to_read_def job1_def from_file_def)
    moreover have "data_stream job1 = Some (stream_skip (length buf) st)" by (simp add: job1_def)
    moreover have "stream_rest fs (stream_skip (length buf) st) = Some (drop (length buf) xs)"
      using less.prems(3) by (rule stream_rest_skip)
    ultimately have ih: "\<exists>bs. fst (read_blocks env grab (block_count (length (drop (length buf) xs))) job1 fs) = bs \<and>
       concat (map (block_bytes env) bs) = drop (length buf) xs \<and>
       (\<forall>b \<in> set bs. blk_id b = job_id job1 \<and> blk_file_num b = file_num job1) \<and>
       (let job' = snd (read_blocks env grab (block_count (length (drop (length buf) xs))) job1 fs) in
        file_num job' = i32_add (file_num job1) 1 \<and> data_stream job' = None \<and> \<not> file_confirmed job')"
      by (rule less.hyps)
    have "length (drop (length buf) xs) = length xs - BUF_SIZE" by (simp add: buf_def)
    then have "block_count (length xs) = Suc (block_count (length (drop (length buf) xs)))"
      using block_count_step [of "length xs"] False by simp
    moreover have "buf @ drop (length buf) xs = xs" by (simp add: buf_def min_def)
    ultimately show ?thesis
      using ih bb by (simp add: rb split_beta Let_def job1_def b_def [symmetric]) (simp add: b_def)
  qed
qed

text \<open>Reading a file block by block, with any split of the data by the operating system and with or
  without compression, yields exactly the bytes from the current position to the end of the file, after
  the expected number of blocks, all carrying the job and file number, and moves the job to the next file.\<close>

theorem read_blocks_exact:
  assumes "zstd_ok env" and "ready_to_read job" and "data_stream job = Some (FileStream q pos)"
    and "node_at fs q = Some (FileNode d m)"
  shows "case read_blocks env grab (block_count (length d - pos)) job fs of (bs, job') \<Rightarrow>
     concat (map (block_bytes env) bs) = drop pos d \<and>
     (\<forall>b \<in> set bs. blk_id b = job_id job \<and> blk_file_num b = file_num job) \<and>
     file_num job' = i32_add (file_num job) 1 \<and> data_stream job' = None"
  using read_blocks_file [OF assms(1-3), of fs "drop pos d" grab] assms(4)
  by (auto simp: Let_def split: prod.splits)

lemma example_zstd_ok: "zstd_ok example_env"
  by (simp add: zstd_ok_def example_env_def)

theorem read_blocks_exact_witness:
  "concat (map (block_bytes example_env) (fst (read_blocks example_env (\<lambda>_. 1) 2
     (example_job\<lparr>data_stream := Some (FileStream [''d'', ''f''] 1)\<rparr>)
     (example_fs [([''d'', ''f''], FileNode [4, 5, 6] 0)])))) = [5, 6]"
proof -
  have "block_count (length [4, 5, 6 :: u8] - 1) = 2" by (simp add: block_count_def BUF_SIZE_def)
  moreover have "ready_to_read (example_job\<lparr>data_stream := Some (FileStream [''d'', ''f''] 1)\<rparr>)"
    by (simp add: ready_to_read_def example_defs from_file_def as_usize_def)
  ultimately show ?thesis
    using read_blocks_exact [OF example_zstd_ok, of "example_job\<lparr>data_stream := Some (FileStream [''d'', ''f''] 1)\<rparr>"
      "[''d'', ''f'']" 1 "example_fs [([''d'', ''f''], FileNode [4, 5, 6] 0)]" "[4, 5, 6]" 0 "\<lambda>_. 1"]
    by (simp add: node_at_example split_beta)
qed

text \<open>When the compressor fails, the sender loses data: the block goes out empty and marked as compressed,
  while the job counts the bytes as sent.\<close>

theorem compressor_failure_drops_data:
  assumes "zstd_compress env (take BUF_SIZE (drop pos d)) = None" and "ready_to_read job"
    and "data_stream job = Some (FileStream q pos)" and "node_at fs q = Some (FileNode d m)"
    and "pos < length d" and "\<not> is_compressed_file (read_name job)"
  shows "\<exists>job'. read_block env grab job fs = (Inr (Some \<lparr>blk_id = job_id job, blk_file_num = file_num job,
        blk_data = [], blk_compressed = True\<rparr>), job') \<and>
     finished_size job' = u64_add (finished_size job) (length (take BUF_SIZE (drop pos d)))"
proof -
  have "read_loop grab [] (FileStream q pos) fs = Inr (take BUF_SIZE (drop pos d),
      stream_skip (length (take BUF_SIZE (drop pos d))) (FileStream q pos))"
    using read_loop_rest [of fs "FileStream q pos" "drop pos d" "[]" grab] assms(4) by (simp add: BUF_SIZE_def)
  moreover have "take BUF_SIZE (drop pos d) \<noteq> []" using assms(5) by (simp add: BUF_SIZE_def)
  ultimately show ?thesis using assms
    by (auto simp: read_block_def ready_to_read_def pack_block_def compress_def Let_def)
qed

theorem compressor_failure_drops_data_witness:
  "\<exists>job'. read_block (example_env\<lparr>zstd_compress := \<lambda>_. None\<rparr>) (\<lambda>_. 1)
      (example_job\<lparr>data_stream := Some (FileStream [''d'', ''f''] 0)\<rparr>)
      (example_fs [([''d'', ''f''], FileNode [4, 5, 6] 0)])
    = (Inr (Some \<lparr>blk_id = 1, blk_file_num = 0, blk_data = [], blk_compressed = True\<rparr>), job')"
  using compressor_failure_drops_data [of "example_env\<lparr>zstd_compress := \<lambda>_. None\<rparr>" 0 "[4, 5, 6]"
      "example_job\<lparr>data_stream := Some (FileStream [''d'', ''f''] 0)\<rparr>" "[''d'', ''f'']"
      "example_fs [([''d'', ''f''], FileNode [4, 5, 6] 0)]" 0 "\<lambda>_. 1"]
  by (auto simp: node_at_def ready_to_read_def example_defs from_file_def as_usize_def read_name_def
      is_compressed_file_def get_ext_def)

section \<open>Delivering a file\<close>

fun write_blocks :: "Env \<Rightarrow> FileTransferBlock list \<Rightarrow> TransferJob \<Rightarrow> Fs \<Rightarrow>
    (transfer_error + unit) \<times> TransferJob \<times> Fs" where
  "write_blocks env [] job fs = (Inr (), job, fs)"
| "write_blocks env (b # bs) job fs =
     (case write_block env b job fs of
        (Inl e, job1, fs1) \<Rightarrow> (Inl e, job1, fs1)
      | (Inr _, job1, fs1) \<Rightarrow> write_blocks env bs job1 fs1)"

text \<open>The parts of a job that writing to its open file leaves alone.\<close>

definition same_target :: "TransferJob \<Rightarrow> TransferJob \<Rightarrow> bool" where
  "same_target j j' \<longleftrightarrow> job_id j' = job_id j \<and> job_type j' = job_type j \<and> data_source j' = data_source j \<and>
     files j' = files j \<and> file_num j' = file_num j"

lemma write_open_file:
  assumes "data_stream job = Some (FileStream q (length old))" and "q \<noteq> []" and "node_at fs q = Some (FileNode old m)"
    and "data_source job = FilePath base" and "blk_id b = job_id job" and "blk_file_num b = file_num job"
    and "as_usize (file_num job) < length (files job)"
  shows "\<exists>job'. write_block env b job fs =
      (Inr (), job', put_node q (FileNode (old @ block_bytes env b) (clock fs)) fs) \<and>
    data_stream job' = Some (FileStream q (length (old @ block_bytes env b))) \<and> same_target job job'"
  using assms
  by (simp add: write_block_def write_prepare_def write_data_def stream_write_all_def write_at_def
      overwrite_at_def Let_def same_target_def)

lemma write_blocks_append:
  assumes "data_stream job = Some (FileStream q (length old))" and "q \<noteq> []" and "node_at fs q = Some (FileNode old m)"
    and "data_source job = FilePath base"
    and "\<forall>b \<in> set bs. blk_id b = job_id job \<and> blk_file_num b = file_num job"
    and "as_usize (file_num job) < length (files job)"
  shows "\<exists>job' fs' m'. write_blocks env bs job fs = (Inr (), job', fs') \<and>
    node_at fs' q = Some (FileNode (old @ concat (map (block_bytes env) bs)) m') \<and>
    (\<forall>x. x \<noteq> q \<longrightarrow> node_at fs' x = node_at fs x) \<and> cwd fs' = cwd fs \<and> readonly fs' = readonly fs \<and>
    clock fs' = clock fs \<and> same_target job job'"
  using assms
proof (induction bs arbitrary: old job fs m)
  case Nil
  then show ?case by (simp add: same_target_def)
next
  case (Cons b bs)
  have hd: "blk_id b = job_id job" "blk_file_num b = file_num job" using Cons.prems(5) by auto
  obtain j1 where j1: "write_block env b job fs =
      (Inr (), j1, put_node q (FileNode (old @ block_bytes env b) (clock fs)) fs)"
    "data_stream j1 = Some (FileStream q (length (old @ block_bytes env b)))" "same_target job j1"
    using write_open_file [OF Cons.prems(1-4) hd Cons.prems(6)] by blast
  let ?f1 = "put_node q (FileNode (old @ block_bytes env b) (clock fs)) fs"
  have "node_at ?f1 q = Some (FileNode (old @ block_bytes env b) (clock fs))" using Cons.prems(2) by simp
  note ih = Cons.IH [OF j1(2) Cons.prems(2) this]
  have "data_source j1 = FilePath base" "\<forall>b \<in> set bs. blk_id b = job_id j1 \<and> blk_file_num b = file_num j1"
    "as_usize (file_num j1) < length (files j1)"
    using j1(3) Cons.prems(4-6) by (simp_all add: same_target_def)
  from ih [OF this] obtain j2 f2 m2 where
    "write_blocks env bs j1 ?f1 = (Inr (), j2, f2)"
    "node_at f2 q = Some (FileNode ((old @ block_bytes env b) @ concat (map (block_bytes env) bs)) m2)"
    "\<forall>x. x \<noteq> q \<longrightarrow> node_at f2 x = node_at ?f1 x" "cwd f2 = cwd fs" "readonly f2 = readonly fs" "clock f2 = clock fs" "same_target j1 j2"
    by (auto simp del: node_at_put)
  then show ?case using j1 by (auto simp: same_target_def)
qed

lemma resolve_at:
  assumes "below fs base rb n" and "\<not> trailing n" and "node_at fs (rb @ dir_names n) = Some DirNode"
  shows "resolve fs (path_join base n) = Inr (rb @ path_names n)" and "entry fs (path_join base n) = Inr (rb @ path_names n)"
proof -
  have b: "fs_tree fs" "base_at fs base rb" "plain_name n" using assms(1) by (auto simp: below_def)
  have pn: "path_names n = dir_names n @ [last_name n]" using assms(2) by (auto simp: trailing_def path_names_split)
  have c: "path_components (path_join base n) = (path_components base @ plain (dir_names n)) @ [Normal (last_name n)]"
    using components_below [OF b(2,3)] by (simp add: pn plain_def)
  have p: "path_join base n \<noteq> []" "CHR 0x00 \<notin> set (path_join base n)" "\<not> names_directory (path_join base n)"
    using b(2,3) names_directory_below [OF assms(1)] assms(2)
    by (auto simp: path_join_def base_at_def plain_name_def)
  obtain m where "resolve_components fs (path_components base @ plain (dir_names n)) = walk m fs rb (plain (dir_names n))"
    using b(2) walk_append unfolding base_at_def resolve_components_def by blast
  then have d: "resolve_components fs (path_components base @ plain (dir_names n)) = Inr (rb @ dir_names n)"
    using walk_dirs [OF b(1) assms(3)] by simp
  then obtain m' where w: "resolve_components fs ((path_components base @ plain (dir_names n)) @ [Normal (last_name n)])
      = walk m' fs (rb @ dir_names n) [Normal (last_name n)]"
    using walk_append [OF _ assms(3)] unfolding resolve_components_def by blast
  have "node_at fs (rb @ dir_names n @ [last_name n]) \<noteq> Some (LinkNode t)" for t
    using below_not_link [OF assms(1)] pn by simp
  then have "resolve_components fs ((path_components base @ plain (dir_names n)) @ [Normal (last_name n)]) = Inr (rb @ path_names n)"
    unfolding w by (auto simp: pn split: option.splits node.splits)
  then show "resolve fs (path_join base n) = Inr (rb @ path_names n)" using p by (simp add: resolve_def c)
  show "entry fs (path_join base n) = Inr (rb @ path_names n)"
    using p d assms(3) by (simp add: entry_def c entry_of_components_def pn)
qed

lemma join_validated_at:
  assumes "below fs base rb n" and "\<not> trailing n" and "node_at fs (rb @ dir_names n) = Some DirNode"
    and "validate_file_name_no_traversal n = Inr ()" and "n \<noteq> []"
  shows "join_validated_path fs base n = Inr (path_join base n)"
proof -
  have b: "fs_tree fs" "base_at fs base rb" "plain_name n" using assms(1) by (auto simp: below_def)
  have pn: "path_names n = dir_names n @ [last_name n]" using assms(2) by (auto simp: trailing_def path_names_split)
  have "check_symlinks fs base (plain (dir_names n @ [last_name n])) = Inr ()"
    using b below_not_link [OF assms(1)] assms(3) pn
    by (intro check_symlinks_passes [where n = n and pre = "[]" and base = base and rb = rb])
      (auto simp: base_at_def plain_def)
  with components_relative [OF b(3)] have "validate_no_symlink_components fs base n = Inr ()"
    by (auto simp: validate_no_symlink_components_def pn)
  then show ?thesis using assms(4,5) by (simp add: join_validated_path_def job_join_def)
qed

lemma no_links_dirs:
  assumes "fs_tree fs" and "node_at fs (rb @ ds) = Some DirNode" and "\<And>t. node_at fs (rb @ ds @ [l]) \<noteq> Some (LinkNode t)"
  shows "no_links fs rb (ds @ [l])"
  using assms(2,3)
proof (induction ds arbitrary: rb)
  case Nil
  then show ?case by (simp add: no_links_Cons) (simp add: no_links_def)
next
  case (Cons d ds)
  have "node_at fs (rb @ [d]) = Some DirNode"
    using Cons.prems(1)
  proof (induction ds rule: rev_induct)
    case (snoc x xs)
    then show ?case using tree_parent [OF assms(1), of "rb @ d # xs" x] by simp
  qed simp
  with Cons.IH [of "rb @ [d]"] Cons.prems show ?case by (simp add: no_links_Cons)
qed

lemma dir_names_suffix: "CHR ''/'' \<notin> set suf \<Longrightarrow> dir_names (n @ suf) = dir_names n"
  by (simp add: dir_names_def split_on_snoc_suffix)

lemma confined_file_change:
  assumes "fs_tree fs" and "strict_prefix rb q" and "node_at fs q = Some (FileNode d m)"
    and "node_at fs' q = Some (FileNode d' m')" and "\<And>x. x \<noteq> q \<Longrightarrow> node_at fs' x = node_at fs x"
    and "cwd fs' = cwd fs" and "clock fs' = clock fs"
  shows "confined rb fs fs'"
proof -
  have "fs_tree fs'" unfolding fs_tree_def
  proof (intro conjI allI impI)
    fix p s assume "node_at fs' (p @ [s]) \<noteq> None"
    then have "node_at fs (p @ [s]) \<noteq> None" using assms(3,5) by (cases "p @ [s] = q") auto
    then have "node_at fs p = Some DirNode" by (rule tree_parent [OF assms(1)])
    then show "node_at fs' p = Some DirNode" using assms(3,5) by (cases "p = q") auto
  next
    have "cwd fs \<noteq> q" using assms(1,3) by (auto simp: fs_tree_def)
    then show "node_at fs' (cwd fs') = Some DirNode" using assms(1,5,6) by (simp add: fs_tree_def)
  qed
  moreover have "strict_prefix rb x" if "node_at fs' x \<noteq> node_at fs x" for x
    using that assms(2,5) by (cases "x = q") auto
  moreover have "node_at fs' x = Some DirNode" if "node_at fs x = Some DirNode" for x
    using that assms(3,5) by (cases "x = q") auto
  moreover have "node_at fs' x = Some (LinkNode t) \<longleftrightarrow> node_at fs x = Some (LinkNode t)" for x t
    using assms(3-5) by (cases "x = q") auto
  ultimately show ?thesis using assms(6,7) by (simp add: confined_def)
qed

text \<open>A place ready for a file: its directory is there, and no link or directory is in the way.\<close>

definition place_ready :: "Fs \<Rightarrow> path \<Rightarrow> location \<Rightarrow> path \<Rightarrow> bool" where
  "place_ready fs base rb n \<longleftrightarrow> fs_tree fs \<and> base_at fs base rb \<and> readonly fs = [] \<and>
     validate_file_name_no_traversal n = Inr () \<and> \<not> trailing n \<and> n \<noteq> [] \<and>
     node_at fs (rb @ dir_names n) = Some DirNode \<and>
     list_all (\<lambda>q. case node_at fs q of None \<Rightarrow> True | Some (FileNode _ _) \<Rightarrow> True | _ \<Rightarrow> False)
       [rb @ path_names n, sidecar rb n ''.download'', sidecar rb n ''.digest'']"

lemma place_ready_paths:
  assumes "place_ready fs base rb n"
  shows "below fs base rb n" and "join_validated_path fs base n = Inr (path_join base n)"
    and "resolve fs (path_join base n) = Inr (rb @ path_names n)" and "entry fs (path_join base n) = Inr (rb @ path_names n)"
    and "\<And>suf. suf \<in> {''.download'', ''.digest''} \<Longrightarrow> resolve fs (path_join base n @ suf) = Inr (sidecar rb n suf)"
    and "\<And>suf. suf \<in> {''.download'', ''.digest''} \<Longrightarrow> entry fs (path_join base n @ suf) = Inr (sidecar rb n suf)"
    and "create_parent (path_join base n) fs = fs"
proof -
  have p: "fs_tree fs" "base_at fs base rb" "validate_file_name_no_traversal n = Inr ()" "\<not> trailing n" "n \<noteq> []"
    "node_at fs (rb @ dir_names n) = Some DirNode"
    and ln: "\<And>t. node_at fs (rb @ path_names n) \<noteq> Some (LinkNode t)"
      "\<And>suf t. suf \<in> {''.download'', ''.digest''} \<Longrightarrow> node_at fs (sidecar rb n suf) \<noteq> Some (LinkNode t)"
    using assms by (auto simp: place_ready_def split: option.splits node.splits)
  have pl: "plain_name n" using validated_plain [OF p(3)] by (simp add: plain_name_def)
  have pn: "path_names n = dir_names n @ [last_name n]" using p(4) by (auto simp: trailing_def path_names_split)
  show b: "below fs base rb n"
    using p pl no_links_dirs [OF p(1,6)] ln(1) by (simp add: below_def pn)
  show "join_validated_path fs base n = Inr (path_join base n)" using join_validated_at [OF b p(4,6,3,5)] .
  show "resolve fs (path_join base n) = Inr (rb @ path_names n)" "entry fs (path_join base n) = Inr (rb @ path_names n)"
    using resolve_at [OF b p(4,6)] .
  show "resolve fs (path_join base n @ suf) = Inr (sidecar rb n suf)" "entry fs (path_join base n @ suf) = Inr (sidecar rb n suf)"
    if s: "suf \<in> {''.download'', ''.digest''}" for suf
  proof -
    note bs = below_sidecar [OF b p(5) s ln(2) [OF s]]
    have "node_at fs (rb @ dir_names (n @ suf)) = Some DirNode" using p(6) s dir_names_suffix [of suf n] by auto
    from resolve_at [OF bs(1,2) this] bs(3,4)
    show "resolve fs (path_join base n @ suf) = Inr (sidecar rb n suf)" "entry fs (path_join base n @ suf) = Inr (sidecar rb n suf)"
      by simp_all
  qed
  have "path_components (path_join base n) = path_components base @ plain (dir_names n) @ [Normal (last_name n)]"
    using components_below [OF p(2) pl] by (simp add: pn plain_def)
  moreover have "is_dir_components fs (path_components base @ plain (dir_names n))"
  proof -
    obtain m where "resolve_components fs (path_components base @ plain (dir_names n)) = walk m fs rb (plain (dir_names n))"
      using p(2) walk_append unfolding base_at_def resolve_components_def by blast
    then show ?thesis using walk_dirs [OF p(1,6)] p(6) by (simp add: is_dir_components_def)
  qed
  note create_dir_all_existing [OF p(1) this]
  ultimately show "create_parent (path_join base n) fs = fs"
    by (simp add: create_parent_def Let_def butlast_append)
qed

lemma place_ready_confined:
  assumes "place_ready fs base rb n" and "confined rb fs fs'" and "readonly fs' = []"
    and "\<And>q. q \<in> {rb @ path_names n, sidecar rb n ''.download'', sidecar rb n ''.digest''} \<Longrightarrow> node_at fs' q \<noteq> Some DirNode"
  shows "place_ready fs' base rb n"
proof -
  have "case node_at fs' q of None \<Rightarrow> True | Some (FileNode _ _) \<Rightarrow> True | _ \<Rightarrow> False"
    if "q \<in> {rb @ path_names n, sidecar rb n ''.download'', sidecar rb n ''.digest''}" for q
    using that assms(1,2) assms(4) [OF that]
    by (auto simp: place_ready_def confined_def split: option.splits node.splits)
  then show ?thesis using assms
    by (auto simp: place_ready_def confined_tree intro: base_at_confined) (auto simp: confined_def)
qed

lemma sidecar_distinct:
  assumes "\<not> trailing n"
  shows "rb @ path_names n \<noteq> sidecar rb n ''.download''" "rb @ path_names n \<noteq> sidecar rb n ''.digest''"
    "sidecar rb n ''.download'' \<noteq> sidecar rb n ''.digest''"
    "sidecar rb n suf \<noteq> []" "rb @ path_names n \<noteq> []" "strict_prefix rb (sidecar rb n suf)" "strict_prefix rb (rb @ path_names n)"
    "butlast (sidecar rb n suf) = rb @ dir_names n" "butlast (rb @ path_names n) = rb @ dir_names n"
proof -
  have pn: "path_names n = dir_names n @ [last_name n]" using assms by (auto simp: trailing_def path_names_split)
  show "rb @ path_names n \<noteq> sidecar rb n ''.download''" "rb @ path_names n \<noteq> sidecar rb n ''.digest''"
    "sidecar rb n ''.download'' \<noteq> sidecar rb n ''.digest''"
    "sidecar rb n suf \<noteq> []" "rb @ path_names n \<noteq> []" "strict_prefix rb (sidecar rb n suf)" "strict_prefix rb (rb @ path_names n)"
    "butlast (sidecar rb n suf) = rb @ dir_names n" "butlast (rb @ path_names n) = rb @ dir_names n"
    by (auto simp: pn sidecar_def strict_prefix_def butlast_append)
qed

lemma remove_digest:
  assumes "place_ready fs base rb n"
  shows "\<exists>f1. snd (fs_remove_file (digest_path (path_join base n)) fs) = f1 \<and> place_ready f1 base rb n \<and>
    (\<forall>x. node_at f1 x = (if x = sidecar rb n ''.digest'' then None else node_at fs x))"
proof -
  let ?g = "sidecar rb n ''.digest''"
  have nt: "\<not> trailing n" and n: "n \<noteq> []" and ro: "readonly fs = []" and tree: "fs_tree fs"
    and g: "node_at fs ?g = None \<or> (\<exists>d m. node_at fs ?g = Some (FileNode d m))"
    using assms by (auto simp: place_ready_def split: option.splits node.splits)
  note d = sidecar_distinct [OF nt, of rb]
  have e: "entry fs (path_join base n @ ''.digest'') = Inr ?g" using place_ready_paths(6) [OF assms] by simp
  show ?thesis
  proof (cases "node_at fs ?g")
    case None
    then show ?thesis using e assms by (simp add: fs_remove_file_def digest_path_def)
  next
    case (Some v)
    then obtain c m where v: "v = FileNode c m" using g by auto
    have "confined rb fs (del_node ?g fs)" using confined_del [OF tree d(6)] Some v by blast
    then have "place_ready (del_node ?g fs) base rb n"
      by (rule place_ready_confined [OF assms])
        (use assms in \<open>auto simp: place_ready_def split: if_splits option.splits node.splits\<close>)
    then show ?thesis using e Some v d(4) ro by (simp add: fs_remove_file_def digest_path_def)
  qed
qed

lemma set_mtime_at:
  assumes "place_ready fs base rb n"
  shows "\<exists>f. snd (set_file_mtime (path_join base n) t fs) = f \<and> confined rb fs f \<and> readonly f = [] \<and>
    (\<forall>x. node_at f x = (if x = rb @ path_names n
       then (case node_at fs x of Some (FileNode d _) \<Rightarrow> Some (FileNode d (t * 10 ^ 9)) | v \<Rightarrow> v) else node_at fs x))"
proof -
  have nt: "\<not> trailing n" and ro: "readonly fs = []" using assms by (auto simp: place_ready_def)
  have nd: "node_at fs (rb @ path_names n) \<noteq> Some DirNode" "node_at fs (rb @ path_names n) \<noteq> Some (LinkNode l)" for l
    using assms by (auto simp: place_ready_def)
  show ?thesis
    using set_file_mtime_confined [OF place_ready_paths(1) [OF assms], of t] place_ready_paths(3) [OF assms] ro nd
      sidecar_distinct(5) [OF nt, of rb]
    by (auto simp: set_file_mtime_def split: option.splits node.splits)
qed

definition current_name :: "TransferJob \<Rightarrow> string" where
  "current_name job = name (files job ! as_usize (file_num job))"

lemma modify_time_at:
  assumes "place_ready fs base rb (current_name job)" and "job_type job = Generic" and "data_source job = FilePath base"
    and "as_usize (file_num job) < length (files job)"
  defines "q \<equiv> path_join base (current_name job)"
  shows "modify_time job fs = snd (set_file_mtime q (modified_time (files job ! as_usize (file_num job)))
     (snd (fs_rename (download_path q) q (snd (fs_remove_file (digest_path q) fs)))))"
  using place_ready_paths(2) [OF assms(1)] assms
  by (simp add: modify_time_def resolve_entry_path_def current_name_def Let_def)

lemma modify_time_finishes:
  assumes "place_ready fs base rb (current_name job)" and "job_type job = Generic" and "data_source job = FilePath base"
    and "as_usize (file_num job) < length (files job)"
    and "node_at fs (sidecar rb (current_name job) ''.download'') = Some (FileNode d m)"
  shows "node_at (modify_time job fs) (rb @ path_names (current_name job))
      = Some (FileNode d (modified_time (files job ! as_usize (file_num job)) * 10 ^ 9)) \<and>
    node_at (modify_time job fs) (sidecar rb (current_name job) ''.download'') = None"
proof -
  let ?n = "current_name job"
  let ?p = "rb @ path_names ?n" and ?s = "sidecar rb ?n ''.download''"
  have nt: "\<not> trailing ?n" using assms(1) by (simp add: place_ready_def)
  note dist = sidecar_distinct [OF nt, of rb]
  obtain f1 where f1: "snd (fs_remove_file (digest_path (path_join base ?n)) fs) = f1" "place_ready f1 base rb ?n"
    and n1: "\<And>x. node_at f1 x = (if x = sidecar rb ?n ''.digest'' then None else node_at fs x)"
    using remove_digest [OF assms(1)] by blast
  have s1: "node_at f1 ?s = Some (FileNode d m)" using n1 assms(5) dist(3) by simp
  have p1: "node_at f1 ?p \<noteq> Some DirNode" "node_at f1 ?p \<noteq> Some (LinkNode t)" "readonly f1 = []" "fs_tree f1"
    "node_at f1 (rb @ dir_names ?n) = Some DirNode" for t
    using f1(2) by (auto simp: place_ready_def)
  have np: "\<not> prefix ?s ?p"
  proof
    assume "prefix ?s ?p"
    moreover have "length ?s = length ?p" using nt by (auto simp: sidecar_def trailing_def path_names_split)
    ultimately have "?s = ?p" by (metis append_Nil2 append_eq_append_conv prefix_def)
    with dist(1) show False by simp
  qed
  let ?f2 = "put_node ?p (FileNode d m) (del_node ?s f1)"
  have rn: "snd (fs_rename (download_path (path_join base ?n)) (path_join base ?n) f1) = ?f2"
    using place_ready_paths(4) [OF f1(2)] place_ready_paths(6) [OF f1(2)] s1 p1 np dist(1)
    by (auto simp: fs_rename_def download_path_def)
  have cd: "confined rb f1 (del_node ?s f1)" using confined_del [OF p1(4) dist(6)] s1 by blast
  moreover have "confined rb (del_node ?s f1) ?f2"
    using p1 dist s1 by (intro confined_put confined_tree [OF cd]) (auto split: if_splits)
  ultimately have "confined rb f1 ?f2" by (rule confined_trans)
  then have r2: "place_ready ?f2 base rb ?n"
    by (rule place_ready_confined [OF f1(2)])
      (use f1(2) in \<open>auto simp: place_ready_def split: if_splits option.splits node.splits\<close>)
  have p2: "node_at ?f2 ?p = Some (FileNode d m)" "node_at ?f2 ?s = None" using dist by auto
  from set_mtime_at [OF r2, of "modified_time (files job ! as_usize (file_num job))"] p2 dist
  show ?thesis unfolding modify_time_at [OF assms(1-4)] f1(1) rn by (auto simp del: node_at_put)
qed

lemma modify_time_idle:
  assumes "place_ready fs base rb (current_name job)" and "job_type job = Generic" and "data_source job = FilePath base"
    and "as_usize (file_num job) < length (files job)"
    and "node_at fs (sidecar rb (current_name job) ''.download'') = None"
  shows "place_ready (modify_time job fs) base rb (current_name job) \<and>
    node_at (modify_time job fs) (sidecar rb (current_name job) ''.download'') = None \<and>
    node_at (modify_time job fs) (sidecar rb (current_name job) ''.digest'') = None"
proof -
  let ?n = "current_name job"
  have nt: "\<not> trailing ?n" using assms(1) by (simp add: place_ready_def)
  note dist = sidecar_distinct [OF nt, of rb]
  obtain f1 where f1: "snd (fs_remove_file (digest_path (path_join base ?n)) fs) = f1" "place_ready f1 base rb ?n"
    and n1: "\<And>x. node_at f1 x = (if x = sidecar rb ?n ''.digest'' then None else node_at fs x)"
    using remove_digest [OF assms(1)] by blast
  have rn: "snd (fs_rename (download_path (path_join base ?n)) (path_join base ?n) f1) = f1"
    using place_ready_paths(4) [OF f1(2)] place_ready_paths(6) [OF f1(2)] n1 assms(5) dist(3)
    by (simp add: fs_rename_def download_path_def)
  obtain f where f: "snd (set_file_mtime (path_join base ?n) (modified_time (files job ! as_usize (file_num job))) f1) = f"
    "confined rb f1 f" "readonly f = []"
    and nf: "\<And>x. node_at f x = (if x = rb @ path_names ?n
       then (case node_at f1 x of Some (FileNode d _) \<Rightarrow> Some (FileNode d (modified_time (files job ! as_usize (file_num job)) * 10 ^ 9))
             | v \<Rightarrow> v) else node_at f1 x)"
    using set_mtime_at [OF f1(2)] by blast
  have "place_ready f base rb ?n"
    by (rule place_ready_confined [OF f1(2) f(2,3)])
      (use f1(2) in \<open>auto simp: nf place_ready_def split: if_splits option.splits node.splits\<close>)
  moreover have "node_at f (sidecar rb ?n ''.download'') = None" "node_at f (sidecar rb ?n ''.digest'') = None"
    using nf n1 assms(5) dist by auto
  ultimately show ?thesis unfolding modify_time_at [OF assms(1-4)] f1(1) rn f(1) by simp
qed

definition receiver_ready :: "Fs \<Rightarrow> path \<Rightarrow> location \<Rightarrow> TransferJob \<Rightarrow> bool" where
  "receiver_ready fs base rb job \<longleftrightarrow> job_type job = Generic \<and> data_source job = FilePath base \<and>
     data_stream job = None \<and> as_usize (file_num job) < length (files job) \<and>
     place_ready fs base rb (current_name job) \<and>
     node_at fs (sidecar rb (current_name job) ''.download'') = None"

lemma write_prepare_opens:
  assumes "receiver_ready fs base rb job" and "blk_file_num b = file_num job"
  shows "\<exists>fs'. write_prepare env b job fs =
      (Inr (), job\<lparr>data_stream := Some (FileStream (sidecar rb (current_name job) ''.download'') 0)\<rparr>, fs') \<and>
    place_ready fs' base rb (current_name job) \<and>
    node_at fs' (sidecar rb (current_name job) ''.download'') = Some (FileNode [] (clock fs'))"
proof -
  let ?n = "current_name job"
  let ?d = "sidecar rb ?n ''.download''" and ?g = "sidecar rb ?n ''.digest''"
  have r: "job_type job = Generic" "data_source job = FilePath base" "data_stream job = None"
    "as_usize (file_num job) < length (files job)" "place_ready fs base rb ?n" "node_at fs ?d = None"
    using assms(1) by (auto simp: receiver_ready_def)
  define f1 where "f1 = modify_time job fs"
  have f1: "place_ready f1 base rb ?n" "node_at f1 ?d = None" "node_at f1 ?g = None"
    using modify_time_idle [OF r(5,1,2,4,6)] by (simp_all add: f1_def)
  have nt: "\<not> trailing ?n" using f1(1) by (simp add: place_ready_def)
  note dist = sidecar_distinct [OF nt, of rb]
  have p1: "readonly f1 = []" "fs_tree f1" "node_at f1 (rb @ dir_names ?n) = Some DirNode"
    using f1(1) by (auto simp: place_ready_def)
  note pp = place_ready_paths [OF f1(1)]
  define f2 where "f2 = put_node ?d (FileNode [] (clock f1)) f1"
  have fc: "file_create (download_path (path_join base ?n)) f1 = (Inr ?d, f2)"
    using pp(5) [of "''.download''"] f1(2) p1 dist by (simp add: file_create_def download_path_def f2_def)
  have c2: "confined rb f1 f2" unfolding f2_def using p1 f1(2) dist by (intro confined_put) auto
  have r2: "place_ready f2 base rb ?n"
    by (rule place_ready_confined [OF f1(1) c2])
      (use f1(1) dist in \<open>auto simp: f2_def place_ready_def split: if_splits option.splits node.splits\<close>)
  have n2: "node_at f2 ?g = None" "clock f2 = clock f1" "readonly f2 = []" "node_at f2 (rb @ dir_names ?n) = Some DirNode"
    using f1(3) dist p1 r2 by (auto simp: f2_def place_ready_def)
  define j where "j = digest_to_json env (digest job)"
  define f3 where "f3 = put_node ?g (FileNode j (clock f1)) (put_node ?g (FileNode [] (clock f1)) f2)"
  have wf: "snd (write_file (digest_path (path_join base ?n)) j f2) = f3"
    using place_ready_paths(5) [OF r2, of "''.digest''"] n2 dist
    by (simp add: write_file_def file_create_def digest_path_def write_at_def overwrite_at_def f3_def)
  have c3: "confined rb f2 (put_node ?g (FileNode [] (clock f1)) f2)"
    using n2 dist confined_tree [OF c2] by (intro confined_put) auto
  have "confined rb (put_node ?g (FileNode [] (clock f1)) f2) f3"
    unfolding f3_def using dist by (intro put_file_confined confined_tree [OF c3]) auto
  with c3 have c4: "confined rb f2 f3" by (rule confined_trans)
  have "place_ready f3 base rb ?n"
    by (rule place_ready_confined [OF r2 c4])
      (use r2 dist n2 in \<open>auto simp: f3_def place_ready_def split: if_splits option.splits node.splits\<close>)
  moreover have "node_at f3 ?d = Some (FileNode [] (clock f3))"
    using dist n2 by (simp add: f3_def f2_def)
  moreover have "write_prepare env b job fs = (Inr (), job\<lparr>data_stream := Some (FileStream ?d 0)\<rparr>, f3)"
  proof -
    have "path_exists f1 (digest_path (path_join base ?n)) = False"
      using pp(5) [of "''.digest''"] f1(3) by (simp add: path_exists_def metadata_def node_result_def digest_path_def)
    moreover have "name (files job ! as_usize (file_num job)) = ?n" by (simp add: current_name_def)
    moreover have "job\<lparr>file_num := file_num job, data_stream := x\<rparr> = job\<lparr>data_stream := x\<rparr>" for x by simp
    ultimately show ?thesis
      using r assms(2) pp(2,7) fc wf
      by (simp add: write_prepare_def write_open_def f1_def [symmetric] j_def)
  qed
  ultimately show ?thesis by blast
qed

lemma write_blocks_after_open:
  assumes "write_prepare env b job fs = (Inr (), job1, fs1)" and "write_prepare env b job1 fs1 = (Inr (), job1, fs1)"
    and "job_id job1 = job_id job" and "blk_id b = job_id job"
  shows "write_blocks env (b # bs) job fs = write_blocks env (b # bs) job1 fs1"
  using assms by (simp add: write_block_def)

text \<open>From an open download file on: the blocks are appended and the file is finished.\<close>

lemma finish_writes:
  assumes "place_ready fs base rb (current_name job)" and "job_type job = Generic" and "data_source job = FilePath base"
    and "as_usize (file_num job) < length (files job)"
    and "data_stream job = Some (FileStream (sidecar rb (current_name job) ''.download'') (length old))"
    and "node_at fs (sidecar rb (current_name job) ''.download'') = Some (FileNode old m)"
    and "\<forall>b \<in> set bs. blk_id b = job_id job \<and> blk_file_num b = file_num job"
    and "old @ concat (map (block_bytes env) bs) = d"
  shows "\<exists>job' fs'. write_blocks env bs job fs = (Inr (), job', fs') \<and>
     node_at (modify_time job' fs') (rb @ path_names (current_name job))
       = Some (FileNode d (modified_time (files job ! as_usize (file_num job)) * 10 ^ 9)) \<and>
     node_at (modify_time job' fs') (sidecar rb (current_name job) ''.download'') = None"
proof -
  let ?n = "current_name job"
  let ?s = "sidecar rb ?n ''.download''"
  have r: "\<not> trailing ?n" "fs_tree fs" "readonly fs = []" using assms(1) by (auto simp: place_ready_def)
  note dist = sidecar_distinct [OF r(1), of rb]
  have "\<exists>job' fs' m'. write_blocks env bs job fs = (Inr (), job', fs') \<and>
    node_at fs' ?s = Some (FileNode (old @ concat (map (block_bytes env) bs)) m') \<and>
    (\<forall>x. x \<noteq> ?s \<longrightarrow> node_at fs' x = node_at fs x) \<and> cwd fs' = cwd fs \<and> readonly fs' = readonly fs \<and>
    clock fs' = clock fs \<and> same_target job job'"
    using assms dist by (intro write_blocks_append) auto
  then obtain j' f' m' where w: "write_blocks env bs job fs = (Inr (), j', f')"
    "node_at f' ?s = Some (FileNode d m')" "\<And>x. x \<noteq> ?s \<Longrightarrow> node_at f' x = node_at fs x" "cwd f' = cwd fs"
    "readonly f' = readonly fs" "clock f' = clock fs" "same_target job j'"
    using assms(8) by auto
  have j': "job_type j' = Generic" "data_source j' = FilePath base" "files j' = files job" "file_num j' = file_num job"
    "current_name j' = ?n"
    using w(7) assms by (auto simp: same_target_def current_name_def)
  have c: "confined rb fs f'"
    using confined_file_change [OF r(2) dist(6) assms(6) w(2) w(3) w(4,6)] by blast
  have "place_ready f' base rb ?n"
  proof (rule place_ready_confined [OF assms(1) c])
    show "readonly f' = []" using w(5) r(3) by simp
    show "node_at f' x \<noteq> Some DirNode"
      if "x \<in> {rb @ path_names ?n, sidecar rb ?n ''.download'', sidecar rb ?n ''.digest''}" for x
      using that w(2,3) assms(1) by (cases "x = ?s") (auto simp: place_ready_def)
  qed
  with modify_time_finishes [of f' base rb j' d m'] j' assms(4) w(1,2) show ?thesis by simp
qed

lemma read_blocks_Cons:
  assumes "ready_to_read job" and "data_stream job = Some st" and "stream_rest fs st = Some xs"
  obtains b bs where "fst (read_blocks env grab (block_count (length xs)) job fs) = b # bs"
proof -
  have "\<exists>b j. read_block env grab job fs = (Inr (Some b), j)"
    using read_loop_rest [OF assms(3), of "[]" grab] assms(1,2)
    by (auto simp: read_block_def ready_to_read_def BUF_SIZE_def split_beta Let_def)
  then obtain b j where "read_block env grab job fs = (Inr (Some b), j)" by blast
  then have "fst (read_blocks env grab (block_count (length xs)) job fs)
    = b # fst (read_blocks env grab ((length xs + BUF_SIZE - 1) div BUF_SIZE) j fs)"
    by (simp add: block_count_def split_beta)
  then show ?thesis by (rule that)
qed

text \<open>C1: a file sent is the file received. The sender reads a file of any size in blocks, in whatever pieces the
  operating system returns and with or without compression; the receiver writes them and finishes the file. Every
  write succeeds, the received file has exactly the bytes of the source and the announced modification
  time, and the temporary download file is gone.\<close>

theorem transfer_delivers_file:
  assumes "zstd_ok env" and "ready_to_read sender" and "data_stream sender = Some (FileStream q 0)"
    and "node_at sender_fs q = Some (FileNode d m)"
    and "receiver_ready fs base rb receiver" and "job_id receiver = job_id sender" and "file_num receiver = file_num sender"
  shows "let bs = fst (read_blocks env grab (block_count (length d)) sender sender_fs) in
     \<exists>receiver' fs'. write_blocks env bs receiver fs = (Inr (), receiver', fs') \<and>
       node_at (modify_time receiver' fs') (rb @ path_names (current_name receiver))
         = Some (FileNode d (modified_time (files receiver ! as_usize (file_num receiver)) * 10 ^ 9)) \<and>
       node_at (modify_time receiver' fs') (sidecar rb (current_name receiver) ''.download'') = None"
proof -
  let ?n = "current_name receiver"
  let ?s = "sidecar rb ?n ''.download''"
  define bs where "bs = fst (read_blocks env grab (block_count (length d)) sender sender_fs)"
  have src: "stream_rest sender_fs (FileStream q 0) = Some d" using assms(4) by simp
  have cc: "concat (map (block_bytes env) bs) = d"
    and ids: "\<forall>b \<in> set bs. blk_id b = job_id receiver \<and> blk_file_num b = file_num receiver"
    using read_blocks_file [OF assms(1-3) src, of grab] assms(6,7) by (auto simp: bs_def)
  have r: "job_type receiver = Generic" "data_source receiver = FilePath base"
    "as_usize (file_num receiver) < length (files receiver)"
    using assms(5) by (auto simp: receiver_ready_def)
  obtain b bs' where bs: "bs = b # bs'" using read_blocks_Cons [OF assms(2,3) src] unfolding bs_def by blast
  have hd: "blk_id b = job_id receiver" "blk_file_num b = file_num receiver" using ids bs by auto
  obtain f1 where f1: "write_prepare env b receiver fs =
      (Inr (), receiver\<lparr>data_stream := Some (FileStream ?s 0)\<rparr>, f1)"
    "place_ready f1 base rb ?n" "node_at f1 ?s = Some (FileNode [] (clock f1))"
    using write_prepare_opens [OF assms(5) hd(2)] by blast
  let ?r1 = "receiver\<lparr>data_stream := Some (FileStream ?s 0)\<rparr>"
  have "write_prepare env b ?r1 f1 = (Inr (), ?r1, f1)" using r hd by (simp add: write_prepare_def)
  then have eq: "write_blocks env bs receiver fs = write_blocks env bs ?r1 f1"
    unfolding bs using f1(1) hd(1) by (intro write_blocks_after_open) auto
  have cn: "current_name ?r1 = ?n" by (simp add: current_name_def)
  show ?thesis
    using finish_writes [of f1 base rb ?r1 "[]" "clock f1" bs env d] f1 r ids cc eq
    unfolding cn Let_def bs_def [symmetric] by simp
qed

lemma example_receiver_ready: "receiver_ready (example_fs []) ''/d'' [''d''] example_job"
  using example_tree
  by (auto simp: receiver_ready_def place_ready_def current_name_def example_defs base_at_def resolve_components_def
      example_paths node_at_def validate_file_name_no_traversal_def is_absolute_def trailing_def last_name_def
      dir_names_def path_names_def sidecar_def as_usize_def)

theorem transfer_delivers_file_witness:
  "\<exists>receiver' fs'. write_blocks example_env
      (fst (read_blocks example_env (\<lambda>_. 1) (block_count (length [4, 5, 6 :: u8]))
        (example_job\<lparr>data_stream := Some (FileStream [''d'', ''f''] 0)\<rparr>)
        (example_fs [([''d'', ''f''], FileNode [4, 5, 6] 0)]))) example_job (example_fs []) = (Inr (), receiver', fs') \<and>
    node_at (modify_time receiver' fs') [''d'', ''f''] = Some (FileNode [4, 5, 6] (7 * 10 ^ 9))"
proof -
  have r: "ready_to_read (example_job\<lparr>data_stream := Some (FileStream [''d'', ''f''] 0)\<rparr>)"
    by (simp add: ready_to_read_def example_defs from_file_def as_usize_def)
  have n: "path_names (current_name example_job) = [''f'']"
    "modified_time (files example_job ! as_usize (file_num example_job)) = 7"
    by (simp_all add: current_name_def example_defs path_names_def as_usize_def)
  from transfer_delivers_file [OF example_zstd_ok r _ _ example_receiver_ready, of "[''d'', ''f'']"
      "example_fs [([''d'', ''f''], FileNode [4, 5, 6] 0)]" "[4, 5, 6]" 0 "\<lambda>_. 1"]
  show ?thesis by (auto simp: n node_at_example Let_def)
qed



section \<open>The job list\<close>

text \<open>How preparing a job relates it to the job before.\<close>

definition prepared :: "TransferJob \<Rightarrow> TransferJob \<Rightarrow> bool" where
  "prepared j j1 \<longleftrightarrow> job_id j1 = job_id j \<and> job_type j1 = job_type j \<and>
     enable_overwrite_detection j1 = enable_overwrite_detection j \<and> is_last_job j1 = is_last_job j \<and>
     (file_confirmed j1 \<longrightarrow> file_confirmed j) \<and> (data_stream j1 \<noteq> None \<longrightarrow> file_num j1 = file_num j)"

lemma prepared_refl: "prepared j j"
  by (simp add: prepared_def)

lemma open_data_stream_prepared: "open_data_stream j fs = (r, j1) \<Longrightarrow> prepared j j1"
  by (auto simp: open_data_stream_def prepared_def split: DataSource.splits if_splits sum.splits)

lemma send_sent: "send m out = (r, out') \<Longrightarrow> sent out' = sent out \<or> sent out' = sent out @ [m]"
  by (auto simp: send_def split: if_splits)

definition no_new_blocks :: "OutStream \<Rightarrow> OutStream \<Rightarrow> bool" where
  "no_new_blocks out out' \<longleftrightarrow> (\<forall>b. MsgBlock b \<in> set (sent out') \<longrightarrow> MsgBlock b \<in> set (sent out))"

lemma send_no_new_blocks: "send m out = (r, out') \<Longrightarrow> \<forall>b. m \<noteq> MsgBlock b \<Longrightarrow> no_new_blocks out out'"
  by (auto simp: no_new_blocks_def send_def split: if_splits)

lemma no_new_blocks_trans: "no_new_blocks a b \<Longrightarrow> no_new_blocks b c \<Longrightarrow> no_new_blocks a c"
  by (simp add: no_new_blocks_def)

lemma init_data_stream_prepared:
  assumes "init_data_stream j fs out = (r, j1, out1)"
  shows "prepared j j1 \<and> no_new_blocks out out1"
proof -
  obtain r0 j0 where o: "open_data_stream j fs = (r0, j0)" by fastforce
  note p = open_data_stream_prepared [OF o]
  have s: "no_new_blocks out o1" if "send_current_digest j0 fs out = (x, o1)" for x o1
    using that send_no_new_blocks by (auto simp: send_current_digest_def no_new_blocks_def split: sum.splits prod.splits)
  show ?thesis
    using assms o p s
    by (auto simp: init_data_stream_def prepared_def no_new_blocks_def split: sum.splits bool.splits if_splits prod.splits)
qed

lemma init_jobs_prepared:
  assumes "init_jobs js fs out = (r, js1, out1)"
  shows "list_all2 prepared js js1 \<and> no_new_blocks out out1"
  using assms
proof (induction js arbitrary: out r js1 out1)
  case Nil
  then show ?case by (auto simp: no_new_blocks_def)
next
  case (Cons j js)
  have refl: "list_all2 prepared js js" for js by (simp add: list.rel_refl prepared_refl)
  obtain r0 j1 o1 where i: "init_data_stream j fs out = (r0, j1, o1)" by (metis prod_cases3)
  note p = init_data_stream_prepared [OF i]
  have s: "no_new_blocks o1 o2" if "send (new_error a e k) o1 = (x, o2)" for a e k x o2
    using that send_no_new_blocks by (auto simp: new_error_def)
  show ?case
    using Cons.prems i p refl [of js] prepared_refl [of j] s Cons.IH
    by (auto split: if_splits sum.splits prod.splits) (meson no_new_blocks_trans)+
qed

lemma read_block_confirmed:
  assumes "read_block env grab j fs = (Inr (Some b), j1)"
  shows "blk_id b = job_id j \<and> blk_file_num b = file_num j \<and> data_stream j \<noteq> None \<and>
    (job_type j = Printer \<or> \<not> enable_overwrite_detection j \<or> file_confirmed j)"
  using assms by (cases "job_type j")
    (auto simp: read_block_def Let_def split: if_splits option.splits sum.splits prod.splits)

lemma read_first_block:
  assumes "read_first env grab js fs out = (r, js1, out1)" and "MsgBlock b \<in> set (sent out1)" and "MsgBlock b \<notin> set (sent out)"
  shows "\<exists>j \<in> set js. \<not> is_last_job j \<and> (\<exists>j1. read_block env grab j fs = (Inr (Some b), j1))"
  using assms
proof (induction js arbitrary: r js1 out1)
  case (Cons j js)
  show ?case
  proof (cases "is_last_job j")
    case True
    with Cons show ?thesis by (auto split: prod.splits)
  next
    case False
    obtain x j1 where rb: "read_block env grab j fs = (x, j1)" by fastforce
    then show ?thesis using Cons.prems False
      by (auto simp: send_def new_error_def new_block_def new_done_def
          split: sum.splits option.splits if_splits prod.splits)
  qed
qed simp

text \<open>No data leaves before the peer has agreed: whenever a turn of the server over its read jobs sends a
  block, the block belongs to the current file of one of the jobs, and overwrite detection is off for
  that job, or it is a print job, or the peer has confirmed that file.\<close>

theorem no_block_before_confirmation:
  assumes "handle_read_jobs env grab js fs out = (r, js', out')"
    and "MsgBlock b \<in> set (sent out')" and "MsgBlock b \<notin> set (sent out)"
  shows "\<exists>j \<in> set js. blk_id b = job_id j \<and> blk_file_num b = file_num j \<and> \<not> is_last_job j \<and>
    (job_type j = Printer \<or> \<not> enable_overwrite_detection j \<or> file_confirmed j)"
proof -
  obtain r1 js1 o1 where i: "init_jobs js fs out = (r1, js1, o1)" by (metis prod_cases3)
  obtain r2 js2 o2 where f: "read_first env grab js1 fs o1 = (r2, js2, o2)" by (metis prod_cases3)
  note p = init_jobs_prepared [OF i]
  have nb: "MsgBlock b \<notin> set (sent o1)" using p assms(3) by (auto simp: no_new_blocks_def)
  have "out' = o1 \<or> out' = o2" using assms(1) i f by (auto simp: handle_read_jobs_def split: sum.splits prod.splits)
  then have "MsgBlock b \<in> set (sent o2)" using assms(2) nb by auto
  from read_first_block [OF f this nb] obtain j1 k where j1: "j1 \<in> set js1" "\<not> is_last_job j1"
    "read_block env grab j1 fs = (Inr (Some b), k)" by blast
  then obtain j where j: "j \<in> set js" "prepared j j1"
    using p by (metis in_set_conv_nth list_all2_conv_all_nth)
  from read_block_confirmed [OF j1(3)] j j1(2) show ?thesis
    by (intro bexI [of _ j]) (auto simp: prepared_def)
qed

theorem no_block_before_confirmation_witness:
  "\<exists>j \<in> set [example_job\<lparr>data_stream := Some (BufStream [] 0), data_source := FilePath ''/d''\<rparr>]. job_id j = 1 \<and>
     (job_type j = Printer \<or> \<not> enable_overwrite_detection j \<or> file_confirmed j)"
proof -
  let ?j = "example_job\<lparr>data_stream := Some (BufStream [] 0), data_source := FilePath ''/d''\<rparr>"
  let ?b = "\<lparr>blk_id = 1, blk_file_num = 0, blk_data = [], blk_compressed = False\<rparr>"
  have rl: "read_loop (\<lambda>_. 1) [] (BufStream [] 0) (example_fs []) = Inr ([], BufStream [] 0)"
    by (subst read_loop.simps) (simp add: stream_read_def)
  have st: "is_last_job ?j = False" "job_type ?j = Generic" "enable_overwrite_detection ?j = False" "file_num ?j = 0"
    "length (files ?j) = 1" "job_id ?j = 1"
    by (simp_all add: example_defs)
  have i: "init_jobs [?j] (example_fs []) \<lparr>sent = [], broken = False\<rparr> = (Inr (), [?j], \<lparr>sent = [], broken = False\<rparr>)"
    using st by (simp add: init_data_stream_def open_data_stream_def needs_digest_def as_usize_def)
  have "read_block example_env (\<lambda>_. 1) ?j (example_fs []) = (Inr (Some ?b), next_file ?j)"
    using st rl by (simp add: read_block_def from_file_def as_usize_def)
  then have h: "handle_read_jobs example_env (\<lambda>_. 1) [?j] (example_fs []) \<lparr>sent = [], broken = False\<rparr>
      = (Inr None, [next_file ?j], \<lparr>sent = [MsgBlock ?b], broken = False\<rparr>)"
    using i st by (simp add: handle_read_jobs_def send_def new_block_def)
  from no_block_before_confirmation [OF h, of ?b] show ?thesis by auto
qed

end
