(* ===== verification/Password_Security.thy ===== *)
theory Password_Security
  imports Prelude
begin

text \<open>
  Secrets at rest (\<open>libs/hbb_common/src/password_security.rs\<close>): the versioned encryption of stored
  strings and byte vectors with its detection of values that are already encrypted. A Rust \<open>str\<close> or
  byte slice is a \<open>string\<close> here, one \<open>char\<close> per byte. The secret box, the base64 codec, the machine id
  and the key pair come from other crates and are parameters.
\<close>

section \<open>UTF-8\<close>

text \<open>
  \<open>String::from_utf8_lossy\<close>: each maximal part that is not well-formed becomes the bytes of U+FFFD.
  \<open>utf8_step\<close> gives the length of the next character, or of the ill-formed part to be replaced.
\<close>

definition in_range :: "nat \<Rightarrow> nat \<Rightarrow> char \<Rightarrow> bool" where
  "in_range lo hi c = (lo \<le> (of_char c :: nat) \<and> (of_char c :: nat) \<le> hi)"

text \<open>How many of the expected continuation bytes are there, in order.\<close>

fun good_tail :: "(nat \<times> nat) list \<Rightarrow> string \<Rightarrow> nat" where
  "good_tail [] s = 0"
| "good_tail (r # rs) [] = 0"
| "good_tail ((lo, hi) # rs) (c # s) = (if in_range lo hi c then Suc (good_tail rs s) else 0)"

definition tail_ranges :: "char \<Rightarrow> (nat \<times> nat) list option" where
  "tail_ranges c =
     (let b = of_char c :: nat; t = (0x80, 0xBF) in
      if b < 0x80 then Some []
      else if 0xC2 \<le> b \<and> b \<le> 0xDF then Some [t]
      else if b = 0xE0 then Some [(0xA0, 0xBF), t]
      else if b = 0xED then Some [(0x80, 0x9F), t]
      else if 0xE1 \<le> b \<and> b \<le> 0xEF then Some [t, t]
      else if b = 0xF0 then Some [(0x90, 0xBF), t, t]
      else if 0xF1 \<le> b \<and> b \<le> 0xF3 then Some [t, t, t]
      else if b = 0xF4 then Some [(0x80, 0x8F), t, t]
      else None)"

definition utf8_step :: "char \<Rightarrow> string \<Rightarrow> nat \<times> bool" where
  "utf8_step c s =
     (case tail_ranges c of
        None \<Rightarrow> (0, False)
      | Some rs \<Rightarrow> (let k = good_tail rs s in (k, k = length rs)))"

fun from_utf8_lossy :: "string \<Rightarrow> string" where
  "from_utf8_lossy [] = []"
| "from_utf8_lossy (c # s) =
     (case utf8_step c s of (k, ok) \<Rightarrow>
        (if ok then c # take k s else [CHR 0xEF, CHR 0xBF, CHR 0xBD]) @ from_utf8_lossy (drop k s))"

fun valid_utf8 :: "string \<Rightarrow> bool" where
  "valid_utf8 [] = True"
| "valid_utf8 (c # s) = (case utf8_step c s of (k, ok) \<Rightarrow> ok \<and> valid_utf8 (drop k s))"

lemma from_utf8_lossy_valid: "valid_utf8 s \<Longrightarrow> from_utf8_lossy s = s"
proof (induction s rule: valid_utf8.induct)
  case (2 c s)
  then show ?case by (auto split: prod.splits)
qed simp

text \<open>\<open>str::chars().count()\<close>: the bytes that do not continue a character.\<close>

definition char_count :: "string \<Rightarrow> nat" where
  "char_count s = length (filter (\<lambda>c. \<not> in_range 0x80 0xBF c) s)"

section \<open>The cipher\<close>

record Crypto =
  box_seal :: "string \<Rightarrow> string \<Rightarrow> string \<Rightarrow> string"
  box_open :: "string \<Rightarrow> string \<Rightarrow> string \<Rightarrow> string option"
  b64_encode :: "string \<Rightarrow> string"
  b64_decode :: "string \<Rightarrow> string option"
  uuid :: string
  existing_pk :: "string option"

definition KEYBYTES :: nat where "KEYBYTES = 32"
definition NONCEBYTES :: nat where "NONCEBYTES = 24"
definition MACBYTES :: nat where "MACBYTES = 16"
definition VERSION_LEN :: nat where "VERSION_LEN = 2"

text \<open>\<open>Vec::resize\<close> with zeros\<close>

definition resize :: "nat \<Rightarrow> string \<Rightarrow> string" where
  "resize n v = take n v @ replicate (n - length v) (CHR 0x00)"

definition symmetric_crypt :: "Crypto \<Rightarrow> string \<Rightarrow> bool \<Rightarrow> string option" where
  "symmetric_crypt C data enc =
     (let key = resize KEYBYTES (uuid C); nonce = replicate NONCEBYTES (CHR 0x00) in
      if enc then Some (box_seal C data nonce key)
      else case box_open C data nonce key of
        Some m \<Rightarrow> Some m
      | None \<Rightarrow>
          (case existing_pk C of
             Some pk \<Rightarrow> if pk \<noteq> uuid C then box_open C data nonce (resize KEYBYTES pk) else None
           | None \<Rightarrow> None))"

definition encrypt :: "Crypto \<Rightarrow> string \<Rightarrow> string option" where
  "encrypt C v =
     (if v \<noteq> [] then map_option (b64_encode C) (symmetric_crypt C v True) else None)"

definition decrypt :: "Crypto \<Rightarrow> string \<Rightarrow> string option" where
  "decrypt C v =
     (if v \<noteq> [] then (case b64_decode C v of Some d \<Rightarrow> symmetric_crypt C d False | None \<Rightarrow> None) else None)"

definition is_encrypted :: "Crypto \<Rightarrow> string \<Rightarrow> bool" where
  "is_encrypted C v =
     (if length v \<le> VERSION_LEN \<or> take VERSION_LEN v \<noteq> ''00'' then False
      else case b64_decode C (drop VERSION_LEN v) of
        Some d \<Rightarrow> length d \<ge> MACBYTES
      | None \<Rightarrow> False)"

definition encrypt_str_or_original :: "Crypto \<Rightarrow> string \<Rightarrow> string \<Rightarrow> nat \<Rightarrow> string" where
  "encrypt_str_or_original C s version max_len =
     (if is_encrypted C s then s
      else if char_count s > max_len then []
      else if version = ''00'' then
        (case encrypt C s of Some e \<Rightarrow> version @ e | None \<Rightarrow> s)
      else s)"

definition decrypt_str_or_original :: "Crypto \<Rightarrow> string \<Rightarrow> string \<Rightarrow> string \<times> bool \<times> bool" where
  "decrypt_str_or_original C s current_version =
     (case (if length s > VERSION_LEN \<and> take VERSION_LEN s = ''00''
            then decrypt C (drop VERSION_LEN s) else None) of
        Some v \<Rightarrow> (from_utf8_lossy v, True, ''00'' \<noteq> current_version)
      | None \<Rightarrow> (s, False, s \<noteq> [] \<and> \<not> is_encrypted C s))"

definition encrypt_vec_or_original :: "Crypto \<Rightarrow> string \<Rightarrow> string \<Rightarrow> nat \<Rightarrow> string" where
  "encrypt_vec_or_original C v version max_len =
     (if is_encrypted C v then v
      else if length v > max_len then []
      else if version = ''00'' then
        (case encrypt C v of Some e \<Rightarrow> version @ e | None \<Rightarrow> v)
      else v)"

definition decrypt_vec_or_original :: "Crypto \<Rightarrow> string \<Rightarrow> string \<Rightarrow> string \<times> bool \<times> bool" where
  "decrypt_vec_or_original C v current_version =
     (let version = from_utf8_lossy (take VERSION_LEN v) in
      case (if length v > VERSION_LEN \<and> version = ''00'' then decrypt C (drop VERSION_LEN v) else None) of
        Some d \<Rightarrow> (d, True, version \<noteq> current_version)
      | None \<Rightarrow> (v, False, v \<noteq> [] \<and> \<not> is_encrypted C v))"

section \<open>Round trips\<close>

text \<open>What the crates document: opening undoes sealing with the same nonce and key, a sealed message is sixteen bytes
  longer, and base64 decodes what it encodes, four characters per three bytes.\<close>

definition crypto_ok :: "Crypto \<Rightarrow> bool" where
  "crypto_ok C \<longleftrightarrow>
     (\<forall>m n k. length n = NONCEBYTES \<longrightarrow> length k = KEYBYTES \<longrightarrow>
        box_open C (box_seal C m n k) n k = Some m \<and> length (box_seal C m n k) = length m + MACBYTES) \<and>
     (\<forall>x. b64_decode C (b64_encode C x) = Some x \<and> length (b64_encode C x) = 4 * ((length x + 2) div 3))"

lemma length_resize [simp]: "length (resize n v) = n"
  by (simp add: resize_def)

lemma encrypt_facts:
  assumes "crypto_ok C" and "v \<noteq> []"
  obtains e where "encrypt C v = Some e" and "decrypt C e = Some v" and "is_encrypted C (''00'' @ e)" and "e \<noteq> []"
proof -
  define key where "key = resize KEYBYTES (uuid C)"
  define nonce where "nonce = replicate NONCEBYTES (CHR 0x00)"
  have k: "length key = KEYBYTES" "length nonce = NONCEBYTES" by (simp_all add: key_def nonce_def)
  define c where "c = box_seal C v nonce key"
  have c: "box_open C c nonce key = Some v" "length c = length v + MACBYTES"
    using assms(1) k by (simp_all add: crypto_ok_def c_def)
  define e where "e = b64_encode C c"
  have e: "b64_decode C e = Some c" "e \<noteq> []"
  proof -
    show "b64_decode C e = Some c" using assms(1) by (simp add: crypto_ok_def e_def)
    have "length e = 4 * ((length c + 2) div 3)" using assms(1) by (simp add: crypto_ok_def e_def)
    then have "0 < length e" using c(2) by (simp add: MACBYTES_def)
    then show "e \<noteq> []" by simp
  qed
  show ?thesis
  proof (rule that [of e])
    show "encrypt C v = Some e"
      using assms(2) by (simp add: encrypt_def symmetric_crypt_def key_def nonce_def c_def e_def Let_def)
    show "decrypt C e = Some v"
      using e c(1) by (simp add: decrypt_def symmetric_crypt_def key_def nonce_def Let_def)
    show "is_encrypted C (''00'' @ e)" using e c(2) by (simp add: is_encrypted_def VERSION_LEN_def)
    show "e \<noteq> []" by fact
  qed
qed

text \<open>A stored secret is read back: encrypting a non-empty string of at most \<open>max_len\<close> characters that does not
  already look encrypted and decrypting the result gives the string, reports success and asks for no
  second store; the result is recognised as encrypted, and encrypting it again changes nothing.\<close>

theorem stored_secret_roundtrip:
  assumes "crypto_ok C" and "s \<noteq> []" and "valid_utf8 s" and "\<not> is_encrypted C s" and "char_count s \<le> max_len"
  shows "let e = encrypt_str_or_original C s ''00'' max_len in
     decrypt_str_or_original C e ''00'' = (s, True, False) \<and> is_encrypted C e \<and>
     encrypt_str_or_original C e ''00'' n = e"
proof -
  obtain e where e: "encrypt C s = Some e" "decrypt C e = Some s" "is_encrypted C (''00'' @ e)" "e \<noteq> []"
    using encrypt_facts [OF assms(1,2)] by blast
  have "encrypt_str_or_original C s ''00'' max_len = ''00'' @ e"
    using assms(4,5) e(1) by (simp add: encrypt_str_or_original_def)
  then show ?thesis
    using e assms(3)
    by (simp add: decrypt_str_or_original_def encrypt_str_or_original_def VERSION_LEN_def from_utf8_lossy_valid)
qed

text \<open>A stand-in that meets these laws: sealing prepends sixteen bytes, the codec pads to the right length and
  notes in the last byte how much padding there is.\<close>

definition toy_b64 :: "string \<Rightarrow> string" where
  "toy_b64 x = (if x = [] then []
     else let k = (length x + 2) div 3; j = 3 * k - length x
          in x @ replicate (k + j - 1) (CHR ''='') @ [char_of j])"

definition toy_unb64 :: "string \<Rightarrow> string option" where
  "toy_unb64 y = Some (if y = [] then [] else take (3 * (length y div 4) - of_char (last y)) y)"

definition toy_crypto :: Crypto where
  "toy_crypto = \<lparr>box_seal = \<lambda>m n k. replicate 16 (CHR ''m'') @ m, box_open = \<lambda>c n k. Some (drop 16 c),
     b64_encode = toy_b64, b64_decode = toy_unb64, uuid = ''machine'', existing_pk = None\<rparr>"

lemma toy_b64_ok: "toy_unb64 (toy_b64 x) = Some x \<and> length (toy_b64 x) = 4 * ((length x + 2) div 3)"
proof (cases "x = []")
  case False
  define k where "k = (length x + 2) div 3"
  define j where "j = 3 * k - length x"
  have "0 < length x" using False by simp
  then have k: "0 < k" "length x \<le> 3 * k" "j \<le> 2" "3 * k - j = length x"
    unfolding j_def k_def by linarith+
  have b: "toy_b64 x = x @ replicate (k + j - 1) (CHR ''='') @ [char_of j]"
    using False unfolding toy_b64_def Let_def k_def [symmetric] j_def [symmetric] by simp
  have len: "length (toy_b64 x) = 4 * k" unfolding b using k by simp
  have "(of_char (char_of j :: char) :: nat) = j" using k(3) by simp
  then have "toy_unb64 (toy_b64 x) = Some x"
    using False k by (simp add: toy_unb64_def len) (simp add: b)
  with len show ?thesis by (simp add: k_def)
qed (simp add: toy_b64_def toy_unb64_def)

lemma toy_crypto_ok: "crypto_ok toy_crypto"
  using toy_b64_ok by (simp add: crypto_ok_def toy_crypto_def MACBYTES_def)

lemma toy_pass: "valid_utf8 ''pass''" "\<not> is_encrypted toy_crypto ''pass''" "char_count ''pass'' = 4"
  by (simp_all add: utf8_step_def tail_ranges_def is_encrypted_def VERSION_LEN_def char_count_def in_range_def)

theorem stored_secret_roundtrip_witness:
  "decrypt_str_or_original toy_crypto (encrypt_str_or_original toy_crypto ''pass'' ''00'' 128) ''00'' = (''pass'', True, False)"
  using stored_secret_roundtrip [OF toy_crypto_ok, of "''pass''" 128] toy_pass by (simp add: Let_def)

text \<open>The same for byte vectors, with no condition on the bytes.\<close>

theorem stored_bytes_roundtrip:
  assumes "crypto_ok C" and "v \<noteq> []" and "\<not> is_encrypted C v" and "length v \<le> max_len"
  shows "let e = encrypt_vec_or_original C v ''00'' max_len in
     decrypt_vec_or_original C e ''00'' = (v, True, False) \<and> encrypt_vec_or_original C e ''00'' n = e"
proof -
  obtain e where e: "encrypt C v = Some e" "decrypt C e = Some v" "is_encrypted C (''00'' @ e)" "e \<noteq> []"
    using encrypt_facts [OF assms(1,2)] by blast
  have "encrypt_vec_or_original C v ''00'' max_len = ''00'' @ e"
    using assms(3,4) e(1) by (simp add: encrypt_vec_or_original_def)
  moreover have "from_utf8_lossy ''00'' = ''00''"
    by (simp add: utf8_step_def tail_ranges_def)
  ultimately show ?thesis
    using e by (simp add: decrypt_vec_or_original_def encrypt_vec_or_original_def VERSION_LEN_def)
qed

theorem stored_bytes_roundtrip_witness:
  "decrypt_vec_or_original toy_crypto (encrypt_vec_or_original toy_crypto ''pass'' ''00'' 128) ''00'' = (''pass'', True, False)"
  using stored_bytes_roundtrip [OF toy_crypto_ok, of "''pass''" 128] toy_pass by (simp add: Let_def)

text \<open>A value that cannot be decrypted is never lost or altered: reading it back returns it unchanged, and a value
  that looks encrypted is not scheduled to be stored again.\<close>

theorem undecryptable_value_kept:
  assumes "\<And>d. decrypt C (drop 2 s) \<noteq> Some d"
  shows "\<exists>store. decrypt_str_or_original C s version = (s, False, store) \<and> (is_encrypted C s \<longrightarrow> \<not> store)"
proof -
  have "decrypt C (drop VERSION_LEN s) = None" using assms by (cases "decrypt C (drop 2 s)") (auto simp: VERSION_LEN_def)
  then show ?thesis by (simp add: decrypt_str_or_original_def)
qed

theorem undecryptable_value_kept_witness:
  "\<exists>store. decrypt_str_or_original (toy_crypto\<lparr>b64_decode := \<lambda>_. None\<rparr>) ''secret'' ''00'' = (''secret'', False, store)"
  using undecryptable_value_kept [of "toy_crypto\<lparr>b64_decode := \<lambda>_. None\<rparr>" "''secret''" "''00''"]
  by (auto simp: decrypt_def)

end
