(* ===== verification/Settings.thy ===== *)
theory Settings
  imports Password_Security "HOL-Library.AList"
begin

text \<open>
  The configuration store (\<open>libs/hbb_common/src/config.rs\<close>): the layered options, the device id and the
  permanent password with its salted hash, the unlock pin and the trusted devices, and what goes to disk.
  A hash map is an association list. The hash (sha256), the JSON form of the trusted devices, the cipher and the
  random numbers are parameters; the TOML text of the file is not modelled: \<open>disk\<close> and \<open>disk2\<close> hold the records
  that were written.
\<close>

type_synonym opts = "(string \<times> string) list"

section \<open>State\<close>

record TrustedDevice =
  hwid :: string
  time :: int
  td_id :: string
  td_name :: string
  platform :: string

record Socks5Server =
  proxy :: string
  username :: string
  socks_password :: string

record Config =
  cid :: string
  enc_id :: string
  password :: string
  salt :: string
  key_pair :: "string \<times> string"
  key_confirmed :: bool
  keys_confirmed :: "(string \<times> bool) list"

record Config2 =
  rendezvous_server :: string
  nat_type :: int
  serial :: int
  unlock_pin :: string
  trusted_devices :: string
  socks :: "Socks5Server option"
  options :: opts

record Settings =
  config :: Config
  config2 :: Config2
  disk :: Config
  disk2 :: Config2
  overwrite_settings :: opts
  default_settings :: opts
  hard_settings :: opts
  builtin_settings :: opts
  trusted_cache :: "TrustedDevice list \<times> bool"

record Deps =
  crypto :: Crypto
  sha256 :: "string \<Rightarrow> string"
  devices_to_json :: "TrustedDevice list \<Rightarrow> string"
  devices_from_json :: "string \<Rightarrow> TrustedDevice list option"

definition PASSWORD_ENC_VERSION :: string where "PASSWORD_ENC_VERSION = ''00''"
definition ENCRYPT_MAX_LEN :: nat where "ENCRYPT_MAX_LEN = 128"
definition PERMANENT_PASSWORD_HASH_PREFIX :: string where "PERMANENT_PASSWORD_HASH_PREFIX = ''01''"
definition PERMANENT_PASSWORD_H1_LEN :: nat where "PERMANENT_PASSWORD_H1_LEN = 32"

section \<open>Options\<close>

definition get_or :: "opts \<Rightarrow> opts \<Rightarrow> opts \<Rightarrow> string \<Rightarrow> string option" where
  "get_or a b c k =
     (case map_of a k of Some v \<Rightarrow> Some v
      | None \<Rightarrow> (case map_of b k of Some v \<Rightarrow> Some v | None \<Rightarrow> map_of c k))"

definition is_option_can_save :: "opts \<Rightarrow> string \<Rightarrow> opts \<Rightarrow> string \<Rightarrow> bool" where
  "is_option_can_save overwrite k defaults v = (\<not> (map_of overwrite k \<noteq> None \<or> map_of defaults k = Some v))"

definition starts_with :: "string \<Rightarrow> string \<Rightarrow> bool" where
  "starts_with p s = (take (length p) s = p)"

definition option2bool :: "string \<Rightarrow> string \<Rightarrow> bool" where
  "option2bool opt v =
     (if starts_with ''enable-'' opt then v \<noteq> ''N''
      else if starts_with ''allow-'' opt \<or> opt = ''stop-service'' \<or> opt = ''direct-server'' \<or> opt = ''force-always-relay''
      then v = ''Y''
      else v \<noteq> ''N'')"

definition get_option :: "Settings \<Rightarrow> string \<Rightarrow> string" where
  "get_option s k =
     (case get_or (overwrite_settings s) (options (config2 s)) (default_settings s) k of
        Some v \<Rightarrow> v | None \<Rightarrow> [])"

definition get_bool_option :: "Settings \<Rightarrow> string \<Rightarrow> bool" where
  "get_bool_option s k = option2bool k (get_option s k)"

text \<open>\<open>HashMap::extend\<close>: later entries win.\<close>

definition get_options :: "Settings \<Rightarrow> opts" where
  "get_options s = AList.updates (map fst (overwrite_settings s)) (map snd (overwrite_settings s))
     (AList.updates (map fst (options (config2 s))) (map snd (options (config2 s))) (default_settings s))"

definition purify_options :: "Settings \<Rightarrow> opts \<Rightarrow> opts" where
  "purify_options s v = filter (\<lambda>(k, x). is_option_can_save (overwrite_settings s) k (default_settings s) x) v"

text \<open>Storing \<open>Config2\<close>: the pin and the proxy password go out encrypted.\<close>

definition config2_store :: "Deps \<Rightarrow> Config2 \<Rightarrow> Config2" where
  "config2_store D c =
     c\<lparr>socks := map_option (\<lambda>k. k\<lparr>socks_password :=
          encrypt_str_or_original (crypto D) (socks_password k) PASSWORD_ENC_VERSION ENCRYPT_MAX_LEN\<rparr>) (socks c),
       unlock_pin := encrypt_str_or_original (crypto D) (unlock_pin c) PASSWORD_ENC_VERSION ENCRYPT_MAX_LEN\<rparr>"

definition config2_load :: "Deps \<Rightarrow> Config2 \<Rightarrow> Config2 \<times> bool" where
  "config2_load D c =
     (let dec = decrypt_str_or_original (crypto D);
          s1 = (case socks c of None \<Rightarrow> False
                | Some k \<Rightarrow> snd (snd (dec (socks_password k) PASSWORD_ENC_VERSION)));
          c1 = c\<lparr>socks := map_option (\<lambda>k. k\<lparr>socks_password := fst (dec (socks_password k) PASSWORD_ENC_VERSION)\<rparr>) (socks c)\<rparr>;
          (pin, _, s2) = dec (unlock_pin c1) PASSWORD_ENC_VERSION
      in (c1\<lparr>unlock_pin := pin\<rparr>, s1 \<or> s2))"

definition store2 :: "Deps \<Rightarrow> Settings \<Rightarrow> Settings" where
  "store2 D s = s\<lparr>disk2 := config2_store D (config2 s)\<rparr>"

definition set_config2_options :: "opts \<Rightarrow> Settings \<Rightarrow> Settings" where
  "set_config2_options os s = s\<lparr>config2 := (config2 s)\<lparr>options := os\<rparr>\<rparr>"

definition set_options :: "Deps \<Rightarrow> opts \<Rightarrow> Settings \<Rightarrow> Settings" where
  "set_options D v s =
     (let v = purify_options s v in
      if set (options (config2 s)) = set v then s
      else store2 D (set_config2_options v s))"

definition set_option :: "Deps \<Rightarrow> string \<Rightarrow> string \<Rightarrow> Settings \<Rightarrow> Settings" where
  "set_option D k v s =
     (let os = options (config2 s) in
      if \<not> is_option_can_save (overwrite_settings s) k (default_settings s) v then
        (if map_of os k \<noteq> None then store2 D (set_config2_options (AList.delete k os) s) else s)
      else
        (let v2 = (if v = [] then None else Some v) in
         if v2 \<noteq> map_of os k then
           store2 D (set_config2_options (if v2 = None then AList.delete k os else AList.update k v os) s)
         else s))"

text \<open>Reading an option back after setting it: an overwritten option keeps the administrator's value,
  setting the empty string falls back to the default, and any other value is what is read, even when it is
  not stored because it equals the default; no other option changes.\<close>

theorem option_set_get:
  "get_option (set_option D k v s) k' =
     (if k' = k then
        (case map_of (overwrite_settings s) k of
           Some w \<Rightarrow> w
         | None \<Rightarrow> if v = [] then (case map_of (default_settings s) k of Some d \<Rightarrow> d | None \<Rightarrow> []) else v)
      else get_option s k')"
  by (auto simp: get_option_def set_option_def Let_def is_option_can_save_def get_or_def store2_def
      set_config2_options_def delete_conv' update_conv' split: option.splits)

section \<open>The permanent password\<close>

definition compute_permanent_password_h1 :: "Deps \<Rightarrow> string \<Rightarrow> string \<Rightarrow> string" where
  "compute_permanent_password_h1 D pw sl = take PERMANENT_PASSWORD_H1_LEN (sha256 D (pw @ sl))"

definition encode_permanent_password_storage_from_h1 :: "Deps \<Rightarrow> string \<Rightarrow> string" where
  "encode_permanent_password_storage_from_h1 D h1 = PERMANENT_PASSWORD_HASH_PREFIX @ b64_encode (crypto D) h1"

definition decode_permanent_password_h1_from_storage :: "Deps \<Rightarrow> string \<Rightarrow> string option" where
  "decode_permanent_password_h1_from_storage D storage =
     (if starts_with PERMANENT_PASSWORD_HASH_PREFIX storage then
        (case b64_decode (crypto D) (drop (length PERMANENT_PASSWORD_HASH_PREFIX) storage) of
           Some v \<Rightarrow> if length v \<noteq> PERMANENT_PASSWORD_H1_LEN then None else Some v
         | None \<Rightarrow> None)
      else None)"

definition is_permanent_password_hashed_storage :: "Deps \<Rightarrow> string \<Rightarrow> bool" where
  "is_permanent_password_hashed_storage D v = (decode_permanent_password_h1_from_storage D v \<noteq> None)"

definition password_is_empty_or_not_hashed :: "Deps \<Rightarrow> string \<Rightarrow> bool" where
  "password_is_empty_or_not_hashed D v = (v = [] \<or> \<not> is_permanent_password_hashed_storage D v)"

text \<open>The rewriting of a legacy password to its hash; the flag says that something changed.\<close>

definition migrate_permanent_password_to_hashed_storage :: "Deps \<Rightarrow> string \<Rightarrow> Config \<Rightarrow> Config \<times> bool" where
  "migrate_permanent_password_to_hashed_storage D fresh c =
     (if password c = [] \<or> is_permanent_password_hashed_storage D (password c) then (c, False)
      else
        (let c1 = (if salt c = [] then c\<lparr>salt := fresh\<rparr> else c);
             hashed = (\<lambda>plain. c1\<lparr>password := encode_permanent_password_storage_from_h1 D
                         (compute_permanent_password_h1 D plain (salt c1))\<rparr>)
         in if starts_with PASSWORD_ENC_VERSION (password c) then
              (case decrypt_str_or_original (crypto D) (password c) PASSWORD_ENC_VERSION of
                 (plain, decrypted, looks_like_plaintext) \<Rightarrow>
                   if \<not> decrypted \<and> \<not> looks_like_plaintext then (c, False)
                   else if is_permanent_password_hashed_storage D plain then (c1\<lparr>password := plain\<rparr>, True)
                   else (hashed plain, True))
            else (hashed (password c), True)))"

definition config_store :: "Deps \<Rightarrow> string \<Rightarrow> Config \<Rightarrow> Config" where
  "config_store D fresh c =
     (let c1 = fst (migrate_permanent_password_to_hashed_storage D fresh c)
      in c1\<lparr>enc_id := encrypt_str_or_original (crypto D) (cid c1) PASSWORD_ENC_VERSION ENCRYPT_MAX_LEN, cid := []\<rparr>)"

definition config_load :: "Deps \<Rightarrow> string \<Rightarrow> string option \<Rightarrow> Config \<Rightarrow> Config \<times> bool" where
  "config_load D fresh new_id c0 =
     (let (c, st) = migrate_permanent_password_to_hashed_storage D fresh c0;
          (id, encrypted, st2) = decrypt_str_or_original (crypto D) (enc_id c) PASSWORD_ENC_VERSION
      in if encrypted then (c\<lparr>cid := id\<rparr>, st \<or> st2)
         else if cid c \<noteq> [] \<and> enc_id c = [] \<and>
                 \<not> fst (snd (decrypt_str_or_original (crypto D) (cid c) PASSWORD_ENC_VERSION))
         then (c, True)
         else (case new_id of Some i \<Rightarrow> (c\<lparr>cid := i\<rparr>, True) | None \<Rightarrow> (c, st)))"

definition store :: "Deps \<Rightarrow> string \<Rightarrow> Settings \<Rightarrow> Settings" where
  "store D fresh s = s\<lparr>disk := config_store D fresh (config s)\<rparr>"

subsection \<open>Trusted devices\<close>

definition outdate :: "int \<Rightarrow> TrustedDevice \<Rightarrow> bool" where
  "outdate now d = (time d + 90 * 24 * 60 * 60 * 1000 < now)"

definition set_trusted_devices :: "Deps \<Rightarrow> int \<Rightarrow> TrustedDevice list \<Rightarrow> Settings \<Rightarrow> Settings" where
  "set_trusted_devices D now ds s =
     (let ds = filter (\<lambda>d. \<not> outdate now d) ds;
          js = devices_to_json D ds;
          max_len = 1024 * 1024
      in if length js > max_len then s
         else (store2 D (s\<lparr>config2 := (config2 s)\<lparr>trusted_devices :=
                 encrypt_str_or_original (crypto D) js PASSWORD_ENC_VERSION max_len\<rparr>\<rparr>))
              \<lparr>trusted_cache := (ds, True)\<rparr>)"

definition get_trusted_devices :: "Deps \<Rightarrow> int \<Rightarrow> Settings \<Rightarrow> TrustedDevice list \<times> Settings" where
  "get_trusted_devices D now s =
     (if snd (trusted_cache s) then (fst (trusted_cache s), s)
      else case decrypt_str_or_original (crypto D) (trusted_devices (config2 s)) PASSWORD_ENC_VERSION of
        (js, succ, st) \<Rightarrow>
          if succ then
            (let all = (case devices_from_json D js of Some ds \<Rightarrow> ds | None \<Rightarrow> []);
                 ds = filter (\<lambda>d. \<not> outdate now d) all;
                 s1 = (if st \<or> length ds \<noteq> length all then set_trusted_devices D now ds s else s)
             in (ds, s1\<lparr>trusted_cache := (ds, True)\<rparr>))
          else ([], s))"

definition add_trusted_device :: "Deps \<Rightarrow> int \<Rightarrow> TrustedDevice \<Rightarrow> Settings \<Rightarrow> Settings" where
  "add_trusted_device D now d s =
     (case get_trusted_devices D now s of (ds, s1) \<Rightarrow>
        set_trusted_devices D now (filter (\<lambda>x. hwid x \<noteq> hwid d) ds @ [d]) s1)"

definition remove_trusted_devices :: "Deps \<Rightarrow> int \<Rightarrow> string list \<Rightarrow> Settings \<Rightarrow> Settings" where
  "remove_trusted_devices D now hwids s =
     (case get_trusted_devices D now s of (ds, s1) \<Rightarrow>
        set_trusted_devices D now (filter (\<lambda>x. hwid x \<notin> set hwids) ds) s1)"

definition clear_trusted_devices :: "Deps \<Rightarrow> int \<Rightarrow> Settings \<Rightarrow> Settings" where
  "clear_trusted_devices D now s = set_trusted_devices D now [] s"

subsection \<open>Changing and checking the password\<close>

definition is_disable_change_permanent_password :: "Settings \<Rightarrow> bool" where
  "is_disable_change_permanent_password s =
     (map_of (builtin_settings s) ''disable-change-permanent-password'' = Some ''Y'')"

definition compute_permanent_password_storage_for_update :: "Deps \<Rightarrow> string \<Rightarrow> string \<Rightarrow> Config \<Rightarrow> string \<times> Config" where
  "compute_permanent_password_storage_for_update D fresh pw c =
     (let c = (if salt c = [] then c\<lparr>salt := fresh\<rparr> else c)
      in (encode_permanent_password_storage_from_h1 D (compute_permanent_password_h1 D pw (salt c)), c))"

definition set_permanent_password :: "Deps \<Rightarrow> string \<Rightarrow> int \<Rightarrow> string \<Rightarrow> Settings \<Rightarrow> Settings" where
  "set_permanent_password D fresh now pw s =
     (if is_disable_change_permanent_password s then s
      else if map_of (hard_settings s) ''password'' = Some pw \<and> password (config s) = [] then s
      else
        (let (stored, c) = (if pw = [] then ([], config s)
                            else compute_permanent_password_storage_for_update D fresh pw (config s))
         in if stored = password c then s\<lparr>config := c\<rparr>
            else clear_trusted_devices D now (store D fresh (s\<lparr>config := c\<lparr>password := stored\<rparr>\<rparr>))))"

definition set_permanent_password_storage_for_sync :: "Deps \<Rightarrow> string \<Rightarrow> int \<Rightarrow> string \<Rightarrow> string \<Rightarrow> Settings \<Rightarrow> bool \<times> Settings" where
  "set_permanent_password_storage_for_sync D fresh now storage sl s =
     (if password (config s) = storage \<and> salt (config s) = sl then (False, s)
      else (True, clear_trusted_devices D now
              (store D fresh (s\<lparr>config := (config s)\<lparr>password := storage, salt := sl\<rparr>\<rparr>))))"

definition matches_permanent_password_plain :: "Deps \<Rightarrow> Settings \<Rightarrow> string \<Rightarrow> bool" where
  "matches_permanent_password_plain D s inp =
     (if inp = [] then False
      else if password (config s) = [] then map_of (hard_settings s) ''password'' = Some inp
      else case decode_permanent_password_h1_from_storage D (password (config s)) of
        Some stored_h1 \<Rightarrow>
          if salt (config s) = [] then False
          else compute_permanent_password_h1 D inp (salt (config s)) = stored_h1
      | None \<Rightarrow> password (config s) = inp)"

definition has_permanent_password :: "Settings \<Rightarrow> bool" where
  "has_permanent_password s =
     (password (config s) \<noteq> [] \<or> (case map_of (hard_settings s) ''password'' of Some v \<Rightarrow> v \<noteq> [] | None \<Rightarrow> False))"

definition set_salt :: "Deps \<Rightarrow> string \<Rightarrow> string \<Rightarrow> Settings \<Rightarrow> Settings" where
  "set_salt D fresh sl s =
     (if sl = salt (config s) then s
      else if \<not> password_is_empty_or_not_hashed D (password (config s)) \<and> salt (config s) \<noteq> [] then s
      else store D fresh (s\<lparr>config := (config s)\<lparr>salt := sl\<rparr>\<rparr>))"

definition get_salt :: "Deps \<Rightarrow> string \<Rightarrow> Settings \<Rightarrow> string \<times> Settings" where
  "get_salt D fresh s =
     (if salt (config s) = [] then (fresh, set_salt D fresh fresh s) else (salt (config s), s))"

subsection \<open>The unlock pin\<close>

definition is_disable_unlock_pin :: "Settings \<Rightarrow> bool" where
  "is_disable_unlock_pin s = (map_of (builtin_settings s) ''disable-unlock-pin'' = Some ''Y'')"

definition get_unlock_pin :: "Settings \<Rightarrow> string" where
  "get_unlock_pin s = (if is_disable_unlock_pin s then [] else unlock_pin (config2 s))"

definition set_unlock_pin :: "Deps \<Rightarrow> string \<Rightarrow> Settings \<Rightarrow> Settings" where
  "set_unlock_pin D pin s =
     (if is_disable_unlock_pin s then s
      else if pin = unlock_pin (config2 s) then s
      else store2 D (s\<lparr>config2 := (config2 s)\<lparr>unlock_pin := pin\<rparr>\<rparr>))"

subsection \<open>The id and the confirmed keys\<close>

definition set_id :: "Deps \<Rightarrow> string \<Rightarrow> string \<Rightarrow> Settings \<Rightarrow> Settings" where
  "set_id D fresh i s =
     (if i = cid (config s) then s else store D fresh (s\<lparr>config := (config s)\<lparr>cid := i\<rparr>\<rparr>))"

definition get_id :: "Deps \<Rightarrow> string \<Rightarrow> string option \<Rightarrow> Settings \<Rightarrow> string \<times> Settings" where
  "get_id D fresh new_id s =
     (if cid (config s) = [] \<or> length (cid (config s)) > 6 then
        (case new_id of Some i \<Rightarrow> (i, set_id D fresh i s) | None \<Rightarrow> (cid (config s), s))
      else (cid (config s), s))"

definition set_key_confirmed :: "Deps \<Rightarrow> string \<Rightarrow> bool \<Rightarrow> Settings \<Rightarrow> Settings" where
  "set_key_confirmed D fresh v s =
     (if key_confirmed (config s) = v then s
      else store D fresh (s\<lparr>config := (config s)\<lparr>key_confirmed := v,
             keys_confirmed := (if v then keys_confirmed (config s) else [])\<rparr>\<rparr>))"

definition get_host_key_confirmed :: "Settings \<Rightarrow> string \<Rightarrow> bool" where
  "get_host_key_confirmed s host = (map_of (keys_confirmed (config s)) host = Some True)"

definition set_host_key_confirmed :: "Deps \<Rightarrow> string \<Rightarrow> string \<Rightarrow> bool \<Rightarrow> Settings \<Rightarrow> Settings" where
  "set_host_key_confirmed D fresh host v s =
     (if get_host_key_confirmed s host = v then s
      else store D fresh (s\<lparr>config := (config s)\<lparr>keys_confirmed := AList.update host v (keys_confirmed (config s))\<rparr>\<rparr>))"

subsection \<open>Random passwords\<close>

definition CHARS :: string where "CHARS = ''23456789abcdefghijkmnpqrstuvwxyz''"
definition NUM_CHARS :: string where "NUM_CHARS = ''0123456789''"

text \<open>One random number per character.\<close>

definition get_auto_password_with_chars :: "nat list \<Rightarrow> string \<Rightarrow> string" where
  "get_auto_password_with_chars rnds chars = map (\<lambda>r. chars ! (r mod length chars)) rnds"

section \<open>Facts\<close>

definition deps_ok :: "Deps \<Rightarrow> bool" where
  "deps_ok D \<longleftrightarrow> crypto_ok (crypto D) \<and> (\<forall>x. length (sha256 D x) = 32)"

lemma decode_encode_h1:
  assumes "deps_ok D" and "length h = 32"
  shows "decode_permanent_password_h1_from_storage D (encode_permanent_password_storage_from_h1 D h) = Some h"
  using assms by (simp add: deps_ok_def crypto_ok_def decode_permanent_password_h1_from_storage_def
      encode_permanent_password_storage_from_h1_def starts_with_def PERMANENT_PASSWORD_HASH_PREFIX_def PERMANENT_PASSWORD_H1_LEN_def)

lemma length_h1: "deps_ok D \<Longrightarrow> length (compute_permanent_password_h1 D p sl) = 32"
  by (simp add: deps_ok_def compute_permanent_password_h1_def PERMANENT_PASSWORD_H1_LEN_def)

lemma encode_nonempty: "encode_permanent_password_storage_from_h1 D h \<noteq> []"
  by (simp add: encode_permanent_password_storage_from_h1_def PERMANENT_PASSWORD_HASH_PREFIX_def)

lemma set_trusted_devices_config [simp]:
  "config (set_trusted_devices D now ds s) = config s" "hard_settings (set_trusted_devices D now ds s) = hard_settings s"
  "disk (set_trusted_devices D now ds s) = disk s"
  by (simp_all add: set_trusted_devices_def Let_def store2_def)

lemma store_config [simp]:
  "config (store D fresh s) = config s" "hard_settings (store D fresh s) = hard_settings s"
  "disk (store D fresh s) = config_store D fresh (config s)"
  by (simp_all add: store_def)

text \<open>C8: a new permanent password works and only it works: unless changing it is disabled, after setting a non-empty
  password the check accepts it, and accepts nothing else that does not collide with it in the salted hash
  under the salt now stored.\<close>

theorem permanent_password_set:
  assumes "deps_ok D" and "\<not> is_disable_change_permanent_password s" and "pw \<noteq> []" and "fresh \<noteq> []"
  shows "let s' = set_permanent_password D fresh now pw s in
     matches_permanent_password_plain D s' pw \<and>
     (\<forall>p. matches_permanent_password_plain D s' p \<longrightarrow>
        p = pw \<or> compute_permanent_password_h1 D p (salt (config s')) = compute_permanent_password_h1 D pw (salt (config s')))"
proof (cases "map_of (hard_settings s) ''password'' = Some pw \<and> password (config s) = []")
  case True
  then show ?thesis using assms
    by (simp add: set_permanent_password_def matches_permanent_password_plain_def Let_def)
next
  case False
  define c where "c = (if salt (config s) = [] then (config s)\<lparr>salt := fresh\<rparr> else config s)"
  define st where "st = encode_permanent_password_storage_from_h1 D (compute_permanent_password_h1 D pw (salt c))"
  have sl: "salt c \<noteq> []" using assms(4) by (simp add: c_def)
  have "config (set_permanent_password D fresh now pw s) = c\<lparr>password := st\<rparr>"
    using False assms(2,3)
    by (auto simp: set_permanent_password_def compute_permanent_password_storage_for_update_def Let_def
        c_def [symmetric] st_def [symmetric] clear_trusted_devices_def)
  moreover have "decode_permanent_password_h1_from_storage D st = Some (compute_permanent_password_h1 D pw (salt c))"
    unfolding st_def using assms(1) by (simp add: decode_encode_h1 length_h1)
  moreover have "st \<noteq> []" by (simp add: st_def encode_nonempty)
  ultimately show ?thesis using assms(3) sl by (simp add: matches_permanent_password_plain_def Let_def)
qed

definition toy_deps :: Deps where
  "toy_deps = \<lparr>crypto = toy_crypto, sha256 = \<lambda>x. take 32 (x @ replicate 32 (CHR ''0'')),
     devices_to_json = \<lambda>ds. concat (map hwid ds), devices_from_json = \<lambda>_. None\<rparr>"

definition empty_config :: Config where
  "empty_config = \<lparr>cid = [], enc_id = [], password = [], salt = [], key_pair = ([], []), key_confirmed = False, keys_confirmed = []\<rparr>"

definition empty_config2 :: Config2 where
  "empty_config2 = \<lparr>rendezvous_server = [], nat_type = 0, serial = 0, unlock_pin = [], trusted_devices = [], socks = None, options = []\<rparr>"

definition empty_settings :: Settings where
  "empty_settings = \<lparr>config = empty_config, config2 = empty_config2, disk = empty_config, disk2 = empty_config2,
     overwrite_settings = [], default_settings = [], hard_settings = [], builtin_settings = [], trusted_cache = ([], False)\<rparr>"

lemma toy_deps_ok: "deps_ok toy_deps"
  using toy_crypto_ok by (auto simp: deps_ok_def toy_deps_def)

theorem permanent_password_set_witness:
  "matches_permanent_password_plain toy_deps (set_permanent_password toy_deps ''salt12'' 0 ''secret'' empty_settings) ''secret''"
  using permanent_password_set [OF toy_deps_ok, of empty_settings "''secret''" "''salt12''" 0]
  by (simp add: is_disable_change_permanent_password_def empty_settings_def Let_def)

text \<open>The salt of a hashed password is never changed under it: whatever password was accepted before a call that
  sets the salt, or that reads it and creates one, is accepted after it.\<close>

theorem set_salt_keeps_password:
  assumes "matches_permanent_password_plain D s p"
  shows "matches_permanent_password_plain D (set_salt D fresh sl s) p \<and>
    matches_permanent_password_plain D (snd (get_salt D fresh s)) p"
proof -
  have "matches_permanent_password_plain D (set_salt D fresh x s) p" for x
    using assms by (auto simp: set_salt_def matches_permanent_password_plain_def password_is_empty_or_not_hashed_def
        is_permanent_password_hashed_storage_def split: option.splits if_splits)
  then show ?thesis using assms by (simp add: get_salt_def)
qed

theorem set_salt_keeps_password_witness:
  "matches_permanent_password_plain toy_deps
     (set_salt toy_deps ''x'' ''y'' (set_permanent_password toy_deps ''salt12'' 0 ''secret'' empty_settings)) ''secret''"
proof -
  have "matches_permanent_password_plain toy_deps (set_permanent_password toy_deps ''salt12'' 0 ''secret'' empty_settings) ''secret''"
    using decode_encode_h1 [OF toy_deps_ok length_h1 [OF toy_deps_ok]] encode_nonempty
    by (simp add: set_permanent_password_def is_disable_change_permanent_password_def empty_settings_def empty_config_def
        compute_permanent_password_storage_for_update_def clear_trusted_devices_def matches_permanent_password_plain_def)
  from set_salt_keeps_password [OF this] show ?thesis by blast
qed

text \<open>Changing the permanent password revokes every trusted device: when the stored password really changes, the
  list of trusted devices is empty afterwards, in memory and through the accessor.\<close>

theorem password_change_revokes_devices:
  assumes "password (config (set_permanent_password D fresh now pw s)) \<noteq> password (config s)"
    and "length (devices_to_json D []) \<le> 1024 * 1024"
  shows "fst (get_trusted_devices D t (set_permanent_password D fresh now pw s)) = []"
  using assms
  by (auto simp: set_permanent_password_def compute_permanent_password_storage_for_update_def Let_def
      clear_trusted_devices_def set_trusted_devices_def get_trusted_devices_def split: if_splits)

theorem password_change_revokes_devices_witness:
  "fst (get_trusted_devices toy_deps 0 (set_permanent_password toy_deps ''salt12'' 0 ''secret'' empty_settings)) = []"
  by (rule password_change_revokes_devices)
    (simp add: set_permanent_password_def is_disable_change_permanent_password_def empty_settings_def empty_config_def
      compute_permanent_password_storage_for_update_def clear_trusted_devices_def encode_nonempty Let_def, simp add: toy_deps_def)

text \<open>A restart keeps the identity: loading what was stored gives back the same id, password hash, salt and keys,
  and nothing needs to be stored again.\<close>

theorem config_survives_restart:
  assumes "deps_ok D" and "cid c \<noteq> []" and "valid_utf8 (cid c)" and "\<not> is_encrypted (crypto D) (cid c)"
    and "char_count (cid c) \<le> 128" and "password c = [] \<or> is_permanent_password_hashed_storage D (password c)"
  shows "config_load D fresh new_id (config_store D fresh' c)
    = (c\<lparr>enc_id := encrypt_str_or_original (crypto D) (cid c) ''00'' 128\<rparr>, False)"
proof -
  have m: "migrate_permanent_password_to_hashed_storage D f x = (x, False)" if "password x = password c" for f x
    using assms(6) that by (simp add: migrate_permanent_password_to_hashed_storage_def)
  define e where "e = encrypt_str_or_original (crypto D) (cid c) ''00'' 128"
  have e: "decrypt_str_or_original (crypto D) e ''00'' = (cid c, True, False)"
  proof -
    obtain x where x: "encrypt (crypto D) (cid c) = Some x" "decrypt (crypto D) x = Some (cid c)" "x \<noteq> []"
      using encrypt_facts [of "crypto D" "cid c"] assms(1,2) by (auto simp: deps_ok_def)
    then have "e = ''00'' @ x" using assms(4,5) by (simp add: e_def encrypt_str_or_original_def)
    then show ?thesis using x assms(3) by (simp add: decrypt_str_or_original_def VERSION_LEN_def from_utf8_lossy_valid)
  qed
  show ?thesis
    using e by (simp add: config_store_def config_load_def m Let_def PASSWORD_ENC_VERSION_def ENCRYPT_MAX_LEN_def e_def [symmetric])
qed

theorem config_survives_restart_witness:
  "fst (config_load toy_deps ''s'' None (config_store toy_deps ''s'' (empty_config\<lparr>cid := ''pass''\<rparr>)))
     = empty_config\<lparr>cid := ''pass'', enc_id := encrypt_str_or_original toy_crypto ''pass'' ''00'' 128\<rparr>"
  using config_survives_restart [OF toy_deps_ok, of "empty_config\<lparr>cid := ''pass''\<rparr>" "''s''" None "''s''"] toy_pass
  by (simp add: empty_config_def toy_deps_def)

text \<open>A legacy password in plain text is migrated to its hash without locking the user out: after the migration the
  storage is a hash, the old password is accepted, and nothing else is unless it collides with it.\<close>

theorem legacy_password_migrates:
  assumes "deps_ok D" and "password c \<noteq> []" and "\<not> is_permanent_password_hashed_storage D (password c)"
    and "\<not> starts_with ''00'' (password c)" and "fresh \<noteq> []" and "config s = c"
  defines "c' \<equiv> fst (migrate_permanent_password_to_hashed_storage D fresh c)"
  shows "is_permanent_password_hashed_storage D (password c') \<and>
    (\<forall>p. matches_permanent_password_plain D (s\<lparr>config := c'\<rparr>) p \<longleftrightarrow>
       p \<noteq> [] \<and> compute_permanent_password_h1 D p (salt c') = compute_permanent_password_h1 D (password c) (salt c'))"
proof -
  define c1 where "c1 = (if salt c = [] then c\<lparr>salt := fresh\<rparr> else c)"
  define st where "st = encode_permanent_password_storage_from_h1 D (compute_permanent_password_h1 D (password c) (salt c1))"
  have c': "c' = c1\<lparr>password := st\<rparr>"
    using assms(2-4) by (simp add: c'_def migrate_permanent_password_to_hashed_storage_def PASSWORD_ENC_VERSION_def
        c1_def [symmetric] st_def [symmetric] Let_def)
  have "salt c1 \<noteq> []" using assms(5) by (simp add: c1_def)
  moreover have "decode_permanent_password_h1_from_storage D st = Some (compute_permanent_password_h1 D (password c) (salt c1))"
    unfolding st_def using assms(1) by (simp add: decode_encode_h1 length_h1)
  moreover have "st \<noteq> []" by (simp add: st_def encode_nonempty)
  ultimately show ?thesis by (auto simp: c' matches_permanent_password_plain_def is_permanent_password_hashed_storage_def)
qed

theorem legacy_password_migrates_witness:
  "is_permanent_password_hashed_storage toy_deps
     (password (fst (migrate_permanent_password_to_hashed_storage toy_deps ''salt12'' (empty_config\<lparr>password := ''old''\<rparr>))))"
  using legacy_password_migrates [OF toy_deps_ok, of "empty_config\<lparr>password := ''old''\<rparr>" "''salt12''"
      "empty_settings\<lparr>config := empty_config\<lparr>password := ''old''\<rparr>\<rparr>"]
  by (simp add: is_permanent_password_hashed_storage_def decode_permanent_password_h1_from_storage_def starts_with_def
      PERMANENT_PASSWORD_HASH_PREFIX_def)

end
