(* ===== verification/Service.thy ===== *)
theory Service
  imports Prelude "HOL-Library.AList"
begin

text \<open>
  Publish and subscribe inside the host (\<open>src/server/service.rs\<close>, \<open>ConnInner\<close> of \<open>src/server/connection.rs\<close>).
  A service keeps two tables of subscribers: \<open>new_subscribes\<close> wait for a snapshot of the service's state,
  \<open>subscribes\<close> get every message. The locks of the code make each operation atomic; several threads call them,
  so the model of a service in use is a sequence of critical sections in any order (\<open>svc_event\<close>, \<open>svc_run\<close>).
  A hash map is an association list; its order stands for the unspecified iteration order. A channel is a
  number, and what an operation sends is the list of messages it puts on the channels; the time stamp that goes with
  a message is left out, and a channel whose receiver is gone still counts as sent to, since the code only logs it.
\<close>

section \<open>Subscribers\<close>

text \<open>The protobuf message, as far as the routing looks at it; the rest of it is its bytes.\<close>

datatype misc_union = SwitchDisplay bytes | StopService bool | OtherMisc bytes

datatype message_union = VideoFrame bytes | Misc "misc_union option" | OtherUnion bytes

type_synonym Message = "message_union option"
type_synonym delivery = "nat \<times> Message"

record ConnInner =
  conn_id :: int
  tx :: "nat option"
  tx_video :: "nat option"

definition conn_new :: "int \<Rightarrow> nat option \<Rightarrow> nat option \<Rightarrow> ConnInner" where
  "conn_new i t v = \<lparr>conn_id = i, tx = t, tx_video = v\<rparr>"

fun tx_by_video :: "Message \<Rightarrow> bool" where
  "tx_by_video (Some (VideoFrame _)) = True"
| "tx_by_video (Some (Misc m)) = (case m of Some (SwitchDisplay _) \<Rightarrow> True | _ \<Rightarrow> False)"
| "tx_by_video _ = False"

definition conn_send :: "Message \<Rightarrow> ConnInner \<Rightarrow> delivery list" where
  "conn_send msg c =
     (case (if tx_by_video msg then tx_video c else tx c) of
        Some ch \<Rightarrow> [(ch, msg)]
      | None \<Rightarrow> [])"

section \<open>The state of a service\<close>

type_synonym subs = "(int \<times> ConnInner) list"

record ServiceInner =
  svc_name :: string
  handle :: bool
  subscribes :: subs
  new_subscribes :: subs
  active :: bool
  need_snapshot :: bool
  svc_options :: "(string \<times> string) list"

definition HIBERNATE_TIMEOUT :: nat where "HIBERNATE_TIMEOUT = 30"
definition MAX_ERROR_TIMEOUT :: nat where "MAX_ERROR_TIMEOUT = 1000"
definition SERVICE_OPTION_VALUE_TRUE :: string where "SERVICE_OPTION_VALUE_TRUE = ''1''"
definition SERVICE_OPTION_VALUE_FALSE :: string where "SERVICE_OPTION_VALUE_FALSE = ''0''"

definition service_new :: "string \<Rightarrow> bool \<Rightarrow> ServiceInner" where
  "service_new n snap = \<lparr>svc_name = n, handle = False, subscribes = [], new_subscribes = [],
     active = True, need_snapshot = snap, svc_options = []\<rparr>"

definition broadcast :: "Message \<Rightarrow> subs \<Rightarrow> delivery list" where
  "broadcast msg m = concat (map (\<lambda>(_, c). conn_send msg c) m)"

definition send_new_subscribes :: "Message \<Rightarrow> ServiceInner \<Rightarrow> delivery list" where
  "send_new_subscribes msg s = broadcast msg (new_subscribes s)"

definition swap_new_subscribes :: "ServiceInner \<Rightarrow> ServiceInner" where
  "swap_new_subscribes s =
     s\<lparr>subscribes := fold (\<lambda>(_, c) m. AList.update (conn_id c) c m) (new_subscribes s) (subscribes s),
       new_subscribes := []\<rparr>"

definition has_subscribes :: "ServiceInner \<Rightarrow> bool" where
  "has_subscribes s = (length (subscribes s) > 0 \<or> length (new_subscribes s) > 0)"

definition is_subed :: "ServiceInner \<Rightarrow> int \<Rightarrow> bool" where
  "is_subed s i = (map_of (subscribes s) i \<noteq> None \<or> map_of (new_subscribes s) i \<noteq> None)"

definition on_subscribe :: "ConnInner \<Rightarrow> ServiceInner \<Rightarrow> ServiceInner" where
  "on_subscribe sub s =
     (if map_of (subscribes s) (conn_id sub) \<noteq> None then s
      else if need_snapshot s then s\<lparr>new_subscribes := AList.update (conn_id sub) sub (new_subscribes s)\<rparr>
      else s\<lparr>subscribes := AList.update (conn_id sub) sub (subscribes s)\<rparr>)"

definition on_unsubscribe :: "int \<Rightarrow> ServiceInner \<Rightarrow> ServiceInner" where
  "on_unsubscribe i s =
     (case map_of (subscribes s) i of
        Some _ \<Rightarrow> s\<lparr>subscribes := AList.delete i (subscribes s)\<rparr>
      | None \<Rightarrow> s\<lparr>new_subscribes := AList.delete i (new_subscribes s)\<rparr>)"

text \<open>\<open>join\<close> asks the thread of the service to stop and waits for it.\<close>

definition join :: "ServiceInner \<Rightarrow> ServiceInner" where
  "join s = s\<lparr>active := False, handle := False\<rparr>"

definition get_svc_option :: "ServiceInner \<Rightarrow> string \<Rightarrow> string option" where
  "get_svc_option s opt = map_of (svc_options s) opt"

definition set_svc_option :: "string \<Rightarrow> string \<Rightarrow> ServiceInner \<Rightarrow> string option \<times> ServiceInner" where
  "set_svc_option opt val s =
     (map_of (svc_options s) opt, s\<lparr>svc_options := AList.update opt val (svc_options s)\<rparr>)"

definition ok :: "ServiceInner \<Rightarrow> bool" where
  "ok s = (active s \<and> has_subscribes s)"

definition is_option_true :: "ServiceInner \<Rightarrow> string \<Rightarrow> bool" where
  "is_option_true s opt = (case get_svc_option s opt of Some v \<Rightarrow> v = SERVICE_OPTION_VALUE_TRUE | None \<Rightarrow> False)"

definition set_option_bool :: "string \<Rightarrow> bool \<Rightarrow> ServiceInner \<Rightarrow> ServiceInner" where
  "set_option_bool opt v s =
     snd (set_svc_option opt (if v then SERVICE_OPTION_VALUE_TRUE else SERVICE_OPTION_VALUE_FALSE) s)"

section \<open>Sending\<close>

definition send_to :: "Message \<Rightarrow> int \<Rightarrow> ServiceInner \<Rightarrow> delivery list" where
  "send_to msg i s = (case map_of (subscribes s) i of Some c \<Rightarrow> conn_send msg c | None \<Rightarrow> [])"

definition send_to_others :: "Message \<Rightarrow> int \<Rightarrow> ServiceInner \<Rightarrow> delivery list" where
  "send_to_others msg i s = broadcast msg (filter (\<lambda>(sid, _). sid \<noteq> i) (subscribes s))"

definition send_shared :: "Message \<Rightarrow> ServiceInner \<Rightarrow> delivery list" where
  "send_shared msg s = broadcast msg (subscribes s)"

definition send_video_frame_shared :: "Message \<Rightarrow> ServiceInner \<Rightarrow> delivery list \<times> int set" where
  "send_video_frame_shared msg s = (broadcast msg (subscribes s), set (map (\<lambda>(_, c). conn_id c) (subscribes s)))"

definition send_without :: "Message \<Rightarrow> int \<Rightarrow> ServiceInner \<Rightarrow> delivery list" where
  "send_without msg i s = broadcast msg (filter (\<lambda>(_, c). i \<noteq> conn_id c) (subscribes s))"

text \<open>
  \<open>snapshot\<close> hands the callback a \<open>ServiceSwap\<close>, which sends to the new subscribers and moves them over when it is
  dropped, also when the callback fails. The callback is given by the messages it sends and its outcome; no other
  thread runs in between here.
\<close>

definition snapshot :: "Message list \<Rightarrow> 'e + unit \<Rightarrow> ServiceInner \<Rightarrow> ('e + unit) \<times> delivery list \<times> ServiceInner" where
  "snapshot msgs r s =
     (if length (new_subscribes s) > 0
      then (r, concat (map (\<lambda>m. send_new_subscribes m s) msgs), swap_new_subscribes s)
      else (Inr (), [], s))"

section \<open>The loops of the service threads\<close>

text \<open>
  One turn of \<open>repeat\<close>: whether there are subscribers and how the callback ends come from outside; the result is the
  flag \<open>may_reset\<close> and what the turn did to the state of the service.
\<close>

datatype repeat_action = Init | Callback | ErrorSleep nat | Reset

definition repeat_turn :: "bool \<Rightarrow> bool \<Rightarrow> bool \<Rightarrow> bool \<times> repeat_action list" where
  "repeat_turn subscribed callback_ok may_reset =
     (if subscribed then
        (True, (if \<not> may_reset then [Init] else []) @ [Callback] @
               (if callback_ok then [] else [ErrorSleep MAX_ERROR_TIMEOUT]))
      else if may_reset then (False, [Reset])
      else (False, []))"

fun repeat_run :: "(bool \<times> bool) list \<Rightarrow> bool \<Rightarrow> bool \<times> repeat_action list" where
  "repeat_run [] may_reset = (may_reset, [])"
| "repeat_run ((subscribed, callback_ok) # ts) may_reset =
     (let (m, as) = repeat_turn subscribed callback_ok may_reset;
          (m', as') = repeat_run ts m
      in (m', as @ as'))"

text \<open>The pause of \<open>run\<close> after a failed callback that took \<open>elapsed\<close> milliseconds.\<close>

definition next_error_timeout :: "nat \<Rightarrow> nat \<Rightarrow> nat" where
  "next_error_timeout elapsed error_timeout =
     (let t = (if elapsed > MAX_ERROR_TIMEOUT then HIBERNATE_TIMEOUT else error_timeout * 2)
      in if t > MAX_ERROR_TIMEOUT then MAX_ERROR_TIMEOUT else t)"

text \<open>
  One turn of \<open>run\<close>: the callback's outcome is \<open>Inl elapsed\<close> when it failed after that time and \<open>Inr ()\<close> otherwise;
  the result is the pause for the next error and how long the thread sleeps.
\<close>

definition run_turn :: "bool \<Rightarrow> nat + unit \<Rightarrow> nat \<Rightarrow> nat \<times> nat list" where
  "run_turn subscribed outcome error_timeout =
     (if subscribed then
        (case outcome of
           Inl elapsed \<Rightarrow> (let t = next_error_timeout elapsed error_timeout in (t, [t, HIBERNATE_TIMEOUT]))
         | Inr _ \<Rightarrow> (error_timeout, [HIBERNATE_TIMEOUT]))
      else (error_timeout, [HIBERNATE_TIMEOUT]))"

fun run_loop :: "(bool \<times> (nat + unit)) list \<Rightarrow> nat \<Rightarrow> nat \<times> nat list" where
  "run_loop [] t = (t, [])"
| "run_loop ((subscribed, outcome) # ts) t =
     (let (t1, ss) = run_turn subscribed outcome t; (t2, ss') = run_loop ts t1 in (t2, ss @ ss'))"

section \<open>A service in use\<close>

text \<open>
  The critical sections that the threads of the process enter, in any order. \<open>SwapSend\<close> and \<open>SwapDrop\<close> are the two of a
  snapshot: the lock is released between them.
\<close>

datatype svc_event =
  Subscribe ConnInner
| Unsubscribe int
| SetOption string string
| Join
| SwapSend Message
| SwapDrop
| SendShared Message
| SendTo Message int
| SendToOthers Message int
| SendWithout Message int

fun svc_step :: "svc_event \<Rightarrow> ServiceInner \<Rightarrow> ServiceInner \<times> delivery list" where
  "svc_step (Subscribe c) s = (on_subscribe c s, [])"
| "svc_step (Unsubscribe i) s = (on_unsubscribe i s, [])"
| "svc_step (SetOption opt val) s = (snd (set_svc_option opt val s), [])"
| "svc_step Join s = (join s, [])"
| "svc_step (SwapSend m) s = (s, send_new_subscribes m s)"
| "svc_step SwapDrop s = (swap_new_subscribes s, [])"
| "svc_step (SendShared m) s = (s, send_shared m s)"
| "svc_step (SendTo m i) s = (s, send_to m i s)"
| "svc_step (SendToOthers m i) s = (s, send_to_others m i s)"
| "svc_step (SendWithout m i) s = (s, send_without m i s)"

fun svc_run :: "svc_event list \<Rightarrow> ServiceInner \<Rightarrow> ServiceInner \<times> delivery list" where
  "svc_run [] s = (s, [])"
| "svc_run (e # es) s =
     (let (s1, ds) = svc_step e s; (s2, ds') = svc_run es s1 in (s2, ds @ ds'))"

section \<open>The contract of a service\<close>

text \<open>
  What the server relies on when it subscribes and unsubscribes connections (the trait \<open>Service\<close>): subscribing adds
  exactly that connection, unsubscribing removes exactly it, and both keep the service well formed.
\<close>

locale subscription =
  fixes subed :: "'s \<Rightarrow> int \<Rightarrow> bool"
    and sub :: "'c \<Rightarrow> 's \<Rightarrow> 's"
    and unsub :: "int \<Rightarrow> 's \<Rightarrow> 's"
    and ident :: "'c \<Rightarrow> int"
    and invar :: "'s \<Rightarrow> bool"
  assumes invar_sub: "invar s \<Longrightarrow> invar (sub c s)"
    and invar_unsub: "invar s \<Longrightarrow> invar (unsub i s)"
    and subed_sub: "invar s \<Longrightarrow> subed (sub c s) i \<longleftrightarrow> i = ident c \<or> subed s i"
    and subed_unsub: "invar s \<Longrightarrow> subed (unsub j s) i \<longleftrightarrow> i \<noteq> j \<and> subed s i"
begin

text \<open>The guarded toggle that \<open>Server::subscribe\<close> performs sets the subscription of one connection.\<close>

lemma invar_toggle:
  "invar s \<Longrightarrow> invar (if subed s (ident c) = b then s else if b then sub c s else unsub (ident c) s)"
  by (simp add: invar_sub invar_unsub)

lemma subed_toggle:
  "invar s \<Longrightarrow> subed (if subed s (ident c) = b then s else if b then sub c s else unsub (ident c) s) i
     \<longleftrightarrow> (if i = ident c then b else subed s i)"
  by (auto simp: subed_sub subed_unsub)

lemma subscribers_sub: "invar s \<Longrightarrow> Collect (subed (sub c s)) = insert (ident c) (Collect (subed s))"
  by (auto simp: subed_sub)

lemma subscribers_unsub: "invar s \<Longrightarrow> Collect (subed (unsub i s)) = Collect (subed s) - {i}"
  by (auto simp: subed_unsub)

end

section \<open>The invariant\<close>

text \<open>Every table is keyed by the id of its connections, a connection is in at most one of the two, and a service that
  needs no snapshot has nobody waiting for one.\<close>

definition svc_inv :: "ServiceInner \<Rightarrow> bool" where
  "svc_inv s \<longleftrightarrow>
     distinct (map fst (subscribes s)) \<and> distinct (map fst (new_subscribes s)) \<and>
     list_all (\<lambda>(k, c). k = conn_id c) (subscribes s) \<and> list_all (\<lambda>(k, c). k = conn_id c) (new_subscribes s) \<and>
     fst ` set (subscribes s) \<inter> fst ` set (new_subscribes s) = {} \<and> (need_snapshot s \<or> new_subscribes s = [])"

lemma is_subed_fst: "is_subed s i \<longleftrightarrow> i \<in> fst ` set (subscribes s) \<or> i \<in> fst ` set (new_subscribes s)"
  by (simp add: is_subed_def map_of_eq_None_iff)

lemma keyed_update: "list_all (\<lambda>(k, c). k = conn_id c) m \<Longrightarrow> list_all (\<lambda>(k, c). k = conn_id c) (AList.update (conn_id c) c m)"
  by (induction m) auto

lemma keyed_delete: "list_all (\<lambda>(k, c). k = conn_id c) m \<Longrightarrow> list_all (\<lambda>(k, c). k = conn_id c) (AList.delete i m)"
  by (auto simp: list_all_iff AList.delete_eq)

lemma fst_delete: "fst ` set (AList.delete i m) = fst ` set m - {i}"
  by (auto simp: AList.delete_eq image_iff)

lemma fst_update: "fst ` set (AList.update k v m) = insert k (fst ` set m)"
  by (simp add: dom_update)

lemma svc_inv_new: "svc_inv (service_new n b)"
  by (simp add: svc_inv_def service_new_def)

lemma svc_inv_subscribe: "svc_inv s \<Longrightarrow> svc_inv (on_subscribe c s)"
  by (auto simp: svc_inv_def on_subscribe_def keyed_update distinct_update fst_update map_of_eq_None_iff)

lemma svc_inv_unsubscribe: "svc_inv s \<Longrightarrow> svc_inv (on_unsubscribe i s)"
  by (auto simp: svc_inv_def on_unsubscribe_def keyed_delete distinct_delete fst_delete split: option.splits)

lemma is_subed_on_subscribe: "is_subed (on_subscribe c s) i \<longleftrightarrow> i = conn_id c \<or> is_subed s i"
  by (auto simp: is_subed_def on_subscribe_def update_conv')

lemma is_subed_on_unsubscribe:
  assumes "svc_inv s"
  shows "is_subed (on_unsubscribe j s) i \<longleftrightarrow> i \<noteq> j \<and> is_subed s i"
proof (cases "map_of (subscribes s) j")
  case None
  then have "j \<notin> fst ` set (subscribes s)" by (simp add: map_of_eq_None_iff)
  with None show ?thesis by (auto simp: is_subed_fst on_unsubscribe_def fst_delete)
next
  case (Some c)
  then have "j \<in> fst ` set (subscribes s)" by (metis map_of_eq_None_iff option.distinct(1))
  then have "j \<notin> fst ` set (new_subscribes s)" using assms by (auto simp: svc_inv_def)
  with Some show ?thesis by (auto simp: is_subed_fst on_unsubscribe_def fst_delete)
qed

interpretation svc: subscription is_subed on_subscribe on_unsubscribe conn_id svc_inv
  by unfold_locales (simp_all add: svc_inv_subscribe svc_inv_unsubscribe is_subed_on_subscribe is_subed_on_unsubscribe)

subsection \<open>Moving the new subscribers over\<close>

lemma swap_fold:
  assumes "list_all (\<lambda>(k, c). k = conn_id c) n" and "distinct (map fst n)"
    and "fst ` set m \<inter> fst ` set n = {}"
  shows "fold (\<lambda>(_, c) m. AList.update (conn_id c) c m) n m = m @ n"
  using assms
proof (induction n arbitrary: m)
  case (Cons p n)
  obtain k c where p: "p = (k, c)" by (cases p)
  have k: "k = conn_id c" "k \<notin> fst ` set m" using Cons.prems p by auto
  have "AList.update k c m = m @ [(k, c)]" using k(2) by (induction m) auto
  moreover have "fold (\<lambda>(_, c) m. AList.update (conn_id c) c m) n (m @ [(k, c)]) = (m @ [(k, c)]) @ n"
    by (rule Cons.IH) (use Cons.prems p in auto)
  ultimately show ?case using p k by simp
qed simp

lemma swap_appends: "svc_inv s \<Longrightarrow> swap_new_subscribes s = s\<lparr>subscribes := subscribes s @ new_subscribes s, new_subscribes := []\<rparr>"
  by (simp add: swap_new_subscribes_def svc_inv_def swap_fold)

lemma svc_inv_swap: "svc_inv s \<Longrightarrow> svc_inv (swap_new_subscribes s)"
  by (auto simp: swap_appends) (auto simp: svc_inv_def)

lemma is_subed_swap: "svc_inv s \<Longrightarrow> is_subed (swap_new_subscribes s) = is_subed s"
  by (auto simp: swap_appends is_subed_fst fun_eq_iff)

section \<open>Every sequence of critical sections\<close>

lemma svc_inv_step: "svc_inv s \<Longrightarrow> svc_inv (fst (svc_step e s))"
  by (cases e) (simp_all add: svc_inv_subscribe svc_inv_unsubscribe svc_inv_swap,
      simp_all add: svc_inv_def set_svc_option_def join_def)

lemma svc_inv_run: "svc_inv s \<Longrightarrow> svc_inv (fst (svc_run es s))"
  by (induction es arbitrary: s) (simp_all add: svc_inv_step split_beta)

text \<open>The specification: who has subscribed and not unsubscribed since.\<close>

fun subscribers_step :: "svc_event \<Rightarrow> int set \<Rightarrow> int set" where
  "subscribers_step (Subscribe c) S = insert (conn_id c) S"
| "subscribers_step (Unsubscribe i) S = S - {i}"
| "subscribers_step _ S = S"

lemma is_subed_other [simp]:
  "is_subed (snd (set_svc_option opt val s)) = is_subed s" "is_subed (join s) = is_subed s"
  by (simp_all add: fun_eq_iff is_subed_def set_svc_option_def join_def)

lemma subscribers_step_refines:
  "svc_inv s \<Longrightarrow> Collect (is_subed (fst (svc_step e s))) = subscribers_step e (Collect (is_subed s))"
  by (cases e) (simp_all add: svc.subscribers_sub svc.subscribers_unsub is_subed_swap)

lemma subscribers_run_refines:
  "svc_inv s \<Longrightarrow> Collect (is_subed (fst (svc_run es s))) = fold subscribers_step es (Collect (is_subed s))"
  by (induction es arbitrary: s) (simp_all add: svc_inv_step subscribers_step_refines split_beta)

text \<open>C16: the two tables of a service together are the set of subscribers. Whatever the threads of the process do to a
  service, in any order, a connection counts as subscribed exactly if its last subscription was not followed by an
  unsubscription, and it is in one of the two tables only.\<close>

theorem service_refines_subscriber_set:
  "Collect (is_subed (fst (svc_run es (service_new n snap)))) = fold subscribers_step es {} \<and>
   svc_inv (fst (svc_run es (service_new n snap)))"
proof -
  have e: "Collect (is_subed (service_new n snap)) = {}" by (simp add: is_subed_def service_new_def)
  from subscribers_run_refines [OF svc_inv_new, of es n snap] svc_inv_run [OF svc_inv_new, of es n snap]
  show ?thesis unfolding e by blast
qed

section \<open>Who gets a message\<close>

lemma set_broadcast: "set (broadcast msg m) = (\<Union>(k, c) \<in> set m. set (conn_send msg c))"
  by (auto simp: broadcast_def)

text \<open>A snapshot that no other thread interrupts serves every waiting subscriber: each message of the callback goes to
  exactly the new subscribers, whatever the outcome of the callback, and afterwards none is waiting, nobody was
  dropped, and the next broadcast reaches the old and the new ones.\<close>

theorem snapshot_serves_new_subscribers:
  assumes "svc_inv s" and "snapshot msgs r s = (r', ds, s')" and "new_subscribes s \<noteq> []"
  shows "r' = r \<and> set ds = (\<Union>m \<in> set msgs. \<Union>(k, c) \<in> set (new_subscribes s). set (conn_send m c)) \<and>
    new_subscribes s' = [] \<and> is_subed s' = is_subed s \<and> svc_inv s' \<and>
    send_shared m s' = send_shared m s @ send_new_subscribes m s"
  using assms
  by (auto simp: snapshot_def send_new_subscribes_def set_broadcast svc_inv_swap is_subed_swap)
     (auto simp: swap_appends send_shared_def broadcast_def)

theorem snapshot_serves_new_subscribers_witness:
  "set (fst (snd (snapshot [Some (OtherUnion [7])] (Inr () :: string + unit)
      (on_subscribe (conn_new 5 (Some 1) (Some 2)) (service_new ''mouse_cursor'' True)))))
   = {(1, Some (OtherUnion [7]))}"
proof -
  let ?s = "on_subscribe (conn_new 5 (Some 1) (Some 2)) (service_new ''mouse_cursor'' True)"
  have i: "svc_inv ?s" by (rule svc_inv_subscribe [OF svc_inv_new])
  have n: "new_subscribes ?s = [(5, conn_new 5 (Some 1) (Some 2))]"
    by (simp add: on_subscribe_def service_new_def conn_new_def)
  obtain r ds s' where sn: "snapshot [Some (OtherUnion [7])] (Inr () :: string + unit) ?s = (r, ds, s')"
    by (metis prod_cases3)
  have "set ds = (\<Union>m \<in> set [Some (OtherUnion [7])]. \<Union>(k, c) \<in> set (new_subscribes ?s). set (conn_send m c))"
    using snapshot_serves_new_subscribers [OF i sn, of None] n by simp
  then have "set ds = {(1, Some (OtherUnion [7]))}" unfolding n by (simp add: conn_send_def conn_new_def)
  with sn show ?thesis by simp
qed

text \<open>Between the two critical sections of a snapshot another thread can subscribe, and that connection is then
  moved to the subscribers without having received the snapshot: it gets the broadcasts that build on a
  snapshot it never saw.\<close>

theorem snapshot_race_skips_subscriber:
  "svc_run [Subscribe (conn_new 1 (Some 10) None), SwapSend m, Subscribe (conn_new 2 (Some 20) None), SwapDrop,
     SendShared m'] (service_new n True)
   = (\<lparr>svc_name = n, handle = False, subscribes = [(1, conn_new 1 (Some 10) None), (2, conn_new 2 (Some 20) None)],
        new_subscribes = [], active = True, need_snapshot = True, svc_options = []\<rparr>,
      conn_send m (conn_new 1 (Some 10) None) @
      conn_send m' (conn_new 1 (Some 10) None) @ conn_send m' (conn_new 2 (Some 20) None))"
  by (simp add: service_new_def on_subscribe_def send_new_subscribes_def swap_new_subscribes_def send_shared_def
      broadcast_def conn_new_def)

section \<open>The loops\<close>

text \<open>The discipline of the state of a \<open>repeat\<close> service: initialised before it is used, reset only when it is in use.\<close>

fun lifecycle :: "bool \<Rightarrow> repeat_action list \<Rightarrow> bool option" where
  "lifecycle b [] = Some b"
| "lifecycle b (Init # as) = (if b then None else lifecycle True as)"
| "lifecycle b (Reset # as) = (if b then lifecycle False as else None)"
| "lifecycle b (Callback # as) = (if b then lifecycle True as else None)"
| "lifecycle b (ErrorSleep _ # as) = (if b then lifecycle True as else None)"

lemma lifecycle_append: "lifecycle b (as @ bs) = (case lifecycle b as of None \<Rightarrow> None | Some b' \<Rightarrow> lifecycle b' bs)"
  by (induction b as rule: lifecycle.induct) auto

lemma lifecycle_turn: "lifecycle b (snd (repeat_turn u v b)) = Some (fst (repeat_turn u v b))"
  by (simp add: repeat_turn_def)

text \<open>A service run by \<open>repeat\<close> initialises its state before the first callback after a period without subscribers, resets it
  exactly once when the last subscriber has left, and never runs the callback on a state that was reset, however
  subscribers come and go and however the callbacks end.\<close>

theorem repeat_lifecycle: "lifecycle b (snd (repeat_run ts b)) = Some (fst (repeat_run ts b))"
proof (induction ts arbitrary: b)
  case (Cons t ts)
  obtain u v where "t = (u, v)" by (cases t)
  with Cons show ?case by (simp add: split_beta lifecycle_append lifecycle_turn)
qed simp

lemma next_error_timeout_bounds:
  "HIBERNATE_TIMEOUT \<le> t \<Longrightarrow> t \<le> MAX_ERROR_TIMEOUT \<Longrightarrow>
     HIBERNATE_TIMEOUT \<le> next_error_timeout e t \<and> next_error_timeout e t \<le> MAX_ERROR_TIMEOUT"
  by (simp add: next_error_timeout_def HIBERNATE_TIMEOUT_def MAX_ERROR_TIMEOUT_def Let_def)

lemma run_loop_bounds:
  "HIBERNATE_TIMEOUT \<le> t \<Longrightarrow> t \<le> MAX_ERROR_TIMEOUT \<Longrightarrow>
     set (snd (run_loop ts t)) \<subseteq> {HIBERNATE_TIMEOUT .. MAX_ERROR_TIMEOUT}"
proof (induction ts arbitrary: t)
  case (Cons p ts)
  obtain u out where p: "p = (u, out)" by (cases p)
  let ?t = "fst (run_turn u out t)"
  have b: "HIBERNATE_TIMEOUT \<le> ?t" "?t \<le> MAX_ERROR_TIMEOUT"
    and s: "set (snd (run_turn u out t)) \<subseteq> {HIBERNATE_TIMEOUT .. MAX_ERROR_TIMEOUT}"
    using Cons.prems next_error_timeout_bounds [OF Cons.prems]
    by (auto simp: run_turn_def Let_def HIBERNATE_TIMEOUT_def MAX_ERROR_TIMEOUT_def split: sum.splits)
  with Cons.IH [OF b] show ?case by (simp add: p split_beta)
qed simp

lemma run_loop_doubles:
  assumes "elapsed \<le> MAX_ERROR_TIMEOUT"
  shows "fst (run_loop (replicate n (True, Inl elapsed)) (min MAX_ERROR_TIMEOUT t)) = min MAX_ERROR_TIMEOUT (t * 2 ^ n)"
proof (induction n arbitrary: t)
  case (Suc n)
  have "next_error_timeout elapsed (min MAX_ERROR_TIMEOUT t) = min MAX_ERROR_TIMEOUT (t * 2)"
    using assms by (simp add: next_error_timeout_def min_def Let_def)
  with Suc [of "t * 2"] show ?case by (simp add: run_turn_def split_beta Let_def mult.assoc)
qed simp

text \<open>The pause after errors of a service run by \<open>run\<close>: whatever happens, the thread never sleeps less than 30 ms or
  more than one second at a time, so it neither spins nor hangs, and after \<open>n\<close> quick failures in a row the
  pause is 30 ms doubled \<open>n\<close> times, capped at one second.\<close>

theorem error_backoff:
  assumes "elapsed \<le> MAX_ERROR_TIMEOUT"
  shows "fst (run_loop (replicate n (True, Inl elapsed)) HIBERNATE_TIMEOUT) = min 1000 (30 * 2 ^ n) \<and>
    set (snd (run_loop ts HIBERNATE_TIMEOUT)) \<subseteq> {30 .. 1000}"
  using run_loop_doubles [OF assms, of n HIBERNATE_TIMEOUT] run_loop_bounds [of HIBERNATE_TIMEOUT ts]
  by (simp add: HIBERNATE_TIMEOUT_def MAX_ERROR_TIMEOUT_def)

theorem error_backoff_witness: "fst (run_loop (replicate 3 (True, Inl 5)) HIBERNATE_TIMEOUT) = 240"
  using error_backoff [of 5 3 "[]"] by (simp add: MAX_ERROR_TIMEOUT_def)

end
