(* ===== verification/Server.thy ===== *)
theory Server
  imports Service
begin

text \<open>
  The server that owns the services and the connections (\<open>src/server.rs\<close>, \<open>struct Server\<close>), the names of the video
  services (\<open>src/server/video_service.rs\<close>) and the requests of a peer that choose which displays it receives
  (\<open>src/server/connection.rs\<close>). The primary display, whether a camera exists and the random start of the connection
  ids come from the system and are arguments.
\<close>

section \<open>Names of video services\<close>

datatype VideoSource = Monitor | Camera

fun service_name_prefix :: "VideoSource \<Rightarrow> string" where
  "service_name_prefix Monitor = ''monitor''"
| "service_name_prefix Camera = ''camera''"

definition get_service_name :: "VideoSource \<Rightarrow> nat \<Rightarrow> string" where
  "get_service_name source idx = service_name_prefix source @ decimal idx"

definition is_video_service_name :: "string \<Rightarrow> bool" where
  "is_video_service_name n =
     (take (length (service_name_prefix Monitor)) n = service_name_prefix Monitor \<or>
      take (length (service_name_prefix Camera)) n = service_name_prefix Camera)"

text \<open>\<open>video_service::new\<close>: a service that needs a snapshot, with its thread running.\<close>

definition video_service_new :: "VideoSource \<Rightarrow> nat \<Rightarrow> ServiceInner" where
  "video_service_new source idx = (service_new (get_service_name source idx) True)\<lparr>handle := True\<rparr>"

section \<open>The server\<close>

record Server =
  connections :: "(int \<times> ConnInner) list"
  services :: "(string \<times> ServiceInner) list"
  id_count :: int

definition add_service :: "ServiceInner \<Rightarrow> Server \<Rightarrow> Server" where
  "add_service svc srv = srv\<lparr>services := AList.update (svc_name svc) svc (services srv)\<rparr>"

definition contains :: "Server \<Rightarrow> string \<Rightarrow> bool" where
  "contains srv n = (map_of (services srv) n \<noteq> None)"

text \<open>\<open>random % 1000 + 1000\<close> keeps the sign of the random number, as the remainder of Rust does.\<close>

definition first_id_count :: "int \<Rightarrow> int" where
  "first_id_count random = sgn random * (\<bar>random\<bar> mod 1000) + 1000"

text \<open>The services of a new server depend on the platform: they are given.\<close>

definition server_new :: "int \<Rightarrow> ServiceInner list \<Rightarrow> Server" where
  "server_new random svcs = fold add_service svcs \<lparr>connections = [], services = [], id_count = first_id_count random\<rparr>"

definition try_add_primary_camera_service :: "bool \<Rightarrow> Server \<Rightarrow> Server" where
  "try_add_primary_camera_service camera_exists srv =
     (if \<not> camera_exists then srv
      else if \<not> contains srv (get_service_name Camera 0) then add_service (video_service_new Camera 0) srv
      else srv)"

definition try_add_primay_video_service :: "nat \<Rightarrow> Server \<Rightarrow> Server" where
  "try_add_primay_video_service primary srv =
     (if \<not> contains srv (get_service_name Monitor primary) then add_service (video_service_new Monitor primary) srv
      else srv)"

definition add_camera_connection :: "bool \<Rightarrow> ConnInner \<Rightarrow> Server \<Rightarrow> Server" where
  "add_camera_connection camera_exists conn srv =
     (let srv1 = (if camera_exists
                  then srv\<lparr>services := AList.map_entry (get_service_name Camera 0) (on_subscribe conn) (services srv)\<rparr>
                  else srv)
      in srv1\<lparr>connections := AList.update (conn_id conn) conn (connections srv1)\<rparr>)"

definition add_connection :: "nat \<Rightarrow> ConnInner \<Rightarrow> string list \<Rightarrow> Server \<Rightarrow> Server" where
  "add_connection primary conn noperms srv =
     srv\<lparr>services := map (\<lambda>(k, s).
            if is_video_service_name (svc_name s) \<and> svc_name s \<noteq> get_service_name Monitor primary then (k, s)
            else if svc_name s \<notin> set noperms then (k, on_subscribe conn s)
            else (k, s)) (services srv),
         connections := AList.update (conn_id conn) conn (connections srv)\<rparr>"

definition remove_connection :: "ConnInner \<Rightarrow> Server \<Rightarrow> Server" where
  "remove_connection conn srv =
     srv\<lparr>services := map (\<lambda>(k, s). (k, on_unsubscribe (conn_id conn) s)) (services srv),
         connections := AList.delete (conn_id conn) (connections srv)\<rparr>"

definition close_connections :: "Server \<Rightarrow> delivery list" where
  "close_connections srv =
     concat (map (\<lambda>(_, c). conn_send (Some (Misc (Some (StopService True)))) c) (connections srv))"

definition subscribe :: "string \<Rightarrow> ConnInner \<Rightarrow> bool \<Rightarrow> Server \<Rightarrow> Server" where
  "subscribe n conn sub srv =
     (case map_of (services srv) n of
        None \<Rightarrow> srv
      | Some s \<Rightarrow>
          if is_subed s (conn_id conn) = sub then srv
          else if sub then srv\<lparr>services := AList.map_entry n (on_subscribe conn) (services srv)\<rparr>
          else srv\<lparr>services := AList.map_entry n (on_unsubscribe (conn_id conn)) (services srv)\<rparr>)"

definition get_new_id :: "Server \<Rightarrow> int \<times> Server" where
  "get_new_id srv = (let i = i32_add (id_count srv) 1 in (i, srv\<lparr>id_count := i\<rparr>))"

definition set_video_service_opt :: "(VideoSource \<times> nat) option \<Rightarrow> string \<Rightarrow> string \<Rightarrow> Server \<Rightarrow> Server" where
  "set_video_service_opt display opt val srv =
     srv\<lparr>services := map (\<lambda>(k, s).
        if (case display of Some (source, d) \<Rightarrow> k \<noteq> get_service_name source d | None \<Rightarrow> False) then (k, s)
        else if is_video_service_name k then (k, snd (set_svc_option opt val s))
        else (k, s)) (services srv)\<rparr>"

definition subed_at :: "Server \<Rightarrow> string \<Rightarrow> int \<Rightarrow> bool" where
  "subed_at srv n i = (case map_of (services srv) n of Some s \<Rightarrow> is_subed s i | None \<Rightarrow> False)"

definition get_subbed_displays_count :: "Server \<Rightarrow> int \<Rightarrow> nat" where
  "get_subbed_displays_count srv i =
     length (filter (\<lambda>k. is_video_service_name k \<and> subed_at srv k i) (map fst (services srv)))"

text \<open>What \<open>capture_displays\<close> does with one service name, and the loop over the names.\<close>

definition capture_step :: "ConnInner \<Rightarrow> string list \<Rightarrow> bool \<Rightarrow> bool \<Rightarrow> string \<Rightarrow> Server \<Rightarrow> Server" where
  "capture_step conn names incl excl n srv =
     (if is_video_service_name n then
        if n \<in> set names then (if incl then subscribe n conn True srv else srv)
        else (if excl then subscribe n conn False srv else srv)
      else srv)"

definition capture_displays :: "ConnInner \<Rightarrow> VideoSource \<Rightarrow> nat list \<Rightarrow> bool \<Rightarrow> bool \<Rightarrow> Server \<Rightarrow> Server" where
  "capture_displays conn source displays incl excl srv =
     fold (capture_step conn (map (get_service_name source) displays) incl excl) (map fst (services srv)) srv"

section \<open>The display requests of a connection\<close>

text \<open>The fields of \<open>struct Connection\<close> that these requests use.\<close>

record DisplayConn =
  inner :: ConnInner
  view_camera :: bool
  display_idx :: nat
  multi_ui_session :: bool
  follow_remote_window :: bool
  supports_multi_ui_session :: bool

definition NAME_WINDOW_FOCUS :: string where "NAME_WINDOW_FOCUS = ''window_focus''"
definition OPTION_REFRESH :: string where "OPTION_REFRESH = ''refresh''"

definition video_source :: "DisplayConn \<Rightarrow> VideoSource" where
  "video_source c = (if view_camera c then Camera else Monitor)"

definition refresh_video_display :: "nat option \<Rightarrow> DisplayConn \<Rightarrow> Server \<Rightarrow> Server" where
  "refresh_video_display display c srv =
     set_video_service_opt (map_option (\<lambda>d. (video_source c, d)) display) OPTION_REFRESH SERVICE_OPTION_VALUE_TRUE srv"

definition switch_display_to :: "nat \<Rightarrow> nat \<Rightarrow> DisplayConn \<Rightarrow> Server \<Rightarrow> DisplayConn \<times> Server" where
  "switch_display_to primary idx c srv =
     (let new_name = get_service_name (video_source c) idx;
          old_name = get_service_name (video_source c) (display_idx c);
          srv1 = (if idx \<noteq> primary \<and> \<not> contains srv new_name
                  then add_service (video_service_new (video_source c) idx) srv else srv);
          srv2 = (if \<not> supports_multi_ui_session c then subscribe old_name (inner c) False srv1 else srv1);
          srv3 = subscribe new_name (inner c) True srv2
      in (c\<lparr>display_idx := idx\<rparr>, srv3))"

definition ensure_services :: "VideoSource \<Rightarrow> nat list \<Rightarrow> Server \<Rightarrow> Server" where
  "ensure_services source ds srv =
     fold (\<lambda>d srv. if \<not> contains srv (get_service_name source d)
                   then add_service (video_service_new source d) srv else srv) ds srv"

definition conn_capture_displays ::
    "nat list \<Rightarrow> nat list \<Rightarrow> nat list \<Rightarrow> DisplayConn \<Rightarrow> Server \<Rightarrow> DisplayConn \<times> Server" where
  "conn_capture_displays add sub st c srv =
     (let source = video_source c;
          srv1 = ensure_services source st (ensure_services source add srv);
          srv2 = (if add \<noteq> [] then capture_displays (inner c) source add True False srv1
                  else if sub \<noteq> [] then capture_displays (inner c) source sub False True srv1
                  else capture_displays (inner c) source st True True srv1);
          multi = get_subbed_displays_count srv2 (conn_id (inner c)) > 1;
          srv3 = (if follow_remote_window c then subscribe NAME_WINDOW_FOCUS (inner c) (\<not> multi) srv2 else srv2)
      in (c\<lparr>multi_ui_session := multi\<rparr>, srv3))"

section \<open>Names are unambiguous\<close>

lemma get_service_name_inj: "get_service_name s m = get_service_name s n \<longleftrightarrow> m = n"
  by (simp add: get_service_name_def decimal_inj)

lemma get_service_name_video: "is_video_service_name (get_service_name s n)"
  by (cases s) (simp_all add: is_video_service_name_def get_service_name_def)

lemma window_focus_not_video: "\<not> is_video_service_name NAME_WINDOW_FOCUS"
  by (simp add: is_video_service_name_def NAME_WINDOW_FOCUS_def)

section \<open>The invariant of the server\<close>

definition srv_inv :: "Server \<Rightarrow> bool" where
  "srv_inv srv \<longleftrightarrow> distinct (map fst (services srv)) \<and>
     list_all (\<lambda>(k, s). k = svc_name s \<and> svc_inv s) (services srv)"

lemma srv_invD: "srv_inv srv \<Longrightarrow> map_of (services srv) n = Some s \<Longrightarrow> svc_name s = n \<and> svc_inv s"
  by (auto simp: srv_inv_def list_all_iff dest!: map_of_SomeD)

lemma svc_name_keeps [simp]:
  "svc_name (on_subscribe c s) = svc_name s" "svc_name (on_unsubscribe i s) = svc_name s"
  "svc_name (snd (set_svc_option opt val s)) = svc_name s" "svc_name (service_new n b) = n"
  "svc_name (video_service_new src d) = get_service_name src d"
  by (simp_all add: on_subscribe_def on_unsubscribe_def set_svc_option_def service_new_def video_service_new_def
      split: option.split)

text \<open>What an operation on every service, and on one service, does to the invariant.\<close>

lemma srv_inv_map:
  assumes "srv_inv srv" and "\<And>s. svc_inv s \<Longrightarrow> svc_inv (f s) \<and> svc_name (f s) = svc_name s"
  shows "srv_inv (srv\<lparr>services := map (\<lambda>(k, s). (k, if P k s then f s else s)) (services srv)\<rparr>)"
proof -
  have m: "map fst (map (\<lambda>(k, s). (k, if P k s then f s else s)) xs) = map fst xs" for xs
    by (induction xs) auto
  from assms show ?thesis by (simp add: srv_inv_def m del: map_map) (auto simp: list_all_iff)
qed

lemma srv_inv_entry:
  assumes "srv_inv srv" and "\<And>s. svc_inv s \<Longrightarrow> svc_inv (f s) \<and> svc_name (f s) = svc_name s"
  shows "srv_inv (srv\<lparr>services := AList.map_entry n f (services srv)\<rparr>)"
proof -
  have m: "map fst (AList.map_entry n f xs) = map fst xs" for xs by (induction xs) auto
  have "list_all (\<lambda>(k, s). k = svc_name s \<and> svc_inv s) xs \<Longrightarrow>
    list_all (\<lambda>(k, s). k = svc_name s \<and> svc_inv s) (AList.map_entry n f xs)" for xs
    using assms(2) by (induction xs) auto
  with assms(1) m show ?thesis by (simp add: srv_inv_def)
qed

lemma srv_inv_add_service:
  assumes "srv_inv srv" and "svc_inv s"
  shows "srv_inv (add_service s srv)"
proof -
  have "list_all (\<lambda>(k, s). k = svc_name s \<and> svc_inv s) xs \<Longrightarrow>
    list_all (\<lambda>(k, s). k = svc_name s \<and> svc_inv s) (AList.update (svc_name s) s xs)" for xs
    using assms(2) by (induction xs) auto
  with assms(1) show ?thesis by (simp add: srv_inv_def add_service_def distinct_update)
qed

lemma svc_inv_video: "svc_inv (video_service_new src d)"
  using svc_inv_new [of "get_service_name src d" True] by (simp add: svc_inv_def video_service_new_def)

lemma srv_inv_subscribe: "srv_inv srv \<Longrightarrow> srv_inv (subscribe n c b srv)"
  by (auto simp: subscribe_def svc_inv_subscribe svc_inv_unsubscribe intro!: srv_inv_entry split: option.split)

lemma map_of_map_entry:
  "map_of (AList.map_entry n f m) k = (if k = n then map_option f (map_of m k) else map_of m k)"
  by (induction m) auto

lemma map_of_map_values:
  "map_of (map (\<lambda>(k, s). (k, if P k s then f s else s)) m) n
     = map_option (\<lambda>s. if P n s then f s else s) (map_of m n)"
  by (induction m) auto

section \<open>Who is subscribed to what\<close>

lemma contains_subscribe [simp]: "contains (subscribe n c b srv) m = contains srv m"
  by (simp add: subscribe_def contains_def map_of_map_entry split: option.split)

lemma subed_at_subscribe:
  assumes "srv_inv srv"
  shows "subed_at (subscribe n c b srv) m i =
    (if m = n \<and> contains srv n \<and> i = conn_id c then b else subed_at srv m i)"
proof (cases "map_of (services srv) n")
  case None
  then show ?thesis by (simp add: subscribe_def contains_def)
next
  case (Some s)
  with assms have "svc_inv s" by (simp add: srv_invD)
  from svc.subed_toggle [OF this, of c b i] Some show ?thesis
    by (auto simp: subscribe_def subed_at_def contains_def map_of_map_entry split: if_splits)
qed

lemma subed_at_not_contained: "\<not> contains srv n \<Longrightarrow> \<not> subed_at srv n i"
  by (simp add: subed_at_def contains_def)

lemma capture_step_inv: "srv_inv srv \<Longrightarrow> srv_inv (capture_step conn names incl excl n srv)"
  by (simp add: capture_step_def srv_inv_subscribe)

lemma contains_capture_step [simp]: "contains (capture_step conn names incl excl n srv) m = contains srv m"
  by (simp add: capture_step_def)

definition captured :: "string list \<Rightarrow> bool \<Rightarrow> bool \<Rightarrow> string \<Rightarrow> bool \<Rightarrow> bool" where
  "captured names incl excl n old = (if n \<in> set names then incl \<or> old else \<not> excl \<and> old)"

lemma captured_idem: "captured names incl excl n (captured names incl excl n old) = captured names incl excl n old"
  by (auto simp: captured_def)

lemma subed_at_capture_step:
  assumes "srv_inv srv"
  shows "subed_at (capture_step conn names incl excl n srv) m i =
    (if m = n \<and> contains srv n \<and> is_video_service_name m \<and> i = conn_id conn
     then captured names incl excl m (subed_at srv m i) else subed_at srv m i)"
  using assms by (auto simp: capture_step_def subed_at_subscribe captured_def)

lemma capture_fold:
  "srv_inv srv \<Longrightarrow> srv_inv (fold (capture_step conn names incl excl) ks srv) \<and>
   (\<forall>m. contains (fold (capture_step conn names incl excl) ks srv) m = contains srv m) \<and>
   (\<forall>m i. subed_at (fold (capture_step conn names incl excl) ks srv) m i =
     (if m \<in> set ks \<and> contains srv m \<and> is_video_service_name m \<and> i = conn_id conn
      then captured names incl excl m (subed_at srv m i) else subed_at srv m i))"
proof (induction ks arbitrary: srv)
  case (Cons k ks)
  let ?s = "capture_step conn names incl excl k srv"
  from Cons.IH [OF capture_step_inv [OF Cons.prems, of conn names incl excl k]]
  show ?case using Cons.prems by (auto simp: subed_at_capture_step captured_idem)
qed simp

lemma contains_keys: "contains srv n \<longleftrightarrow> n \<in> set (map fst (services srv))"
  by (auto simp: contains_def map_of_eq_None_iff)

lemma capture_displays_inv: "srv_inv srv \<Longrightarrow> srv_inv (capture_displays conn source ds incl excl srv)"
  by (simp add: capture_displays_def capture_fold)

lemma subed_at_capture_displays:
  assumes "srv_inv srv"
  shows "subed_at (capture_displays conn source ds incl excl srv) m i =
    (if contains srv m \<and> is_video_service_name m \<and> i = conn_id conn
     then captured (map (get_service_name source) ds) incl excl m (subed_at srv m i) else subed_at srv m i)"
  using capture_fold [OF assms] by (auto simp: capture_displays_def contains_keys)

section \<open>Creating the services of the requested displays\<close>

lemma contains_add_service: "contains (add_service s srv) n \<longleftrightarrow> n = svc_name s \<or> contains srv n"
  by (auto simp: contains_def add_service_def update_conv')

lemma subed_at_add_video:
  "\<not> contains srv (get_service_name src d) \<Longrightarrow> subed_at (add_service (video_service_new src d) srv) n i = subed_at srv n i"
  by (auto simp: subed_at_def add_service_def contains_def update_conv' video_service_new_def service_new_def is_subed_def)

lemma ensure_services:
  "srv_inv srv \<Longrightarrow> srv_inv (ensure_services src ds srv) \<and>
   (\<forall>n. contains (ensure_services src ds srv) n \<longleftrightarrow> n \<in> get_service_name src ` set ds \<or> contains srv n) \<and>
   (\<forall>n i. subed_at (ensure_services src ds srv) n i = subed_at srv n i)"
proof (induction ds arbitrary: srv)
  case Nil
  then show ?case by (simp add: ensure_services_def)
next
  case (Cons d ds)
  let ?s = "if \<not> contains srv (get_service_name src d) then add_service (video_service_new src d) srv else srv"
  have "ensure_services src (d # ds) srv = ensure_services src ds ?s" by (simp add: ensure_services_def)
  moreover have "srv_inv ?s" using Cons.prems by (simp add: srv_inv_add_service svc_inv_video)
  ultimately show ?case using Cons.IH [of ?s]
    by (auto simp: contains_add_service subed_at_add_video split: if_splits)
qed

section \<open>Connections come and go\<close>

definition wanted :: "nat \<Rightarrow> string list \<Rightarrow> string \<Rightarrow> bool" where
  "wanted primary noperms n \<longleftrightarrow>
     n \<notin> set noperms \<and> (is_video_service_name n \<longrightarrow> n = get_service_name Monitor primary)"

lemma add_connection_map:
  "add_connection primary conn noperms srv =
     srv\<lparr>services := map (\<lambda>(k, s). (k, if wanted primary noperms (svc_name s) then on_subscribe conn s else s)) (services srv),
         connections := AList.update (conn_id conn) conn (connections srv)\<rparr>"
  unfolding add_connection_def
  by (rule arg_cong [where f = "\<lambda>ss. srv\<lparr>services := ss, connections := AList.update (conn_id conn) conn (connections srv)\<rparr>"],
      rule map_cong [OF refl]) (auto simp: wanted_def)

lemma map_of_on_values: "map_of (map (\<lambda>(k, s). (k, f s)) m) n = map_option f (map_of m n)"
  by (induction m) auto

lemma remove_connection_map:
  "remove_connection conn srv =
     srv\<lparr>services := map (\<lambda>(k, s). (k, if True then on_unsubscribe (conn_id conn) s else s)) (services srv),
         connections := AList.delete (conn_id conn) (connections srv)\<rparr>"
  by (simp add: remove_connection_def)

lemma srv_inv_connections [simp]: "srv_inv (srv\<lparr>connections := cs\<rparr>) = srv_inv srv"
  by (simp add: srv_inv_def)

lemma subed_at_connections [simp]: "subed_at (srv\<lparr>connections := cs\<rparr>) = subed_at srv"
  by (simp add: subed_at_def fun_eq_iff)

lemma srv_inv_add_connection:
  assumes "srv_inv srv"
  shows "srv_inv (add_connection primary conn noperms srv)"
  unfolding add_connection_map srv_inv_connections
  by (rule srv_inv_map [OF assms]) (simp add: svc_inv_subscribe)

lemma srv_inv_remove_connection:
  assumes "srv_inv srv"
  shows "srv_inv (remove_connection conn srv)"
  unfolding remove_connection_map srv_inv_connections
  by (rule srv_inv_map [OF assms]) (simp add: svc_inv_unsubscribe)

lemma subed_at_add_connection:
  assumes "srv_inv srv"
  shows "subed_at (add_connection primary conn noperms srv) n i \<longleftrightarrow>
    i = conn_id conn \<and> contains srv n \<and> wanted primary noperms n \<or> subed_at srv n i"
proof (cases "map_of (services srv) n")
  case None
  then show ?thesis by (simp add: add_connection_map subed_at_def map_of_map_values contains_def)
next
  case (Some s)
  with assms have "svc_name s = n" by (simp add: srv_invD)
  with Some show ?thesis
    by (auto simp: add_connection_map subed_at_def map_of_map_values contains_def is_subed_on_subscribe)
qed

lemma subed_at_remove_connection:
  assumes "srv_inv srv"
  shows "subed_at (remove_connection conn srv) n i \<longleftrightarrow> i \<noteq> conn_id conn \<and> subed_at srv n i"
proof (cases "map_of (services srv) n")
  case None
  then show ?thesis by (simp add: remove_connection_def subed_at_def map_of_on_values)
next
  case (Some s)
  with assms have "svc_inv s" by (simp add: srv_invD)
  with Some show ?thesis
    by (auto simp: remove_connection_def subed_at_def map_of_on_values is_subed_on_unsubscribe)
qed

lemma remove_connection_forgets: "map_of (connections (remove_connection conn srv)) (conn_id conn) = None"
  by (simp add: remove_connection_def map_of_eq_None_iff fst_delete)

text \<open>C21: a connection receives what its permissions allow and nothing after it is gone. A new connection that was
  subscribed to nothing is subscribed to exactly the existing services it has permission for, of the video services
  only the primary display; once it is removed no service knows it, nor does the server; and no other connection is
  affected by either.\<close>

theorem connection_subscriptions:
  assumes "srv_inv srv" and "\<And>n. \<not> subed_at srv n (conn_id conn)"
  shows "(\<forall>n. subed_at (add_connection primary conn noperms srv) n (conn_id conn) \<longleftrightarrow>
            contains srv n \<and> n \<notin> set noperms \<and> (is_video_service_name n \<longrightarrow> n = get_service_name Monitor primary)) \<and>
    (\<forall>n. \<not> subed_at (remove_connection conn (add_connection primary conn noperms srv)) n (conn_id conn)) \<and>
    map_of (connections (remove_connection conn (add_connection primary conn noperms srv))) (conn_id conn) = None \<and>
    (\<forall>n i. i \<noteq> conn_id conn \<longrightarrow> subed_at (add_connection primary conn noperms srv) n i = subed_at srv n i \<and>
       subed_at (remove_connection conn (add_connection primary conn noperms srv)) n i = subed_at srv n i)"
  using assms
  by (auto simp: subed_at_add_connection subed_at_remove_connection srv_inv_add_connection wanted_def
      remove_connection_forgets)

definition example_server :: Server where
  "example_server = server_new 7 [service_new ''audio'' True, service_new ''clipboard'' True,
     video_service_new Monitor 0, video_service_new Monitor 1]"

lemma srv_inv_server_new: "list_all svc_inv svcs \<Longrightarrow> srv_inv (server_new r svcs)"
proof -
  have "srv_inv srv \<Longrightarrow> list_all svc_inv svcs \<Longrightarrow> srv_inv (fold add_service svcs srv)" for srv
    by (induction svcs arbitrary: srv) (simp_all add: srv_inv_add_service)
  then show "list_all svc_inv svcs \<Longrightarrow> srv_inv (server_new r svcs)" by (simp add: server_new_def srv_inv_def)
qed

lemma example_server_inv: "srv_inv example_server"
  unfolding example_server_def by (rule srv_inv_server_new) (simp add: svc_inv_new svc_inv_video)

lemma example_server_services:
  "services example_server = [(''audio'', service_new ''audio'' True), (''clipboard'', service_new ''clipboard'' True),
     (''monitor0'', video_service_new Monitor 0), (''monitor1'', video_service_new Monitor 1)]"
  by (simp add: example_server_def server_new_def add_service_def get_service_name_def decimal.simps)
     (simp add: char_of_def bit_Suc bit_0)

lemma example_server_empty: "\<not> subed_at example_server n i"
  by (simp add: subed_at_def example_server_services is_subed_def service_new_def video_service_new_def)

theorem connection_subscriptions_witness:
  "subed_at (add_connection 0 (conn_new 5 None None) [''clipboard''] example_server) ''audio'' 5 \<and>
   \<not> subed_at (add_connection 0 (conn_new 5 None None) [''clipboard''] example_server) ''clipboard'' 5"
proof -
  from connection_subscriptions [OF example_server_inv, of "conn_new 5 None None" 0 "[''clipboard'']"]
  show ?thesis
    by (simp add: example_server_empty conn_new_def contains_def example_server_services is_video_service_name_def)
qed

section \<open>Choosing displays\<close>

text \<open>What a peer's request about displays does. With \<open>add\<close>, the connection then receives the displays it had and
  those listed; with \<open>set\<close>, exactly those listed; but with \<open>sub\<close> it keeps exactly the listed ones among those it had
  and loses all others, the opposite of removing them. Other connections are not affected, and the server stays well
  formed.\<close>

theorem display_request:
  assumes "srv_inv srv" and "conn_capture_displays add sub st c srv = (c', srv')"
  shows "srv_inv srv' \<and>
    (\<forall>d. subed_at srv' (get_service_name (video_source c) d) (conn_id (inner c)) \<longleftrightarrow>
       (if add \<noteq> [] then d \<in> set add \<or> subed_at srv (get_service_name (video_source c) d) (conn_id (inner c))
        else if sub \<noteq> [] then d \<in> set sub \<and> subed_at srv (get_service_name (video_source c) d) (conn_id (inner c))
        else d \<in> set st)) \<and>
    (\<forall>n i. i \<noteq> conn_id (inner c) \<longrightarrow> subed_at srv' n i = subed_at srv n i)"
proof -
  define src where "src = video_source c"
  define srv1 where "srv1 = ensure_services src st (ensure_services src add srv)"
  define ds incl excl where "ds = (if add \<noteq> [] then add else if sub \<noteq> [] then sub else st)"
    and "incl \<longleftrightarrow> add \<noteq> [] \<or> sub = []" and "excl \<longleftrightarrow> add = []"
  define srv2 where "srv2 = capture_displays (inner c) src ds incl excl srv1"
  have s1: "srv_inv srv1" "subed_at srv1 n i = subed_at srv n i"
    "contains srv1 n \<longleftrightarrow> n \<in> get_service_name src ` (set add \<union> set st) \<or> contains srv n" for n i
    using ensure_services [OF assms(1), of src add] ensure_services [of "ensure_services src add srv" src st]
    by (auto simp: srv1_def)
  have i2: "srv_inv srv2" unfolding srv2_def by (rule capture_displays_inv [OF s1(1)])
  have s2: "subed_at srv2 m i = (if contains srv1 m \<and> is_video_service_name m \<and> i = conn_id (inner c)
     then captured (map (get_service_name src) ds) incl excl m (subed_at srv m i) else subed_at srv m i)" for m i
    unfolding srv2_def by (simp add: subed_at_capture_displays [OF s1(1)] s1(2))
  have srv': "srv' = (if follow_remote_window c
      then subscribe NAME_WINDOW_FOCUS (inner c) (\<not> get_subbed_displays_count srv2 (conn_id (inner c)) > 1) srv2 else srv2)"
    using assms(2) by (auto simp: conn_capture_displays_def Let_def srv1_def srv2_def src_def ds_def incl_def excl_def)
  have s3: "srv_inv srv'" "is_video_service_name m \<Longrightarrow> subed_at srv' m i = subed_at srv2 m i"
    "i \<noteq> conn_id (inner c) \<Longrightarrow> subed_at srv' m i = subed_at srv2 m i" for m i
    using window_focus_not_video by (auto simp: srv' i2 srv_inv_subscribe subed_at_subscribe)
  have "subed_at srv' (get_service_name src d) (conn_id (inner c)) \<longleftrightarrow>
       (if add \<noteq> [] then d \<in> set add \<or> subed_at srv (get_service_name src d) (conn_id (inner c))
        else if sub \<noteq> [] then d \<in> set sub \<and> subed_at srv (get_service_name src d) (conn_id (inner c))
        else d \<in> set st)" for d
    using subed_at_not_contained [of srv1 "get_service_name src d"] s1(2)
    by (auto simp: s3 s2 get_service_name_video captured_def get_service_name_inj s1(3) image_iff ds_def incl_def excl_def)
  with s3(1,3) s2 show ?thesis by (simp add: src_def)
qed

definition example_conn :: DisplayConn where
  "example_conn = \<lparr>inner = conn_new 5 None None, view_camera = False, display_idx = 0, multi_ui_session = False,
     follow_remote_window = False, supports_multi_ui_session = True\<rparr>"

theorem display_request_witness:
  "subed_at (snd (conn_capture_displays [] [] [1] example_conn example_server)) (get_service_name Monitor 1) 5 \<and>
   \<not> subed_at (snd (conn_capture_displays [] [] [1] example_conn example_server)) (get_service_name Monitor 0) 5"
proof -
  obtain c' srv' where w: "conn_capture_displays [] [] [1] example_conn example_server = (c', srv')"
    by (cases "conn_capture_displays [] [] [1] example_conn example_server")
  have v: "video_source example_conn = Monitor" "conn_id (inner example_conn) = 5"
    by (simp_all add: example_conn_def video_source_def conn_new_def)
  from display_request [OF example_server_inv w] show ?thesis unfolding w v by simp
qed

end
