(* ===== verification/Login_Guard.thy ===== *)
theory Login_Guard
  imports Prelude "HOL-Library.AList"
begin

unbundle bit_operations_syntax

text \<open>
  The limiter of login attempts (\<open>src/server/connection.rs\<close>: \<open>LOGIN_FAILURES\<close>, \<open>check_failure\<close>, \<open>update_failure\<close>).
  An entry counts the failures of an address, or of an IPv6 network: the minute of the last one, how many in
  that minute, how many in all. The code keys the table by the text of the address and of the network; the model
  keeps the address itself, since printing an address and parsing it back gives the address. An entry that is not
  there is \<open>(0, 0, 0)\<close>.
\<close>

datatype ip_addr = V4 "32 word" | V6 "128 word"

datatype fail_key = Addr ip_addr | Prefix "128 word" nat

type_synonym failure = "int \<times> int \<times> int"
type_synonym failures = "(fail_key \<times> failure) list"

definition mask_u128 :: "128 word \<Rightarrow> nat \<Rightarrow> 128 word" where
  "mask_u128 addr prefix = addr AND (if prefix = 0 \<or> prefix > 128 then 0 else push_bit (128 - prefix) (NOT 0))"

definition prefix_key :: "128 word \<Rightarrow> nat \<Rightarrow> fail_key" where
  "prefix_key addr n = Prefix (mask_u128 addr n) n"

fun get_ipv6_prefixes :: "ip_addr \<Rightarrow> (fail_key \<times> fail_key \<times> fail_key) option" where
  "get_ipv6_prefixes (V6 a) = Some (prefix_key a 64, prefix_key a 56, prefix_key a 48)"
| "get_ipv6_prefixes (V4 _) = None"

definition lookup :: "failures \<Rightarrow> fail_key \<Rightarrow> failure" where
  "lookup m k = (case map_of m k of Some f \<Rightarrow> f | None \<Rightarrow> (0, 0, 0))"

fun bump :: "failure \<Rightarrow> int \<Rightarrow> failure" where
  "bump (t, c, n) time = (if t = time then (t, i32_add c 1, i32_add n 1) else (time, 1, i32_add n 1))"

definition update_failure :: "ip_addr \<Rightarrow> failure \<times> int \<Rightarrow> bool \<Rightarrow> failures \<Rightarrow> failures" where
  "update_failure ip ft remove m =
     (case ft of (failure, time) \<Rightarrow>
        if remove then
          (if fst failure \<noteq> 0 then
             (case get_ipv6_prefixes ip of
                Some (p64, p56, p48) \<Rightarrow>
                  AList.delete (Addr ip) (AList.delete p48 (AList.delete p56 (AList.delete p64 m)))
              | None \<Rightarrow> AList.delete (Addr ip) m)
           else m)
        else
          (case get_ipv6_prefixes ip of
             Some (p64, p56, p48) \<Rightarrow>
               AList.update (Addr ip) (bump failure time)
                 (fold (\<lambda>key m. AList.update key (bump (lookup m key) time) m) [p64, p56, p48] m)
           | None \<Rightarrow> AList.update (Addr ip) (bump failure time) m))"

text \<open>
  The result of a check: the entry and the minute that \<open>update_failure\<close> gets, whether the attempt may go on, and the
  error that is sent when it may not.
\<close>

type_synonym check_result = "(failure \<times> int) \<times> bool \<times> string"

definition check_failure_ipv6_prefix :: "failures \<Rightarrow> int \<Rightarrow> fail_key \<Rightarrow> string \<Rightarrow> int \<Rightarrow> check_result option" where
  "check_failure_ipv6_prefix m time prefix prefix_num thresh =
     (let failure_prefix = lookup m prefix
      in if snd (snd failure_prefix) > thresh
         then Some ((failure_prefix, time), False, ''Too many wrong attempts for IPv6 prefix /'' @ prefix_num)
         else None)"

definition check_address :: "ip_addr \<Rightarrow> int \<Rightarrow> failures \<Rightarrow> check_result" where
  "check_address ip time m =
     (let failure = lookup m (Addr ip)
      in if snd (snd failure) > 30 then ((failure, time), False, ''Too many wrong attempts'')
         else if time = fst failure \<and> fst (snd failure) > 6 then ((failure, time), False, ''Please try 1 minute later'')
         else ((failure, time), True, []))"

definition check_failure :: "ip_addr \<Rightarrow> int \<Rightarrow> failures \<Rightarrow> check_result" where
  "check_failure ip time m =
     (case get_ipv6_prefixes ip of
        Some (p64, p56, p48) \<Rightarrow>
          (case check_failure_ipv6_prefix m time p64 ''64'' 60 of
             Some r \<Rightarrow> r
           | None \<Rightarrow>
          (case check_failure_ipv6_prefix m time p56 ''56'' 80 of
             Some r \<Rightarrow> r
           | None \<Rightarrow>
          (case check_failure_ipv6_prefix m time p48 ''48'' 100 of
             Some r \<Rightarrow> r
           | None \<Rightarrow> check_address ip time m)))
      | None \<Rightarrow> check_address ip time m)"

section \<open>A guessing attack\<close>

text \<open>
  One attempt with a wrong password, as the login handler makes it: the check, the comparison that fails, the update.
  The flag says whether the password was compared at all.
\<close>

definition wrong_attempt :: "ip_addr \<Rightarrow> int \<Rightarrow> failures \<Rightarrow> bool \<times> failures" where
  "wrong_attempt ip time m =
     (case check_failure ip time m of (ft, res, _) \<Rightarrow>
        if res then (True, update_failure ip ft False m) else (False, m))"

text \<open>The attempts that got their password compared, out of a sequence from any addresses at any times.\<close>

fun compared :: "(ip_addr \<times> int) list \<Rightarrow> failures \<Rightarrow> (ip_addr \<times> int) list \<times> failures" where
  "compared [] m = ([], m)"
| "compared ((ip, time) # as) m =
     (let (ok, m1) = wrong_attempt ip time m; (cs, m2) = compared as m1
      in ((if ok then (ip, time) # cs else cs), m2))"

text \<open>The entries an attempt counts for, with the number of failures each tolerates.\<close>

definition fail_keys :: "ip_addr \<Rightarrow> (fail_key \<times> int) list" where
  "fail_keys ip = (Addr ip, 30) #
     (case get_ipv6_prefixes ip of Some (p64, p56, p48) \<Rightarrow> [(p64, 60), (p56, 80), (p48, 100)] | None \<Rightarrow> [])"

lemma fail_keys_distinct: "distinct (map fst (fail_keys ip))"
  by (cases ip) (simp_all add: fail_keys_def prefix_key_def)

lemma fail_key_limit:
  assumes "k \<in> fst ` set (fail_keys ip)"
  obtains th where "(k, th) \<in> set (fail_keys ip)" "th \<le> 100"
proof -
  have "list_all (\<lambda>(_, th). th \<le> 100) (fail_keys ip)" by (cases ip) (simp_all add: fail_keys_def)
  with assms that show ?thesis by (auto simp: list_all_iff)
qed

lemma lookup_update: "lookup (AList.update k f m) k' = (if k' = k then f else lookup m k')"
  by (simp add: lookup_def update_conv')

text \<open>A check that lets the attempt through read the entry of the address, and no entry was over its limit.\<close>

lemma check_failure_ok:
  assumes "check_failure ip time m = (ft, True, e)"
  shows "ft = (lookup m (Addr ip), time)" and "\<And>k th. (k, th) \<in> set (fail_keys ip) \<Longrightarrow> snd (snd (lookup m k)) \<le> th"
    and "time = fst (lookup m (Addr ip)) \<Longrightarrow> fst (snd (lookup m (Addr ip))) \<le> 6"
  using assms
  by (cases ip; auto simp: check_failure_def check_failure_ipv6_prefix_def check_address_def fail_keys_def Let_def
      split: if_splits)+

lemma lookup_update_failure:
  assumes "ft = (lookup m (Addr ip), time)"
  shows "lookup (update_failure ip ft False m) k =
    (if k \<in> fst ` set (fail_keys ip) then bump (lookup m k) time else lookup m k)"
proof (cases ip)
  case (V4 a)
  then show ?thesis using assms by (simp add: update_failure_def fail_keys_def lookup_update)
next
  case (V6 a)
  have "prefix_key a 64 \<noteq> prefix_key a 56" "prefix_key a 64 \<noteq> prefix_key a 48" "prefix_key a 56 \<noteq> prefix_key a 48"
    "prefix_key a i \<noteq> Addr x" for i x
    by (simp_all add: prefix_key_def)
  then show ?thesis using assms V6 by (auto simp: update_failure_def fail_keys_def lookup_update)
qed

section \<open>How many passwords can be tried\<close>

text \<open>The entries of a table that only failed attempts have written: nothing has wrapped around.\<close>

definition failures_ok :: "failures \<Rightarrow> bool" where
  "failures_ok m \<longleftrightarrow> (\<forall>k. 0 \<le> fst (snd (lookup m k)) \<and> fst (snd (lookup m k)) \<le> snd (snd (lookup m k)))"

lemma failures_ok_total: "failures_ok m \<Longrightarrow> 0 \<le> snd (snd (lookup m k))"
  unfolding failures_ok_def by (meson order_trans)

lemma count_add: "0 \<le> n \<Longrightarrow> n \<le> 100 \<Longrightarrow> i32_add n 1 = n + 1"
  by (simp add: i32_add_small)

lemma wrong_attempt_cases:
  assumes "failures_ok m"
  obtains (refused) "wrong_attempt ip time m = (False, m)"
  | (checked) m' where "wrong_attempt ip time m = (True, m')" "failures_ok m'"
      "\<And>k. lookup m' k = (if k \<in> fst ` set (fail_keys ip) then bump (lookup m k) time else lookup m k)"
      "\<And>k th. (k, th) \<in> set (fail_keys ip) \<Longrightarrow> snd (snd (lookup m k)) \<le> th"
      "time = fst (lookup m (Addr ip)) \<Longrightarrow> fst (snd (lookup m (Addr ip))) \<le> 6"
proof -
  obtain ft res e where c: "check_failure ip time m = (ft, res, e)" by (metis prod_cases3)
  show ?thesis
  proof (cases res)
    case False
    with c show ?thesis by (intro refused) (simp add: wrong_attempt_def)
  next
    case True
    define m' where "m' = update_failure ip ft False m"
    from c True have c1: "check_failure ip time m = (ft, True, e)" by simp
    note ok = check_failure_ok [OF c1]
    have l: "lookup m' k = (if k \<in> fst ` set (fail_keys ip) then bump (lookup m k) time else lookup m k)" for k
      unfolding m'_def by (rule lookup_update_failure [OF ok(1)])
    have "failures_ok m'"
      unfolding failures_ok_def
    proof
      fix k
      obtain t x n where k: "lookup m k = (t, x, n)" by (metis prod_cases3)
      have b: "0 \<le> x" "x \<le> n" using assms k by (auto simp: failures_ok_def dest: spec [of _ k])
      have "n \<le> 100" if "k \<in> fst ` set (fail_keys ip)"
        using fail_key_limit [OF that] ok(2) k by (metis order_trans snd_conv)
      then show "0 \<le> fst (snd (lookup m' k)) \<and> fst (snd (lookup m' k)) \<le> snd (snd (lookup m' k))"
        using b by (cases "k \<in> fst ` set (fail_keys ip)") (simp_all add: l k count_add)
    qed
    moreover have "wrong_attempt ip time m = (True, m')" using c True by (simp add: wrong_attempt_def m'_def)
    ultimately show ?thesis using l ok(2,3) by (intro checked)
  qed
qed

lemma compared_ConsE:
  assumes "compared (a # as) m = (cs, m')" and "a = (ip, time)" and "wrong_attempt ip time m = (b, m1)"
  obtains cs1 where "compared as m1 = (cs1, m')" "cs = (if b then (ip, time) # cs1 else cs1)"
  using assms by (cases "compared as m1") auto

text \<open>Each attempt that is compared counts in every entry it belongs to.\<close>

lemma compared_counts:
  assumes "failures_ok m" and "compared as m = (cs, m')"
  shows "failures_ok m' \<and>
    snd (snd (lookup m' k)) = snd (snd (lookup m k)) + int (length (filter (\<lambda>(ip, _). k \<in> fst ` set (fail_keys ip)) cs))"
  using assms
proof (induction as arbitrary: m cs)
  case (Cons a as)
  obtain ip time where a: "a = (ip, time)" by (cases a)
  from Cons.prems(1) show ?case
  proof (cases rule: wrong_attempt_cases [where ip = ip and time = time])
    case refused
    from compared_ConsE [OF Cons.prems(2) a this] Cons show ?thesis by auto
  next
    case (checked m1)
    from compared_ConsE [OF Cons.prems(2) a checked(1)]
    obtain cs1 where r: "compared as m1 = (cs1, m')" and e: "cs = (ip, time) # cs1" by auto
    obtain t x n where k: "lookup m k = (t, x, n)" by (metis prod_cases3)
    have n: "n \<le> 100" if "k \<in> fst ` set (fail_keys ip)"
      using fail_key_limit [OF that] checked(4) k by (metis order_trans snd_conv)
    have "0 \<le> n" using failures_ok_total [OF Cons.prems(1), of k] k by simp
    with n have "snd (snd (lookup m1 k)) = n + (if k \<in> fst ` set (fail_keys ip) then 1 else 0)"
      by (cases "k \<in> fst ` set (fail_keys ip)") (simp_all add: checked(3) k count_add)
    with Cons.IH [OF checked(2) r] e k show ?thesis by auto
  qed
qed simp

lemma compared_bounded:
  assumes "failures_ok m" and "compared as m = (cs, m')" and "\<And>ip. (k, t) \<in> set (fail_keys ip) \<or> k \<notin> fst ` set (fail_keys ip)"
    and "snd (snd (lookup m k)) \<le> t + 1"
  shows "snd (snd (lookup m' k)) \<le> t + 1"
  using assms(1,2,4)
proof (induction as arbitrary: m cs)
  case (Cons a as)
  obtain ip time where a: "a = (ip, time)" by (cases a)
  from Cons.prems(1) show ?case
  proof (cases rule: wrong_attempt_cases [where ip = ip and time = time])
    case refused
    from compared_ConsE [OF Cons.prems(2) a this] Cons show ?thesis by auto
  next
    case (checked m1)
    from compared_ConsE [OF Cons.prems(2) a checked(1)]
    obtain cs1 where r: "compared as m1 = (cs1, m')" by auto
    obtain t0 x n where k: "lookup m k = (t0, x, n)" by (metis prod_cases3)
    have "0 \<le> n" using failures_ok_total [OF Cons.prems(1), of k] k by simp
    moreover have "n \<le> t \<and> n \<le> 100" if "k \<in> fst ` set (fail_keys ip)"
      using fail_key_limit [OF that] checked(4) k assms(3) [of ip] that by (metis order_trans snd_conv)
    ultimately have "snd (snd (lookup m1 k)) \<le> t + 1"
      using Cons.prems(3) k by (cases "k \<in> fst ` set (fail_keys ip)") (simp_all add: checked(3) count_add)
    with Cons.IH [OF checked(2) r] show ?thesis by simp
  qed
qed simp


lemma compared_subset: "compared as m = (cs, m') \<Longrightarrow> set cs \<subseteq> set as"
proof (induction as arbitrary: m cs)
  case (Cons a as)
  obtain ip time where a: "a = (ip, time)" by (cases a)
  obtain b m1 where w: "wrong_attempt ip time m = (b, m1)" by (cases "wrong_attempt ip time m")
  from compared_ConsE [OF Cons.prems a w] obtain cs1 where
    r: "compared as m1 = (cs1, m')" and "cs = (if b then (ip, time) # cs1 else cs1)" .
  with a Cons.IH [OF r] show ?case by auto
qed simp

lemma addr_key: "Addr ip \<in> fst ` set (fail_keys ip') \<longleftrightarrow> ip' = ip"
  by (cases ip') (auto simp: fail_keys_def prefix_key_def)

lemma fail_keys_limit_unique: "(k, th) \<in> set (fail_keys ip) \<Longrightarrow> (k, th') \<in> set (fail_keys ip') \<Longrightarrow> th' = th"
  by (cases ip; cases ip') (auto simp: fail_keys_def prefix_key_def)

lemma compared_per_minute:
  assumes "failures_ok m" and "lookup m (Addr ip) = (t0, c, n)" and "c \<le> 7" and "sorted (map snd as)"
    and "\<forall>(_, s) \<in> set as. t0 \<le> s" and "compared as m = (cs, m')"
  shows "int (length (filter (\<lambda>a. a = (ip, t)) cs)) \<le> (if t = t0 then 7 - c else 7)"
  using assms
proof (induction as arbitrary: m cs t0 c n)
  case (Cons a as)
  obtain ip2 s where a: "a = (ip2, s)" by (cases a)
  from Cons.prems(1) show ?case
  proof (cases rule: wrong_attempt_cases [where ip = ip2 and time = s])
    case refused
    from compared_ConsE [OF Cons.prems(6) a this] have "compared as m = (cs, m')" by auto
    then show ?thesis using Cons.prems by (intro Cons.IH) auto
  next
    case (checked m1)
    from compared_ConsE [OF Cons.prems(6) a checked(1)]
    obtain cs1 where r: "compared as m1 = (cs1, m')" and e: "cs = (ip2, s) # cs1" by auto
    have st: "sorted (map snd as)" "\<forall>(_, s') \<in> set as. s \<le> s'" "t0 \<le> s" using Cons.prems(4,5) a by auto
    show ?thesis
    proof (cases "ip2 = ip")
      case False
      then have l: "lookup m1 (Addr ip) = (t0, c, n)" using Cons.prems(2) by (simp add: checked(3) addr_key)
      have "int (length (filter (\<lambda>a. a = (ip, t)) cs1)) \<le> (if t = t0 then 7 - c else 7)"
        by (rule Cons.IH [OF checked(2) l Cons.prems(3) st(1) _ r]) (use Cons.prems(5) in auto)
      with e False show ?thesis by simp
    next
      case True
      have c0: "0 \<le> c" using Cons.prems(1,2) by (auto simp: failures_ok_def dest: spec [of _ "Addr ip"])
      have c6: "c \<le> 6" if "s = t0" using checked(5) that True Cons.prems(2) by simp
      have l: "lookup m1 (Addr ip) = (s, if s = t0 then c + 1 else 1, i32_add n 1)"
        using Cons.prems(2,3) True c0 by (simp add: checked(3) addr_key count_add)
      have ih: "int (length (filter (\<lambda>a. a = (ip, t)) cs1)) \<le> (if t = s then 7 - (if s = t0 then c + 1 else 1) else 7)"
        by (rule Cons.IH [OF checked(2) l _ st(1) _ r]) (use st(2) c6 in auto)
      have "filter (\<lambda>a. a = (ip, t)) cs1 = []" if "t < s"
        using compared_subset [OF r] st(2) that by (force simp: filter_empty_conv)
      then show ?thesis using ih e True st(3) Cons.prems(3) c0 by (auto split: if_splits)
    qed
  qed
qed simp



section \<open>Concurrent attempts\<close>

text \<open>The counter of an address loses failures of attempts that overlap. \<open>update_failure\<close> counts from the entry that the check
  read earlier, so when any number of connections from one address have passed the check before the first of them
  records its failure, all of them together count as a single failure.\<close>

theorem overlapping_failures_lost:
  assumes "check_failure (V4 a) time m = (ft, True, e)" and "0 < n"
  shows "lookup ((update_failure (V4 a) ft False ^^ n) m) (Addr (V4 a)) = bump (lookup m (Addr (V4 a))) time"
proof -
  have ft: "ft = (lookup m (Addr (V4 a)), time)" by (rule check_failure_ok(1) [OF assms(1)])
  obtain k where "n = Suc k" using assms(2) by (cases n) auto
  then show ?thesis by (simp add: update_failure_def ft lookup_update)
qed

theorem overlapping_failures_lost_witness:
  "lookup ((update_failure (V4 1) ((0, 0, 0), 5) False ^^ 1000) []) (Addr (V4 1)) = (5, 1, 1)"
proof -
  have "check_failure (V4 1) 5 [] = (((0, 0, 0), 5), True, [])"
    by (simp add: check_failure_def check_address_def lookup_def)
  from overlapping_failures_lost [OF this, of 1000] show ?thesis by (simp add: lookup_def i32_add_small)
qed

end
