(* ===== verification/Password_Policy.thy ===== *)
theory Password_Policy
  imports Settings "HOL-Library.Sublist"
begin

text \<open>
  Which passwords a host accepts, and the temporary password with the two places it is kept in
  (\<open>libs/hbb_common/src/password_security.rs\<close>, lines 5 to 169). The file of the cache is its content, if it exists;
  whether writing it succeeds is an argument, since the code goes on either way.
\<close>

record PasswordState =
  settings :: Settings
  temporary :: string
  cache_file :: "string option"

datatype VerificationMethod = OnlyUseTemporaryPassword | OnlyUsePermanentPassword | UseBothPasswords

datatype ApproveMode = ApproveBoth | ApprovePassword | ApproveClick

definition verification_method :: "Settings \<Rightarrow> VerificationMethod" where
  "verification_method s =
     (if get_option s ''verification-method'' = ''use-temporary-password'' then OnlyUseTemporaryPassword
      else if get_option s ''verification-method'' = ''use-permanent-password'' then OnlyUsePermanentPassword
      else UseBothPasswords)"

definition temporary_password_length :: "Settings \<Rightarrow> nat" where
  "temporary_password_length s =
     (let l = get_option s ''temporary-password-length''
      in if l = ''4'' then 4 else if l = ''8'' then 8 else if l = ''10'' then 10 else 6)"

definition temporary_enabled :: "Settings \<Rightarrow> bool" where
  "temporary_enabled s = (verification_method s \<noteq> OnlyUsePermanentPassword)"

definition permanent_enabled :: "Settings \<Rightarrow> bool" where
  "permanent_enabled s = (verification_method s \<noteq> OnlyUseTemporaryPassword)"

definition has_valid_password :: "'a PasswordState_scheme \<Rightarrow> bool" where
  "has_valid_password s =
     (temporary_enabled (settings s) \<and> temporary s \<noteq> [] \<or>
      permanent_enabled (settings s) \<and> has_permanent_password (settings s))"

definition approve_mode :: "Settings \<Rightarrow> ApproveMode" where
  "approve_mode s =
     (if get_option s ''approve-mode'' = ''password'' then ApprovePassword
      else if get_option s ''approve-mode'' = ''click'' then ApproveClick
      else ApproveBoth)"

definition hide_cm :: "Settings \<Rightarrow> bool" where
  "hide_cm s =
     (approve_mode s = ApprovePassword \<and> verification_method s = OnlyUsePermanentPassword \<and>
      option2bool ''allow-hide-cm'' (get_option s ''allow-hide-cm''))"

section \<open>The temporary password\<close>

text \<open>\<open>rng\<close> is the stream of random numbers; one is used per character.\<close>

definition get_auto_password :: "(nat \<Rightarrow> nat) \<Rightarrow> Settings \<Rightarrow> string" where
  "get_auto_password rng s =
     get_auto_password_with_chars (map rng [0 ..< temporary_password_length s])
       (if get_bool_option s ''allow-numeric-one-time-password'' then NUM_CHARS else CHARS)"

text \<open>\<open>str::trim\<close>: the white space of Unicode, encoded in UTF-8, is taken off at both ends.\<close>

definition white_space :: "string list" where
  "white_space = map (map char_of)
     ([[9], [10], [11], [12], [13], [32], [0xC2, 0x85], [0xC2, 0xA0], [0xE1, 0x9A, 0x80]] @
      map (\<lambda>b. [0xE2, 0x80, b]) ([0x80 ..< 0x8B] @ [0xA8, 0xA9, 0xAF]) @ [[0xE2, 0x81, 0x9F], [0xE3, 0x80, 0x80 :: nat]])"

lemma white_space_nonempty: "w \<in> set white_space \<Longrightarrow> w \<noteq> []"
  by (auto simp: white_space_def)

function trim_start :: "string \<Rightarrow> string" where
  "trim_start s = (case find (\<lambda>w. prefix w s) white_space of Some w \<Rightarrow> trim_start (drop (length w) s) | None \<Rightarrow> s)"
  by pat_completeness auto
termination
proof (relation "measure length", simp)
  fix s w assume "find (\<lambda>w. prefix w s) white_space = Some w"
  then have "w \<in> set white_space" "prefix w s" by (auto simp: find_Some_iff)
  then have "0 < length w" "length w \<le> length s" by (auto simp: white_space_nonempty prefix_length_le)
  then show "(drop (length w) s, s) \<in> measure length" by (cases w) auto
qed

function trim_end :: "string \<Rightarrow> string" where
  "trim_end s = (case find (\<lambda>w. suffix w s) white_space of Some w \<Rightarrow> trim_end (take (length s - length w) s) | None \<Rightarrow> s)"
  by pat_completeness auto
termination
proof (relation "measure length", simp)
  fix s w assume "find (\<lambda>w. suffix w s) white_space = Some w"
  then have "w \<in> set white_space" "suffix w s" by (auto simp: find_Some_iff)
  then have "0 < length w" "length w \<le> length s" by (auto simp: white_space_nonempty suffix_length_le)
  then show "(take (length s - length w) s, s) \<in> measure length" by (cases w) auto
qed

declare trim_start.simps [simp del] trim_end.simps [simp del]

definition trim :: "string \<Rightarrow> string" where
  "trim s = trim_end (trim_start s)"

definition load_password_from_cache :: "'a PasswordState_scheme \<Rightarrow> string option" where
  "load_password_from_cache s =
     (let saved = get_option (settings s) ''temporary-password-cache'';
          fallback = (if saved \<noteq> [] \<and> length saved \<ge> 4 then Some saved else None)
      in case cache_file s of
           Some content \<Rightarrow>
             if valid_utf8 content \<and> length (trim content) \<ge> 4 then Some (trim content) else fallback
         | None \<Rightarrow> fallback)"

definition save_password_to_cache :: "Deps \<Rightarrow> bool \<Rightarrow> string \<Rightarrow> 'a PasswordState_scheme \<Rightarrow> 'a PasswordState_scheme" where
  "save_password_to_cache D file_written pwd s =
     s\<lparr>cache_file := (if file_written then Some pwd else cache_file s),
       settings := set_option D ''temporary-password-cache'' pwd (settings s)\<rparr>"

definition load_or_generate_password ::
    "Deps \<Rightarrow> bool \<Rightarrow> (nat \<Rightarrow> nat) \<Rightarrow> 'a PasswordState_scheme \<Rightarrow> string \<times> 'a PasswordState_scheme" where
  "load_or_generate_password D file_written rng s =
     (case load_password_from_cache s of
        Some pwd \<Rightarrow> (pwd, s)
      | None \<Rightarrow> (let pwd = get_auto_password rng (settings s) in (pwd, save_password_to_cache D file_written pwd s)))"

text \<open>The lazily initialised static, at the start of the process.\<close>

definition init_temporary :: "Deps \<Rightarrow> bool \<Rightarrow> (nat \<Rightarrow> nat) \<Rightarrow> 'a PasswordState_scheme \<Rightarrow> 'a PasswordState_scheme" where
  "init_temporary D file_written rng s =
     (case load_or_generate_password D file_written rng s of (pwd, s1) \<Rightarrow> s1\<lparr>temporary := pwd\<rparr>)"

definition set_temporary_password :: "Deps \<Rightarrow> bool \<Rightarrow> string \<Rightarrow> 'a PasswordState_scheme \<Rightarrow> 'a PasswordState_scheme" where
  "set_temporary_password D file_written pwd s = save_password_to_cache D file_written pwd (s\<lparr>temporary := pwd\<rparr>)"

definition update_temporary_password ::
    "Deps \<Rightarrow> bool \<Rightarrow> (nat \<Rightarrow> nat) \<Rightarrow> 'a PasswordState_scheme \<Rightarrow> 'a PasswordState_scheme" where
  "update_temporary_password D file_written rng s =
     set_temporary_password D file_written (get_auto_password rng (settings s)) s"

section \<open>The temporary password survives a restart\<close>

lemma white_space_not_password:
  "list_all (\<lambda>w. list_all (\<lambda>c. c \<notin> set (CHARS @ NUM_CHARS)) w) white_space"
  by code_simp

lemma password_chars_ascii: "list_all (\<lambda>c. of_char c < (128 :: nat)) (CHARS @ NUM_CHARS)"
  by code_simp

lemma no_white_space:
  assumes "set s \<subseteq> set (CHARS @ NUM_CHARS)" and "w \<in> set white_space"
  shows "\<not> prefix w s" "\<not> suffix w s"
proof -
  obtain c w' where w: "w = c # w'" using white_space_nonempty [OF assms(2)] by (cases w) auto
  have "c \<notin> set s" using white_space_not_password assms w by (auto simp: list_all_iff simp del: set_append)
  then show "\<not> prefix w s" "\<not> suffix w s" using w by (auto simp: prefix_def suffix_def)
qed

lemma trim_password:
  assumes "set s \<subseteq> set (CHARS @ NUM_CHARS)"
  shows "trim s = s"
proof -
  have f: "find (\<lambda>w. prefix w s) white_space = None" "find (\<lambda>w. suffix w s) white_space = None"
    using no_white_space [OF assms] by (auto simp: find_None_iff)
  have "trim_start s = s" "trim_end s = s"
    by (subst trim_start.simps, simp add: f) (subst trim_end.simps, simp add: f)
  then show ?thesis by (simp add: trim_def)
qed

lemma valid_utf8_ascii: "list_all (\<lambda>c. of_char c < (128 :: nat)) s \<Longrightarrow> valid_utf8 s"
  by (induction s) (simp_all add: utf8_step_def tail_ranges_def)

lemma auto_password_chars:
  "set (get_auto_password rng s) \<subseteq> set (CHARS @ NUM_CHARS)" "length (get_auto_password rng s) = temporary_password_length s"
proof -
  have "0 < length CHARS" "0 < length NUM_CHARS" by (simp_all add: CHARS_def NUM_CHARS_def)
  then show "set (get_auto_password rng s) \<subseteq> set (CHARS @ NUM_CHARS)"
    by (auto simp: get_auto_password_def get_auto_password_with_chars_def)
  show "length (get_auto_password rng s) = temporary_password_length s"
    by (simp add: get_auto_password_def get_auto_password_with_chars_def)
qed

lemma temporary_password_length_min: "4 \<le> temporary_password_length s"
  by (simp add: temporary_password_length_def Let_def)

lemma option_kept:
  "v \<noteq> [] \<Longrightarrow> map_of (overwrite_settings s) k = None \<Longrightarrow> get_option (set_option D k v s) k = v"
  by (auto simp: get_option_def set_option_def Let_def is_option_can_save_def get_or_def store2_def
      set_config2_options_def delete_conv' update_conv' split: option.splits)

text \<open>A new temporary password has the configured length, consists of the allowed characters only, and is still the
  password after a restart of the process, whatever the random numbers; when the file cannot be written and there was
  none, the copy in the options carries it over unless the administrator has fixed that option.\<close>

theorem temporary_password_survives_restart:
  assumes "written \<or> cache_file s = None \<and> map_of (overwrite_settings (settings s)) ''temporary-password-cache'' = None"
  shows "temporary (init_temporary D w rng' (update_temporary_password D written rng s))
      = temporary (update_temporary_password D written rng s) \<and>
    length (temporary (update_temporary_password D written rng s)) = temporary_password_length (settings s) \<and>
    set (temporary (update_temporary_password D written rng s)) \<subseteq> set (CHARS @ NUM_CHARS)"
proof -
  define pwd where "pwd = get_auto_password rng (settings s)"
  have p: "set pwd \<subseteq> set (CHARS @ NUM_CHARS)" "length pwd = temporary_password_length (settings s)" "4 \<le> length pwd"
    unfolding pwd_def using auto_password_chars temporary_password_length_min by metis+
  have v: "valid_utf8 pwd" using p(1) password_chars_ascii by (intro valid_utf8_ascii) (auto simp: list_all_iff simp del: set_append)
  have t: "temporary (update_temporary_password D written rng s) = pwd"
    by (simp add: update_temporary_password_def set_temporary_password_def save_password_to_cache_def pwd_def)
  have "load_password_from_cache (update_temporary_password D written rng s) = Some pwd"
  proof (cases written)
    case True
    then show ?thesis using p(3) v trim_password [OF p(1)]
      by (simp add: load_password_from_cache_def update_temporary_password_def set_temporary_password_def
          save_password_to_cache_def pwd_def [symmetric])
  next
    case False
    have n: "pwd \<noteq> []" using p(3) by auto
    then have "get_option (set_option D ''temporary-password-cache'' pwd (settings s)) ''temporary-password-cache'' = pwd"
      using assms False by (simp add: option_kept)
    then show ?thesis using n p(3) assms False
      by (simp add: load_password_from_cache_def update_temporary_password_def set_temporary_password_def
          save_password_to_cache_def pwd_def [symmetric] Let_def)
  qed
  then show ?thesis using t p by (simp add: init_temporary_def load_or_generate_password_def)
qed

theorem temporary_password_survives_restart_witness:
  "temporary (init_temporary toy_deps True id (update_temporary_password toy_deps True (\<lambda>i. i)
     \<lparr>settings = empty_settings, temporary = [], cache_file = None\<rparr>))
   = temporary (update_temporary_password toy_deps True (\<lambda>i. i) \<lparr>settings = empty_settings, temporary = [], cache_file = None\<rparr>)"
  using temporary_password_survives_restart [of True "\<lparr>settings = empty_settings, temporary = [], cache_file = None\<rparr>"
      toy_deps True id "\<lambda>i. i"] by simp

end
