(* ===== verification/Version_Number.thy ===== *)
theory Version_Number
  imports Prelude
begin

text \<open>
  Version numbers of peers as integers (\<open>get_version_number\<close> of \<open>libs/hbb_common/src/lib.rs\<close>), which decide about
  protocol features. The integers are 64 bits wide and wrap around.
\<close>

text \<open>\<open>str::split\<close> on a character: always at least one piece.\<close>

definition i64_wrap :: "int \<Rightarrow> int" where
  "i64_wrap i = (i + 2 ^ 63) mod 2 ^ 64 - 2 ^ 63"

lemma i64_wrap_small [simp]: "- (2 ^ 63) \<le> i \<Longrightarrow> i < 2 ^ 63 \<Longrightarrow> i64_wrap i = i"
  by (simp add: i64_wrap_def)

text \<open>\<open>str::parse\<close> to an \<open>i64\<close>: an optional sign and one or more digits, in range.\<close>

definition digit :: "char \<Rightarrow> bool" where
  "digit c = (48 \<le> (of_char c :: nat) \<and> (of_char c :: nat) \<le> 57)"

definition digits_value :: "string \<Rightarrow> int" where
  "digits_value s = foldl (\<lambda>a c. a * 10 + (int (of_char c) - 48)) 0 s"

definition parse_i64 :: "string \<Rightarrow> int option" where
  "parse_i64 s =
     (let (neg, ds) = (case s of c # cs \<Rightarrow> if c = CHR ''-'' then (True, cs) else if c = CHR ''+'' then (False, cs) else (False, s)
                       | [] \<Rightarrow> (False, []));
          v = (if neg then - digits_value ds else digits_value ds)
      in if ds \<noteq> [] \<and> list_all digit ds \<and> - (2 ^ 63) \<le> v \<and> v < 2 ^ 63 then Some v else None)"

definition parse_or_0 :: "string \<Rightarrow> int" where
  "parse_or_0 s = (case parse_i64 s of Some v \<Rightarrow> v | None \<Rightarrow> 0)"

text \<open>The loop over the numbers of the first part: the accumulator and the last number.\<close>

definition version_step :: "string \<Rightarrow> int \<times> int \<Rightarrow> int \<times> int" where
  "version_step x nl = (let l = parse_or_0 x in (i64_wrap (i64_wrap (fst nl * 1000) + l), l))"

definition get_version_number :: "string \<Rightarrow> int" where
  "get_version_number v =
     (let versions = split_on (CHR ''-'') v;
          (n, l) = fold version_step (split_on (CHR ''.'') (hd versions)) (0, 0);
          n = i64_wrap (i64_wrap (n - l) + i64_wrap (l * 10))
      in case tl versions of p # _ \<Rightarrow> i64_wrap (n + parse_or_0 p) | [] \<Rightarrow> n)"

lemma decimal_digits: "list_all digit (decimal n) \<and> decimal n \<noteq> []"
proof (induction n rule: decimal.induct)
  case (1 n)
  show ?case
  proof (cases "n < 10")
    case True
    then show ?thesis by (subst (1 2) decimal.simps) (simp add: digit_def digit_code)
  next
    case False
    have "digit (char_of (48 + n mod 10))" by (simp add: digit_def digit_code)
    with 1 False show ?thesis by (subst (1 2) decimal.simps) simp
  qed
qed

lemma decimal_no_separator: "CHR ''.'' \<notin> set (decimal n)" "CHR ''-'' \<notin> set (decimal n)"
  using decimal_digits [of n] by (auto simp: list_all_iff digit_def dest!: bspec)

lemma digits_value_decimal: "digits_value (decimal n) = int n"
proof (induction n rule: decimal.induct)
  case (1 n)
  show ?case
  proof (cases "n < 10")
    case True
    then show ?thesis by (subst decimal.simps) (simp add: digits_value_def digit_code)
  next
    case False
    have "digits_value (decimal (n div 10) @ [char_of (48 + n mod 10)]) = int (n div 10) * 10 + int (n mod 10)"
      using 1 [OF False] by (simp add: digits_value_def digit_code)
    moreover have "int (n div 10) * 10 + int (n mod 10) = int n" by presburger
    ultimately show ?thesis using False by (subst decimal.simps) simp
  qed
qed

lemma parse_decimal: "n < 2 ^ 63 \<Longrightarrow> parse_or_0 (decimal n) = int n"
proof -
  assume n: "n < 2 ^ 63"
  obtain c cs where d: "decimal n = c # cs" using decimal_digits by (cases "decimal n") auto
  have "digit c" using decimal_digits [of n] d by simp
  then have "c \<noteq> CHR ''-''" "c \<noteq> CHR ''+''" by (auto simp: digit_def)
  moreover have "int n < 2 ^ 63" using n by (metis of_nat_less_iff of_nat_numeral of_nat_power)
  ultimately show ?thesis using decimal_digits [of n] digits_value_decimal [of n] d
    by (simp add: parse_or_0_def parse_i64_def)
qed

text \<open>The text of a version of three numbers.\<close>

definition version_string :: "nat \<Rightarrow> nat \<Rightarrow> nat \<Rightarrow> string" where
  "version_string a b c = decimal a @ CHR ''.'' # decimal b @ CHR ''.'' # decimal c"

lemma version_value:
  assumes "a \<le> 10 ^ 6" and "b < 1000" and "c < 100"
  shows "get_version_number (version_string a b c) = int a * 1000000 + int b * 1000 + int c * 10"
    and "p < 10 \<Longrightarrow> get_version_number (version_string a b c @ CHR ''-'' # decimal p)
           = int a * 1000000 + int b * 1000 + int c * 10 + int p"
proof -
  have d: "CHR ''-'' \<notin> set (version_string a b c)"
    using decimal_no_separator by (simp add: version_string_def)
  have s: "split_on (CHR ''.'') (version_string a b c) = [decimal a, decimal b, decimal c]"
    unfolding version_string_def using decimal_no_separator by (simp add: split_on_first split_on_none)
  have v: "parse_or_0 (decimal a) = int a" "parse_or_0 (decimal b) = int b" "parse_or_0 (decimal c) = int c"
    using assms by (simp_all add: parse_decimal)
  have f: "fold version_step [decimal a, decimal b, decimal c] (0, 0)
      = ((int a * 1000 + int b) * 1000 + int c, int c)"
    using assms by (simp add: version_step_def v Let_def)
  show 1: "get_version_number (version_string a b c) = int a * 1000000 + int b * 1000 + int c * 10"
    using assms unfolding get_version_number_def split_on_none [OF d]
    by (simp add: s f del: fold.simps)
  assume p: "p < 10"
  then have vp: "parse_or_0 (decimal p) = int p" by (simp add: parse_decimal)
  have "split_on (CHR ''-'') (version_string a b c @ CHR ''-'' # decimal p) = [version_string a b c, decimal p]"
    using d decimal_no_separator by (simp add: split_on_first split_on_none)
  then show "get_version_number (version_string a b c @ CHR ''-'' # decimal p)
           = int a * 1000000 + int b * 1000 + int c * 10 + int p"
    using assms p by (simp add: get_version_number_def s f vp del: fold.simps)
qed

text \<open>The numbers of two versions compare as the versions do: for versions of three numbers, the second below 1000 and the
  last below 100, the first number decides, then the second, then the third; and a one-digit patch level orders
  between a version and the next.\<close>

theorem version_number_order:
  assumes "a \<le> 10 ^ 6" "b < 1000" "c < 100" and "a' \<le> 10 ^ 6" "b' < 1000" "c' < 100" and "p < 10"
  shows "(get_version_number (version_string a b c) < get_version_number (version_string a' b' c') \<longleftrightarrow>
       a < a' \<or> a = a' \<and> (b < b' \<or> b = b' \<and> c < c')) \<and>
    (get_version_number (version_string a b c @ CHR ''-'' # decimal p) < get_version_number (version_string a' b' c') \<longleftrightarrow>
       a < a' \<or> a = a' \<and> (b < b' \<or> b = b' \<and> c < c'))"
  unfolding version_value(1) [OF assms(1,2,3)] version_value(1) [OF assms(4,5,6)] version_value(2) [OF assms(1,2,3,7)]
  using assms by auto

theorem version_number_order_witness:
  "get_version_number (version_string 1 2 3) < get_version_number (version_string 1 3 0)"
  using version_number_order [of 1 2 3 1 3 0 0] by simp

end
