(* ===== verification/Login.thy ===== *)
theory Login
  imports Login_Guard Password_Policy Version_Number
begin

unbundle bit_operations_syntax

text \<open>
  How a peer gets control (\<open>src/server/connection.rs\<close>): the challenge and its answer, recent sessions, permissions, the
  handler of the messages that are accepted before a connection is authorized, and the tables of connections and
  sessions that all connections share. \<open>Host\<close> is the state shared by the process, \<open>Conn\<close> the part of
  \<open>struct Connection\<close> that these operations use. What the operating system, other modules and other crates
  contribute to a message is in \<open>LoginEnv\<close>: the clock, the outcome of starting a desktop session, of opening the
  port that is forwarded, of a one-time code, and the regular expressions on the user name. The build is that of
  the desktop with the Flutter interface. What is sent and what is reported goes to a list of actions.
\<close>

section \<open>State\<close>

record SessionKey =
  peer_id :: string
  key_name :: string
  session_id :: nat

record Session =
  last_recv_time :: int
  random_password :: string
  tfa :: bool

datatype AuthConnType = Remote | FileTransferConn | PortForwardConn | ViewCameraConn | TerminalConn

record AuthedConn =
  ac_conn_id :: int
  ac_conn_type :: AuthConnType
  ac_session_key :: SessionKey

record Host = PasswordState +
  sessions :: "(SessionKey \<times> Session) list"
  login_failures :: "nat \<Rightarrow> failures"
  switch_sides :: "(string \<times> int \<times> string) list"
  authed_conns :: "AuthedConn list"
  alive_conns :: "int list"
  control_permissions_array :: "(int \<times> u64) list"

datatype login_union =
  FileTransfer string bool
| ViewCamera
| Terminal string
| PortForward string int
| NoUnion

record LoginRequest =
  lr_username :: string
  lr_password :: string
  my_id :: string
  my_name :: string
  my_platform :: string
  lr_hwid :: string
  lr_session_id :: nat
  lr_version :: string
  lr_union :: login_union

record Conn =
  c_id :: int
  ip :: ip_addr
  hash_salt :: string
  hash_challenge :: string
  authorized :: bool
  require_2fa :: "string option"
  from_switch :: bool
  lr :: LoginRequest
  file_transfer :: "(string \<times> bool) option"
  view_camera :: bool
  terminal :: bool
  terminal_service_id :: string
  port_forward_address :: string
  port_forward_socket :: bool
  authed_conn_id :: "(int \<times> AuthConnType) option"
  control_permissions :: "u64 option"

record LoginEnv =
  deps :: Deps
  now :: int
  is_ip_str :: "string \<Rightarrow> bool"
  is_domain_port_str :: "string \<Rightarrow> bool"
  in_privacy_mode :: bool
  desktop_error :: string
  is_logon :: bool
  port_open :: "string \<Rightarrow> bool"
  totp_check :: "string \<Rightarrow> string \<Rightarrow> bool option"
  terminal_error :: "string option"
  terminal_mismatch :: bool
  fresh_salt :: string
  fresh_id :: "string option"

datatype peer_msg =
  CloseReason string
| LoginRequestMsg LoginRequest
| Auth2fa string string
| TestDelay bool
| SwitchSidesResponse "LoginRequest option" string
| OtherMsg bytes

datatype action =
  SendLoginError string
| StartCm string string bool
| StartCmIpc
| SendCode
| LogonResponse AuthConnType
| AddTrustedDevice string
| EchoDelay
| ReportDelay
| OnClose string
| HandleAuthorized bytes

section \<open>Connections and sessions of the process\<close>

definition alive_new :: "int \<Rightarrow> 'a Host_scheme \<Rightarrow> 'a Host_scheme" where
  "alive_new i h = h\<lparr>alive_conns := alive_conns h @ [i]\<rparr>"

definition alive_drop :: "int \<Rightarrow> 'a Host_scheme \<Rightarrow> 'a Host_scheme" where
  "alive_drop i h = h\<lparr>alive_conns := filter (\<lambda>c. c \<noteq> i) (alive_conns h)\<rparr>"

definition control_permissions_new :: "int \<Rightarrow> u64 option \<Rightarrow> 'a Host_scheme \<Rightarrow> 'a Host_scheme" where
  "control_permissions_new i p h =
     (case p of Some s \<Rightarrow> h\<lparr>control_permissions_array := control_permissions_array h @ [(i, s)]\<rparr> | None \<Rightarrow> h)"

definition control_permissions_drop :: "int \<Rightarrow> u64 option \<Rightarrow> 'a Host_scheme \<Rightarrow> 'a Host_scheme" where
  "control_permissions_drop i p h =
     (if p \<noteq> None then h\<lparr>control_permissions_array := filter (\<lambda>(c, _). c \<noteq> i) (control_permissions_array h)\<rparr> else h)"

text \<open>The printer flag, the wake lock and the registration with the video controller are left out of \<open>AuthedConnID\<close>.\<close>

definition authed_new :: "int \<Rightarrow> AuthConnType \<Rightarrow> SessionKey \<Rightarrow> 'a Host_scheme \<Rightarrow> 'a Host_scheme" where
  "authed_new i t k h =
     h\<lparr>authed_conns := authed_conns h @ [\<lparr>ac_conn_id = i, ac_conn_type = t, ac_session_key = k\<rparr>]\<rparr>"

definition authed_drop :: "int \<Rightarrow> 'a Host_scheme \<Rightarrow> 'a Host_scheme" where
  "authed_drop i h = h\<lparr>authed_conns := filter (\<lambda>c. ac_conn_id c \<noteq> i) (authed_conns h)\<rparr>"

definition check_remove_session :: "int \<Rightarrow> SessionKey \<Rightarrow> 'a Host_scheme \<Rightarrow> 'a Host_scheme" where
  "check_remove_session i key h =
     (if map_of (sessions h) key = None then h
      else
        (let is_remote = list_ex (\<lambda>c. ac_conn_id c = i \<and> ac_conn_type c = Remote) (authed_conns h);
             another_remote = list_ex (\<lambda>c. ac_conn_id c \<noteq> i \<and> ac_session_key c = key \<and> ac_conn_type c = Remote) (authed_conns h)
         in if is_remote \<or> \<not> another_remote then h\<lparr>sessions := AList.delete key (sessions h)\<rparr> else h))"

definition update_or_insert_session ::
    "int \<Rightarrow> SessionKey \<Rightarrow> string option \<Rightarrow> bool option \<Rightarrow> 'a Host_scheme \<Rightarrow> 'a Host_scheme" where
  "update_or_insert_session tm key pw t h =
     (case map_of (sessions h) key of
        Some s \<Rightarrow>
          (let s1 = (case pw of Some p \<Rightarrow> s\<lparr>random_password := p\<rparr> | None \<Rightarrow> s);
               s2 = (case t of Some b \<Rightarrow> s1\<lparr>tfa := b\<rparr> | None \<Rightarrow> s1)
           in h\<lparr>sessions := AList.update key s2 (sessions h)\<rparr>)
      | None \<Rightarrow>
          h\<lparr>sessions := AList.update key \<lparr>last_recv_time = tm,
              random_password = (case pw of Some p \<Rightarrow> p | None \<Rightarrow> []),
              tfa = (case t of Some b \<Rightarrow> b | None \<Rightarrow> False)\<rparr> (sessions h)\<rparr>)"

definition set_session_2fa :: "int \<Rightarrow> SessionKey \<Rightarrow> 'a Host_scheme \<Rightarrow> 'a Host_scheme" where
  "set_session_2fa tm key h =
     (case map_of (sessions h) key of
        Some s \<Rightarrow> h\<lparr>sessions := AList.update key (s\<lparr>tfa := True\<rparr>) (sessions h)\<rparr>
      | None \<Rightarrow>
          h\<lparr>sessions := AList.update key \<lparr>last_recv_time = tm, random_password = [], tfa = True\<rparr> (sessions h)\<rparr>)"

text \<open>In milliseconds, like every time here.\<close>

definition SESSION_TIMEOUT :: int where "SESSION_TIMEOUT = 30000"

text \<open>What dropping a connection does to the sessions.\<close>

definition expire_sessions :: "int \<Rightarrow> 'a Host_scheme \<Rightarrow> 'a Host_scheme" where
  "expire_sessions tm h =
     h\<lparr>sessions := filter (\<lambda>(_, s). \<not> tm - last_recv_time s \<ge> SESSION_TIMEOUT) (sessions h)\<rparr>"

definition insert_switch_sides_uuid :: "int \<Rightarrow> string \<Rightarrow> string \<Rightarrow> 'a Host_scheme \<Rightarrow> 'a Host_scheme" where
  "insert_switch_sides_uuid tm i uid h = h\<lparr>switch_sides := AList.update i (tm, uid) (switch_sides h)\<rparr>"

section \<open>Passwords\<close>

definition session_key :: "Conn \<Rightarrow> SessionKey" where
  "session_key c = \<lparr>peer_id = my_id (lr c), key_name = my_name (lr c), session_id = lr_session_id (lr c)\<rparr>"

definition byte :: "char \<Rightarrow> u8" where
  "byte c = word_of_nat (of_char c)"

definition constant_time_eq :: "string \<Rightarrow> string \<Rightarrow> bool" where
  "constant_time_eq a b =
     (if length a \<noteq> length b then False
      else fold (\<lambda>i x. x OR (byte (a ! i) XOR byte (b ! i))) [0 ..< length a] 0 = 0)"

definition verify_h1 :: "Deps \<Rightarrow> Conn \<Rightarrow> string \<Rightarrow> bool" where
  "verify_h1 D c h1 = constant_time_eq (sha256 D (h1 @ hash_challenge c)) (lr_password (lr c))"

definition validate_password_plain :: "Deps \<Rightarrow> Conn \<Rightarrow> string \<Rightarrow> bool" where
  "validate_password_plain D c pw = (if pw = [] then False else verify_h1 D c (sha256 D (pw @ hash_salt c)))"

definition validate_one_password :: "Deps \<Rightarrow> Conn \<Rightarrow> string \<Rightarrow> bool" where
  "validate_one_password D c pw = validate_password_plain D c pw"

definition validate_password_storage :: "Deps \<Rightarrow> Conn \<Rightarrow> string \<Rightarrow> bool" where
  "validate_password_storage D c storage =
     (if storage = [] then False
      else case decode_permanent_password_h1_from_storage D storage of
        Some h1 \<Rightarrow> verify_h1 D c h1
      | None \<Rightarrow> validate_password_plain D c storage)"

definition validate_permanent :: "Deps \<Rightarrow> Conn \<Rightarrow> 'a Host_scheme \<Rightarrow> bool" where
  "validate_permanent D c h =
     (permanent_enabled (settings h) \<and>
      (if password (config (settings h)) \<noteq> [] then validate_password_storage D c (password (config (settings h)))
       else case map_of (hard_settings (settings h)) ''password'' of
          Some hard \<Rightarrow> hard \<noteq> [] \<and> validate_password_plain D c hard
        | None \<Rightarrow> False))"

definition validate_password :: "LoginEnv \<Rightarrow> Conn \<Rightarrow> 'a Host_scheme \<Rightarrow> bool \<times> 'a Host_scheme" where
  "validate_password env c h =
     (if temporary_enabled (settings h) \<and> validate_one_password (deps env) c (temporary h)
      then (True, update_or_insert_session (now env) (session_key c) (Some (temporary h)) (Some False) h)
      else (validate_permanent (deps env) c h, h))"

definition is_recent_session :: "Deps \<Rightarrow> bool \<Rightarrow> Conn \<Rightarrow> 'a Host_scheme \<Rightarrow> bool" where
  "is_recent_session D t c h =
     (case map_of (sessions h) (session_key c) of
        Some s \<Rightarrow> lr_password (lr c) \<noteq> [] \<and>
          (t \<and> tfa s \<or> \<not> t \<and> validate_password_plain D c (random_password s))
      | None \<Rightarrow> False)"

section \<open>Permissions\<close>

text \<open>The permissions a rendezvous server may impose, two bits each (\<open>get_control_permission\<close> of \<open>src/common.rs\<close>).\<close>

definition get_control_permission :: "u64 \<Rightarrow> nat \<Rightarrow> bool option" where
  "get_control_permission permissions index =
     (if index < 32 then
        (let v = drop_bit (index * 2) permissions AND 3
         in if v = 1 then Some False else if v = 2 then Some True else None)
      else None)"

definition is_permission_enabled_locally :: "Settings \<Rightarrow> string \<Rightarrow> bool" where
  "is_permission_enabled_locally s opt =
     (if get_option s ''access-mode'' = ''full'' then True
      else if get_option s ''access-mode'' = ''view'' then False
      else option2bool opt (get_option s opt))"

definition permission_index :: "string \<Rightarrow> nat option" where
  "permission_index opt =
     map_of [(''enable-keyboard'', 0), (''enable-remote-printer'', 1), (''enable-clipboard'', 2), (''enable-file-transfer'', 3),
       (''enable-audio'', 4), (''enable-camera'', 5), (''enable-terminal'', 6), (''enable-tunnel'', 7),
       (''enable-remote-restart'', 8), (''enable-record-session'', 9), (''enable-block-input'', 10)] opt"

definition permission :: "Settings \<Rightarrow> string \<Rightarrow> u64 option \<Rightarrow> bool" where
  "permission s opt cp =
     (case cp of
        Some bits \<Rightarrow>
          (case permission_index opt of
             Some i \<Rightarrow> (case get_control_permission bits i of
                          Some enabled \<Rightarrow> enabled
                        | None \<Rightarrow> is_permission_enabled_locally s opt)
           | None \<Rightarrow> is_permission_enabled_locally s opt)
      | None \<Rightarrow> is_permission_enabled_locally s opt)"

definition enable_trusted_devices :: "Settings \<Rightarrow> bool" where
  "enable_trusted_devices s = option2bool ''enable-trusted-devices'' (get_option s ''enable-trusted-devices'')"

section \<open>Opening a connection\<close>

text \<open>
  The white list is a comma-separated option; \<open>in_cidr\<close> says whether a network in CIDR notation parses and contains the
  address (the crate \<open>cidr_utils\<close>).
\<close>

definition check_whitelist :: "(string \<Rightarrow> ip_addr \<Rightarrow> bool) \<Rightarrow> Settings \<Rightarrow> ip_addr \<Rightarrow> bool" where
  "check_whitelist in_cidr s addr =
     (let whitelist = filter (\<lambda>x. x \<noteq> []) (split_on (CHR '','') (get_option s ''whitelist''))
      in \<not> (whitelist \<noteq> [] \<and> filter (\<lambda>x. x = ''0.0.0.0'') whitelist = [] \<and>
             filter (\<lambda>x. in_cidr x addr) whitelist = []))"

text \<open>A fresh connection: the salt of the host, a random challenge, and no second factor.\<close>

definition no_request :: LoginRequest where
  "no_request = \<lparr>lr_username = [], lr_password = [], my_id = [], my_name = [], my_platform = [], lr_hwid = [],
     lr_session_id = 0, lr_version = [], lr_union = NoUnion\<rparr>"

definition conn_start :: "int \<Rightarrow> ip_addr \<Rightarrow> string \<Rightarrow> string \<Rightarrow> u64 option \<Rightarrow> Conn" where
  "conn_start i addr sl challenge cp =
     \<lparr>c_id = i, ip = addr, hash_salt = sl, hash_challenge = challenge, authorized = False, require_2fa = None,
      from_switch = False, lr = no_request, file_transfer = None, view_camera = False, terminal = False,
      terminal_service_id = [], port_forward_address = [], port_forward_socket = False, authed_conn_id = None,
      control_permissions = cp\<rparr>"

section \<open>Granting access\<close>

definition normalize_port_forward_target :: "string \<Rightarrow> int \<Rightarrow> string \<times> bool" where
  "normalize_port_forward_target host port =
     (let (host, port, is_rdp) = (if host = ''RDP'' \<and> port = 0 then (''localhost'', 3389, True) else (host, port, False));
          host = (if host = [] then ''localhost'' else host)
      in (host @ '':'' @ (if port < 0 then CHR ''-'' # decimal (nat (- port)) else decimal (nat port)), is_rdp))"

definition connect_port_forward_if_needed :: "LoginEnv \<Rightarrow> Conn \<Rightarrow> bool \<times> Conn \<times> action list" where
  "connect_port_forward_if_needed env c =
     (if port_forward_socket c then (True, c, [])
      else case lr_union (lr c) of
        PortForward host port \<Rightarrow>
          (let (addr, is_rdp) = normalize_port_forward_target host port;
               c1 = c\<lparr>port_forward_address := addr\<rparr>
           in if port_open env addr then (True, c1\<lparr>port_forward_socket := True\<rparr>, [])
              else (False, c1, [SendLoginError (''Failed to access remote '' @ (if is_rdp then ''RDP'' else addr) @
                      ''. Please make sure it is reachable/open.'')]))
      | _ \<Rightarrow> (True, c, []))"

definition conn_type_of :: "Conn \<Rightarrow> AuthConnType" where
  "conn_type_of c =
     (if file_transfer c \<noteq> None then FileTransferConn
      else if port_forward_socket c then PortForwardConn
      else if view_camera c then ViewCameraConn
      else if terminal c then TerminalConn
      else Remote)"

text \<open>
  The part of \<open>send_logon_response_and_keep_alive\<close> that decides; the answer to the peer and the start of its services
  is the action \<open>LogonResponse\<close>. The flag says whether the connection is kept.
\<close>

type_synonym 'a outcome = "bool \<times> Conn \<times> 'a \<times> action list"

definition send_logon_response_and_keep_alive :: "LoginEnv \<Rightarrow> Conn \<Rightarrow> Host \<Rightarrow> Host outcome" where
  "send_logon_response_and_keep_alive env c h =
     (if authorized c then (True, c, h, [])
      else if require_2fa c \<noteq> None \<and> \<not> is_recent_session (deps env) True c h \<and> \<not> from_switch c
      then (True, c, h, [SendCode, SendLoginError ''2FA Required''])
      else case connect_port_forward_if_needed env c of
        (False, c1, as) \<Rightarrow> (False, c1, h, as)
      | (True, c1, as) \<Rightarrow>
          (let t = conn_type_of c1
           in (True, c1\<lparr>authorized := True, authed_conn_id := Some (c_id c1, t)\<rparr>,
               authed_new (c_id c1) t (session_key c1) h, as @ [LogonResponse t])))"

definition try_start_cm :: "LoginRequest \<Rightarrow> bool \<Rightarrow> action" where
  "try_start_cm r auth = StartCm (my_id r) (my_name r) auth"

text \<open>Logging in, then telling the connection manager, as every branch that grants access does.\<close>

definition logon_and_start_cm :: "LoginEnv \<Rightarrow> LoginRequest \<Rightarrow> Conn \<Rightarrow> Host \<Rightarrow> Host outcome" where
  "logon_and_start_cm env r c h =
     (case send_logon_response_and_keep_alive env c h of
        (False, c1, h1, as) \<Rightarrow> (False, c1, h1, as)
      | (True, c1, h1, as) \<Rightarrow> (True, c1, h1, as @ [try_start_cm r (authorized c1)]))"

section \<open>The messages before authorization\<close>

definition handle_login_request_without_validation :: "LoginEnv \<Rightarrow> LoginRequest \<Rightarrow> Conn \<Rightarrow> Host \<Rightarrow> Conn \<times> Host" where
  "handle_login_request_without_validation env r c h =
     (let c1 = c\<lparr>lr := r\<rparr>
      in if require_2fa c1 \<noteq> None \<and> lr_hwid r \<noteq> [] \<and> enable_trusted_devices (settings h) then
           (let (devices, st) = get_trusted_devices (deps env) (now env) (settings h);
                h1 = h\<lparr>settings := st\<rparr>
            in case find (\<lambda>d. hwid d = lr_hwid r) devices of
                 Some d \<Rightarrow>
                   if \<not> outdate (now env) d \<and> td_id d = my_id r \<and> td_name d = my_name r \<and> platform d = my_platform r
                   then (c1\<lparr>require_2fa := None\<rparr>, h1)
                   else (c1, h1)
               | None \<Rightarrow> (c1, h1))
         else (c1, h))"

text \<open>The kind of connection a request asks for, and whether it is allowed.\<close>

definition check_request :: "LoginEnv \<Rightarrow> LoginRequest \<Rightarrow> Conn \<Rightarrow> Settings \<Rightarrow> string option \<times> Conn" where
  "check_request env r c s =
     (case lr_union r of
        FileTransfer dir hidden \<Rightarrow>
          if \<not> permission s ''enable-file-transfer'' (control_permissions c) then (Some ''No permission of file transfer'', c)
          else (None, c\<lparr>file_transfer := Some (dir, hidden)\<rparr>)
      | ViewCamera \<Rightarrow>
          if \<not> permission s ''enable-camera'' (control_permissions c) then (Some ''No permission of viewing camera'', c)
          else (None, c\<lparr>view_camera := True\<rparr>)
      | Terminal service \<Rightarrow>
          if \<not> permission s ''enable-terminal'' (control_permissions c) then (Some ''No permission of terminal'', c)
          else
            (let c1 = c\<lparr>terminal := True, terminal_service_id := service\<rparr>
             in case terminal_error env of
                  Some e \<Rightarrow> (Some e, c1)
                | None \<Rightarrow> (if terminal_mismatch env then Some ''Terminal service user mismatch detected.'' else None, c1))
      | PortForward host port \<Rightarrow>
          if \<not> permission s ''enable-tunnel'' (control_permissions c) then (Some ''No permission of IP tunneling'', c)
          else (None, c\<lparr>port_forward_address := fst (normalize_port_forward_target host port)\<rparr>)
      | NoUnion \<Rightarrow>
          (if in_privacy_mode env then Some ''Someone turns on privacy mode, exit'' else None, c))"

text \<open>The user name must be an address, or the id of this host, which is created when there is none.\<close>

definition username_ok :: "LoginEnv \<Rightarrow> LoginRequest \<Rightarrow> Host \<Rightarrow> bool \<times> Host" where
  "username_ok env r h =
     (if is_ip_str env (lr_username r) \<or> is_domain_port_str env (lr_username r) then (True, h)
      else case get_id (deps env) (fresh_salt env) (fresh_id env) (settings h) of
        (own, s) \<Rightarrow> (lr_username r = own, h\<lparr>settings := s\<rparr>))"

definition DESKTOP_NOT_READY :: string where "DESKTOP_NOT_READY = ''Desktop session not ready''"

definition minute :: "LoginEnv \<Rightarrow> int" where
  "minute env = now env div 60000"

definition click_only :: "LoginEnv \<Rightarrow> Host \<Rightarrow> bool" where
  "click_only env h =
     (approve_mode (settings h) = ApproveClick \<and>
        \<not> (map_of (builtin_settings (settings h)) ''allow-logon-screen-password'' = Some ''Y'' \<and> is_logon env) \<or>
      approve_mode (settings h) = ApproveBoth \<and> \<not> has_valid_password h)"

text \<open>The branch that checks a password.\<close>

definition password_login :: "LoginEnv \<Rightarrow> LoginRequest \<Rightarrow> Conn \<Rightarrow> Host \<Rightarrow> Host outcome" where
  "password_login env r c h =
     (case check_failure (ip c) (minute env) (login_failures h 0) of
        (ft, False, e) \<Rightarrow> (True, c, h, [SendLoginError e])
      | (ft, True, _) \<Rightarrow>
          (case validate_password env c h of
             (False, h1) \<Rightarrow>
               (True, c, h1\<lparr>login_failures := (login_failures h1)(0 := update_failure (ip c) ft False (login_failures h1 0))\<rparr>,
                if desktop_error env = [] then [SendLoginError ''Wrong Password'', try_start_cm r False]
                else [SendLoginError ''Desktop session not ready, password wrong''])
           | (True, h1) \<Rightarrow>
               (let h2 = h1\<lparr>login_failures := (login_failures h1)(0 := update_failure (ip c) ft True (login_failures h1 0))\<rparr>
                in if desktop_error env = [] then logon_and_start_cm env r c h2
                   else (True, c, h2, [SendLoginError (desktop_error env)]))))"

text \<open>The request of a connection that passed the first checks.\<close>

definition login_by_mode :: "LoginEnv \<Rightarrow> LoginRequest \<Rightarrow> Conn \<Rightarrow> Host \<Rightarrow> Host outcome" where
  "login_by_mode env r c h =
     (if click_only env h
      then (True, c, h, try_start_cm r False #
              (if get_version_number (lr_version r) \<ge> get_version_number ''1.2.0''
               then [SendLoginError ''No Password Access''] else []))
      else if is_recent_session (deps env) False c h
      then (if desktop_error env = [] then logon_and_start_cm env r c h
            else (True, c, h, [SendLoginError (desktop_error env)]))
      else if lr_password r = []
      then (True, c, h, [if desktop_error env = [] then try_start_cm r False
                         else SendLoginError ''Desktop session not ready, password empty''])
      else password_login env r c h)"

definition on_login_request :: "LoginEnv \<Rightarrow> LoginRequest \<Rightarrow> Conn \<Rightarrow> Host \<Rightarrow> Host outcome" where
  "on_login_request env r c0 h0 =
     (case handle_login_request_without_validation env r c0 h0 of (c, h) \<Rightarrow>
        if authorized c then (True, c, h, [])
        else case check_request env r c (settings h) of
          (Some e, c1) \<Rightarrow> (False, c1, h, [SendLoginError e])
        | (None, c1) \<Rightarrow>
            if desktop_error env \<noteq> [] \<and> desktop_error env \<noteq> DESKTOP_NOT_READY
            then (True, c1, h, [StartCmIpc, SendLoginError (desktop_error env)])
            else case username_ok env r h of
              (False, h1) \<Rightarrow> (False, c1, h1, [StartCmIpc, SendLoginError ''Offline''])
            | (True, h1) \<Rightarrow>
                (case login_by_mode env r c1 h1 of (k, c2, h2, as) \<Rightarrow> (k, c2, h2, StartCmIpc # as)))"

definition on_auth_2fa :: "LoginEnv \<Rightarrow> string \<Rightarrow> string \<Rightarrow> Conn \<Rightarrow> Host \<Rightarrow> Host outcome" where
  "on_auth_2fa env code hw c h =
     (case check_failure (ip c) (minute env) (login_failures h 1) of
        (ft, False, e) \<Rightarrow> (True, c, h, [SendLoginError e])
      | (ft, True, _) \<Rightarrow>
          (case require_2fa c of
             None \<Rightarrow> (True, c, h, [])
           | Some totp \<Rightarrow>
               (case totp_check env totp code of
                  None \<Rightarrow> (True, c, h, [])
                | Some False \<Rightarrow>
                    (True, c, h\<lparr>login_failures := (login_failures h)(1 := update_failure (ip c) ft False (login_failures h 1))\<rparr>,
                     [SendLoginError ''Wrong 2FA Code''])
                | Some True \<Rightarrow>
                    (let h1 = h\<lparr>login_failures := (login_failures h)(1 := update_failure (ip c) ft True (login_failures h 1))\<rparr>;
                         c1 = c\<lparr>require_2fa := None\<rparr>;
                         h2 = set_session_2fa (now env) (session_key c1) h1
                     in case logon_and_start_cm env (lr c1) c1 h2 of
                          (False, c2, h3, as) \<Rightarrow> (False, c2, h3, as)
                        | (True, c2, h3, as) \<Rightarrow>
                            if hw \<noteq> [] \<and> enable_trusted_devices (settings h3) then
                              (True, c2, h3\<lparr>settings := add_trusted_device (deps env) (now env)
                                 \<lparr>hwid = hw, time = now env, td_id = my_id (lr c2), td_name = my_name (lr c2),
                                  platform = my_platform (lr c2)\<rparr> (settings h3)\<rparr>, as @ [AddTrustedDevice hw])
                            else (True, c2, h3, as)))))"

text \<open>A uuid that is not sixteen bytes long does not parse.\<close>

definition on_switch_sides :: "LoginEnv \<Rightarrow> LoginRequest option \<Rightarrow> string \<Rightarrow> Conn \<Rightarrow> Host \<Rightarrow> Host outcome" where
  "on_switch_sides env ro uid c0 h0 =
     (case ro of
        None \<Rightarrow> (True, c0, h0, [])
      | Some r \<Rightarrow>
          (case handle_login_request_without_validation env r c0 h0 of (c, h) \<Rightarrow>
             (let fresh = filter (\<lambda>(_, t, _). now env - t < 10000) (switch_sides h);
                  h1 = h\<lparr>switch_sides := AList.delete (my_id r) fresh\<rparr>
              in case map_of fresh (my_id r) of
                   Some (_, uid_old) \<Rightarrow>
                     if length uid = 16 \<and> uid = uid_old then
                       (case logon_and_start_cm env r (c\<lparr>from_switch := True\<rparr>) h1 of
                          (False, c2, h2, as) \<Rightarrow> (False, c2, h2, as)
                        | (True, c2, h2, as) \<Rightarrow> (True, c2, h2, as @ [StartCmIpc]))
                     else (True, c, h1, [])
                 | None \<Rightarrow> (True, c, h1, []))))"

text \<open>Every message of a peer. What an authorized connection does with the remaining messages is the action \<open>HandleAuthorized\<close>.\<close>

definition on_message :: "LoginEnv \<Rightarrow> peer_msg \<Rightarrow> Conn \<Rightarrow> Host \<Rightarrow> Host outcome" where
  "on_message env msg c h =
     (case msg of
        CloseReason s \<Rightarrow> (False, c, check_remove_session (c_id c) (session_key c) h, [OnClose ''Peer close''])
      | LoginRequestMsg r \<Rightarrow> on_login_request env r c h
      | Auth2fa code hw \<Rightarrow> on_auth_2fa env code hw c h
      | TestDelay from_client \<Rightarrow> (True, c, h, [if from_client then EchoDelay else ReportDelay])
      | SwitchSidesResponse ro uid \<Rightarrow> on_switch_sides env ro uid c h
      | OtherMsg m \<Rightarrow>
          if authorized c \<and> \<not> port_forward_socket c then (True, c, h, [HandleAuthorized m]) else (True, c, h, []))"

text \<open>The user of the host accepts the connection in the connection manager; the flag says whether the loop goes on.\<close>

definition cm_authorize :: "LoginEnv \<Rightarrow> Conn \<Rightarrow> Host \<Rightarrow> Host outcome" where
  "cm_authorize env c h =
     (case send_logon_response_and_keep_alive env (c\<lparr>require_2fa := None\<rparr>) h of
        (k, c1, h1, as) \<Rightarrow> (k \<and> \<not> port_forward_socket c1, c1, h1, as))"

section \<open>The comparison in constant time is equality\<close>

lemma word_or_zero: "(a :: u8) OR b = 0 \<longleftrightarrow> a = 0 \<and> b = 0"
  by (auto simp: bit_eq_iff bit_or_iff)

lemma word_xor_zero: "(a :: u8) XOR b = 0 \<longleftrightarrow> a = b"
  by (auto simp: bit_eq_iff bit_xor_iff)

lemma fold_or_zero: "fold (\<lambda>i x. x OR f i) is (z :: u8) = 0 \<longleftrightarrow> z = 0 \<and> (\<forall>i \<in> set is. f i = 0)"
  by (induction "is" arbitrary: z) (auto simp: word_or_zero)

lemma byte_inj: "byte a = byte b \<longleftrightarrow> a = b"
proof
  assume "byte a = byte b"
  then have "unat (word_of_nat (of_char a) :: u8) = unat (word_of_nat (of_char b) :: u8)" by (simp add: byte_def)
  then have "(of_char a :: nat) mod 256 = of_char b mod 256" by (simp add: unat_of_nat)
  then show "a = b" by simp
qed simp

lemma constant_time_eq_iff: "constant_time_eq a b \<longleftrightarrow> a = b"
proof (cases "length a = length b")
  case True
  then have "constant_time_eq a b \<longleftrightarrow> (\<forall>i < length a. a ! i = b ! i)"
    unfolding constant_time_eq_def fold_or_zero word_xor_zero byte_inj by auto
  with True show ?thesis by (simp add: list_eq_iff_nth_eq)
qed (auto simp: constant_time_eq_def)

section \<open>What is accepted as an answer to the challenge\<close>

text \<open>
  The first-stage hashes a host accepts for a session: of the temporary password, of the permanent one, of the password
  that opened the session before.
\<close>

definition accepts :: "Deps \<Rightarrow> string \<Rightarrow> Host \<Rightarrow> SessionKey \<Rightarrow> string \<Rightarrow> bool" where
  "accepts D sl h key h1 \<longleftrightarrow>
     temporary_enabled (settings h) \<and> temporary h \<noteq> [] \<and> h1 = sha256 D (temporary h @ sl) \<or>
     permanent_enabled (settings h) \<and>
       (let p = password (config (settings h))
        in if p \<noteq> [] then h1 = (case decode_permanent_password_h1_from_storage D p of Some x \<Rightarrow> x | None \<Rightarrow> sha256 D (p @ sl))
           else \<exists>hard. map_of (hard_settings (settings h)) ''password'' = Some hard \<and> hard \<noteq> [] \<and> h1 = sha256 D (hard @ sl)) \<or>
     (\<exists>s. map_of (sessions h) key = Some s \<and> random_password s \<noteq> [] \<and> h1 = sha256 D (random_password s @ sl))"

definition request_key :: "LoginRequest \<Rightarrow> SessionKey" where
  "request_key r = \<lparr>peer_id = my_id r, key_name = my_name r, session_id = lr_session_id r\<rparr>"

text \<open>A request answers the challenge \<open>ch\<close>, on a host that accepts passwords at all.\<close>

definition login_proof :: "LoginEnv \<Rightarrow> string \<Rightarrow> string \<Rightarrow> Host \<Rightarrow> LoginRequest \<Rightarrow> bool" where
  "login_proof env sl ch h r \<longleftrightarrow>
     \<not> click_only env h \<and>
     (\<exists>h1. accepts (deps env) sl h (request_key r) h1 \<and> lr_password r = sha256 (deps env) (h1 @ ch))"

text \<open>A request that answers an invitation to switch sides of the last ten seconds.\<close>

definition switch_proof :: "LoginEnv \<Rightarrow> Host \<Rightarrow> LoginRequest \<Rightarrow> string \<Rightarrow> bool" where
  "switch_proof env h r uid \<longleftrightarrow> length uid = 16 \<and> (\<exists>t. now env - t < 10000 \<and> (my_id r, t, uid) \<in> set (switch_sides h))"

lemma verify_h1_iff: "verify_h1 D c h1 \<longleftrightarrow> lr_password (lr c) = sha256 D (h1 @ hash_challenge c)"
  by (auto simp: verify_h1_def constant_time_eq_iff)

lemma validate_password_accepts:
  assumes "validate_password env c h = (True, h')"
  shows "\<exists>h1. accepts (deps env) (hash_salt c) h key h1 \<and> lr_password (lr c) = sha256 (deps env) (h1 @ hash_challenge c)"
  using assms
  by (auto simp: validate_password_def validate_permanent_def validate_one_password_def validate_password_plain_def
      validate_password_storage_def verify_h1_iff accepts_def Let_def split: if_splits option.splits)

lemma recent_session_accepts:
  assumes "is_recent_session D False c h"
  shows "\<exists>h1. accepts D (hash_salt c) h (request_key (lr c)) h1 \<and> lr_password (lr c) = sha256 D (h1 @ hash_challenge c)"
  using assms
  by (auto simp: is_recent_session_def validate_password_plain_def verify_h1_iff accepts_def session_key_def request_key_def
      split: option.splits if_splits)

section \<open>What a message changes\<close>

text \<open>The challenge and the salt of a connection never change, and no message brings a second factor back.\<close>

definition same_challenge :: "Conn \<Rightarrow> Conn \<Rightarrow> bool" where
  "same_challenge c c' \<longleftrightarrow> hash_salt c' = hash_salt c \<and> hash_challenge c' = hash_challenge c \<and>
     (require_2fa c = None \<longrightarrow> require_2fa c' = None)"

lemma same_challenge_refl [simp]: "same_challenge c c"
  by (simp add: same_challenge_def)

lemma same_challenge_trans: "same_challenge a b \<Longrightarrow> same_challenge b c \<Longrightarrow> same_challenge a c"
  by (simp add: same_challenge_def)

lemma connect_same:
  assumes "connect_port_forward_if_needed env c = (ok, c', as)"
  shows "same_challenge c c' \<and> authorized c' = authorized c \<and> HandleAuthorized m \<notin> set as"
  using assms by (auto simp: connect_port_forward_if_needed_def same_challenge_def Let_def split: if_splits login_union.splits prod.splits)

lemma logon_same:
  assumes "logon_and_start_cm env r c h = (k, c', h', as)"
  shows "same_challenge c c' \<and> HandleAuthorized m \<notin> set as"
proof -
  obtain ok c1 as1 where s: "connect_port_forward_if_needed env c = (ok, c1, as1)" by (metis prod_cases3)
  from connect_same [OF s] assms s show ?thesis
    by (auto simp: logon_and_start_cm_def send_logon_response_and_keep_alive_def try_start_cm_def same_challenge_def Let_def
        split: if_splits bool.splits)
qed

lemma check_request_same:
  assumes "check_request env r c s = (e, c')"
  shows "same_challenge c c' \<and> authorized c' = authorized c \<and> lr c' = lr c"
  using assms by (auto simp: check_request_def same_challenge_def Let_def split: login_union.splits if_splits option.splits)

text \<open>Looking up, or creating, the id of the host changes nothing that decides about a login.\<close>

lemma get_id_keeps:
  assumes "get_id D fr ni s = (i, s')"
  shows "config2 s' = config2 s \<and> password (config s') = password (config s) \<and> hard_settings s' = hard_settings s \<and>
    builtin_settings s' = builtin_settings s \<and> overwrite_settings s' = overwrite_settings s \<and> default_settings s' = default_settings s"
  using assms by (auto simp: get_id_def set_id_def store_def split: if_splits option.splits)

lemma username_ok_keeps:
  assumes "username_ok env r h = (b, h')"
  shows "accepts D sl h' key h1 = accepts D sl h key h1 \<and> click_only env h' = click_only env h"
proof (cases "is_ip_str env (lr_username r) \<or> is_domain_port_str env (lr_username r)")
  case True
  then show ?thesis using assms by (auto simp: username_ok_def)
next
  case False
  obtain own s where g: "get_id (deps env) (fresh_salt env) (fresh_id env) (settings h) = (own, s)"
    by (cases "get_id (deps env) (fresh_salt env) (fresh_id env) (settings h)")
  note k = get_id_keeps [OF g]
  have o: "get_option s x = get_option (settings h) x" for x using k by (simp add: get_option_def)
  have v: "verification_method s = verification_method (settings h)" "approve_mode s = approve_mode (settings h)"
    by (simp_all add: verification_method_def approve_mode_def o)
  have "h' = h\<lparr>settings := s\<rparr>" using assms False g by (auto simp: username_ok_def)
  then show ?thesis using k
    by (simp add: accepts_def click_only_def has_valid_password_def has_permanent_password_def temporary_enabled_def
        permanent_enabled_def v)
qed

lemma login_by_mode_step:
  assumes "login_by_mode env r c h = (k, c', h', as)" and "lr c = r" and "\<not> authorized c"
  shows "same_challenge c c' \<and> HandleAuthorized m \<notin> set as \<and>
    (authorized c' \<longrightarrow> login_proof env (hash_salt c) (hash_challenge c) h r)"
proof (cases "click_only env h \<or> \<not> is_recent_session (deps env) False c h \<and> lr_password r = []")
  case True
  then show ?thesis using assms(1,3) by (auto simp: login_by_mode_def try_start_cm_def split: if_splits)
next
  case False
  show ?thesis
  proof (cases "is_recent_session (deps env) False c h")
    case True
    from recent_session_accepts [OF this] assms(2) False have p: "login_proof env (hash_salt c) (hash_challenge c) h r"
      by (auto simp: login_proof_def)
    from assms(1) False True have "as = [SendLoginError (desktop_error env)] \<and> c' = c \<or> logon_and_start_cm env r c h = (k, c', h', as)"
      by (auto simp: login_by_mode_def split: if_splits)
    with logon_same p show ?thesis by auto
  next
    case nr: False
    with assms(1) False have pl: "password_login env r c h = (k, c', h', as)" by (simp add: login_by_mode_def)
    obtain ft res e where cf: "check_failure (ip c) (minute env) (login_failures h 0) = (ft, res, e)" by (metis prod_cases3)
    obtain ok h1 where vp: "validate_password env c h = (ok, h1)" by (cases "validate_password env c h")
    show ?thesis
    proof (cases "res \<and> ok")
      case True
      with validate_password_accepts [of env c h h1 "request_key r"] vp assms(2) False
      have p: "login_proof env (hash_salt c) (hash_challenge c) h r" by (auto simp: login_proof_def)
      from True pl cf vp have "as = [SendLoginError (desktop_error env)] \<and> c' = c \<or> (\<exists>h2. logon_and_start_cm env r c h2 = (k, c', h', as))"
        by (auto simp: password_login_def Let_def split: if_splits)
      with logon_same p show ?thesis by auto
    next
      case False
      with pl cf vp assms(3) show ?thesis by (auto simp: password_login_def try_start_cm_def split: if_splits bool.splits)
    qed
  qed
qed

text \<open>What a message brings that opens a connection.\<close>

definition message_proof :: "LoginEnv \<Rightarrow> string \<Rightarrow> string \<Rightarrow> Host \<Rightarrow> peer_msg \<Rightarrow> bool" where
  "message_proof env sl ch h msg =
     (case msg of
        LoginRequestMsg r \<Rightarrow> login_proof env sl ch h r
      | SwitchSidesResponse (Some r) uid \<Rightarrow> switch_proof env h r uid
      | _ \<Rightarrow> False)"

lemma on_login_request_step:
  assumes "on_login_request env r c h = (k, c', h', as)" and "require_2fa c = None" and "\<not> authorized c"
  shows "same_challenge c c' \<and> HandleAuthorized m \<notin> set as \<and>
    (authorized c' \<longrightarrow> login_proof env (hash_salt c) (hash_challenge c) h r)"
proof -
  define c0 where "c0 = c\<lparr>lr := r\<rparr>"
  have hd: "handle_login_request_without_validation env r c h = (c0, h)"
    using assms(2) by (simp add: handle_login_request_without_validation_def c0_def)
  have c0: "same_challenge c c0" "\<not> authorized c0" "hash_salt c0 = hash_salt c" "hash_challenge c0 = hash_challenge c" "lr c0 = r"
    using assms(3) by (simp_all add: c0_def same_challenge_def)
  obtain eo c1 where cr: "check_request env r c0 (settings h) = (eo, c1)" by (cases "check_request env r c0 (settings h)")
  note c1 = check_request_same [OF cr]
  obtain b h1 where u: "username_ok env r h = (b, h1)" by (cases "username_ok env r h")
  obtain k2 c2 h2 as2 where lm: "login_by_mode env r c1 h1 = (k2, c2, h2, as2)" by (metis prod_cases4)
  have lp: "login_proof env sl ch h1 r = login_proof env sl ch h r" for sl ch
    by (simp add: login_proof_def username_ok_keeps [OF u])
  from login_by_mode_step [OF lm, of m] c1 c0
  have st: "same_challenge c c2 \<and> HandleAuthorized m \<notin> set as2 \<and>
      (authorized c2 \<longrightarrow> login_proof env (hash_salt c) (hash_challenge c) h r)"
    using same_challenge_trans by (auto simp: lp same_challenge_def)
  from assms(1) hd cr u lm c0 c1 st show ?thesis
    by (auto simp: on_login_request_def intro: same_challenge_trans split: option.splits if_splits bool.splits)
qed

lemma on_switch_sides_step:
  assumes "on_switch_sides env ro uid c h = (k, c', h', as)" and "require_2fa c = None" and "\<not> authorized c"
  shows "same_challenge c c' \<and> HandleAuthorized m \<notin> set as \<and>
    (authorized c' \<longrightarrow> (\<exists>r. ro = Some r \<and> switch_proof env h r uid))"
proof (cases ro)
  case None
  then show ?thesis using assms by (simp add: on_switch_sides_def)
next
  case (Some r)
  define fresh where "fresh = filter (\<lambda>(_, t, _). now env - t < 10000) (switch_sides h)"
  have hd: "handle_login_request_without_validation env r c h = (c\<lparr>lr := r\<rparr>, h)"
    using assms(2) by (simp add: handle_login_request_without_validation_def)
  have c0: "same_challenge c (c\<lparr>lr := r\<rparr>)" "same_challenge c (c\<lparr>lr := r, from_switch := True\<rparr>)"
    by (simp_all add: same_challenge_def)
  show ?thesis
  proof (cases "\<exists>t. map_of fresh (my_id r) = Some (t, uid) \<and> length uid = 16")
    case False
    then have "c' = c\<lparr>lr := r\<rparr> \<and> as = []"
      using assms(1) Some hd by (auto simp: on_switch_sides_def fresh_def [symmetric] Let_def split: option.splits if_splits)
    then show ?thesis using c0 assms(3) by simp
  next
    case True
    then obtain t where t: "map_of fresh (my_id r) = Some (t, uid)" "length uid = 16" by blast
    from map_of_SomeD [OF t(1)] t(2) have p: "switch_proof env h r uid" by (auto simp: switch_proof_def fresh_def)
    define h1 where "h1 = h\<lparr>switch_sides := AList.delete (my_id r) fresh\<rparr>"
    obtain k2 c2 h2 as2 where l: "logon_and_start_cm env r (c\<lparr>lr := r, from_switch := True\<rparr>) h1 = (k2, c2, h2, as2)"
      by (metis prod_cases4)
    have "c' = c2 \<and> set as \<subseteq> set as2 \<union> {StartCmIpc}"
      using assms(1) Some hd t l by (auto simp: on_switch_sides_def fresh_def [symmetric] h1_def Let_def split: if_splits bool.splits)
    with logon_same [OF l, of m] c0(2) p Some show ?thesis by (auto intro: same_challenge_trans)
  qed
qed

lemma on_message_step:
  assumes "on_message env msg c h = (k, c', h', as)" and "require_2fa c = None" and "\<not> authorized c"
  shows "same_challenge c c' \<and> HandleAuthorized m \<notin> set as \<and>
    (authorized c' \<longrightarrow> message_proof env (hash_salt c) (hash_challenge c) h msg)"
proof (cases msg)
  case (LoginRequestMsg r)
  then show ?thesis using on_login_request_step [of env r c h k c' h' as m] assms
    by (simp add: on_message_def message_proof_def)
next
  case (SwitchSidesResponse ro uid)
  then show ?thesis using on_switch_sides_step [of env ro uid c h k c' h' as m] assms
    by (auto simp: on_message_def message_proof_def)
next
  case (Auth2fa code hw)
  then show ?thesis using assms by (auto simp: on_message_def on_auth_2fa_def split: prod.splits if_splits bool.splits)
qed (use assms in \<open>auto simp: on_message_def split: if_splits\<close>)

section \<open>Requests for remote control\<close>

lemma logon_authorizes:
  assumes "require_2fa c = None" and "lr_union (lr c) = NoUnion"
  shows "logon_and_start_cm env r c h =
    (True, if authorized c then c else c\<lparr>authorized := True, authed_conn_id := Some (c_id c, conn_type_of c)\<rparr>,
     if authorized c then h else authed_new (c_id c) (conn_type_of c) (session_key c) h,
     (if authorized c then [] else [LogonResponse (conn_type_of c)]) @ [try_start_cm r True])"
  using assms
  by (simp add: logon_and_start_cm_def send_logon_response_and_keep_alive_def connect_port_forward_if_needed_def Let_def)

text \<open>The conditions under which a request for remote control is looked at: nobody is in privacy mode, the desktop is ready, the
  name is that of the host, and the host accepts passwords.\<close>

definition plain_request :: "LoginEnv \<Rightarrow> Host \<Rightarrow> LoginRequest \<Rightarrow> bool" where
  "plain_request env h r \<longleftrightarrow> lr_union r = NoUnion \<and> \<not> in_privacy_mode env \<and> desktop_error env = [] \<and>
     is_ip_str env (lr_username r) \<and> \<not> click_only env h"

lemma plain_request_by_mode:
  assumes "plain_request env h r" and "\<not> authorized c" and "require_2fa c = None"
  shows "on_login_request env r c h = (case login_by_mode env r (c\<lparr>lr := r\<rparr>) h of (k, c2, h2, as) \<Rightarrow> (k, c2, h2, StartCmIpc # as))"
  using assms
  by (simp add: on_login_request_def handle_login_request_without_validation_def check_request_def plain_request_def username_ok_def)

section \<open>A small host\<close>

definition example_env :: LoginEnv where
  "example_env = \<lparr>deps = toy_deps, now = 60000, is_ip_str = \<lambda>s. s = ''1.2.3.4'', is_domain_port_str = \<lambda>_. False,
     in_privacy_mode = False, desktop_error = [], is_logon = False, port_open = \<lambda>_. True, totp_check = \<lambda>_ _. None,
     terminal_error = None, terminal_mismatch = False, fresh_salt = ''salt12'', fresh_id = None\<rparr>"

definition example_host :: "string \<Rightarrow> (SessionKey \<times> Session) list \<Rightarrow> (string \<times> int \<times> string) list \<Rightarrow> Host" where
  "example_host pw ss sw = \<lparr>settings = empty_settings, temporary = pw, cache_file = None, sessions = ss,
     login_failures = \<lambda>_. [], switch_sides = sw, authed_conns = [], alive_conns = [], control_permissions_array = []\<rparr>"

definition example_answer :: "string \<Rightarrow> string" where
  "example_answer pw = sha256 toy_deps (sha256 toy_deps (pw @ ''s'') @ ''c'')"

definition example_login_request :: "string \<Rightarrow> login_union \<Rightarrow> LoginRequest" where
  "example_login_request pw u = no_request\<lparr>lr_username := ''1.2.3.4'', lr_password := example_answer pw, my_id := ''p'', lr_union := u\<rparr>"

definition example_start :: Conn where
  "example_start = conn_start 7 (V4 1) ''s'' ''c'' None"

lemma example_settings:
  "get_option empty_settings k = []" "temporary_enabled empty_settings" "approve_mode empty_settings = ApproveBoth"
  by (simp_all add: get_option_def get_or_def empty_settings_def empty_config2_def temporary_enabled_def verification_method_def
      approve_mode_def)

lemma example_answer_nonempty: "example_answer pw \<noteq> []"
  by (simp add: example_answer_def toy_deps_def)

lemma example_plain:
  "pw \<noteq> [] \<Longrightarrow> plain_request example_env (example_host pw ss sw) (example_login_request pw' NoUnion)"
  by (simp add: plain_request_def example_env_def example_host_def example_login_request_def no_request_def click_only_def
      has_valid_password_def example_settings)

lemma example_start_simps:
  "\<not> authorized example_start" "require_2fa example_start = None" "hash_salt example_start = ''s''"
  "hash_challenge example_start = ''c''" "file_transfer example_start = None" "\<not> port_forward_socket example_start"
  "\<not> Login.view_camera example_start" "\<not> terminal example_start" "control_permissions example_start = None"
  "deps example_env = toy_deps" "lr_password (example_login_request pw u) = example_answer pw"
  "my_id (example_login_request pw u) = ''p''" "lr_union (example_login_request pw u) = u"
  "temporary (example_host pw ss sw) = pw" "settings (example_host pw ss sw) = empty_settings"
  "sessions (example_host pw ss sw) = ss" "switch_sides (example_host pw ss sw) = sw" "now example_env = 60000"
  "login_failures (example_host pw ss sw) = (\<lambda>_. [])" "port_open example_env = (\<lambda>_. True)" "ip example_start = V4 1"
  by (simp_all add: example_start_def conn_start_def example_env_def example_login_request_def no_request_def example_host_def)

lemma example_not_blocked: "fst (snd (check_failure (ip example_start) (minute example_env) []))"
  by (simp add: example_start_simps check_failure_def check_address_def lookup_def)

section \<open>Who gets in\<close>

text \<open>
  A connection over its lifetime: each message meets the host as the other connections, the user and the clock have left
  it, so the host is a new argument every time.
\<close>

fun conn_run :: "(LoginEnv \<times> Host \<times> peer_msg) list \<Rightarrow> Conn \<Rightarrow> Conn" where
  "conn_run [] c = c"
| "conn_run ((env, h, msg) # es) c = conn_run es (fst (snd (on_message env msg c h)))"

lemma conn_run_authorized:
  assumes "authorized (conn_run es c)" and "require_2fa c = None" and "\<not> authorized c"
  shows "\<exists>(env, h, msg) \<in> set es. message_proof env (hash_salt c) (hash_challenge c) h msg"
  using assms
proof (induction es arbitrary: c)
  case (Cons e es)
  obtain env h msg where e: "e = (env, h, msg)" by (metis prod_cases3)
  obtain k c1 h1 as where s: "on_message env msg c h = (k, c1, h1, as)" by (metis prod_cases4)
  note st = on_message_step [OF s Cons.prems(2,3)]
  show ?case
  proof (cases "authorized c1")
    case True
    with st e show ?thesis by auto
  next
    case False
    have "authorized (conn_run es c1)" using Cons.prems(1) e s by simp
    with Cons.IH [OF this _ False] st Cons.prems(2) show ?thesis by (auto simp: same_challenge_def)
  qed
qed simp

text \<open>C9: nobody gets in without a credential. However many messages a peer sends on a connection, in whatever order and
  whatever happens on the host meanwhile, the connection is authorized only if one of the messages was a login request that
  answers this connection's challenge with the temporary password, the permanent one or the one of its session, on a host
  that does not insist on a click, or answered an invitation to switch sides of the last ten seconds.\<close>

theorem authorized_needs_credential:
  assumes "authorized (conn_run es (conn_start i addr sl ch cp))"
  shows "\<exists>(env, h, msg) \<in> set es.
    (\<exists>r. msg = LoginRequestMsg r \<and> login_proof env sl ch h r) \<or>
    (\<exists>r uid. msg = SwitchSidesResponse (Some r) uid \<and> switch_proof env h r uid)"
proof -
  have "require_2fa (conn_start i addr sl ch cp) = None" "\<not> authorized (conn_start i addr sl ch cp)"
    "hash_salt (conn_start i addr sl ch cp) = sl" "hash_challenge (conn_start i addr sl ch cp) = ch"
    by (simp_all add: conn_start_def)
  from conn_run_authorized [OF assms this(1,2)] this(3,4) obtain env h msg where
    m: "(env, h, msg) \<in> set es" "message_proof env sl ch h msg" by auto
  from m(2) have "(\<exists>r. msg = LoginRequestMsg r \<and> login_proof env sl ch h r) \<or>
      (\<exists>r uid. msg = SwitchSidesResponse (Some r) uid \<and> switch_proof env h r uid)"
    by (auto simp: message_proof_def split: peer_msg.splits option.splits)
  with m(1) show ?thesis by blast
qed

lemma example_login_run: "authorized (conn_run [(example_env, example_host ''abcd'' [] [], LoginRequestMsg (example_login_request ''abcd'' NoUnion))] example_start)"
proof -
  let ?r = "example_login_request ''abcd'' NoUnion" and ?h = "example_host ''abcd'' [] []"
  define c0 where "c0 = example_start\<lparr>lr := ?r\<rparr>"
  have c0: "hash_salt c0 = ''s''" "hash_challenge c0 = ''c''" "lr c0 = ?r" "\<not> authorized c0" "require_2fa c0 = None" "ip c0 = V4 1"
    by (simp_all add: c0_def example_start_simps)
  have pl: "plain_request example_env ?h ?r" by (rule example_plain) simp
  have v: "fst (validate_password example_env c0 ?h)"
    by (simp add: validate_password_def validate_one_password_def validate_password_plain_def verify_h1_iff c0
        example_start_simps example_settings example_answer_def)
  obtain h1 where v1: "validate_password example_env c0 ?h = (True, h1)" using v by (cases "validate_password example_env c0 ?h") auto
  have cf: "check_failure (V4 1) (minute example_env) [] = ((lookup [] (Addr (V4 1)), minute example_env), True, [])"
    by (simp add: check_failure_def check_address_def lookup_def)
  have m: "login_by_mode example_env ?r c0 ?h = password_login example_env ?r c0 ?h"
    using pl example_answer_nonempty
    by (simp add: login_by_mode_def plain_request_def is_recent_session_def example_start_simps)
  have "authorized (fst (snd (password_login example_env ?r c0 ?h)))"
    using v1 cf c0 by (simp add: password_login_def example_start_simps logon_authorizes Let_def) (simp add: example_env_def)
  then show ?thesis
    using plain_request_by_mode [OF pl example_start_simps(1,2)]
    by (simp add: on_message_def m c0_def [symmetric] split: prod.splits)
qed

theorem authorized_needs_credential_witness:
  "\<exists>r. LoginRequestMsg (example_login_request ''abcd'' NoUnion) = LoginRequestMsg r \<and>
     login_proof example_env ''s'' ''c'' (example_host ''abcd'' [] []) r"
  using authorized_needs_credential [OF example_login_run [unfolded example_start_def]] by auto



section \<open>The right password gets in\<close>

text \<open>The right password opens the connection. A request for remote control that answers the challenge with the temporary
  password, from an address that is not blocked, is authorized at once, as a connection for remote control, it is
  entered in the table of authorized connections, and its session remembers the password.\<close>

theorem temporary_password_opens:
  assumes "plain_request env h r" and "\<not> authorized c" and "require_2fa c = None"
    and "temporary_enabled (settings h)" and "temporary h \<noteq> []"
    and "lr_password r = sha256 (deps env) (sha256 (deps env) (temporary h @ hash_salt c) @ hash_challenge c)"
    and "lr_password r \<noteq> []" and "fst (snd (check_failure (ip c) (minute env) (login_failures h 0)))"
    and "map_of (sessions h) (request_key r) = None"
    and "file_transfer c = None" "\<not> port_forward_socket c" "\<not> Login.view_camera c" "\<not> terminal c"
  shows "case on_message env (LoginRequestMsg r) c h of (k, c', h', as) \<Rightarrow>
    k \<and> authorized c' \<and> authed_conn_id c' = Some (c_id c, Remote) \<and>
    authed_conns h' = authed_conns h @ [\<lparr>ac_conn_id = c_id c, ac_conn_type = Remote, ac_session_key = request_key r\<rparr>] \<and>
    map_option random_password (map_of (sessions h') (request_key r)) = Some (temporary h) \<and>
    LogonResponse Remote \<in> set as"
proof -
  define c0 where "c0 = c\<lparr>lr := r\<rparr>"
  have c0: "session_key c0 = request_key r" "lr c0 = r" "hash_salt c0 = hash_salt c" "hash_challenge c0 = hash_challenge c"
    "ip c0 = ip c" "\<not> authorized c0" "require_2fa c0 = None" "conn_type_of c0 = Remote" "c_id c0 = c_id c"
    using assms by (simp_all add: c0_def session_key_def request_key_def conn_type_of_def)
  have u: "lr_union r = NoUnion" "desktop_error env = []" "\<not> click_only env h" using assms(1) by (simp_all add: plain_request_def)
  have nr: "\<not> is_recent_session (deps env) False c0 h" using assms(9) by (simp add: is_recent_session_def c0)
  obtain ft e where cf: "check_failure (ip c0) (minute env) (login_failures h 0) = (ft, True, e)"
    using assms(8) by (cases "check_failure (ip c) (minute env) (login_failures h 0)") (auto simp: c0)
  have v: "validate_password env c0 h = (True, update_or_insert_session (now env) (request_key r) (Some (temporary h)) (Some False) h)"
    using assms(4,5,6) by (simp add: validate_password_def validate_one_password_def validate_password_plain_def verify_h1_iff c0)
  have l: "on_message env (LoginRequestMsg r) c h =
      (case password_login env r c0 h of (k, c2, h2, as) \<Rightarrow> (k, c2, h2, StartCmIpc # as))"
    using u(3) nr assms(7) by (simp add: on_message_def plain_request_by_mode [OF assms(1,2,3)] login_by_mode_def c0_def [symmetric])
  show ?thesis
    unfolding l using c0 u cf v assms(9)
    by (simp add: password_login_def logon_authorizes Let_def update_or_insert_session_def authed_new_def update_conv')
qed

theorem temporary_password_opens_witness:
  "authorized (fst (snd (on_message example_env (LoginRequestMsg (example_login_request ''abcd'' NoUnion)) example_start
     (example_host ''abcd'' [] []))))"
proof -
  let ?r = "example_login_request ''abcd'' NoUnion" and ?h = "example_host ''abcd'' [] []"
  have pl: "plain_request example_env ?h ?r" by (rule example_plain) simp
  have "case on_message example_env (LoginRequestMsg ?r) example_start ?h of (k, c', h', as) \<Rightarrow>
    k \<and> authorized c' \<and> authed_conn_id c' = Some (c_id example_start, Remote) \<and>
    authed_conns h' = authed_conns ?h @ [\<lparr>ac_conn_id = c_id example_start, ac_conn_type = Remote, ac_session_key = request_key ?r\<rparr>] \<and>
    map_option random_password (map_of (sessions h') (request_key ?r)) = Some (temporary ?h) \<and> LogonResponse Remote \<in> set as"
  proof (rule temporary_password_opens [OF pl example_start_simps(1,2)])
    show "lr_password ?r \<noteq> []" using example_answer_nonempty by (simp add: example_start_simps)
    show "fst (snd (check_failure (ip example_start) (minute example_env) (login_failures ?h 0)))"
      using example_not_blocked by (simp add: example_start_simps)
  qed (simp_all add: example_start_simps example_settings example_answer_def)
  then show ?thesis by (simp add: split_beta)
qed

text \<open>A session never grows too old. A request that carries the password its session was opened with is let in however long
  ago that session was heard of, and although the password has been replaced since; only the end of some
  connection removes sessions, although the code sets their lifetime to thirty seconds.\<close>

theorem stale_session_opens:
  assumes "plain_request env h r" and "\<not> authorized c" and "require_2fa c = None"
    and "map_of (sessions h) (request_key r) = Some s" and "random_password s \<noteq> []" and "lr_password r \<noteq> []"
    and "lr_password r = sha256 (deps env) (sha256 (deps env) (random_password s @ hash_salt c) @ hash_challenge c)"
  shows "authorized (fst (snd (on_message env (LoginRequestMsg r) c h)))"
proof -
  define c0 where "c0 = c\<lparr>lr := r\<rparr>"
  have c0: "session_key c0 = request_key r" "lr c0 = r" "hash_salt c0 = hash_salt c" "hash_challenge c0 = hash_challenge c"
    "\<not> authorized c0" "require_2fa c0 = None"
    using assms by (simp_all add: c0_def session_key_def request_key_def)
  have u: "lr_union r = NoUnion" "desktop_error env = []" "\<not> click_only env h" using assms(1) by (simp_all add: plain_request_def)
  have "is_recent_session (deps env) False c0 h"
    using assms(4-7) by (simp add: is_recent_session_def c0 validate_password_plain_def verify_h1_iff)
  then show ?thesis using u c0
    by (simp add: on_message_def plain_request_by_mode [OF assms(1,2,3)] login_by_mode_def c0_def [symmetric] logon_authorizes)
qed

theorem stale_session_opens_witness:
  "authorized (fst (snd (on_message (example_env\<lparr>now := 86400000\<rparr>) (LoginRequestMsg (example_login_request ''old'' NoUnion)) example_start
     (example_host ''new'' [(request_key (example_login_request ''old'' NoUnion),
        \<lparr>last_recv_time = 0, random_password = ''old'', tfa = False\<rparr>)] []))))"
proof (rule stale_session_opens)
  let ?ss = "[(request_key (example_login_request ''old'' NoUnion), \<lparr>last_recv_time = 0, random_password = ''old'', tfa = False\<rparr>)]"
  show "plain_request (example_env\<lparr>now := 86400000\<rparr>) (example_host ''new'' ?ss []) (example_login_request ''old'' NoUnion)"
    using example_plain [of "''new''" ?ss "[]" "''old''"] by (simp add: plain_request_def click_only_def)
  show "lr_password (example_login_request ''old'' NoUnion) =
    sha256 (deps (example_env\<lparr>now := 86400000\<rparr>))
      (sha256 (deps (example_env\<lparr>now := 86400000\<rparr>)) (random_password \<lparr>last_recv_time = 0, random_password = ''old'', tfa = False\<rparr> @ hash_salt example_start)
        @ hash_challenge example_start)"
    by (simp add: example_start_simps example_answer_def)
qed (simp_all add: example_start_simps example_answer_nonempty)

text \<open>Answering an invitation to switch sides bypasses the permission to forward ports: a peer that was invited and asks for a
  forwarded port gets it, although the host does not allow tunnels.\<close>

theorem switch_sides_skips_permission:
  assumes "switch_sides h = [(my_id r, now env, uid)]" and "length uid = 16" and "require_2fa c = None" and "\<not> authorized c"
    and "lr_union r = PortForward host port" and "port_open env (fst (normalize_port_forward_target host port))"
    and "\<not> port_forward_socket c" and "\<not> permission (settings h) ''enable-tunnel'' (control_permissions c)"
  shows "authorized (fst (snd (on_message env (SwitchSidesResponse (Some r) uid) c h))) \<and>
    port_forward_socket (fst (snd (on_message env (SwitchSidesResponse (Some r) uid) c h))) \<and>
    \<not> authorized (fst (snd (on_message env (LoginRequestMsg r) c h)))"
proof -
  obtain a b where n: "normalize_port_forward_target host port = (a, b)" by (cases "normalize_port_forward_target host port")
  have hd: "handle_login_request_without_validation env r c h = (c\<lparr>lr := r\<rparr>, h)"
    using assms(3) by (simp add: handle_login_request_without_validation_def)
  have f: "filter (\<lambda>(_, t, _). now env - t < 10000) (switch_sides h) = [(my_id r, now env, uid)]" using assms(1) by simp
  have "authorized (fst (snd (on_message env (SwitchSidesResponse (Some r) uid) c h))) \<and>
      port_forward_socket (fst (snd (on_message env (SwitchSidesResponse (Some r) uid) c h)))"
    unfolding on_message_def on_switch_sides_def
    using assms(2-7) n
    by (simp add: hd f logon_and_start_cm_def send_logon_response_and_keep_alive_def connect_port_forward_if_needed_def Let_def)
  moreover have "\<not> authorized (fst (snd (on_message env (LoginRequestMsg r) c h)))"
    using assms(4,5,8) by (simp add: on_message_def on_login_request_def hd check_request_def)
  ultimately show ?thesis by simp
qed

definition locked_host :: Host where
  "locked_host = (example_host ''abcd'' [] [(''p'', 60000, replicate 16 (CHR ''u''))])
     \<lparr>settings := empty_settings\<lparr>overwrite_settings := [(''access-mode'', ''view'')]\<rparr>\<rparr>"

theorem switch_sides_skips_permission_witness:
  "port_forward_socket (fst (snd (on_message example_env
     (SwitchSidesResponse (Some (example_login_request [] (PortForward ''db'' 5432))) (replicate 16 (CHR ''u''))) example_start locked_host)))"
proof -
  have "\<not> permission (settings locked_host) ''enable-tunnel'' (control_permissions example_start)"
    by (simp add: permission_def is_permission_enabled_locally_def get_option_def get_or_def locked_host_def empty_settings_def
        example_start_simps)
  from switch_sides_skips_permission [OF _ _ example_start_simps(2,1) _ _ example_start_simps(6) this,
      of "example_login_request [] (PortForward ''db'' 5432)" example_env "replicate 16 (CHR ''u'')" "''db''" 5432]
  show ?thesis by (simp add: example_start_simps) (simp add: locked_host_def example_host_def)
qed

end
