(* ===== verification/Addr_Mangle.thy ===== *)
theory Addr_Mangle
  imports Prelude
begin

unbundle bit_operations_syntax

text \<open>
  Socket addresses in rendezvous messages (\<open>AddrMangle\<close> of \<open>libs/hbb_common/src/lib.rs\<close>): an IPv4 address and its port
  are hidden in a number together with the time, so that no address translator on the way finds and replaces the
  address. An IPv6 address is its sixteen octets. The flow and the scope of an IPv6 socket address are left out.
\<close>

datatype SocketAddr = SockV4 u8 u8 u8 u8 u16 | SockV6 bytes u16

text \<open>An IPv6 address has sixteen octets.\<close>

fun valid_addr :: "SocketAddr \<Rightarrow> bool" where
  "valid_addr (SockV4 a b c d port) = True"
| "valid_addr (SockV6 o6 port) = (length o6 = 16)"

text \<open>\<open>Ipv6Addr::to_ipv4\<close>: the addresses \<open>::a.b.c.d\<close> and \<open>::ffff:a.b.c.d\<close>.\<close>

definition to_ipv4 :: "bytes \<Rightarrow> (u8 \<times> u8 \<times> u8 \<times> u8) option" where
  "to_ipv4 o6 =
     (if take 10 o6 = replicate 10 0 \<and> (take 2 (drop 10 o6) = [0, 0] \<or> take 2 (drop 10 o6) = [0xFF, 0xFF])
      then Some (o6 ! 12, o6 ! 13, o6 ! 14, o6 ! 15) else None)"

definition is_loopback :: "bytes \<Rightarrow> bool" where
  "is_loopback o6 = (o6 = replicate 15 0 @ [1])"

fun try_into_v4 :: "SocketAddr \<Rightarrow> SocketAddr" where
  "try_into_v4 (SockV6 o6 port) =
     (if \<not> is_loopback o6 then
        (case to_ipv4 o6 of Some (a, b, c, d) \<Rightarrow> SockV4 a b c d port | None \<Rightarrow> SockV6 o6 port)
      else SockV6 o6 port)"
| "try_into_v4 (SockV4 a b c d port) = SockV4 a b c d port"

text \<open>The number that carries an address; \<open>tm\<close> is the clock in microseconds, cut to 32 bits.\<close>

definition mangled :: "u32 \<Rightarrow> u32 \<Rightarrow> u16 \<Rightarrow> u128" where
  "mangled tm32 ip32 port16 =
     (let tm = ucast tm32; ip = ucast ip32; port = ucast port16
      in push_bit 49 (ip + tm) OR push_bit 17 tm OR (port + (tm AND 0xFFFF)))"

definition trim_zeros :: "bytes \<Rightarrow> bytes" where
  "trim_zeros bs = take (16 - length (takeWhile (\<lambda>b. b = 0) (rev bs))) bs"

definition encode :: "u32 \<Rightarrow> SocketAddr \<Rightarrow> bytes" where
  "encode tm addr =
     (case try_into_v4 addr of
        SockV4 a b c d port \<Rightarrow> trim_zeros (to_le_bytes 16 (mangled tm (from_le_bytes [a, b, c, d]) port))
      | SockV6 o6 port \<Rightarrow> o6 @ to_le_bytes 2 port)"

definition any_listen_addr_v6 :: SocketAddr where
  "any_listen_addr_v6 = SockV6 (replicate 16 0) 0"

definition unmangle :: "u128 \<Rightarrow> u32 \<times> u16" where
  "unmangle number =
     (let tm = drop_bit 17 number AND 0xFFFFFFFF
      in (ucast (drop_bit 49 number - tm), ucast ((number AND 0xFFFFFF) - (tm AND 0xFFFF))))"

definition decode :: "bytes \<Rightarrow> SocketAddr" where
  "decode bs =
     (if length bs > 16 then
        (if length bs \<noteq> 18 then any_listen_addr_v6
         else SockV6 (take 16 bs) (from_le_bytes (drop 16 bs)))
      else
        (let padded = bs @ replicate (16 - length bs) 0;
             (ip, port) = unmangle (from_le_bytes padded);
             o4 = to_le_bytes 4 ip
         in SockV4 (o4 ! 0) (o4 ! 1) (o4 ! 2) (o4 ! 3) port))"

section \<open>Decoding gives the address back\<close>

lemma word_bit_bound: "x < 2 ^ k \<Longrightarrow> bit (x :: u128) n \<Longrightarrow> n < k"
  by (metis bit_take_bit_iff less_mask_eq take_bit_eq_mask)

lemma ucast_down_add: "(ucast (x + y :: u128) :: u16) = ucast x + ucast y"
proof transfer
  fix x y :: int
  show "take_bit LENGTH(16) (take_bit LENGTH(128) (x + y)) = take_bit LENGTH(16) (take_bit LENGTH(128) x + take_bit LENGTH(128) y)"
    using take_bit_add [of 16 "take_bit 128 x" "take_bit 128 y"] take_bit_add [of 16 x y] by simp
qed
lemma ucast_down_diff: "(ucast (x - y :: u128) :: u16) = ucast x - ucast y"
proof transfer
  fix x y :: int
  show "take_bit LENGTH(16) (take_bit LENGTH(128) (x - y)) = take_bit LENGTH(16) (take_bit LENGTH(128) x - take_bit LENGTH(128) y)"
    using take_bit_diff [of 16 "take_bit 128 x" "take_bit 128 y"] take_bit_diff [of 16 x y] by simp
qed

lemma ucast_ucast_id [simp]:
  "ucast (ucast (p :: u16) :: u128) = p" "ucast (ucast (i :: u32) :: u128) = i"
  by (rule bit_word_eqI, simp add: bit_simps)+

lemma ucast_bits32: "bit (ucast (x :: u32) :: u128) n \<longleftrightarrow> n < 32 \<and> bit x n"
  by (auto simp: bit_simps dest: bit_imp_le_length)

lemma ucast_bound:
  "unat (ucast (i :: u32) :: u128) < 2 ^ 32" "unat (ucast (p :: u16) :: u128) < 2 ^ 16"
proof -
  have "unat i < 2 ^ LENGTH(32)" "unat p < 2 ^ LENGTH(16)" by (rule unsigned_less)+
  then show "unat (ucast i :: u128) < 2 ^ 32" "unat (ucast p :: u128) < 2 ^ 16"
    by (simp_all add: unsigned_ucast_eq order.strict_trans1 [OF take_bit_nat_less_eq_self])
qed

lemma sum_bits: "bit (ucast (i :: u32) + ucast (t :: u32) :: u128) n \<Longrightarrow> n < 33"
proof (erule word_bit_bound [rotated])
  have "unat (ucast i + ucast t :: u128) < 2 ^ 33"
    using ucast_bound(1) [of i] ucast_bound(1) [of t] by (simp add: unat_word_ariths)
  then show "ucast i + ucast t < (2 ^ 33 :: u128)" by (simp add: word_less_nat_alt)
qed

lemma low_bits: "bit (ucast (p :: u16) + (ucast (t :: u32) AND 0xFFFF) :: u128) n \<Longrightarrow> n < 17"
proof (erule word_bit_bound [rotated])
  have "unat (ucast t AND 0xFFFF :: u128) < 2 ^ 16"
    using and_mask_less' [of 16 "ucast t :: u128"] by (simp add: mask_eq_exp_minus_1 word_less_nat_alt)
  then have "unat (ucast p + (ucast t AND 0xFFFF) :: u128) < 2 ^ 17"
    using ucast_bound(2) [of p] by (simp add: unat_word_ariths)
  then show "ucast p + (ucast t AND 0xFFFF) < (2 ^ 17 :: u128)" by (simp add: word_less_nat_alt)
qed

lemma mask32: "(0xFFFFFFFF :: u128) = mask 32" by (simp add: mask_eq_exp_minus_1)
lemma mask24: "(0xFFFFFF :: u128) = mask 24" by (simp add: mask_eq_exp_minus_1)
lemma mask16: "(0xFFFF :: u128) = mask 16" by (simp add: mask_eq_exp_minus_1)

lemma mangled_time: "drop_bit 17 (mangled t i p) AND 0xFFFFFFFF = ucast t"
proof (rule bit_eqI)
  fix n
  show "bit (drop_bit 17 (mangled t i p) AND 0xFFFFFFFF) n = bit (ucast t :: u128) n"
    unfolding mangled_def Let_def mask32
    by (auto simp: bit_simps ucast_bits32 dest: low_bits bit_imp_le_length)
qed

lemma mangled_ip: "drop_bit 49 (mangled t i p) = ucast i + ucast t"
proof (rule bit_eqI)
  fix n
  show "bit (drop_bit 49 (mangled t i p)) n = bit (ucast i + ucast t :: u128) n"
    unfolding mangled_def Let_def
    by (auto simp: bit_simps ucast_bits32 dest: low_bits sum_bits bit_imp_le_length)
qed

lemma mangled_port: "(ucast (mangled t i p AND 0xFFFFFF) :: u16) = p + ucast (ucast t AND 0xFFFF :: u128)"
proof -
  have "(ucast (mangled t i p AND 0xFFFFFF) :: u16) = ucast (ucast p + (ucast t AND 0xFFFF) :: u128)"
  proof (rule bit_eqI)
    fix n
    show "bit (ucast (mangled t i p AND 0xFFFFFF) :: u16) n = bit (ucast (ucast p + (ucast t AND 0xFFFF) :: u128) :: u16) n"
      unfolding mangled_def Let_def mask24 by (auto simp: bit_simps)
  qed
  also have "\<dots> = p + ucast (ucast t AND 0xFFFF :: u128)"
    by (simp add: ucast_down_add)
  finally show ?thesis .
qed

lemma unmangle_mangled: "unmangle (mangled t i p) = (i, p)"
proof -
  have "(ucast ((mangled t i p AND 0xFFFFFF) - (ucast t AND 0xFFFF)) :: u16) = p"
    by (simp add: ucast_down_diff mangled_port)
  then show ?thesis by (simp add: unmangle_def mangled_time mangled_ip Let_def)
qed


lemma trim_zeros_padded:
  assumes "length bs = 16"
  shows "trim_zeros bs @ replicate (16 - length (trim_zeros bs)) 0 = bs"
proof -
  let ?z = "takeWhile (\<lambda>b. b = 0) (rev bs)"
  have z: "rev ?z = replicate (length ?z) 0" "length ?z \<le> 16"
    using set_takeWhileD [of _ "\<lambda>b. b = 0" "rev bs"] assms length_takeWhile_le [of "\<lambda>b. b = 0" "rev bs"]
    by (auto simp: rev_swap intro!: replicate_eqI)
  have "bs = rev (dropWhile (\<lambda>b. b = 0) (rev bs)) @ rev ?z"
    by (metis rev_append rev_rev_ident takeWhile_dropWhile_id)
  moreover have "rev (dropWhile (\<lambda>b. b = 0) (rev bs)) = trim_zeros bs"
    unfolding trim_zeros_def using assms by (simp add: dropWhile_eq_drop rev_drop)
  moreover have "16 - length (trim_zeros bs) = length ?z"
    using assms z(2) by (simp add: trim_zeros_def)
  ultimately show ?thesis using z(1) by simp
qed

lemma length_trim_zeros: "length bs = 16 \<Longrightarrow> length (trim_zeros bs) \<le> 16"
  by (simp add: trim_zeros_def)

lemma try_into_v4_cases:
  assumes "try_into_v4 x = SockV6 o6 port"
  shows "x = SockV6 o6 port"
  using assms by (cases x) (auto split: if_splits option.splits)

text \<open>
  C39: Decoding an encoded socket address gives the address back, whatever the clock was when it was encoded: every IPv4
  address with its port, and every IPv6 address, where one that carries an IPv4 address is turned into it. The sums of
  the address and the port with the time lose no bit, and cutting the zero bytes off the end loses nothing.
\<close>

theorem addr_mangle_roundtrip:
  assumes "valid_addr x"
  shows "decode (encode tm x) = try_into_v4 x"
proof (cases "try_into_v4 x")
  case (SockV4 a b c d port)
  let ?bs = "to_le_bytes 16 (mangled tm (from_le_bytes [a, b, c, d]) port)"
  have "from_le_bytes ?bs = mangled tm (from_le_bytes [a, b, c, d]) port"
    by (rule from_le_bytes_to_le_bytes) simp
  moreover have "to_le_bytes 4 (from_le_bytes [a, b, c, d] :: u32) = [a, b, c, d]"
    using to_le_bytes_from_le_bytes [where 'a = 32 and bs = "[a, b, c, d]"] by (simp add: numeral_eq_Suc)
  ultimately show ?thesis
    using SockV4 length_trim_zeros [of ?bs]
    by (simp add: encode_def decode_def trim_zeros_padded unmangle_mangled)
next
  case (SockV6 o6 port)
  then have "length o6 = 16" using assms try_into_v4_cases by fastforce
  moreover have "from_le_bytes (to_le_bytes 2 port) = port" by (rule from_le_bytes_to_le_bytes) simp
  ultimately show ?thesis using SockV6 by (simp add: encode_def decode_def)
qed

theorem addr_mangle_roundtrip_witness:
  "valid_addr (SockV6 (replicate 10 0 @ [0xFF, 0xFF, 192, 168, 1, 7]) 21118)
   \<and> decode (encode 0xFFFFFFFF (SockV6 (replicate 10 0 @ [0xFF, 0xFF, 192, 168, 1, 7]) 21118))
       = SockV4 192 168 1 7 21118"
proof -
  have "try_into_v4 (SockV6 (replicate 10 0 @ [0xFF, 0xFF, 192, 168, 1, 7]) 21118) = SockV4 192 168 1 7 21118"
    by (simp add: numeral_eq_Suc is_loopback_def to_ipv4_def)
  then show ?thesis
    using addr_mangle_roundtrip [where tm = "0xFFFFFFFF" and x = "SockV6 (replicate 10 0 @ [0xFF, 0xFF, 192, 168, 1, 7]) 21118"] by simp
qed

end
