(* ===== verification/Terminal_Buffer.thy ===== *)
theory Terminal_Buffer
  imports Prelude "HOL-Library.Sublist"
begin

unbundle bit_operations_syntax

text \<open>
  The output history of a terminal (\<open>OutputBuffer\<close> of \<open>src/server/terminal_service.rs\<close>): the lines a shell has printed, kept for a
  viewer that reconnects. The size is counted in a 64-bit number whose subtraction wraps, as in a release build. The loop that
  drops old lines may not end, so \<open>append\<close> yields \<open>None\<close> when it does not return.
\<close>

section \<open>The buffer\<close>

definition MAX_OUTPUT_BUFFER_SIZE :: usize where "MAX_OUTPUT_BUFFER_SIZE = 1024 * 1024"
definition MAX_BUFFER_LINES :: nat where "MAX_BUFFER_LINES = 10000"

record OutputBuffer =
  lines :: "bytes list"
  total_size :: usize
  last_line_incomplete :: bool

definition buffer_new :: OutputBuffer where
  "buffer_new = \<lparr>lines = [], total_size = 0, last_line_incomplete = False\<rparr>"

definition NL :: u8 where "NL = 10"

definition push_line :: "bytes \<Rightarrow> OutputBuffer \<Rightarrow> OutputBuffer" where
  "push_line l b = b\<lparr>total_size := total_size b + of_nat (length l), lines := lines b @ [l]\<rparr>"

fun push_lines :: "bool \<Rightarrow> bytes list \<Rightarrow> OutputBuffer \<Rightarrow> OutputBuffer" where
  "push_lines e [] b = b"
| "push_lines e [l] b =
     (let b1 = (if \<not> e \<and> l \<noteq> [] then b\<lparr>last_line_incomplete := True\<rparr> else b)
      in if l \<noteq> [] then push_line (if e then l @ [NL] else l) b1 else b1)"
| "push_lines e (l # l' # ls) b = push_lines e (l' # ls) (push_line (l @ [NL]) b)"

partial_function (option) trim_buffer :: "OutputBuffer \<Rightarrow> OutputBuffer option" where
  "trim_buffer b =
     (if total_size b > MAX_OUTPUT_BUFFER_SIZE \<or> length (lines b) > MAX_BUFFER_LINES then
        (case lines b of
           [] \<Rightarrow> trim_buffer b
         | l # ls \<Rightarrow> trim_buffer (b\<lparr>lines := ls, total_size := total_size b - of_nat (length l)\<rparr>))
      else Some b)"

definition append_lines :: "OutputBuffer \<Rightarrow> bytes \<Rightarrow> OutputBuffer option" where
  "append_lines b remaining =
     trim_buffer (push_lines (remaining \<noteq> [] \<and> last remaining = NL) (split_on NL remaining) b)"

definition extend_last :: "bytes \<Rightarrow> bytes list \<Rightarrow> bytes list" where
  "extend_last d ls = butlast ls @ [last ls @ d]"

definition append_buffer :: "OutputBuffer \<Rightarrow> bytes \<Rightarrow> OutputBuffer option" where
  "append_buffer b data =
     (if data = [] then Some b
      else if last_line_incomplete b \<and> lines b \<noteq> [] then
        (if NL \<in> set data then
           (let n = length (takeWhile (\<lambda>x. x \<noteq> NL) data)
            in append_lines (b\<lparr>lines := extend_last (take (n + 1) data) (lines b), last_line_incomplete := False\<rparr>)
                 (drop (n + 1) data))
         else Some (b\<lparr>lines := extend_last data (lines b), total_size := total_size b + of_nat (length data)\<rparr>))
      else append_lines b data)"

fun align_utf8 :: "nat \<Rightarrow> bytes \<Rightarrow> nat \<Rightarrow> nat" where
  "align_utf8 0 l offset = offset"
| "align_utf8 (Suc k) l offset =
     (if offset < length l \<and> (l ! offset) AND 0xC0 = 0x80 then align_utf8 k l (offset + 1) else offset)"

fun recent_chunks :: "nat \<Rightarrow> bytes list \<Rightarrow> nat \<Rightarrow> bytes list" where
  "recent_chunks m [] sz = []"
| "recent_chunks m (l # ls) sz =
     (if sz + length l > m then
        (if sz = 0 \<and> length l > m then
           (let offset = align_utf8 3 l (length l - m) in if offset < length l then [drop offset l] else [])
         else [])
      else l # recent_chunks m ls (sz + length l))"

definition get_recent :: "OutputBuffer \<Rightarrow> nat \<Rightarrow> bytes" where
  "get_recent b m = (if m = 0 then [] else concat (rev (recent_chunks m (rev (lines b)) 0)))"

section \<open>The loop that drops old lines\<close>

lemma trim_buffer_done:
  "total_size b \<le> MAX_OUTPUT_BUFFER_SIZE \<Longrightarrow> length (lines b) \<le> MAX_BUFFER_LINES \<Longrightarrow> trim_buffer b = Some b"
  by (subst trim_buffer.simps) (simp add: leD)

lemma trim_buffer_step:
  "total_size b > MAX_OUTPUT_BUFFER_SIZE \<or> length (lines b) > MAX_BUFFER_LINES \<Longrightarrow> lines b = l # ls \<Longrightarrow>
   trim_buffer b = trim_buffer (b\<lparr>lines := ls, total_size := total_size b - of_nat (length l)\<rparr>)"
  by (subst trim_buffer.simps) simp

lemma trim_buffer_result:
  assumes "trim_buffer b = Some b'"
  shows "total_size b' \<le> MAX_OUTPUT_BUFFER_SIZE \<and> length (lines b') \<le> MAX_BUFFER_LINES \<and>
     last_line_incomplete b' = last_line_incomplete b \<and> (\<exists>old. lines b = old @ lines b')"
proof (rule trim_buffer.raw_induct [OF _ assms])
  fix trim b b'
  assume IH: "\<And>b b'. trim b = Some b' \<Longrightarrow> total_size b' \<le> MAX_OUTPUT_BUFFER_SIZE \<and> length (lines b') \<le> MAX_BUFFER_LINES \<and>
      last_line_incomplete b' = last_line_incomplete b \<and> (\<exists>old. lines b = old @ lines b')"
    and step: "(if total_size b > MAX_OUTPUT_BUFFER_SIZE \<or> length (lines b) > MAX_BUFFER_LINES then
        (case lines b of [] \<Rightarrow> trim b | l # ls \<Rightarrow> trim (b\<lparr>lines := ls, total_size := total_size b - of_nat (length l)\<rparr>))
      else Some b) = Some b'"
  show "total_size b' \<le> MAX_OUTPUT_BUFFER_SIZE \<and> length (lines b') \<le> MAX_BUFFER_LINES \<and>
      last_line_incomplete b' = last_line_incomplete b \<and> (\<exists>old. lines b = old @ lines b')"
  proof (cases "total_size b > MAX_OUTPUT_BUFFER_SIZE \<or> length (lines b) > MAX_BUFFER_LINES")
    case True
    then show ?thesis
    proof (cases "lines b")
      case Nil
      then have "trim b = Some b'" using step True by simp
      then show ?thesis by (rule IH)
    next
      case (Cons l ls)
      then have "trim (b\<lparr>lines := ls, total_size := total_size b - of_nat (length l)\<rparr>) = Some b'"
        using step True by (simp only: if_True list.case)
      from IH [OF this] Cons show ?thesis by auto
    qed
  next
    case False
    then show ?thesis using step by auto
  qed
qed

text \<open>With no line left and a count that is still too large the loop never ends.\<close>

lemma trim_buffer_hangs:
  assumes "lines b = []" and "total_size b > MAX_OUTPUT_BUFFER_SIZE"
  shows "trim_buffer b = None"
proof (cases "trim_buffer b")
  case (Some b')
  have "lines b = [] \<and> total_size b > MAX_OUTPUT_BUFFER_SIZE \<longrightarrow> False"
  proof (rule trim_buffer.raw_induct [OF _ Some, where P = "\<lambda>b _. lines b = [] \<and> total_size b > MAX_OUTPUT_BUFFER_SIZE \<longrightarrow> False"])
    fix trim b b'
    assume IH: "\<And>b b'. trim b = Some b' \<Longrightarrow> lines b = [] \<and> total_size b > MAX_OUTPUT_BUFFER_SIZE \<longrightarrow> False"
      and step: "(if total_size b > MAX_OUTPUT_BUFFER_SIZE \<or> length (lines b) > MAX_BUFFER_LINES then
          (case lines b of [] \<Rightarrow> trim b | l # ls \<Rightarrow> trim (b\<lparr>lines := ls, total_size := total_size b - of_nat (length l)\<rparr>))
        else Some b) = Some b'"
    show "lines b = [] \<and> total_size b > MAX_OUTPUT_BUFFER_SIZE \<longrightarrow> False"
    proof
      assume a: "lines b = [] \<and> total_size b > MAX_OUTPUT_BUFFER_SIZE"
      then have "trim b = Some b'" using step by simp
      from IH [OF this] a show False by blast
    qed
  qed
  with assms show ?thesis by blast
qed

section \<open>The history is the end of the output\<close>

fun join_lines :: "bytes list \<Rightarrow> bytes" where
  "join_lines [] = []"
| "join_lines [l] = l"
| "join_lines (l # l' # ls) = l @ NL # join_lines (l' # ls)"

lemma split_on_not_Nil [simp]: "split_on c xs \<noteq> []"
  by (induction xs) (auto split: list.splits)

lemma join_split: "join_lines (split_on NL d) = d"
proof (induction d)
  case (Cons x d)
  obtain l ls where s: "split_on NL d = l # ls" by (cases "split_on NL d") auto
  with Cons show ?case by (cases ls) auto
qed simp

lemma last_split: "d \<noteq> [] \<Longrightarrow> last d = NL \<Longrightarrow> last (split_on NL d) = []"
proof (induction d)
  case (Cons x d)
  obtain l ls where s: "split_on NL d = l # ls" by (cases "split_on NL d") auto
  with Cons join_split [of d] show ?case by (cases "d = []") (auto split: if_splits)
qed simp

lemma concat_push_lines:
  "ls \<noteq> [] \<Longrightarrow> (e \<Longrightarrow> last ls = []) \<Longrightarrow> concat (lines (push_lines e ls b)) = concat (lines b) @ join_lines ls"
  by (induction e ls b rule: push_lines.induct) (auto simp: push_line_def Let_def)

lemma concat_append_lines:
  assumes "append_lines b d = Some b'"
  shows "\<exists>old. concat (lines b) @ d = old @ concat (lines b')"
proof -
  let ?e = "d \<noteq> [] \<and> last d = NL"
  have "concat (lines (push_lines ?e (split_on NL d) b)) = concat (lines b) @ d"
    using last_split [of d] by (simp add: concat_push_lines join_split)
  moreover obtain old where "lines (push_lines ?e (split_on NL d) b) = old @ lines b'"
    using trim_buffer_result [OF assms [unfolded append_lines_def]] by blast
  ultimately show ?thesis by (metis concat_append)
qed

lemma concat_extend_last: "ls \<noteq> [] \<Longrightarrow> concat (extend_last d ls) = concat ls @ d"
proof -
  assume "ls \<noteq> []"
  then have "concat ls = concat (butlast ls) @ last ls" by (metis append_butlast_last_id concat_append concat.simps append_Nil2)
  then show ?thesis by (simp add: extend_last_def)
qed

text \<open>
  What is kept of the output of a terminal is always its end: no byte in between is lost, doubled or moved.
\<close>

lemma append_buffer_suffix:
  assumes "append_buffer b data = Some b'"
  shows "suffix (concat (lines b')) (concat (lines b) @ data)"
proof (cases "data \<noteq> [] \<and> last_line_incomplete b \<and> lines b \<noteq> []")
  case True
  let ?n = "length (takeWhile (\<lambda>x. x \<noteq> NL) data) + 1"
  show ?thesis
  proof (cases "NL \<in> set data")
    case nl: True
    then obtain old where "concat (extend_last (take ?n data) (lines b)) @ drop ?n data = old @ concat (lines b')"
      using assms True concat_append_lines [of _ "drop ?n data" b'] by (fastforce simp: append_buffer_def Let_def)
    then show ?thesis using True by (auto simp: concat_extend_last suffix_def)
  next
    case False
    then show ?thesis using assms True by (auto simp: append_buffer_def concat_extend_last)
  qed
next
  case False
  then show ?thesis using assms concat_append_lines [of b data b']
    by (auto simp: append_buffer_def suffix_def split: if_splits)
qed

section \<open>The size of the history\<close>

definition exact :: "OutputBuffer \<Rightarrow> bool" where
  "exact b \<longleftrightarrow> total_size b = of_nat (length (concat (lines b)))"

lemma exact_push_lines: "exact b \<Longrightarrow> exact (push_lines e ls b)"
  by (induction e ls b rule: push_lines.induct) (auto simp: exact_def push_line_def Let_def ac_simps)

lemma incomplete_push_lines: "e \<Longrightarrow> last_line_incomplete (push_lines e ls b) = last_line_incomplete b"
  by (induction e ls b rule: push_lines.induct) (auto simp: push_line_def Let_def)

lemma trim_exact: "exact b \<Longrightarrow> \<exists>b'. trim_buffer b = Some b' \<and> exact b'"
proof (induction "lines b" arbitrary: b)
  case Nil
  then have "total_size b = 0" by (simp add: exact_def)
  then show ?case using Nil trim_buffer_done [of b] by auto
next
  case (Cons l ls)
  show ?case
  proof (cases "total_size b > MAX_OUTPUT_BUFFER_SIZE \<or> length (lines b) > MAX_BUFFER_LINES")
    case True
    let ?b = "b\<lparr>lines := ls, total_size := total_size b - of_nat (length l)\<rparr>"
    have "exact ?b" using Cons.prems Cons.hyps(2) [symmetric] by (simp add: exact_def)
    then have "\<exists>b'. trim_buffer ?b = Some b' \<and> exact b'" using Cons.hyps(1) [of ?b] by simp
    then show ?thesis using trim_buffer_step [OF True Cons.hyps(2) [symmetric]] by simp
  next
    case False
    then show ?thesis using Cons.prems trim_buffer_done [of b] by (auto simp: not_less)
  qed
qed

text \<open>
  The history of whole lines is bounded. While the output comes in whole lines, appending always returns, the count is the
  number of bytes held, and at most 1 MB in at most 10000 lines are held.
\<close>

theorem history_bounded:
  assumes "exact b" and "\<not> last_line_incomplete b" and "data \<noteq> []" and "last data = NL"
    and "length (concat (lines b)) + length data < 2 ^ 64"
  shows "\<exists>b'. append_buffer b data = Some b' \<and> exact b' \<and> \<not> last_line_incomplete b' \<and>
    length (concat (lines b')) \<le> 1024 * 1024 \<and> length (lines b') \<le> 10000"
proof -
  let ?p = "push_lines True (split_on NL data) b"
  have a: "append_buffer b data = trim_buffer ?p" using assms(2-4) by (simp add: append_buffer_def append_lines_def)
  obtain b' where b': "trim_buffer ?p = Some b'" "exact b'" using trim_exact [OF exact_push_lines [OF assms(1)]] by blast
  note r = trim_buffer_result [OF b'(1)]
  have "suffix (concat (lines b')) (concat (lines b) @ data)" using append_buffer_suffix a b'(1) by simp
  then have "length (concat (lines b')) < 2 ^ 64" using assms(5) suffix_length_le by fastforce
  moreover have "of_nat (length (concat (lines b'))) \<le> MAX_OUTPUT_BUFFER_SIZE" using r b'(2) by (simp add: exact_def)
  ultimately have "length (concat (lines b')) \<le> 1024 * 1024"
    by (simp add: word_le_nat_alt MAX_OUTPUT_BUFFER_SIZE_def unat_of_nat)
  then show ?thesis using a b' r assms(2) by (simp add: incomplete_push_lines MAX_BUFFER_LINES_def)
qed


theorem history_bounded_witness:
  "\<exists>b'. append_buffer buffer_new [104, 105, NL] = Some b' \<and> exact b' \<and> \<not> last_line_incomplete b' \<and>
    length (concat (lines b')) \<le> 1024 * 1024 \<and> length (lines b') \<le> 10000"
  by (rule history_bounded) (simp_all add: exact_def buffer_new_def)

section \<open>A count that falls behind\<close>

fun append_all :: "bytes list \<Rightarrow> OutputBuffer \<Rightarrow> OutputBuffer option" where
  "append_all [] b = Some b"
| "append_all (c # cs) b = (case append_buffer b c of None \<Rightarrow> None | Some b' \<Rightarrow> append_all cs b')"

lemma append_all_append: "append_all (cs @ ds) b = (case append_all cs b of None \<Rightarrow> None | Some b' \<Rightarrow> append_all ds b')"
  by (induction cs arbitrary: b) (auto split: option.splits)

lemma trim_wrapped:
  assumes "0 < k" and "k + length (concat ls) < 2 ^ 63"
  shows "trim_buffer \<lparr>lines = ls, total_size = - of_nat k, last_line_incomplete = i\<rparr> = None"
  using assms
proof (induction ls arbitrary: k)
  have big: "- of_nat k > MAX_OUTPUT_BUFFER_SIZE" if "0 < k" "k < 2 ^ 63" for k
  proof -
    have "(of_nat (2 ^ 64) :: usize) = 0" by (simp add: word_of_nat_eq_0_iff)
    then have "(- of_nat k :: usize) = of_nat (2 ^ 64 - k)" using that by (simp add: of_nat_diff)
    moreover have "unat (of_nat m :: usize) = m" if "m < 2 ^ 64" for m
      using that by (simp add: unat_of_nat take_bit_nat_eq_self)
    then have "unat (of_nat (2 ^ 64 - k) :: usize) = 2 ^ 64 - k" using \<open>0 < k\<close> by (simp del: of_nat_diff)
    ultimately have "unat (- of_nat k :: usize) = 2 ^ 64 - k" by simp
    then show ?thesis using that by (simp add: word_less_nat_alt MAX_OUTPUT_BUFFER_SIZE_def)
  qed
  {
    case Nil
    then show ?case using big [of k] by (simp add: trim_buffer_hangs)
  next
    case (Cons l ls)
    have "trim_buffer \<lparr>lines = ls, total_size = - of_nat (k + length l), last_line_incomplete = i\<rparr> = None"
      using Cons.prems by (intro Cons.IH) auto
    then show ?case using big [of k] Cons.prems
      trim_buffer_step [of "\<lparr>lines = l # ls, total_size = - of_nat k, last_line_incomplete = i\<rparr>" l ls] by simp
  }
qed

definition rest_of_line :: bytes where "rest_of_line = replicate 4095 98 @ [NL]"
definition long_line :: bytes where "long_line = 97 # rest_of_line"
definition line_in_two :: "bytes list" where "line_in_two = [[97], rest_of_line]"

definition long_history :: "nat \<Rightarrow> usize \<Rightarrow> OutputBuffer" where
  "long_history n t = \<lparr>lines = replicate n long_line, total_size = t, last_line_incomplete = False\<rparr>"

lemma rest_of_line_props:
  "NL \<in> set rest_of_line" "rest_of_line \<noteq> []" "length rest_of_line = 4096"
  "Suc (length (takeWhile (\<lambda>x. x \<noteq> NL) rest_of_line)) = length rest_of_line"
  by (simp_all add: rest_of_line_def NL_def takeWhile_append takeWhile_replicate)

lemma append_first:
  "append_buffer (long_history n t) [97] =
     trim_buffer \<lparr>lines = replicate n long_line @ [[97]], total_size = t + 1, last_line_incomplete = True\<rparr>"
  by (simp add: append_buffer_def long_history_def append_lines_def NL_def push_line_def)

lemma append_second:
  assumes "t \<le> MAX_OUTPUT_BUFFER_SIZE" "n < MAX_BUFFER_LINES"
  shows "append_buffer \<lparr>lines = replicate n long_line @ [[97]], total_size = t, last_line_incomplete = True\<rparr>
      rest_of_line = Some (long_history (Suc n) t)"
proof -
  have "append_buffer \<lparr>lines = replicate n long_line @ [[97]], total_size = t, last_line_incomplete = True\<rparr>
      rest_of_line = append_lines (long_history (Suc n) t) []"
    by (simp add: append_buffer_def rest_of_line_props extend_last_def long_history_def replicate_append_same [symmetric] long_line_def)
  also have "\<dots> = trim_buffer (long_history (Suc n) t)" by (simp add: append_lines_def)
  also have "\<dots> = Some (long_history (Suc n) t)"
    using assms by (intro trim_buffer_done) (simp_all add: long_history_def)
  finally show ?thesis .
qed


lemma one_line:
  assumes "t < MAX_OUTPUT_BUFFER_SIZE" "n < MAX_BUFFER_LINES"
  shows "append_all line_in_two (long_history n t) = Some (long_history (Suc n) (t + 1))"
proof -
  have "t + 1 \<le> MAX_OUTPUT_BUFFER_SIZE" using assms(1) by (simp add: inc_le)
  then have "trim_buffer \<lparr>lines = replicate n long_line @ [[97]], total_size = t + 1, last_line_incomplete = True\<rparr> =
      Some \<lparr>lines = replicate n long_line @ [[97]], total_size = t + 1, last_line_incomplete = True\<rparr>"
    using assms(2) by (intro trim_buffer_done) simp_all
  then show ?thesis
    using append_second [OF \<open>t + 1 \<le> _\<close> assms(2)] by (simp add: line_in_two_def append_first)
qed

lemma drop_oldest:
  assumes "MAX_BUFFER_LINES = Suc n"
  shows "trim_buffer \<lparr>lines = replicate (Suc n) long_line @ [[97]], total_size = t + 1, last_line_incomplete = True\<rparr> =
    trim_buffer \<lparr>lines = replicate n long_line @ [[97]], total_size = t - 4096, last_line_incomplete = True\<rparr>"
proof -
  let ?b = "\<lparr>lines = replicate (Suc n) long_line @ [[97]], total_size = t + 1, last_line_incomplete = True\<rparr>"
  have "trim_buffer ?b = trim_buffer (?b\<lparr>lines := replicate n long_line @ [[97]],
      total_size := total_size ?b - of_nat (length long_line)\<rparr>)"
    by (rule trim_buffer_step) (simp add: assms, simp)
  then show ?thesis using rest_of_line_props(3) by (simp add: long_line_def)
qed

lemma full_line:
  assumes "t - 4096 \<le> MAX_OUTPUT_BUFFER_SIZE"
  shows "append_all line_in_two (long_history MAX_BUFFER_LINES t) = Some (long_history MAX_BUFFER_LINES (t - 4096))"
proof -
  obtain n where n: "MAX_BUFFER_LINES = Suc n" by (simp add: MAX_BUFFER_LINES_def)
  have "trim_buffer \<lparr>lines = replicate n long_line @ [[97]], total_size = t - 4096, last_line_incomplete = True\<rparr> =
      Some \<lparr>lines = replicate n long_line @ [[97]], total_size = t - 4096, last_line_incomplete = True\<rparr>"
    using assms n by (intro trim_buffer_done) simp_all
  then show ?thesis
    using append_second [OF assms, of n] drop_oldest [OF n] n by (simp add: line_in_two_def append_first)
qed

lemma first_lines: "n \<le> MAX_BUFFER_LINES \<Longrightarrow> append_all (concat (replicate n line_in_two)) buffer_new = Some (long_history n (of_nat n))"
proof (induction n)
  case 0
  then show ?case by (simp add: buffer_new_def long_history_def)
next
  case (Suc n)
  have "(of_nat n :: usize) < MAX_OUTPUT_BUFFER_SIZE"
    using Suc.prems by (simp add: MAX_BUFFER_LINES_def MAX_OUTPUT_BUFFER_SIZE_def word_less_nat_alt unat_of_nat)
  moreover have "concat (replicate (Suc n) line_in_two) = concat (replicate n line_in_two) @ line_in_two"
    by (simp flip: replicate_append_same)
  ultimately show ?case using Suc one_line [of "of_nat n" n] by (simp add: append_all_append ac_simps del: replicate_Suc)
qed


text \<open>
  The count can fall behind, and then the loop never ends. Whenever the end of a line arrives separately from its beginning,
  the bytes up to the newline are kept but not counted; when old lines are dropped they are subtracted in full. After 10003
  lines whose first byte is read alone the count wraps below zero, and appending the next byte does not return.
\<close>

theorem history_append_hangs: "append_all (concat (replicate 10003 line_in_two)) buffer_new = None"
proof -
  let ?t = "10000 :: usize"
  have "append_all (concat (replicate MAX_BUFFER_LINES line_in_two)) buffer_new = Some (long_history MAX_BUFFER_LINES ?t)"
    using first_lines [of MAX_BUFFER_LINES] by (simp add: MAX_BUFFER_LINES_def)
  moreover have "append_all line_in_two (long_history MAX_BUFFER_LINES ?t) = Some (long_history MAX_BUFFER_LINES 5904)"
    "append_all line_in_two (long_history MAX_BUFFER_LINES 5904) = Some (long_history MAX_BUFFER_LINES 1808)"
    using full_line [of ?t] full_line [of 5904] by (simp_all add: MAX_OUTPUT_BUFFER_SIZE_def)
  moreover have "append_all line_in_two (long_history MAX_BUFFER_LINES 1808) = None"
  proof -
    obtain n where n: "MAX_BUFFER_LINES = Suc n" by (simp add: MAX_BUFFER_LINES_def)
    have "length (concat (replicate n long_line @ [[97]])) = n * 4097 + 1"
      using rest_of_line_props(3) by (simp add: length_concat sum_list_replicate long_line_def)
    then have "trim_buffer \<lparr>lines = replicate n long_line @ [[97]], total_size = - of_nat 2288, last_line_incomplete = True\<rparr> = None"
      using n by (intro trim_wrapped) (simp_all add: MAX_BUFFER_LINES_def)
    then show ?thesis using drop_oldest [OF n, of 1808] n by (simp add: line_in_two_def append_first)
  qed
  moreover have "concat (replicate 10003 line_in_two) =
      concat (replicate MAX_BUFFER_LINES line_in_two) @ line_in_two @ line_in_two @ line_in_two"
    unfolding MAX_BUFFER_LINES_def using replicate_add [of 10000 3 line_in_two] by (simp add: numeral_3_eq_3)
  ultimately show ?thesis by (simp add: append_all_append del: concat_replicate_trivial)
qed

section \<open>What a viewer gets back\<close>

lemma align_utf8_ge: "offset \<le> align_utf8 k l offset"
  by (induction k l offset rule: align_utf8.induct) auto

lemma recent_chunks_suffix:
  "suffix (concat (rev (recent_chunks m ls sz))) (concat (rev ls)) \<and> (sz \<le> m \<longrightarrow> sz + length (concat (rev (recent_chunks m ls sz))) \<le> m)"
proof (induction m ls sz rule: recent_chunks.induct)
  case (2 m l ls sz)
  show ?case
  proof (cases "sz + length l > m")
    case True
    have "suffix (drop k l) (concat (rev ls) @ l)" for k by (simp add: suffix_appendI suffix_drop)
    then show ?thesis using True align_utf8_ge [of "length l - m" 3 l] by (auto simp: Let_def)
  next
    case False
    with 2 show ?thesis by (auto simp: suffix_def)
  qed
qed simp

lemma recent_chunks_all: "sz + length (concat ls) \<le> m \<Longrightarrow> recent_chunks m ls sz = ls"
  by (induction m ls sz rule: recent_chunks.induct) auto

text \<open>
  A viewer that reconnects is sent the end of the history: what \<open>get_recent\<close> returns is its last part, is at most as long as
  asked for, and is the whole history when that is not longer.
\<close>

lemma get_recent_suffix: "suffix (get_recent b m) (concat (lines b)) \<and> length (get_recent b m) \<le> m"
  using recent_chunks_suffix [of m "rev (lines b)" 0] by (simp add: get_recent_def)

lemma get_recent_all:
  assumes "length (concat (lines b)) \<le> m"
  shows "get_recent b m = concat (lines b)"
proof (cases "m = 0")
  case True
  then show ?thesis using assms by (simp add: get_recent_def del: length_concat concat_eq_Nil_conv)
next
  case False
  then show ?thesis using assms recent_chunks_all [of 0 "rev (lines b)" m]
    by (simp add: get_recent_def length_concat rev_map [symmetric])
qed

section \<open>What a session relies on\<close>

text \<open>
  The contract of a history: what it holds after an append is the end of what it held and the new bytes, and what it gives back is
  the end of what it holds.
\<close>

locale output_history =
  fixes content :: "'b \<Rightarrow> bytes"
    and append :: "'b \<Rightarrow> bytes \<Rightarrow> 'b option"
    and recent :: "'b \<Rightarrow> nat \<Rightarrow> bytes"
  assumes append_end: "append b d = Some b' \<Longrightarrow> suffix (content b') (content b @ d)"
    and recent_end: "suffix (recent b m) (content b)"
    and recent_bound: "length (recent b m) \<le> m"
begin

lemma append_then:
  assumes "append b d = Some b'" and "suffix x (content b' @ ds)"
  shows "suffix x (content b @ d @ ds)"
proof -
  obtain old where "content b @ d = old @ content b'" using append_end [OF assms(1)] by (auto simp: suffix_def)
  then have "content b @ d @ ds = old @ (content b' @ ds)" by (metis append.assoc)
  then show ?thesis using assms(2) by (metis suffix_appendI)
qed

lemma recent_then: "suffix (recent b m @ ds) (content b @ ds)"
  using recent_end [of b m] by (auto simp: suffix_def)

end

interpretation hist: output_history "\<lambda>b. concat (lines b)" append_buffer get_recent
  by unfold_locales (simp_all add: append_buffer_suffix get_recent_suffix)

end
