(* ===== verification/Terminal_Service.thy ===== *)
theory Terminal_Service
  imports Terminal_Buffer File_Transfer "HOL-Library.AList" "HOL-Library.Multiset"
begin

text \<open>
  The terminals of a host (\<open>src/server/terminal_service.rs\<close>): services that outlive a connection, each with its sessions, and what a
  viewer does with them. The registry \<open>TERMINAL_SERVICES\<close> and the list of processes to reap are the record \<open>Terminals\<close>. A pseudo
  terminal is modelled by what its session sees of it: the bytes in the channel from the reader thread, what was queued for the
  writer, and whether the operating system carries out a request, which is an argument. The helper process of Windows is left
  out. An operation on a session is a critical section; one that does not return yields \<open>None\<close>.
\<close>

section \<open>Data\<close>

definition MAX_SERVICES :: nat where "MAX_SERVICES = 100"
definition SERVICE_IDLE_TIMEOUT :: int where "SERVICE_IDLE_TIMEOUT = 3600"
definition CHANNEL_BUFFER_SIZE :: nat where "CHANNEL_BUFFER_SIZE = 500"
definition COMPRESS_THRESHOLD :: nat where "COMPRESS_THRESHOLD = 512"
definition DEFAULT_RECONNECT_BUFFER_BYTES :: nat where "DEFAULT_RECONNECT_BUFFER_BYTES = 8 * 1024"
definition MAX_SIGWINCH_PHASE_ATTEMPTS :: nat where "MAX_SIGWINCH_PHASE_ATTEMPTS = 3"

datatype SigwinchPhase = Idle | TempResize nat | Restore nat

datatype SigwinchAction = DoTempResize | DoRestore

datatype SessionState = Closed | Active "bytes option" SigwinchPhase

record TerminalSession =
  s_created_at :: int
  s_last_activity :: int
  pty_pair :: bool
  child :: "nat option"
  input_tx :: "bytes list option"
  output_rx :: "bytes list option"
  exiting :: bool
  reader_thread :: bool
  writer_thread :: bool
  output_buffer :: OutputBuffer
  title :: string
  s_pid :: nat
  rows :: u16
  cols :: u16
  closed_message_sent :: bool
  state :: SessionState

record PersistentTerminalService =
  service_id :: string
  sessions :: "(int \<times> TerminalSession) list"
  created_at :: int
  last_activity :: int
  is_persistent :: bool
  needs_session_sync :: bool
  is_specified_user :: bool

record Terminals =
  term_services :: "(string \<times> PersistentTerminalService) list"
  reaper :: "nat list"

record TerminalOpened =
  op_terminal_id :: int
  op_success :: bool
  op_message :: string
  op_pid :: nat
  op_service_id :: string
  persistent_sessions :: "int list"

record TerminalData =
  td_terminal_id :: int
  td_data :: bytes
  td_compressed :: bool

datatype TerminalResponse = RespOpened TerminalOpened | RespData TerminalData | RespClosed int int | RespError string

datatype TerminalAction = OpenTerminal int int int | ResizeTerminal int int int | SendData int bytes | CloseTerminal int | NoAction

section \<open>Sessions\<close>

definition decimal_int :: "int \<Rightarrow> string" where
  "decimal_int i = (if i < 0 then CHR ''-'' # decimal (nat (- i)) else decimal (nat i))"

definition session_new :: "int \<Rightarrow> int \<Rightarrow> u16 \<Rightarrow> u16 \<Rightarrow> TerminalSession" where
  "session_new now i r c =
     \<lparr>s_created_at = now, s_last_activity = now, pty_pair = False, child = None, input_tx = None, output_rx = None,
      exiting = False, reader_thread = False, writer_thread = False, output_buffer = buffer_new, title = ''Terminal '' @ decimal_int i, s_pid = 0,
      rows = r, cols = c, closed_message_sent = False, state = Closed\<rparr>"

text \<open>\<open>stop\<close>, also run when a session is dropped; the process, if any, is killed and left to the reaper.\<close>

definition session_stop :: "bool \<Rightarrow> TerminalSession \<Rightarrow> TerminalSession \<times> nat list" where
  "session_stop drops_pty s =
     (s\<lparr>state := Closed, exiting := True, input_tx := None, output_rx := None,
        pty_pair := (if drops_pty then False else pty_pair s), reader_thread := False, writer_thread := False, child := None\<rparr>,
      case child s of Some p \<Rightarrow> [p] | None \<Rightarrow> [])"

text \<open>The reader thread never waits: a chunk that does not fit into the channel is dropped.\<close>

definition try_send_output :: "bytes \<Rightarrow> TerminalSession \<Rightarrow> TerminalSession" where
  "try_send_output d s =
     s\<lparr>output_rx := map_option (\<lambda>q. if length q < CHANNEL_BUFFER_SIZE then q @ [d] else q) (output_rx s)\<rparr>"

section \<open>Services\<close>

definition service_new :: "int \<Rightarrow> string \<Rightarrow> bool \<Rightarrow> bool \<Rightarrow> PersistentTerminalService" where
  "service_new now sid persistent user =
     \<lparr>service_id = sid, sessions = [], created_at = now, last_activity = now, is_persistent = persistent,
      needs_session_sync = False, is_specified_user = user\<rparr>"

definition reset_status :: "bool \<Rightarrow> PersistentTerminalService \<Rightarrow> PersistentTerminalService" where
  "reset_status persistent svc =
     svc\<lparr>is_persistent := persistent, needs_session_sync := True,
         sessions := map (\<lambda>(i, s). (i, s\<lparr>state := Closed\<rparr>)) (sessions svc)\<rparr>"

definition get_service :: "Terminals \<Rightarrow> string \<Rightarrow> PersistentTerminalService option" where
  "get_service g sid = map_of (term_services g) sid"

definition put_service :: "string \<Rightarrow> PersistentTerminalService \<Rightarrow> Terminals \<Rightarrow> Terminals" where
  "put_service sid svc g = g\<lparr>term_services := AList.update sid svc (term_services g)\<rparr>"

definition get_or_create_service :: "int \<Rightarrow> string \<Rightarrow> bool \<Rightarrow> bool \<Rightarrow> Terminals \<Rightarrow> (string + unit) \<times> Terminals" where
  "get_or_create_service now sid persistent user g =
     (if get_service g sid = None \<and> length (term_services g) \<ge> MAX_SERVICES
      then (Inl ''Maximum number of terminal services (100) reached'', g)
      else
        (let svc = (case get_service g sid of Some svc \<Rightarrow> svc | None \<Rightarrow> service_new now sid persistent user)
         in (Inr (), put_service sid (reset_status persistent svc) g)))"

definition stop_all :: "bool \<Rightarrow> (int \<times> TerminalSession) list \<Rightarrow> nat list" where
  "stop_all drops_pty ss = concat (map (\<lambda>(_, s). snd (session_stop drops_pty s)) ss)"

definition remove_service :: "bool \<Rightarrow> string \<Rightarrow> Terminals \<Rightarrow> Terminals" where
  "remove_service drops_pty sid g =
     (case get_service g sid of
        None \<Rightarrow> g
      | Some svc \<Rightarrow> g\<lparr>term_services := AList.delete sid (term_services g),
                        reaper := reaper g @ stop_all drops_pty (sessions svc)\<rparr>)"

definition inactive :: "int \<Rightarrow> PersistentTerminalService \<Rightarrow> bool" where
  "inactive now svc =
     (if \<not> is_persistent svc \<and> now - last_activity svc > SERVICE_IDLE_TIMEOUT then True
      else is_persistent svc \<and> sessions svc = [] \<and> now - last_activity svc > SERVICE_IDLE_TIMEOUT * 2)"

definition cleanup_inactive_services :: "bool \<Rightarrow> int \<Rightarrow> Terminals \<Rightarrow> Terminals" where
  "cleanup_inactive_services drops_pty now g =
     fold (remove_service drops_pty) (map fst (filter (\<lambda>(_, svc). inactive now svc) (term_services g))) g"

text \<open>\<open>try_wait\<close> of a process: \<open>Some True\<close> when it has exited, \<open>Some False\<close> while it runs, \<open>None\<close> on an error.\<close>

definition check_zombie_terminals :: "(nat \<Rightarrow> bool option) \<Rightarrow> Terminals \<Rightarrow> Terminals" where
  "check_zombie_terminals try_wait g = g\<lparr>reaper := filter (\<lambda>p. try_wait p = Some False) (reaper g)\<rparr>"

definition set_persistent :: "string \<Rightarrow> bool \<Rightarrow> Terminals \<Rightarrow> (string + unit) \<times> Terminals" where
  "set_persistent sid persistent g =
     (case get_service g sid of
        Some svc \<Rightarrow> (Inr (), put_service sid (svc\<lparr>is_persistent := persistent\<rparr>) g)
      | None \<Rightarrow> (Inl (''Service '' @ sid @ '' not found''), g))"

definition on_disconnect :: "bool \<Rightarrow> bool \<Rightarrow> string \<Rightarrow> Terminals \<Rightarrow> Terminals" where
  "on_disconnect drops_pty persistent sid g = (if \<not> persistent then remove_service drops_pty sid g else g)"

definition run_ends :: "bool \<Rightarrow> string \<Rightarrow> Terminals \<Rightarrow> Terminals" where
  "run_ends drops_pty sid g =
     (case get_service g sid of
        Some svc \<Rightarrow> if \<not> is_persistent svc then remove_service drops_pty sid g else g
      | None \<Rightarrow> g)"

section \<open>What a viewer asks for\<close>

definition remap_sessions :: "int \<Rightarrow> bool \<Rightarrow> (int \<times> TerminalSession) list \<Rightarrow> (int \<times> TerminalSession) list" where
  "remap_sessions i sync ss =
     (if map_of ss i = None \<and> sync \<and> ss \<noteq> [] then
        (let lowest = Min (set (map fst ss))
         in case map_of ss lowest of
              Some s \<Rightarrow> AList.update i s (AList.delete lowest ss)
            | None \<Rightarrow> ss)
      else ss)"

definition reconnect :: "TerminalSession \<Rightarrow> TerminalSession" where
  "reconnect s =
     (let buffer = get_recent (output_buffer s) DEFAULT_RECONNECT_BUFFER_BYTES
      in s\<lparr>state := Active (if buffer \<noteq> [] then Some buffer else None) (TempResize MAX_SIGWINCH_PHASE_ATTEMPTS)\<rparr>)"

text \<open>\<open>spawned\<close> is the process of the shell, or the first error on the way to it.\<close>

definition handle_open :: "int \<Rightarrow> string \<Rightarrow> string + nat \<Rightarrow> int \<Rightarrow> int \<Rightarrow> int \<Rightarrow> PersistentTerminalService
    \<Rightarrow> (string + TerminalResponse option) \<times> PersistentTerminalService" where
  "handle_open now sid spawned i r c svc0 =
     (let svc = svc0\<lparr>sessions := remap_sessions i (needs_session_sync svc0) (sessions svc0)\<rparr>
      in case map_of (sessions svc) i of
           Some s \<Rightarrow>
             (Inr (Some (RespOpened
                \<lparr>op_terminal_id = i, op_success = True, op_message = ''Reconnected to existing terminal'', op_pid = s_pid s,
                 op_service_id = sid,
                 persistent_sessions = (if needs_session_sync svc \<and> length (sessions svc) > 1
                   then filter (\<lambda>k. k \<noteq> i) (map fst (sessions svc)) else [])\<rparr>)),
              svc\<lparr>sessions := AList.update i (reconnect s) (sessions svc), needs_session_sync := False\<rparr>)
         | None \<Rightarrow>
             (case spawned of
                Inl e \<Rightarrow> (Inl e, svc)
              | Inr p \<Rightarrow>
                  (let s = (session_new now i (of_int r) (of_int c))\<lparr>s_pid := p, pty_pair := True, child := Some p,
                         input_tx := Some [], output_rx := Some [], reader_thread := True, writer_thread := True,
                         state := Active None Idle\<rparr>
                   in (Inr (Some (RespOpened
                         \<lparr>op_terminal_id = i, op_success = True, op_message = ''Terminal opened'', op_pid = p,
                          op_service_id = service_id svc,
                          persistent_sessions = (if needs_session_sync svc then map fst (sessions svc) else [])\<rparr>)),
                       svc\<lparr>needs_session_sync := False, sessions := AList.update i s (sessions svc)\<rparr>))))"

definition handle_resize :: "int \<Rightarrow> (u16 \<Rightarrow> u16 \<Rightarrow> bool) \<Rightarrow> int \<Rightarrow> int \<Rightarrow> TerminalSession
    \<Rightarrow> (string + TerminalResponse option) \<times> TerminalSession" where
  "handle_resize now resize r c s =
     (let s1 = s\<lparr>s_last_activity := now, rows := of_int r, cols := of_int c\<rparr>
      in (if pty_pair s \<and> \<not> resize (of_int r) (of_int c) then Inl ''resize'' else Inr None, s1))"

text \<open>\<open>listening\<close>: the writer thread still reads from the channel.\<close>

definition handle_data :: "int \<Rightarrow> bool \<Rightarrow> bytes \<Rightarrow> TerminalSession \<Rightarrow> TerminalSession" where
  "handle_data now listening d s =
     s\<lparr>s_last_activity := now, input_tx := (if listening then map_option (\<lambda>q. q @ [d]) (input_tx s) else input_tx s)\<rparr>"

text \<open>The third component lists the processes that are handed to the reaper.\<close>

definition handle_close :: "bool \<Rightarrow> int \<Rightarrow> PersistentTerminalService
    \<Rightarrow> (string + TerminalResponse option) \<times> PersistentTerminalService \<times> nat list" where
  "handle_close kill_ok i svc =
     (case map_of (sessions svc) i of
        None \<Rightarrow> (Inr None, svc, [])
      | Some s \<Rightarrow>
          (let svc1 = svc\<lparr>sessions := AList.delete i (sessions svc)\<rparr>
           in case child s of
                Some p \<Rightarrow> if kill_ok then (Inr (Some (RespClosed i (-1))), svc1, [p]) else (Inl ''kill'', svc1, [])
              | None \<Rightarrow> (Inr (Some (RespClosed i 0)), svc1, [])))"

record OsAnswers =
  os_spawned :: "string + nat"
  os_resize :: "u16 \<Rightarrow> u16 \<Rightarrow> bool"
  os_listening :: bool
  os_kill :: bool

definition handle_action :: "int \<Rightarrow> OsAnswers \<Rightarrow> string \<Rightarrow> TerminalAction \<Rightarrow> Terminals
    \<Rightarrow> (string + TerminalResponse option) \<times> Terminals" where
  "handle_action now a sid act g =
     (case get_service g sid of
        None \<Rightarrow> (Inr (Some (RespError (''Terminal service '' @ sid @ '' not found''))), g)
      | Some svc0 \<Rightarrow>
          (let svc = svc0\<lparr>last_activity := now\<rparr>
           in case act of
                OpenTerminal i r c \<Rightarrow>
                  (let (res, svc1) = handle_open now sid (os_spawned a) i r c svc in (res, put_service sid svc1 g))
              | ResizeTerminal i r c \<Rightarrow>
                  (case map_of (sessions svc) i of
                     Some s \<Rightarrow>
                       (let (res, s1) = handle_resize now (os_resize a) r c s
                        in (res, put_service sid (svc\<lparr>sessions := AList.update i s1 (sessions svc)\<rparr>) g))
                   | None \<Rightarrow> (Inr None, put_service sid svc g))
              | SendData i d \<Rightarrow>
                  (case map_of (sessions svc) i of
                     Some s \<Rightarrow>
                       (Inr None, put_service sid (svc\<lparr>sessions := AList.update i (handle_data now (os_listening a) d s)
                                                          (sessions svc)\<rparr>) g)
                   | None \<Rightarrow> (Inr None, put_service sid svc g))
              | CloseTerminal i \<Rightarrow>
                  (let (res, svc1, ps) = handle_close (os_kill a) i svc
                   in (res, (put_service sid svc1 g)\<lparr>reaper := reaper g @ ps\<rparr>))
              | NoAction \<Rightarrow> (Inr None, put_service sid svc g)))"

definition reader_sends :: "string \<Rightarrow> int \<Rightarrow> bytes \<Rightarrow> Terminals \<Rightarrow> Terminals" where
  "reader_sends sid i d g =
     (case get_service g sid of
        None \<Rightarrow> g
      | Some svc \<Rightarrow>
          (case map_of (sessions svc) i of
             None \<Rightarrow> g
           | Some s \<Rightarrow> put_service sid (svc\<lparr>sessions := AList.update i (try_send_output d s) (sessions svc)\<rparr>) g))"

section \<open>What a viewer is sent\<close>

definition create_terminal_data_response :: "Env \<Rightarrow> int \<Rightarrow> bytes \<Rightarrow> TerminalResponse" where
  "create_terminal_data_response env i d =
     RespData (if length d > COMPRESS_THRESHOLD then
        (let z = compress env d
         in if length z < length d then \<lparr>td_terminal_id = i, td_data = z, td_compressed = True\<rparr>
            else \<lparr>td_terminal_id = i, td_data = d, td_compressed = False\<rparr>)
      else \<lparr>td_terminal_id = i, td_data = d, td_compressed = False\<rparr>)"

fun sigwinch_step :: "SigwinchPhase \<Rightarrow> SigwinchPhase \<times> SigwinchAction option" where
  "sigwinch_step (TempResize r) = (if r = 0 then (Idle, None) else (TempResize (r - 1), Some DoTempResize))"
| "sigwinch_step (Restore r) = (if r = 0 then (Idle, None) else (Restore (r - 1), Some DoRestore))"
| "sigwinch_step Idle = (Idle, None)"

fun sigwinch_rows :: "SigwinchAction \<Rightarrow> u16 \<Rightarrow> u16" where
  "sigwinch_rows DoTempResize r = (if r > 2 then r - 1 else r + 1)"
| "sigwinch_rows DoRestore r = r"

definition do_sigwinch_resize :: "(u16 \<Rightarrow> u16 \<Rightarrow> bool) \<Rightarrow> TerminalSession \<Rightarrow> SigwinchAction \<Rightarrow> bool" where
  "do_sigwinch_resize resize s a =
     (if rows s = 0 \<or> cols s = 0 then False
      else if pty_pair s then resize (sigwinch_rows a (rows s)) (cols s) else False)"

fun sigwinch_done :: "SigwinchAction \<Rightarrow> bool \<Rightarrow> SigwinchPhase \<Rightarrow> SigwinchPhase" where
  "sigwinch_done DoTempResize ok ph = (if ok then Restore MAX_SIGWINCH_PHASE_ATTEMPTS else ph)"
| "sigwinch_done DoRestore ok ph = (if ok then Idle else ph)"

definition sigwinch_turn :: "(SigwinchAction \<Rightarrow> bool) \<Rightarrow> SigwinchPhase \<Rightarrow> SigwinchPhase" where
  "sigwinch_turn resize ph =
     (case sigwinch_step ph of (ph1, None) \<Rightarrow> ph1 | (ph1, Some a) \<Rightarrow> sigwinch_done a (resize a) ph1)"

record ReadAnswers =
  rd_unlocked :: bool
  rd_finished :: bool
  rd_resize :: "u16 \<Rightarrow> u16 \<Rightarrow> bool"

definition read_session :: "Env \<Rightarrow> int \<Rightarrow> ReadAnswers \<Rightarrow> int \<Rightarrow> TerminalSession
    \<Rightarrow> (TerminalSession \<times> TerminalResponse list \<times> bool) option" where
  "read_session env now a i s =
     (if \<not> rd_unlocked a then Some (s, [], False)
      else
        (let closed = (\<not> closed_message_sent s \<and> reader_thread s \<and> rd_finished a);
             s1 = (if closed then s\<lparr>closed_message_sent := True\<rparr> else s);
             received = (case output_rx s1 of Some q \<Rightarrow> q | None \<Rightarrow> []);
             s2 = s1\<lparr>output_rx := map_option (\<lambda>_. []) (output_rx s1),
                     s_last_activity := (if received \<noteq> [] then now else s_last_activity s1)\<rparr>
         in case append_all received (output_buffer s2) of
              None \<Rightarrow> None
            | Some b \<Rightarrow>
                (let s3 = s2\<lparr>output_buffer := b\<rparr>
                 in case state s3 of
                      Closed \<Rightarrow> Some (s3, [], closed)
                    | Active pending ph \<Rightarrow>
                        (let first = (case pending of
                               Some d \<Rightarrow> if d \<noteq> [] then [create_terminal_data_response env i d] else []
                             | None \<Rightarrow> [])
                         in Some (s3\<lparr>state := Active None (sigwinch_turn (do_sigwinch_resize (rd_resize a) s3) ph)\<rparr>,
                                  first @ map (create_terminal_data_response env i) received, closed)))))"

fun read_sessions :: "Env \<Rightarrow> int \<Rightarrow> (int \<Rightarrow> ReadAnswers) \<Rightarrow> (int \<times> TerminalSession) list
    \<Rightarrow> ((int \<times> TerminalSession) list \<times> TerminalResponse list \<times> int list) option" where
  "read_sessions env now a [] = Some ([], [], [])"
| "read_sessions env now a ((i, s) # ss) =
     (case read_session env now (a i) i s of
        None \<Rightarrow> None
      | Some (s', rs, closed) \<Rightarrow>
          (case read_sessions env now a ss of
             None \<Rightarrow> None
           | Some (ss', rs', cs) \<Rightarrow> Some ((i, s') # ss', rs @ rs', (if closed then [i] else []) @ cs)))"

definition close_finished :: "bool \<Rightarrow> (nat \<Rightarrow> int option) \<Rightarrow> int \<Rightarrow>
    (int \<times> TerminalSession) list \<times> nat list \<times> TerminalResponse list \<Rightarrow>
    (int \<times> TerminalSession) list \<times> nat list \<times> TerminalResponse list" where
  "close_finished persistent exit_status i acc =
     (case acc of (ss, reap, rs) \<Rightarrow>
        (case map_of ss i of
           None \<Rightarrow> (ss, reap, rs @ [RespClosed i 0])
         | Some s \<Rightarrow>
             (let code = (case child s of
                    Some p \<Rightarrow> (case exit_status p of Some e \<Rightarrow> e | None \<Rightarrow> 0) | None \<Rightarrow> 0)
              in (if persistent then AList.update i (s\<lparr>child := None\<rparr>) ss else AList.delete i ss,
                  reap @ (case child s of Some p \<Rightarrow> [p] | None \<Rightarrow> []), rs @ [RespClosed i code]))))"

definition read_outputs :: "Env \<Rightarrow> int \<Rightarrow> (int \<Rightarrow> ReadAnswers) \<Rightarrow> (nat \<Rightarrow> int option) \<Rightarrow> bool \<Rightarrow> string \<Rightarrow> Terminals
    \<Rightarrow> (TerminalResponse list \<times> Terminals) option" where
  "read_outputs env now a exit_status persistent sid g =
     (case get_service g sid of
        None \<Rightarrow> Some ([], g)
      | Some svc \<Rightarrow>
          (case read_sessions env now a (sessions svc) of
             None \<Rightarrow> None
           | Some (ss, rs, closed) \<Rightarrow>
               (case fold (close_finished persistent exit_status) closed (ss, [], rs) of
                  (ss1, reap, rs1) \<Rightarrow>
                    Some (rs1, (put_service sid (svc\<lparr>sessions := ss1\<rparr>) g)\<lparr>reaper := reaper g @ reap\<rparr>))))"

section \<open>Output and reconnection\<close>

fun viewer_bytes :: "Env \<Rightarrow> TerminalResponse \<Rightarrow> bytes" where
  "viewer_bytes env (RespData d) = (if td_compressed d then decompress env (td_data d) else td_data d)"
| "viewer_bytes env _ = []"

lemma viewer_bytes_data: "zstd_ok env \<Longrightarrow> viewer_bytes env (create_terminal_data_response env i d) = d"
proof -
  assume "zstd_ok env"
  then obtain z where "zstd_compress env d = Some z" "zstd_decode env z = Some d" unfolding zstd_ok_def by blast
  then show ?thesis by (simp add: create_terminal_data_response_def compress_def decompress_def Let_def)
qed

lemma viewer_bytes_map: "zstd_ok env \<Longrightarrow> concat (map (viewer_bytes env \<circ> create_terminal_data_response env i) ds) = concat ds"
  by (induction ds) (simp_all add: viewer_bytes_data)

lemma append_all_suffix: "append_all ds b = Some b' \<Longrightarrow> suffix (concat (lines b')) (concat (lines b) @ concat ds)"
proof (induction ds arbitrary: b)
  case (Cons d ds)
  then obtain b1 where b1: "append_buffer b d = Some b1" "append_all ds b1 = Some b'" by (auto split: option.splits)
  then show ?case using hist.append_then [OF b1(1) Cons.IH [OF b1(2)]] by simp
qed simp


section \<open>Making a program redraw\<close>

text \<open>How many reads a phase can still take.\<close>

fun phase_left :: "SigwinchPhase \<Rightarrow> nat" where
  "phase_left Idle = 0"
| "phase_left (TempResize r) = (if r = 0 then 1 else r + 4)"
| "phase_left (Restore r) = r + 1"

lemma sigwinch_turn_Idle [simp]: "sigwinch_turn f Idle = Idle"
  by (simp add: sigwinch_turn_def)

lemma phase_left_turn: "ph \<noteq> Idle \<Longrightarrow> phase_left (sigwinch_turn f ph) < phase_left ph"
  by (cases ph) (auto simp: sigwinch_turn_def MAX_SIGWINCH_PHASE_ATTEMPTS_def)

lemma fold_turn_Idle: "fold sigwinch_turn fs Idle = Idle"
  by (induction fs) simp_all

lemma phase_ends: "phase_left ph \<le> length fs \<Longrightarrow> fold sigwinch_turn fs ph = Idle"
proof (induction fs arbitrary: ph)
  case Nil
  then show ?case by (cases ph) (auto split: if_splits)
next
  case (Cons f fs)
  show ?case
  proof (cases "ph = Idle")
    case True
    then show ?thesis by (simp add: fold_turn_Idle)
  next
    case False
    with phase_left_turn [OF False, of f] Cons.prems have "phase_left (sigwinch_turn f ph) \<le> length fs" by simp
    then show ?thesis using Cons.IH by simp
  qed
qed

lemma read_session_phase:
  assumes "read_session env now a i s = Some (s', rs, closed)" and "rd_unlocked a" and "state s = Active p ph"
  shows "\<exists>f. state s' = Active None (sigwinch_turn f ph)"
  using assms by (auto simp: read_session_def Let_def split: option.splits if_splits)

text \<open>Successive reads of one session.\<close>

fun read_often :: "Env \<Rightarrow> int \<Rightarrow> (int \<times> ReadAnswers) list \<Rightarrow> TerminalSession \<Rightarrow> TerminalSession option" where
  "read_often env i [] s = Some s"
| "read_often env i ((now, a) # as) s =
     (case read_session env now a i s of None \<Rightarrow> None | Some (s', _, _) \<Rightarrow> read_often env i as s')"

lemma read_often_phase:
  "read_often env i as s = Some s' \<Longrightarrow> state s = Active p ph \<Longrightarrow> list_all (rd_unlocked \<circ> snd) as \<Longrightarrow>
   \<exists>fs p'. length fs = length as \<and> state s' = Active p' (fold sigwinch_turn fs ph)"
proof (induction as arbitrary: s p ph)
  case Nil
  then show ?case by simp
next
  case (Cons x as)
  obtain now a where x: "x = (now, a)" by (cases x)
  obtain s1 rs c where r: "read_session env now a i s = Some (s1, rs, c)" "read_often env i as s1 = Some s'"
    using Cons.prems(1) by (auto simp: x split: option.splits)
  obtain f where f: "state s1 = Active None (sigwinch_turn f ph)"
    using read_session_phase [OF r(1) _ Cons.prems(2)] Cons.prems(3) x by auto
  obtain fs p' where "length fs = length as" "state s' = Active p' (fold sigwinch_turn fs (sigwinch_turn f ph))"
    using Cons.IH [OF r(2) f] Cons.prems(3) by auto
  then show ?case by (intro exI [of _ "f # fs"] exI [of _ p']) simp
qed

text \<open>
  Making a program redraw after a reconnection ends. Whatever the operating system answers to the changes of size, after
  seven reads of a reconnected session no further change is attempted, and the terminal streams on.
\<close>

theorem redraw_ends:
  assumes "read_often env i as (reconnect s) = Some s'" and "list_all (rd_unlocked \<circ> snd) as" and "7 \<le> length as"
  shows "\<exists>p. state s' = Active p Idle"
proof -
  obtain p where "state (reconnect s) = Active p (TempResize 3)" by (simp add: reconnect_def Let_def MAX_SIGWINCH_PHASE_ATTEMPTS_def)
  from read_often_phase [OF assms(1) this assms(2)] obtain fs p' where
    "length fs = length as" "state s' = Active p' (fold sigwinch_turn fs (TempResize 3))" by blast
  with assms(3) show ?thesis using phase_ends [of "TempResize 3" fs] by simp
qed

definition example_session :: TerminalSession where
  "example_session = (session_new 0 1 24 80)\<lparr>output_rx := Some [], pty_pair := True, child := Some 7, reader_thread := True\<rparr>"

definition refusing :: ReadAnswers where
  "refusing = \<lparr>rd_unlocked = True, rd_finished = False, rd_resize = (\<lambda>_ _. False)\<rparr>"

definition example_zstd :: Env where
  "example_zstd = \<lparr>zstd_compress = Some, zstd_decode = Some, digest_to_json = (\<lambda>_. []), digest_from_json = (\<lambda>_. None)\<rparr>"

lemma example_read:
  "read_session example_zstd 0 refusing 1 (example_session\<lparr>state := st\<rparr>) =
     Some (example_session\<lparr>state := (case st of Closed \<Rightarrow> Closed | Active p ph \<Rightarrow> Active None (sigwinch_turn (\<lambda>_. False) ph))\<rparr>,
       (case st of Active (Some d) ph \<Rightarrow> if d \<noteq> [] then [create_terminal_data_response example_zstd 1 d] else [] | _ \<Rightarrow> []), False)"
proof -
  have "do_sigwinch_resize (\<lambda>_ _. False) s = (\<lambda>_. False)" for s by (simp add: fun_eq_iff do_sigwinch_resize_def)
  then show ?thesis
    by (cases st) (simp_all add: read_session_def refusing_def example_session_def session_new_def Let_def split: option.splits)
qed

theorem redraw_ends_witness:
  "\<exists>s'. read_often example_zstd 1 (replicate 7 (0, refusing)) (reconnect example_session) = Some s' \<and> (\<exists>p. state s' = Active p Idle)"
proof -
  have "reconnect example_session = example_session\<lparr>state := Active None (TempResize 3)\<rparr>"
    by (simp add: reconnect_def example_session_def session_new_def get_recent_def buffer_new_def MAX_SIGWINCH_PHASE_ATTEMPTS_def Let_def)
  then obtain s' where "read_often example_zstd 1 (replicate 7 (0, refusing)) (reconnect example_session) = Some s'"
    by (simp add: numeral_eq_Suc example_read)
  moreover have "list_all (rd_unlocked \<circ> snd) (replicate 7 (0, refusing))" by (simp add: list_all_iff refusing_def)
  ultimately show ?thesis using redraw_ends [of example_zstd 1 "replicate 7 (0, refusing)" example_session s'] by simp
qed


section \<open>Every shell is accounted for\<close>

text \<open>The processes that the values of a table own.\<close>

definition table_total :: "('v \<Rightarrow> nat multiset) \<Rightarrow> ('k \<times> 'v) list \<Rightarrow> nat multiset" where
  "table_total w al = sum_list (map (w \<circ> snd) al)"

definition entry_total :: "('v \<Rightarrow> nat multiset) \<Rightarrow> 'v option \<Rightarrow> nat multiset" where
  "entry_total w x = (case x of Some v \<Rightarrow> w v | None \<Rightarrow> {#})"

lemma table_total_simps [simp]:
  "table_total w [] = {#}" "table_total w ((k, v) # al) = w v + table_total w al"
  "entry_total w None = {#}" "entry_total w (Some v) = w v"
  by (simp_all add: table_total_def entry_total_def)

lemma table_total_update: "table_total w (AList.update k v al) + entry_total w (map_of al k) = table_total w al + w v"
  by (induction al) (auto simp: ac_simps)

lemma table_total_delete_absent: "k \<notin> fst ` set al \<Longrightarrow> AList.delete k al = al"
  by (induction al) auto

lemma table_total_delete:
  "distinct (map fst al) \<Longrightarrow> table_total w (AList.delete k al) + entry_total w (map_of al k) = table_total w al"
  by (induction al) (auto simp: ac_simps table_total_delete_absent)

lemma table_total_map: "(\<And>v. w (f v) = w v) \<Longrightarrow> table_total w (map (\<lambda>(k, v). (k, f v)) al) = table_total w al"
  by (induction al) auto

lemma length_update: "length (AList.update k v al) = (if map_of al k = None then Suc (length al) else length al)"
  by (induction al) auto

lemma set_update_subset: "set (AList.update k v al) \<subseteq> insert (k, v) (set al)"
  by (induction al) auto

definition held :: "TerminalSession \<Rightarrow> nat multiset" where
  "held s = (case child s of Some p \<Rightarrow> {#p#} | None \<Rightarrow> {#})"

definition service_held :: "PersistentTerminalService \<Rightarrow> nat multiset" where
  "service_held svc = table_total held (sessions svc)"

definition owned :: "Terminals \<Rightarrow> nat multiset" where
  "owned g = mset (reaper g) + table_total service_held (term_services g)"

definition services_ok :: "(string \<times> PersistentTerminalService) list \<Rightarrow> bool" where
  "services_ok ss \<longleftrightarrow> distinct (map fst ss) \<and> length ss \<le> MAX_SERVICES \<and>
     (\<forall>(sid, svc) \<in> set ss. distinct (map fst (sessions svc)))"

lemma mset_stop_all: "mset (stop_all b ss) = table_total held ss"
  by (induction ss) (auto simp: stop_all_def session_stop_def held_def split: option.splits)

lemma services_okD: "services_ok (term_services g) \<Longrightarrow> get_service g sid = Some svc \<Longrightarrow> distinct (map fst (sessions svc))"
  by (auto simp: services_ok_def get_service_def dest!: map_of_SomeD)

lemma put_service_ok:
  assumes "services_ok (term_services g)" "distinct (map fst (sessions svc))"
    "get_service g sid \<noteq> None \<or> length (term_services g) < MAX_SERVICES"
  shows "services_ok (term_services (put_service sid svc g))"
  using assms set_update_subset [of sid svc "term_services g"]
  by (auto simp: services_ok_def put_service_def length_update get_service_def distinct_update)

lemma put_service_owned:
  "owned (put_service sid svc g) + entry_total service_held (get_service g sid) = owned g + service_held svc"
  using table_total_update [of service_held sid svc "term_services g"]
  by (simp add: owned_def put_service_def get_service_def ac_simps)

lemma put_service_same:
  assumes "get_service g sid = Some svc0" "service_held svc = service_held svc0"
  shows "owned (put_service sid svc g) = owned g"
  using put_service_owned [of sid svc g] assms by simp

lemma reaper_put [simp]: "reaper (put_service sid svc g) = reaper g"
  by (simp add: put_service_def)

lemma owned_reaper: "owned (g\<lparr>reaper := reaper g @ ps\<rparr>) = owned g + mset ps"
  by (simp add: owned_def ac_simps)

lemma get_or_create_keeps:
  assumes "services_ok (term_services g)" "get_or_create_service now sid b u g = (res, g')"
  shows "services_ok (term_services g') \<and> owned g' = owned g"
proof (cases "get_service g sid")
  case None
  show ?thesis
  proof (cases "length (term_services g) \<ge> MAX_SERVICES")
    case True
    then show ?thesis using assms None by (simp add: get_or_create_service_def)
  next
    case False
    let ?svc = "reset_status b (service_new now sid b u)"
    have "g' = put_service sid ?svc g" using assms(2) None False by (simp add: get_or_create_service_def)
    moreover have "service_held ?svc = {#}" "distinct (map fst (sessions ?svc))"
      by (simp_all add: reset_status_def service_new_def service_held_def)
    ultimately show ?thesis using put_service_ok [OF assms(1), of ?svc sid] put_service_owned [of sid ?svc g] None False by simp
  qed
next
  case (Some svc)
  let ?svc = "reset_status b svc"
  have g': "g' = put_service sid ?svc g" using assms(2) Some by (simp add: get_or_create_service_def)
  have "service_held ?svc = service_held svc" by (simp add: reset_status_def service_held_def table_total_map held_def)
  moreover have "map fst (sessions ?svc) = map fst (sessions svc)" by (auto simp: reset_status_def)
  ultimately show ?thesis
    using put_service_ok [OF assms(1), of ?svc sid] put_service_same [OF Some] services_okD [OF assms(1) Some] Some by (simp add: g')
qed

lemma remove_service_keeps:
  assumes "services_ok (term_services g)"
  shows "services_ok (term_services (remove_service b sid g)) \<and> owned (remove_service b sid g) = owned g"
proof (cases "get_service g sid")
  case None
  then show ?thesis using assms by (simp add: remove_service_def)
next
  case (Some svc)
  have d: "distinct (map fst (term_services g))" using assms by (simp add: services_ok_def)
  have "owned (remove_service b sid g) = owned g"
    using Some table_total_delete [OF d, of service_held sid]
    by (simp add: remove_service_def owned_def mset_stop_all get_service_def service_held_def ac_simps)
  then show ?thesis using assms Some
    by (auto simp: services_ok_def remove_service_def distinct_map_filter AList.delete_eq intro: order_trans [OF length_filter_le])
qed

lemma cleanup_keeps:
  assumes "services_ok (term_services g)"
  shows "services_ok (term_services (cleanup_inactive_services b now g)) \<and> owned (cleanup_inactive_services b now g) = owned g"
proof -
  have "services_ok (term_services (fold (remove_service b) sids g)) \<and> owned (fold (remove_service b) sids g) = owned g" for sids
    using assms by (induction sids arbitrary: g) (auto simp: remove_service_keeps)
  then show ?thesis by (simp add: cleanup_inactive_services_def)
qed


lemma distinct_remap:
  assumes "distinct (map fst ss)"
  shows "distinct (map fst (remap_sessions i b ss)) \<and> table_total held (remap_sessions i b ss) = table_total held ss"
proof (cases "map_of ss i = None \<and> b \<and> ss \<noteq> [] \<and> map_of ss (Min (set (map fst ss))) \<noteq> None")
  case True
  let ?l = "Min (set (map fst ss))"
  obtain s where s: "map_of ss ?l = Some s" using True by auto
  have n: "map_of (AList.delete ?l ss) i = None" using True by (simp add: delete_conv')
  have "table_total held (AList.update i s (AList.delete ?l ss)) = table_total held ss"
    using table_total_update [of held i s "AList.delete ?l ss"] table_total_delete [OF assms, of held ?l] n s by simp
  then show ?thesis using True s assms by (simp add: remap_sessions_def distinct_update distinct_delete Let_def)
next
  case False
  then show ?thesis using assms by (auto simp: remap_sessions_def Let_def split: option.splits)
qed

text \<open>The process that a request starts, and the one that it drops because it cannot be killed.\<close>

definition started :: "OsAnswers \<Rightarrow> string \<Rightarrow> TerminalAction \<Rightarrow> Terminals \<Rightarrow> nat multiset" where
  "started a sid act g =
     (case (get_service g sid, act, os_spawned a) of
        (Some svc, OpenTerminal i _ _, Inr p) \<Rightarrow>
          if map_of (remap_sessions i (needs_session_sync svc) (sessions svc)) i = None then {#p#} else {#}
      | _ \<Rightarrow> {#})"

definition unkillable :: "OsAnswers \<Rightarrow> string \<Rightarrow> TerminalAction \<Rightarrow> Terminals \<Rightarrow> nat multiset" where
  "unkillable a sid act g =
     (case (get_service g sid, act) of
        (Some svc, CloseTerminal i) \<Rightarrow> if os_kill a then {#} else entry_total held (map_of (sessions svc) i)
      | _ \<Rightarrow> {#})"

lemma handle_open_keeps:
  assumes "distinct (map fst (sessions svc))" "handle_open now sid sp i r c svc = (res, svc')"
  shows "distinct (map fst (sessions svc')) \<and> service_held svc' = service_held svc +
    (case sp of Inr p \<Rightarrow> if map_of (remap_sessions i (needs_session_sync svc) (sessions svc)) i = None then {#p#} else {#} | Inl _ \<Rightarrow> {#})"
proof -
  let ?ss = "remap_sessions i (needs_session_sync svc) (sessions svc)"
  note d = distinct_remap [OF assms(1), of i "needs_session_sync svc"]
  show ?thesis
  proof (cases "map_of ?ss i")
    case None
    show ?thesis
    proof (cases sp)
      case (Inl e)
      then show ?thesis using assms(2) d None by (auto simp: handle_open_def service_held_def Let_def)
    next
      case (Inr p)
      then show ?thesis using assms(2) d None table_total_update [of held i _ ?ss]
        by (auto simp: handle_open_def service_held_def Let_def distinct_update held_def)
    qed
  next
    case (Some s)
    have "held (reconnect s) = held s" by (simp add: held_def reconnect_def Let_def)
    then have "table_total held (AList.update i (reconnect s) ?ss) = table_total held ?ss"
      using table_total_update [of held i "reconnect s" ?ss] Some by simp
    then show ?thesis using assms(2) d Some
      by (auto simp: handle_open_def service_held_def Let_def distinct_update split: sum.splits)
  qed
qed

lemma update_session_keeps:
  assumes "map_of (sessions svc) i = Some s" "held s' = held s"
  shows "service_held (svc\<lparr>sessions := AList.update i s' (sessions svc)\<rparr>) = service_held svc"
  using table_total_update [of held i s' "sessions svc"] assms by (simp add: service_held_def)

lemma handle_close_keeps:
  assumes "distinct (map fst (sessions svc))" "handle_close k i svc = (res, svc', ps)"
  shows "distinct (map fst (sessions svc')) \<and>
    service_held svc' + mset ps + (if k then {#} else entry_total held (map_of (sessions svc) i)) = service_held svc"
  using assms table_total_delete [OF assms(1), of held i]
  by (auto simp: handle_close_def service_held_def held_def Let_def distinct_delete split: option.splits if_splits)

lemma moved:
  fixes w x y z m n :: "nat multiset"
  assumes "w + x = y + z" and "z + m + n = x"
  shows "w + m + n = y"
proof -
  have "w + m + n + z = w + (z + m + n)" by (simp only: ac_simps)
  also have "\<dots> = y + z" using assms by (simp only:)
  finally show ?thesis by simp
qed

lemma handle_action_keeps:
  assumes ok: "services_ok (term_services g)" and h: "handle_action now a sid act g = (res, g')"
  shows "services_ok (term_services g') \<and> owned g' + unkillable a sid act g = owned g + started a sid act g"
proof (cases "get_service g sid")
  case None
  then show ?thesis using assms by (simp add: handle_action_def unkillable_def started_def)
next
  case (Some svc0)
  let ?svc = "svc0\<lparr>last_activity := now\<rparr>"
  have d: "distinct (map fst (sessions ?svc))" using services_okD [OF ok Some] by simp
  have sh: "service_held ?svc = service_held svc0" by (simp add: service_held_def)
  have put: "services_ok (term_services (put_service sid svc g))" if "distinct (map fst (sessions svc))" for svc
    using put_service_ok [OF ok that] Some by simp
  have own: "owned (put_service sid svc g) + service_held svc0 = owned g + service_held svc" for svc
    using put_service_owned [of sid svc g] Some by simp
  have same: "services_ok (term_services g') \<and> owned g' = owned g"
    if "g' = put_service sid svc g" "service_held svc = service_held svc0" "distinct (map fst (sessions svc))" for svc
    using put [OF that(3)] put_service_same [OF Some that(2)] that(1) by simp
  show ?thesis
  proof (cases act)
    case (OpenTerminal i r c)
    obtain svc' where o: "handle_open now sid (os_spawned a) i r c ?svc = (res, svc')" "g' = put_service sid svc' g"
      using h Some OpenTerminal by (auto simp: handle_action_def Let_def split: prod.splits)
    from handle_open_keeps [OF d o(1)] put [of svc'] own [of svc'] o(2) Some OpenTerminal show ?thesis
      by (cases "os_spawned a") (auto simp: started_def unkillable_def sh)
  next
    case (CloseTerminal i)
    obtain svc' ps where o: "handle_close (os_kill a) i ?svc = (res, svc', ps)" "g' = (put_service sid svc' g)\<lparr>reaper := reaper g @ ps\<rparr>"
      using h Some CloseTerminal by (auto simp: handle_action_def Let_def split: prod.splits)
    have "owned g' = owned (put_service sid svc' g) + mset ps" using owned_reaper [of "put_service sid svc' g" ps] o(2) by simp
    moreover have "unkillable a sid act g = (if os_kill a then {#} else entry_total held (map_of (sessions ?svc) i))"
      using Some CloseTerminal by (simp add: unkillable_def)
    then have "owned (put_service sid svc' g) + mset ps + unkillable a sid act g = owned g"
      using moved [OF own [of svc'], of "mset ps" "unkillable a sid act g"] handle_close_keeps [OF d o(1)] by (simp only: sh)
    ultimately show ?thesis
      using handle_close_keeps [OF d o(1)] put [of svc'] o(2) Some CloseTerminal by (simp add: started_def)
  next
    case (ResizeTerminal i r c)
    then have e: "unkillable a sid act g = {#}" "started a sid act g = {#}" using Some by (simp_all add: unkillable_def started_def)
    show ?thesis
    proof (cases "map_of (sessions ?svc) i")
      case (Some s)
      then have "g' = put_service sid (?svc\<lparr>sessions := AList.update i (snd (handle_resize now (os_resize a) r c s)) (sessions ?svc)\<rparr>) g"
        using h \<open>get_service g sid = Some svc0\<close> ResizeTerminal by (auto simp: handle_action_def Let_def split_beta)
      moreover have "held (snd (handle_resize now (os_resize a) r c s)) = held s" by (simp add: handle_resize_def held_def Let_def)
      ultimately show ?thesis using same update_session_keeps [OF Some] d sh e by (simp add: distinct_update)
    qed (use h ResizeTerminal \<open>get_service g sid = Some svc0\<close> same [of ?svc] d sh e in \<open>simp add: handle_action_def Let_def\<close>)
  next
    case (SendData i b)
    then have e: "unkillable a sid act g = {#}" "started a sid act g = {#}" using Some by (simp_all add: unkillable_def started_def)
    show ?thesis
    proof (cases "map_of (sessions ?svc) i")
      case (Some s)
      then have "g' = put_service sid (?svc\<lparr>sessions := AList.update i (handle_data now (os_listening a) b s) (sessions ?svc)\<rparr>) g"
        using h \<open>get_service g sid = Some svc0\<close> SendData by (auto simp: handle_action_def Let_def)
      moreover have "held (handle_data now (os_listening a) b s) = held s" by (simp add: handle_data_def held_def)
      ultimately show ?thesis using same update_session_keeps [OF Some] d sh e by (simp add: distinct_update)
    qed (use h SendData \<open>get_service g sid = Some svc0\<close> same [of ?svc] d sh e in \<open>simp add: handle_action_def Let_def\<close>)
  next
    case NoAction
    then show ?thesis using h Some same [of ?svc] d sh by (simp add: handle_action_def unkillable_def started_def)
  qed
qed


lemma read_session_held: "read_session env now a i s = Some (s', rs, c) \<Longrightarrow> held s' = held s"
  by (auto simp: read_session_def held_def Let_def split: if_splits option.splits SessionState.splits)

lemma read_sessions_held:
  "read_sessions env now a ss = Some (ss', rs, cs) \<Longrightarrow> map fst ss' = map fst ss \<and> table_total held ss' = table_total held ss"
proof (induction ss arbitrary: ss' rs cs)
  case (Cons x ss)
  obtain i s where x: "x = (i, s)" by (cases x)
  with Cons show ?case by (auto simp: read_session_held split: option.splits)
qed simp

lemma close_finished_held:
  assumes "distinct (map fst ss)" "close_finished b e i (ss, ps, rs) = (ss', ps', rs')"
  shows "distinct (map fst ss') \<and> table_total held ss' + mset ps' = table_total held ss + mset ps"
proof (cases "map_of ss i")
  case None
  then show ?thesis using assms by (auto simp: close_finished_def)
next
  case (Some s)
  have h: "mset (case child s of Some p \<Rightarrow> [p] | None \<Rightarrow> []) = held s" by (simp add: held_def split: option.splits)
  have n: "held (s\<lparr>child := None\<rparr>) = {#}" by (simp add: held_def)
  show ?thesis
    using assms Some table_total_update [of held i "s\<lparr>child := None\<rparr>" ss] table_total_delete [OF assms(1), of held i] n
    by (auto simp: close_finished_def Let_def h distinct_update distinct_delete ac_simps)
qed

lemma fold_close_held:
  "distinct (map fst ss) \<Longrightarrow> fold (close_finished b e) is (ss, ps, rs) = (ss', ps', rs') \<Longrightarrow>
   distinct (map fst ss') \<and> table_total held ss' + mset ps' = table_total held ss + mset ps"
proof (induction "is" arbitrary: ss ps rs)
  case (Cons i "is")
  obtain ss1 ps1 rs1 where c: "close_finished b e i (ss, ps, rs) = (ss1, ps1, rs1)" by (metis prod_cases3)
  from close_finished_held [OF Cons.prems(1) c] Cons.IH [of ss1 ps1 rs1] Cons.prems(2) c show ?case by simp
qed simp

lemma read_outputs_keeps:
  assumes ok: "services_ok (term_services g)" and r: "read_outputs env now a e b sid g = Some (rs, g')"
  shows "services_ok (term_services g') \<and> owned g' = owned g"
proof (cases "get_service g sid")
  case None
  then show ?thesis using assms by (simp add: read_outputs_def)
next
  case (Some svc)
  obtain ss rs0 cs where s: "read_sessions env now a (sessions svc) = Some (ss, rs0, cs)"
    using r Some by (auto simp: read_outputs_def split: option.splits)
  obtain ss1 ps rs1 where f: "fold (close_finished b e) cs (ss, [], rs0) = (ss1, ps, rs1)" by (metis prod_cases3)
  have g': "g' = (put_service sid (svc\<lparr>sessions := ss1\<rparr>) g)\<lparr>reaper := reaper g @ ps\<rparr>"
    using r Some s f by (simp add: read_outputs_def)
  have h: "distinct (map fst ss1)" "table_total held ss1 + mset ps = service_held svc"
    using fold_close_held [OF _ f] read_sessions_held [OF s] services_okD [OF ok Some] by (simp_all add: service_held_def)
  have "owned (put_service sid (svc\<lparr>sessions := ss1\<rparr>) g) + service_held svc = owned g + table_total held ss1"
    using put_service_owned [of sid "svc\<lparr>sessions := ss1\<rparr>" g] Some by (simp add: service_held_def)
  from moved [OF this, of "mset ps" "{#}"] h(2) have "owned g' = owned g"
    using owned_reaper [of "put_service sid (svc\<lparr>sessions := ss1\<rparr>) g" ps] by (simp add: g')
  then show ?thesis using put_service_ok [OF ok, of "svc\<lparr>sessions := ss1\<rparr>" sid] h(1) Some by (simp add: g')
qed

lemma reader_sends_keeps:
  assumes ok: "services_ok (term_services g)"
  shows "services_ok (term_services (reader_sends sid i d g)) \<and> owned (reader_sends sid i d g) = owned g"
proof (cases "get_service g sid")
  case (Some svc)
  show ?thesis
  proof (cases "map_of (sessions svc) i")
    case s: (Some s)
    let ?svc = "svc\<lparr>sessions := AList.update i (try_send_output d s) (sessions svc)\<rparr>"
    have "service_held ?svc = service_held svc"
      by (rule update_session_keeps [OF s]) (simp add: held_def try_send_output_def)
    then show ?thesis
      using put_service_same [OF Some] put_service_ok [OF ok, of ?svc sid] services_okD [OF ok Some] Some s
      by (simp add: reader_sends_def distinct_update)
  qed (simp add: reader_sends_def Some ok)
qed (simp add: reader_sends_def ok)

section \<open>Everything that happens to the terminals\<close>

text \<open>A step, with the processes it starts and those that are no longer looked after once it is done.\<close>

inductive terminal_step :: "Terminals \<Rightarrow> nat multiset \<Rightarrow> nat multiset \<Rightarrow> Terminals \<Rightarrow> bool" where
  create: "get_or_create_service now sid persistent user g = (res, g') \<Longrightarrow> terminal_step g {#} {#} g'"
| disconnect: "terminal_step g {#} {#} (on_disconnect drops_pty persistent sid g)"
| service_ends: "terminal_step g {#} {#} (run_ends drops_pty sid g)"
| cleanup: "terminal_step g {#} {#} (cleanup_inactive_services drops_pty now g)"
| persistence: "set_persistent sid persistent g = (res', g') \<Longrightarrow> terminal_step g {#} {#} g'"
| output_arrives: "terminal_step g {#} {#} (reader_sends sid i d g)"
| reap: "terminal_step g {#} (mset (filter (\<lambda>p. try_wait p \<noteq> Some False) (reaper g))) (check_zombie_terminals try_wait g)"
| action: "handle_action now a sid act g = (answer, g') \<Longrightarrow> terminal_step g (started a sid act g) (unkillable a sid act g) g'"
| read: "read_outputs env now reads exit_status persistent sid g = Some (rs, g') \<Longrightarrow> terminal_step g {#} {#} g'"

inductive terminals_reach :: "Terminals \<Rightarrow> nat multiset \<Rightarrow> nat multiset \<Rightarrow> bool" where
  reach_init: "terminals_reach \<lparr>term_services = [], reaper = []\<rparr> {#} {#}"
| reach_step: "terminals_reach g S G \<Longrightarrow> terminal_step g s d g' \<Longrightarrow> terminals_reach g' (S + s) (G + d)"

lemma terminal_step_keeps:
  "terminal_step g s d g' \<Longrightarrow> services_ok (term_services g) \<Longrightarrow> services_ok (term_services g') \<and> owned g' + d = owned g + s"
proof (induction rule: terminal_step.induct)
  case (persistence sid b g res g')
  show ?case
  proof (cases "get_service g sid")
    case (Some svc)
    then have "g' = put_service sid (svc\<lparr>is_persistent := b\<rparr>) g" using persistence by (simp add: set_persistent_def)
    then show ?thesis using put_service_same [OF Some] put_service_ok [OF persistence(2), of "svc\<lparr>is_persistent := b\<rparr>" sid]
      services_okD [OF persistence(2) Some] Some by (simp add: service_held_def)
  qed (use persistence in \<open>simp add: set_persistent_def\<close>)
next
  case (reap g tw)
  have "mset (filter (\<lambda>p. tw p = Some False) xs) + mset (filter (\<lambda>p. tw p \<noteq> Some False) xs) = mset xs" for xs
    by (induction xs) auto
  then show ?case using reap by (simp add: check_zombie_terminals_def owned_def ac_simps)
next
  case (create now sid b u g res g')
  then show ?case using get_or_create_keeps by fastforce
next
  case (action now a sid act g answer g')
  then show ?case using handle_action_keeps by blast
next
  case (read env now reads e b sid g rs g')
  then show ?case using read_outputs_keeps by fastforce
next
  case (service_ends g b sid)
  then show ?case using remove_service_keeps [of g b sid] by (simp add: run_ends_def split: option.splits)
qed (simp_all add: on_disconnect_def remove_service_keeps cleanup_keeps reader_sends_keeps)

lemma terminals_reach_keeps:
  "terminals_reach g S G \<Longrightarrow> services_ok (term_services g) \<and> owned g + G = S"
proof (induction rule: terminals_reach.induct)
  case reach_init
  show ?case by (simp add: services_ok_def owned_def)
next
  case (reach_step g S G s d g')
  with terminal_step_keeps [OF reach_step(2)] show ?case by (auto simp: ac_simps)
qed



end
