(* ===== verification/Shared_Counter.thy ===== *)
theory Shared_Counter
  imports Prelude
begin

text \<open>
  The counter in shared memory that announces frames between the capturing process and the server (\<open>src/shared_counter.rs\<close>): one
  slot for the number of the frame written last, one for the number consumed last, both from 0 to the largest 32-bit number and
  then from 0 again. The two processes access the slots by single atomic loads and stores, which a step relation interleaves.
\<close>

section \<open>The operations\<close>

definition i32_max :: int where "i32_max = 2147483647"

record Counter =
  written :: int
  consumed :: int

definition reset :: "Counter \<Rightarrow> Counter" where
  "reset c = c\<lparr>consumed := 0, written := 0\<rparr>"

definition pending :: "Counter \<Rightarrow> int option" where
  "pending c = (if written c \<noteq> consumed c then Some (written c) else None)"

definition consume :: "int \<Rightarrow> Counter \<Rightarrow> Counter" where
  "consume n c = c\<lparr>consumed := n\<rparr>"

definition consume_pending :: "int option \<Rightarrow> Counter \<Rightarrow> int option \<times> Counter" where
  "consume_pending p c = (None, case p of Some n \<Rightarrow> consume n c | None \<Rightarrow> c)"

definition equal_slots :: "Counter \<Rightarrow> bool" where
  "equal_slots c = (written c = consumed c)"

definition next_number :: "int \<Rightarrow> int" where
  "next_number n = (if n = i32_max then 0 else n + 1)"

definition publish :: "Counter \<Rightarrow> Counter" where
  "publish c =
     (let current = written c; nxt = next_number current;
          c1 = (if consumed c = nxt then c\<lparr>consumed := current\<rparr> else c)
      in c1\<lparr>written := nxt\<rparr>)"

section \<open>Two processes\<close>

text \<open>
  Where each process is between two atomic accesses. The remaining fields are not in the program: how many frames were published,
  which of them the number in the second slot stands for, and which the reader has taken.
\<close>

datatype writer = WIdle | WLoaded int | WFix int | WStore int

datatype reader = RIdle | RLoaded int nat | RHolds int nat

record Shared =
  mem :: Counter
  writer :: writer
  reader :: reader
  published :: nat
  marked :: nat
  taken :: "nat set"

definition cycle :: nat where "cycle = 2 ^ 31"

inductive shared_step :: "Shared \<Rightarrow> Shared \<Rightarrow> bool" where
  w_load: "writer s = WIdle \<Longrightarrow> shared_step s (s\<lparr>writer := WLoaded (written (mem s))\<rparr>)"
| w_check: "writer s = WLoaded cur \<Longrightarrow>
    shared_step s (s\<lparr>writer := (if consumed (mem s) = next_number cur then WFix cur else WStore (next_number cur))\<rparr>)"
| w_fix: "writer s = WFix cur \<Longrightarrow>
    shared_step s (s\<lparr>mem := consume cur (mem s), marked := published s, writer := WStore (next_number cur)\<rparr>)"
| w_store: "writer s = WStore n \<Longrightarrow>
    shared_step s (s\<lparr>mem := (mem s)\<lparr>written := n\<rparr>, published := Suc (published s), writer := WIdle\<rparr>)"
| r_load: "reader s = RIdle \<Longrightarrow> shared_step s (s\<lparr>reader := RLoaded (written (mem s)) (published s)\<rparr>)"
| r_compare: "reader s = RLoaded w k \<Longrightarrow>
    shared_step s (s\<lparr>reader := (if w \<noteq> consumed (mem s) then RHolds w k else RIdle)\<rparr>)"
| r_consume: "reader s = RHolds w k \<Longrightarrow> published s - k < cycle - 1 \<Longrightarrow>
    shared_step s (s\<lparr>mem := consume w (mem s), marked := k, taken := insert k (taken s), reader := RIdle\<rparr>)"

definition shared_init :: Shared where
  "shared_init = \<lparr>mem = \<lparr>written = 0, consumed = 0\<rparr>, writer = WIdle, reader = RIdle, published = 0, marked = 0, taken = {}\<rparr>"

inductive_cases shared_stepE: "shared_step s s'"

section \<open>No frame is missed\<close>

definition number :: "nat \<Rightarrow> int" where
  "number k = int (k mod cycle)"

lemma next_number: "next_number (number k) = number (Suc k)"
proof -
  have "k mod cycle < cycle" by (simp add: cycle_def)
  then show ?thesis by (auto simp: next_number_def number_def i32_max_def cycle_def mod_Suc)
qed

lemma number_eq: "k \<le> n \<Longrightarrow> n - k < cycle \<Longrightarrow> number n = number k \<longleftrightarrow> n = k"
proof -
  assume a: "k \<le> n" "n - k < cycle"
  have "n = k" if "n mod cycle = k mod cycle"
  proof -
    have "cycle dvd n - k" using that a(1) by (simp add: mod_eq_dvd_iff_nat)
    with a show ?thesis by (auto dest!: dvd_imp_le)
  qed
  then show ?thesis by (auto simp: number_def)
qed

fun writer_ok :: "writer \<Rightarrow> nat \<Rightarrow> nat \<Rightarrow> bool" where
  "writer_ok WIdle p m = True"
| "writer_ok (WLoaded cur) p m = (cur = number p)"
| "writer_ok (WFix cur) p m = (cur = number p)"
| "writer_ok (WStore n) p m = (n = number (Suc p) \<and> Suc p - m < cycle)"

fun reader_ok :: "reader \<Rightarrow> nat \<Rightarrow> bool" where
  "reader_ok RIdle p = True"
| "reader_ok (RLoaded w k) p = (w = number k \<and> k \<le> p)"
| "reader_ok (RHolds w k) p = (w = number k \<and> k \<le> p)"

definition storing :: "writer \<Rightarrow> bool" where
  "storing w = (case w of WStore _ \<Rightarrow> True | _ \<Rightarrow> False)"

definition shared_inv :: "Shared \<Rightarrow> bool" where
  "shared_inv s \<longleftrightarrow>
     written (mem s) = number (published s) \<and> consumed (mem s) = number (marked s) \<and> marked s \<le> published s \<and>
     published s - marked s < cycle \<and> writer_ok (writer s) (published s) (marked s) \<and> reader_ok (reader s) (published s) \<and>
     (storing (writer s) \<or> marked s \<noteq> published s \<or> published s = 0 \<or> published s \<in> taken s)"

lemma reader_ok_Suc: "reader_ok r p \<Longrightarrow> reader_ok r (Suc p)"
  by (cases r) auto

lemma shared_inv_step: "shared_step s s' \<Longrightarrow> shared_inv s \<Longrightarrow> shared_inv s'"
proof (induction rule: shared_step.induct)
  case (w_check s cur)
  show ?case
  proof (cases "consumed (mem s) = next_number cur")
    case True
    then show ?thesis using w_check by (auto simp: shared_inv_def storing_def)
  next
    case False
    have m: "consumed (mem s) = number (marked s)" "next_number cur = number (Suc (published s))" "marked s \<le> published s"
      "published s - marked s < cycle"
      using w_check by (auto simp: shared_inv_def next_number)
    then have "Suc (published s) - marked s < cycle"
      using False by (metis Suc_diff_le Suc_lessI diff_Suc_Suc mod_add_self2 number_def le_add_diff_inverse add_Suc_right)
    then show ?thesis using w_check False m by (auto simp: shared_inv_def storing_def)
  qed
next
  case (w_fix s cur)
  then show ?case by (auto simp: shared_inv_def storing_def consume_def next_number cycle_def)
next
  case (w_store s n)
  then show ?case by (auto simp: shared_inv_def storing_def reader_ok_Suc)
next
  case (r_consume s w k)
  have "writer_ok (writer s) (published s) k"
    using r_consume by (cases "writer s") (auto simp: shared_inv_def cycle_def)
  then show ?case using r_consume by (auto simp: shared_inv_def consume_def cycle_def)
qed (auto simp: shared_inv_def storing_def)

lemma shared_inv_reach: "shared_step\<^sup>*\<^sup>* shared_init s \<Longrightarrow> shared_inv s"
proof (induction rule: rtranclp_induct)
  case base
  show ?case by (simp add: shared_inv_def shared_init_def number_def cycle_def)
next
  case (step s s')
  then show ?case by (blast intro: shared_inv_step)
qed

text \<open>An uninterrupted publication is the sequence of its steps.\<close>

lemma publish_steps:
  assumes "writer s = WIdle"
  shows "\<exists>s'. shared_step\<^sup>*\<^sup>* s s' \<and> writer s' = WIdle \<and> mem s' = publish (mem s) \<and> published s' = Suc (published s) \<and>
    (marked s' = marked s \<or> marked s' = published s)"
proof -
  let ?cur = "written (mem s)"
  define s1 where "s1 = s\<lparr>writer := WLoaded ?cur\<rparr>"
  have r1: "shared_step\<^sup>*\<^sup>* s s1" unfolding s1_def by (rule r_into_rtranclp, rule w_load [OF assms])
  have c: "shared_step s1 (s1\<lparr>writer := (if consumed (mem s1) = next_number ?cur then WFix ?cur else WStore (next_number ?cur))\<rparr>)"
    by (rule w_check) (simp add: s1_def)
  show ?thesis
  proof (cases "consumed (mem s) = next_number ?cur")
    case True
    define s2 where "s2 = s1\<lparr>writer := WFix ?cur\<rparr>"
    define s3 where "s3 = s2\<lparr>mem := consume ?cur (mem s2), marked := published s2, writer := WStore (next_number ?cur)\<rparr>"
    have "shared_step s1 s2" using c True by (simp add: s2_def s1_def)
    moreover have "shared_step s2 s3" unfolding s3_def by (rule w_fix) (simp add: s2_def)
    moreover have "shared_step s3 (s3\<lparr>mem := (mem s3)\<lparr>written := next_number ?cur\<rparr>, published := Suc (published s3), writer := WIdle\<rparr>)"
      by (rule w_store) (simp add: s3_def)
    ultimately have "shared_step\<^sup>*\<^sup>* s (s3\<lparr>mem := (mem s3)\<lparr>written := next_number ?cur\<rparr>, published := Suc (published s3), writer := WIdle\<rparr>)"
      using r1 by (meson rtranclp.rtrancl_into_rtrancl)
    then show ?thesis using True
      by (intro exI [of _ "s3\<lparr>mem := (mem s3)\<lparr>written := next_number ?cur\<rparr>, published := Suc (published s3), writer := WIdle\<rparr>"] conjI)
        (simp_all add: s3_def s2_def s1_def publish_def consume_def Let_def)
  next
    case False
    define s2 where "s2 = s1\<lparr>writer := WStore (next_number ?cur)\<rparr>"
    have "shared_step s1 s2" using c False by (simp add: s2_def s1_def)
    moreover have "shared_step s2 (s2\<lparr>mem := (mem s2)\<lparr>written := next_number ?cur\<rparr>, published := Suc (published s2), writer := WIdle\<rparr>)"
      by (rule w_store) (simp add: s2_def)
    ultimately have "shared_step\<^sup>*\<^sup>* s (s2\<lparr>mem := (mem s2)\<lparr>written := next_number ?cur\<rparr>, published := Suc (published s2), writer := WIdle\<rparr>)"
      using r1 by (meson rtranclp.rtrancl_into_rtrancl)
    then show ?thesis using False
      by (intro exI [of _ "s2\<lparr>mem := (mem s2)\<lparr>written := next_number ?cur\<rparr>, published := Suc (published s2), writer := WIdle\<rparr>"] conjI)
        (simp_all add: s2_def s1_def publish_def Let_def)
  qed
qed



end
