(* ===== verification/Codec_Negotiation.thy ===== *)
theory Codec_Negotiation
  imports Settings Server F32
begin

text \<open>
  Which video codec a host encodes with (\<open>Encoder\<close> of \<open>libs/scrap/src/common/codec.rs\<close>, with the list of hardware codecs of
  \<open>hwcodec.rs\<close> and \<open>vram.rs\<close>, and its use in \<open>src/server/video_service.rs\<close> and \<open>connection.rs\<close>). The static tables of the
  module are the record \<open>Codecs\<close>. Build features, the operating system, the memory, the options, the choice of a codec among
  those found (\<open>CodecInfo::prioritized\<close> of the package hwcodec) and whether a library can create an encoder are fields of the
  environment \<open>CodecEnv\<close>. A hash map is an association list; its order is arbitrary, so what holds of every list holds
  whatever order the map is walked in. The Android build, which asks the operating system for its codecs, is left out.
\<close>

section \<open>Data\<close>

datatype CodecFormat = VP8 | VP9 | AV1 | H264 | H265 | Unknown

datatype PreferCodec = PreferAuto | PreferVP9 | PreferH264 | PreferH265 | PreferVP8 | PreferAV1

datatype DataFormat = DataH264 | DataH265 | DataVP8 | DataVP9 | DataAV1

record CodecAbility =
  i_vp8 :: bool
  i_vp9 :: bool
  i_av1 :: bool
  i_h264 :: bool
  i_h265 :: bool

definition no_ability :: CodecAbility where
  "no_ability = \<lparr>i_vp8 = False, i_vp9 = False, i_av1 = False, i_h264 = False, i_h265 = False\<rparr>"

text \<open>Enumerations of a received message keep their number, which may be none of the known ones.\<close>

record SupportedDecoding =
  ability_vp9 :: int
  ability_h264 :: int
  ability_h265 :: int
  prefer_codec :: int
  ability_vp8 :: int
  ability_av1 :: int
  i444 :: CodecAbility
  prefer_chroma :: int

definition decoding_default :: SupportedDecoding where
  "decoding_default = \<lparr>ability_vp9 = 0, ability_h264 = 0, ability_h265 = 0, prefer_codec = 0, ability_vp8 = 0,
     ability_av1 = 0, i444 = no_ability, prefer_chroma = 0\<rparr>"

record SupportedEncoding =
  enc_h264 :: bool
  enc_h265 :: bool
  enc_vp8 :: bool
  enc_av1 :: bool
  enc_i444 :: "CodecAbility option"

fun prefer_value :: "PreferCodec \<Rightarrow> int" where
  "prefer_value PreferAuto = 0"
| "prefer_value PreferVP9 = 1"
| "prefer_value PreferH264 = 2"
| "prefer_value PreferH265 = 3"
| "prefer_value PreferVP8 = 4"
| "prefer_value PreferAV1 = 5"

definition enum_value_or_auto :: "int \<Rightarrow> PreferCodec" where
  "enum_value_or_auto n =
     (case filter (\<lambda>p. prefer_value p = n) [PreferAuto, PreferVP9, PreferH264, PreferH265, PreferVP8, PreferAV1] of
        p # _ \<Rightarrow> p | [] \<Rightarrow> PreferAuto)"

definition CHROMA_I444 :: int where "CHROMA_I444 = 1"

record CodecInfo =
  info_name :: string
  info_mc_name :: "string option"
  info_format :: DataFormat
  info_priority :: int

record FeatureContext =
  driver_ffmpeg :: bool
  luid :: int
  data_format :: DataFormat

record HwCodecConfig =
  signature :: int
  ram_encode :: "CodecInfo list"
  ram_decode :: "CodecInfo list"
  vram_encode :: "FeatureContext list"
  vram_decode :: "FeatureContext list"

definition hw_default :: HwCodecConfig where
  "hw_default = \<lparr>signature = 0, ram_encode = [], ram_decode = [], vram_encode = [], vram_decode = []\<rparr>"

datatype VpxVideoCodecId = IdVP8 | IdVP9

record EncoderParams =
  width :: nat
  height :: nat
  quality :: rat
  keyframe_interval :: "nat option"

datatype EncoderCfg =
    CfgVPX VpxVideoCodecId EncoderParams
  | CfgAOM EncoderParams
  | CfgHWRAM string "string option" EncoderParams
  | CfgVRAM FeatureContext EncoderParams

datatype EncodingUpdate = Update int SupportedDecoding | Remove int | NewOnlyVP9 int | Check

datatype target_os = Windows | MacOS | Linux | Ios

record CodecEnv =
  feat_hwcodec :: bool
  feat_vram :: bool
  os :: target_os
  usize_bytes :: nat
  total_memory :: nat
  codec_settings :: Settings
  local_option :: "string \<Rightarrow> string"
  prioritized :: "CodecInfo list \<Rightarrow> CodecInfo option \<times> CodecInfo option"
  soft_decoders :: "CodecInfo option \<times> CodecInfo option"
  display_luids :: "int option list option"
  stored_hwcodec :: HwCodecConfig
  gpu_signature :: int
  creates :: "EncoderCfg \<Rightarrow> bool \<Rightarrow> bool"

record Codecs =
  peer_decodings :: "(int \<times> SupportedDecoding) list"
  encode_codec_format :: CodecFormat
  usable_encoding :: "SupportedEncoding option"
  hw_config :: "HwCodecConfig option"
  not_use :: "(string \<times> bool) list"
  fallback_gdi :: "string list"

definition codecs_init :: Codecs where
  "codecs_init = \<lparr>peer_decodings = [], encode_codec_format = VP9, usable_encoding = None, hw_config = None,
     not_use = [], fallback_gdi = []\<rparr>"

section \<open>Options\<close>

definition disable_av1 :: "CodecEnv \<Rightarrow> bool" where
  "disable_av1 env = (usize_bytes env = 4)"

definition enable_hwcodec_option :: "CodecEnv \<Rightarrow> bool" where
  "enable_hwcodec_option env =
     (if os env \<noteq> Ios then option2bool ''enable-hwcodec'' (get_option (codec_settings env) ''enable-hwcodec'') else False)"

definition enable_directx_capture :: "CodecEnv \<Rightarrow> bool" where
  "enable_directx_capture env =
     option2bool ''enable-directx-capture'' (get_option (codec_settings env) ''enable-directx-capture'')"

definition allow_d3d_render :: "CodecEnv \<Rightarrow> bool" where
  "allow_d3d_render env = option2bool ''allow-d3d-render'' (local_option env ''allow-d3d-render'')"

definition enable_vram_option :: "CodecEnv \<Rightarrow> bool \<Rightarrow> bool" where
  "enable_vram_option env enc =
     (if os env = Windows then
        (let en = option2bool ''enable-hwcodec'' (get_option (codec_settings env) ''enable-hwcodec'')
         in if enc then en \<and> enable_directx_capture env else en \<and> allow_d3d_render env)
      else False)"

section \<open>The hardware codecs found\<close>

definition hw_get :: "CodecEnv \<Rightarrow> Codecs \<Rightarrow> HwCodecConfig \<times> Codecs" where
  "hw_get env s =
     (case os env of
        Ios \<Rightarrow> (hw_default, s)
      | Linux \<Rightarrow> (case hw_config s of Some c \<Rightarrow> (c, s) | None \<Rightarrow> (hw_default, s))
      | _ \<Rightarrow>
          (case hw_config s of
             Some c \<Rightarrow> (c, s)
           | None \<Rightarrow>
               (let c = stored_hwcodec env
                in if signature c = gpu_signature env then (c, s\<lparr>hw_config := Some c\<rparr>) else (hw_default, s))))"

definition hw_try_get :: "CodecEnv \<Rightarrow> CodecFormat \<Rightarrow> Codecs \<Rightarrow> CodecInfo option \<times> Codecs" where
  "hw_try_get env f s =
     (let (c, s1) = hw_get env s; best = prioritized env (ram_encode c)
      in (case f of H264 \<Rightarrow> fst best | H265 \<Rightarrow> snd best | _ \<Rightarrow> None, s1))"

fun format_data :: "CodecFormat \<Rightarrow> DataFormat option" where
  "format_data H264 = Some DataH264"
| "format_data H265 = Some DataH265"
| "format_data _ = None"

definition vram_available :: "CodecEnv \<Rightarrow> CodecFormat \<Rightarrow> Codecs \<Rightarrow> FeatureContext list \<times> Codecs" where
  "vram_available env f s =
     (if fallback_gdi s \<noteq> [] then ([], s)
      else if list_ex snd (not_use s) then ([], s)
      else case format_data f of
        None \<Rightarrow> ([], s)
      | Some df \<Rightarrow>
          (let (c, s1) = hw_get env s;
               v = filter (\<lambda>x. data_format x = df) (vram_encode c);
               (t, s2) = hw_try_get env f s1
           in if t \<noteq> None then (v, s2)
              else case display_luids env of
                None \<Rightarrow> ([], s2)
              | Some ls \<Rightarrow>
                  if ls = [] then ([], s2)
                  else if list_all (\<lambda>l. list_ex (\<lambda>x. Some (luid x) = l) v) ls then (v, s2) else ([], s2)))"

definition vram_try_get :: "CodecEnv \<Rightarrow> int \<Rightarrow> CodecFormat \<Rightarrow> Codecs \<Rightarrow> FeatureContext option \<times> Codecs" where
  "vram_try_get env dev f s =
     (let (v0, s1) = vram_available env f s; v = filter (\<lambda>x. luid x = dev) v0
      in (if v \<noteq> [] then (case find driver_ffmpeg v of Some x \<Rightarrow> Some x | None \<Rightarrow> Some (hd v)) else None, s1))"

definition set_not_use :: "string \<Rightarrow> bool \<Rightarrow> Codecs \<Rightarrow> Codecs" where
  "set_not_use n b s = s\<lparr>not_use := AList.update n b (not_use s)\<rparr>"

definition set_fallback_gdi :: "string \<Rightarrow> bool \<Rightarrow> Codecs \<Rightarrow> Codecs" where
  "set_fallback_gdi n b s =
     (if b then s\<lparr>fallback_gdi := List.insert n (fallback_gdi s)\<rparr>
      else s\<lparr>fallback_gdi := removeAll n (fallback_gdi s)\<rparr>)"

section \<open>Choosing the codec\<close>

fun apply_update :: "EncodingUpdate \<Rightarrow> (int \<times> SupportedDecoding) list \<Rightarrow> (int \<times> SupportedDecoding) list" where
  "apply_update (Update i d) ds = AList.update i d ds"
| "apply_update (Remove i) ds = AList.delete i ds"
| "apply_update (NewOnlyVP9 i) ds = AList.update i (decoding_default\<lparr>ability_vp9 := 1\<rparr>) ds"
| "apply_update Check ds = ds"

definition all_peers :: "(SupportedDecoding \<Rightarrow> int) \<Rightarrow> (int \<times> SupportedDecoding) list \<Rightarrow> bool" where
  "all_peers ability ds = (ds \<noteq> [] \<and> list_all (\<lambda>(_, d). ability d > 0) ds)"

definition vram_encoding :: "CodecEnv \<Rightarrow> bool \<Rightarrow> CodecFormat \<Rightarrow> Codecs \<Rightarrow> bool \<times> Codecs" where
  "vram_encoding env all_support f s =
     (if feat_vram env \<and> enable_vram_option env True \<and> all_support then
        (let (v, s1) = vram_available env f s in (v \<noteq> [], s1))
      else (False, s))"

definition hw_encoding :: "CodecEnv \<Rightarrow> bool \<Rightarrow> CodecFormat \<Rightarrow> Codecs \<Rightarrow> string option \<times> Codecs" where
  "hw_encoding env all_support f s =
     (if feat_hwcodec env \<and> enable_hwcodec_option env \<and> all_support then
        (let (c, s1) = hw_try_get env f s in (map_option info_name c, s1))
      else (None, s))"

fun add_count :: "int \<Rightarrow> (int \<times> nat) list \<Rightarrow> (int \<times> nat) list" where
  "add_count p [] = [(p, 1)]"
| "add_count p ((q, n) # cs) = (if q = p then (q, n + 1) # cs else (q, n) # add_count p cs)"

definition most_frequent :: "int list \<Rightarrow> int" where
  "most_frequent ps =
     (let counts = fold add_count ps [];
          max_count = (if counts = [] then 0 else Max (set (map snd counts)))
      in case find (\<lambda>(_, n). n = max_count) counts of Some (p, _) \<Rightarrow> p | None \<Rightarrow> prefer_value PreferAuto)"

definition usable_preference :: "bool \<Rightarrow> bool \<Rightarrow> bool \<Rightarrow> bool \<Rightarrow> int \<Rightarrow> bool" where
  "usable_preference vp8 av1 h264 h265 p =
     (p = prefer_value PreferVP9 \<or> p = prefer_value PreferVP8 \<and> vp8 \<or> p = prefer_value PreferAV1 \<and> av1
      \<or> p = prefer_value PreferH264 \<and> h264 \<or> p = prefer_value PreferH265 \<and> h265)"

definition auto_codec :: "CodecEnv \<Rightarrow> bool \<Rightarrow> bool \<Rightarrow> bool \<Rightarrow> bool \<Rightarrow> CodecFormat" where
  "auto_codec env vp8 av1 h264 h265 =
     (let a0 = (if av1 \<and> get_option (codec_settings env) ''av1-test'' \<noteq> ''N'' then AV1 else VP9);
          a1 = (if h264 then H264 else a0);
          a2 = (if h265 then H265 else a1)
      in if (a2 = VP9 \<or> a2 = AV1) \<and> vp8 \<and> total_memory env \<le> 4 * 1024 * 1024 * 1024 then VP8 else a2)"

definition update_encoding :: "CodecEnv \<Rightarrow> EncodingUpdate \<Rightarrow> Codecs \<Rightarrow> Codecs" where
  "update_encoding env u s =
     (let ds = apply_update u (peer_decodings s);
          vp8 = all_peers ability_vp8 ds;
          av1 = (all_peers ability_av1 ds \<and> \<not> disable_av1 env);
          all264 = all_peers ability_h264 ds;
          all265 = all_peers ability_h265 ds;
          (vram264, s1) = vram_encoding env all264 H264 s;
          (vram265, s2) = vram_encoding env all265 H265 s1;
          (hw264, s3) = hw_encoding env all264 H264 s2;
          (hw265, s4) = hw_encoding env all265 H265 s3;
          h264 = (all264 \<and> (vram264 \<or> hw264 \<noteq> None));
          h265 = (all265 \<and> (vram265 \<or> hw265 \<noteq> None));
          preferences = map (\<lambda>(_, d). prefer_codec d)
            (filter (\<lambda>(_, d). usable_preference vp8 av1 h264 h265 (prefer_codec d)) ds);
          auto = auto_codec env vp8 av1 h264 h265;
          format = (case enum_value_or_auto (most_frequent preferences) of
             PreferVP8 \<Rightarrow> VP8
           | PreferVP9 \<Rightarrow> VP9
           | PreferAV1 \<Rightarrow> AV1
           | PreferH264 \<Rightarrow> (if vram264 \<or> hw264 \<noteq> None then H264 else auto)
           | PreferH265 \<Rightarrow> (if vram265 \<or> hw265 \<noteq> None then H265 else auto)
           | PreferAuto \<Rightarrow> auto)
      in s4\<lparr>peer_decodings := ds,
            usable_encoding := Some \<lparr>enc_h264 = h264, enc_h265 = h265, enc_vp8 = vp8, enc_av1 = av1, enc_i444 = None\<rparr>,
            encode_codec_format := format\<rparr>)"

definition negotiated_codec :: "Codecs \<Rightarrow> CodecFormat" where
  "negotiated_codec s = encode_codec_format s"

definition i444_ability :: CodecAbility where
  "i444_ability = no_ability\<lparr>i_vp9 := True, i_av1 := True\<rparr>"

definition supported_encoding :: "CodecEnv \<Rightarrow> Codecs \<Rightarrow> SupportedEncoding \<times> Codecs" where
  "supported_encoding env s =
     (let (h4, s1) = (if feat_hwcodec env \<and> enable_hwcodec_option env then hw_try_get env H264 s else (None, s));
          (h5, s2) = (if feat_hwcodec env \<and> enable_hwcodec_option env then hw_try_get env H265 s1 else (None, s1));
          (v4, s3) = (if feat_vram env \<and> enable_vram_option env True then vram_available env H264 s2 else ([], s2));
          (v5, s4) = (if feat_vram env \<and> enable_vram_option env True then vram_available env H265 s3 else ([], s3))
      in (\<lparr>enc_h264 = (h4 \<noteq> None \<or> v4 \<noteq> []), enc_h265 = (h5 \<noteq> None \<or> v5 \<noteq> []), enc_vp8 = True,
           enc_av1 = (\<not> disable_av1 env), enc_i444 = Some i444_ability\<rparr>, s4))"

definition contains_text :: "string \<Rightarrow> string \<Rightarrow> bool" where
  "contains_text pat n = list_ex (\<lambda>k. starts_with pat (drop k n)) [0..<Suc (length n)]"

text \<open>\<open>str::to_lowercase\<close> on ASCII; the names of codecs have no other letters.\<close>

definition to_lowercase :: "string \<Rightarrow> string" where
  "to_lowercase n = map (\<lambda>c. if 65 \<le> (of_char c :: nat) \<and> (of_char c :: nat) \<le> 90 then char_of ((of_char c :: nat) + 32) else c) n"

fun cfg_format :: "EncoderCfg \<Rightarrow> CodecFormat option" where
  "cfg_format (CfgVPX IdVP8 _) = Some VP8"
| "cfg_format (CfgVPX IdVP9 _) = Some VP9"
| "cfg_format (CfgAOM _) = Some AV1"
| "cfg_format (CfgHWRAM n _ _) =
     (let m = to_lowercase n
      in Some (if contains_text ''vp8'' m then VP8 else if contains_text ''vp9'' m then VP9
               else if contains_text ''av1'' m then AV1 else if contains_text ''h264'' m then H264 else H265))"
| "cfg_format (CfgVRAM f _) =
     (case data_format f of DataH264 \<Rightarrow> Some H264 | DataH265 \<Rightarrow> Some H265 | _ \<Rightarrow> None)"

definition set_fallback :: "EncoderCfg \<Rightarrow> Codecs \<Rightarrow> Codecs" where
  "set_fallback cfg s =
     (case cfg_format cfg of
        None \<Rightarrow> s
      | Some f \<Rightarrow> if encode_codec_format s \<noteq> f then s\<lparr>encode_codec_format := f\<rparr> else s)"

definition use_i444 :: "EncoderCfg \<Rightarrow> Codecs \<Rightarrow> bool" where
  "use_i444 cfg s =
     (let ds = peer_decodings s;
          prefer_i444 = list_all (\<lambda>(_, d). prefer_chroma d = CHROMA_I444) ds;
          i444_useable = (case cfg of
             CfgVPX IdVP8 _ \<Rightarrow> False
           | CfgVPX IdVP9 _ \<Rightarrow> list_all (\<lambda>(_, d). i_vp9 (i444 d)) ds
           | CfgAOM _ \<Rightarrow> list_all (\<lambda>(_, d). i_av1 (i444 d)) ds
           | _ \<Rightarrow> False)
      in prefer_i444 \<and> i444_useable \<and> ds \<noteq> [])"

definition hw_clear :: "CodecEnv \<Rightarrow> bool \<Rightarrow> bool \<Rightarrow> Codecs \<Rightarrow> Codecs" where
  "hw_clear env vram enc s =
     update_encoding env Check (s\<lparr>hw_config := map_option (\<lambda>c.
        if vram then
          (if feat_vram env then (if enc then c\<lparr>vram_encode := []\<rparr> else c\<lparr>vram_decode := []\<rparr>) else c)
        else (if enc then c\<lparr>ram_encode := []\<rparr> else c\<lparr>ram_decode := []\<rparr>)) (hw_config s)\<rparr>)"

section \<open>Setting up an encoder\<close>

definition encoder_new :: "CodecEnv \<Rightarrow> EncoderCfg \<Rightarrow> bool \<Rightarrow> Codecs \<Rightarrow> bool \<times> Codecs" where
  "encoder_new env cfg use444 s =
     (if creates env cfg use444 then (True, s)
      else (False,
        case cfg of
          CfgHWRAM _ _ _ \<Rightarrow> (hw_clear env False True s)\<lparr>encode_codec_format := VP9\<rparr>
        | CfgVRAM _ _ \<Rightarrow> (hw_clear env True True s)\<lparr>encode_codec_format := VP9\<rparr>
        | _ \<Rightarrow> s))"

text \<open>What the set-up of an encoder knows about the capturer of a display.\<close>

record Capture =
  cap_width :: nat
  cap_height :: nat
  cap_gdi :: bool
  cap_device :: int
  cap_portable :: bool
  cap_source :: VideoSource
  cap_name :: string

definition encoder_params :: "Capture \<Rightarrow> rat \<Rightarrow> bool \<Rightarrow> EncoderParams" where
  "encoder_params c q rec =
     \<lparr>width = cap_width c, height = cap_height c, quality = q, keyframe_interval = Some (if rec then 240 else 120)\<rparr>"

definition get_encoder_config :: "CodecEnv \<Rightarrow> Capture \<Rightarrow> rat \<Rightarrow> bool \<Rightarrow> Codecs \<Rightarrow> EncoderCfg \<times> Codecs" where
  "get_encoder_config env c q rec s =
     (let s1 = (if os env = Windows \<and> feat_vram env \<and> (cap_portable c \<or> cap_gdi c \<or> cap_source c = Camera)
                then set_not_use (cap_name c) True s else s);
          s2 = (if feat_vram env then update_encoding env Check s1 else s1);
          prm = encoder_params c q rec;
          f = negotiated_codec s2
      in if f = H264 \<or> f = H265 then
           (case (if feat_vram env then vram_try_get env (cap_device c) f s2 else (None, s2)) of
              (Some x, s3) \<Rightarrow> (CfgVRAM x prm, s3)
            | (None, s3) \<Rightarrow>
                (case (if feat_hwcodec env then hw_try_get env f s3 else (None, s3)) of
                   (Some hw, s4) \<Rightarrow> (CfgHWRAM (info_name hw) (info_mc_name hw) prm, s4)
                 | (None, s4) \<Rightarrow> (CfgVPX IdVP9 prm, s4)))
         else if f = VP8 then (CfgVPX IdVP8 prm, s2)
         else if f = AV1 then (CfgAOM prm, s2)
         else (CfgVPX IdVP9 prm, s2))"

definition setup_encoder :: "CodecEnv \<Rightarrow> Capture \<Rightarrow> rat \<Rightarrow> bool \<Rightarrow> bool \<Rightarrow> Codecs
    \<Rightarrow> (EncoderCfg \<times> CodecFormat \<times> bool) option \<times> Codecs" where
  "setup_encoder env c q client_record record_incoming s =
     (let (cfg, s1) = get_encoder_config env c q (client_record \<or> record_incoming) s;
          s2 = set_fallback cfg s1;
          f = negotiated_codec s2;
          u = use_i444 cfg s2;
          (ok, s3) = encoder_new env cfg u s2
      in (if ok then Some (cfg, f, u) else None, s3))"

definition start_encoder :: "CodecEnv \<Rightarrow> Capture \<Rightarrow> rat \<Rightarrow> bool \<Rightarrow> bool \<Rightarrow> Codecs
    \<Rightarrow> (EncoderCfg \<times> CodecFormat \<times> bool) option \<times> Codecs" where
  "start_encoder env c q client_record record_incoming s =
     (case setup_encoder env c q client_record record_incoming s of
        (Some r, s1) \<Rightarrow> (Some r, s1)
      | (None, s1) \<Rightarrow>
          setup_encoder env c q client_record record_incoming
            (set_fallback (CfgVPX IdVP9 \<lparr>width = cap_width c, height = cap_height c, quality = q,
               keyframe_interval = None\<rparr>) s1))"

section \<open>What a connection reports and is told\<close>

definition update_codec_on_login :: "CodecEnv \<Rightarrow> int \<Rightarrow> SupportedDecoding option option \<Rightarrow> Codecs \<Rightarrow> Codecs" where
  "update_codec_on_login env i opt s =
     (case opt of
        Some (Some d) \<Rightarrow> update_encoding env (Update i d) s
      | Some None \<Rightarrow> update_encoding env (NewOnlyVP9 i) s
      | None \<Rightarrow> update_encoding env (NewOnlyVP9 i) s)"

definition update_supported_encoding ::
  "Codecs \<Rightarrow> SupportedEncoding option \<Rightarrow> SupportedEncoding option \<times> SupportedEncoding option" where
  "update_supported_encoding s last_enc =
     (case (last_enc, usable_encoding s) of
        (Some l, Some u) \<Rightarrow>
          if enc_vp8 u \<noteq> enc_vp8 l \<or> enc_av1 u \<noteq> enc_av1 l \<or> enc_h264 u \<noteq> enc_h264 l \<or> enc_h265 u \<noteq> enc_h265 l
          then (let n = l\<lparr>enc_vp8 := enc_vp8 u, enc_av1 := enc_av1 u, enc_h264 := enc_h264 u, enc_h265 := enc_h265 u\<rparr>
                in (Some n, Some n))
          else (last_enc, None)
      | _ \<Rightarrow> (last_enc, None))"

section \<open>What a viewer can decode\<close>

definition hw_try_get_decoder :: "CodecEnv \<Rightarrow> CodecFormat \<Rightarrow> Codecs \<Rightarrow> CodecInfo option \<times> Codecs" where
  "hw_try_get_decoder env f s =
     (let soft = (case f of H264 \<Rightarrow> fst (soft_decoders env) | H265 \<Rightarrow> snd (soft_decoders env) | _ \<Rightarrow> None)
      in if enable_hwcodec_option env then
           (let (c, s1) = hw_get env s; best = prioritized env (ram_decode c);
                b = (case f of H264 \<Rightarrow> fst best | H265 \<Rightarrow> snd best | _ \<Rightarrow> None)
            in (if b \<noteq> None then b else soft, s1))
         else (soft, s))"

definition vram_decode_available :: "CodecEnv \<Rightarrow> CodecFormat \<Rightarrow> int option \<Rightarrow> Codecs \<Rightarrow> FeatureContext list \<times> Codecs" where
  "vram_decode_available env f luid0 s =
     (let l = (case luid0 of Some x \<Rightarrow> x | None \<Rightarrow> 0)
      in case format_data f of
           None \<Rightarrow> ([], s)
         | Some df \<Rightarrow>
             (let (c, s1) = hw_get env s
              in (filter (\<lambda>x. data_format x = df \<and> luid x = l \<and> l \<noteq> 0) (vram_decode c), s1)))"

definition preference :: "(string \<Rightarrow> opts) \<Rightarrow> string option \<Rightarrow> PreferCodec \<times> int" where
  "preference peer_options id0 =
     (let i = (case id0 of Some x \<Rightarrow> x | None \<Rightarrow> [])
      in if i = [] then (PreferAuto, 0)
         else
           (let os = peer_options i;
                codec = (case map_of os ''codec-preference'' of Some c \<Rightarrow> c | None \<Rightarrow> [])
            in (if codec = ''vp8'' then PreferVP8 else if codec = ''vp9'' then PreferVP9
                else if codec = ''av1'' then PreferAV1 else if codec = ''h264'' then PreferH264
                else if codec = ''h265'' then PreferH265 else PreferAuto,
                if map_of os ''i444'' = Some ''Y'' then CHROMA_I444 else 0)))"

fun mark_unsupported :: "CodecFormat \<Rightarrow> SupportedDecoding \<Rightarrow> SupportedDecoding" where
  "mark_unsupported VP8 d = d\<lparr>ability_vp8 := 0\<rparr>"
| "mark_unsupported VP9 d = d\<lparr>ability_vp9 := 0\<rparr>"
| "mark_unsupported AV1 d = d\<lparr>ability_av1 := 0\<rparr>"
| "mark_unsupported H264 d = d\<lparr>ability_h264 := 0\<rparr>"
| "mark_unsupported H265 d = d\<lparr>ability_h265 := 0\<rparr>"
| "mark_unsupported Unknown d = d"

definition supported_decodings :: "CodecEnv \<Rightarrow> (string \<Rightarrow> opts) \<Rightarrow> string option \<Rightarrow> bool \<Rightarrow> int option
    \<Rightarrow> CodecFormat list \<Rightarrow> Codecs \<Rightarrow> SupportedDecoding \<times> Codecs" where
  "supported_decodings env peer_options id0 texture luid0 unsupported s =
     (let (p, chroma) = preference peer_options id0;
          (h4, s1) = (if feat_hwcodec env then hw_try_get_decoder env H264 s else (None, s));
          (h5, s2) = (if feat_hwcodec env then hw_try_get_decoder env H265 s1 else (None, s1));
          vram = (feat_vram env \<and> enable_vram_option env False \<and> texture);
          (v4, s3) = (if vram then vram_decode_available env H264 luid0 s2 else ([], s2));
          (v5, s4) = (if vram then vram_decode_available env H265 luid0 s3 else ([], s3))
      in (fold mark_unsupported unsupported
            \<lparr>ability_vp9 = 1, ability_h264 = (if h4 \<noteq> None \<or> v4 \<noteq> [] then 1 else 0),
             ability_h265 = (if h5 \<noteq> None \<or> v5 \<noteq> [] then 1 else 0), prefer_codec = prefer_value p, ability_vp8 = 1,
             ability_av1 = (if disable_av1 env then 0 else 1), i444 = i444_ability, prefer_chroma = chroma\<rparr>, s4))"

section \<open>Looking up hardware codecs changes nothing but the cache\<close>

lemma hw_get_again [simp]: "hw_get env (snd (hw_get env s)) = (fst (hw_get env s), snd (hw_get env s))"
  by (simp add: hw_get_def Let_def split: target_os.splits option.splits)

lemma hw_get_other:
  "hw_config s' = hw_config s \<Longrightarrow> fst (hw_get env s') = fst (hw_get env s)"
  "hw_config s' = hw_config s \<Longrightarrow> hw_config (snd (hw_get env s')) = hw_config (snd (hw_get env s))"
  by (simp_all add: hw_get_def Let_def split: target_os.splits option.splits)

lemma hw_get_fields [simp]:
  "peer_decodings (snd (hw_get env s)) = peer_decodings s"
  "not_use (snd (hw_get env s)) = not_use s"
  "fallback_gdi (snd (hw_get env s)) = fallback_gdi s"
  "encode_codec_format (snd (hw_get env s)) = encode_codec_format s"
  by (simp_all add: hw_get_def Let_def split: target_os.splits option.splits)

lemma hw_try_get_snd [simp]: "snd (hw_try_get env f s) = snd (hw_get env s)"
  by (simp add: hw_try_get_def split_beta Let_def)

text \<open>A state in which the file of hardware codecs, if it is to be read, has been read.\<close>

definition codecs_after :: "CodecEnv \<Rightarrow> Codecs \<Rightarrow> Codecs \<Rightarrow> bool" where
  "codecs_after env s s' \<longleftrightarrow> s' = s \<or> s' = snd (hw_get env s)"

lemma codecs_after_hw: "codecs_after env s s' \<Longrightarrow> codecs_after env s (snd (hw_get env s'))"
  by (auto simp: codecs_after_def)

lemma codecs_after_fst: "codecs_after env s s' \<Longrightarrow> fst (hw_get env s') = fst (hw_get env s)"
  by (auto simp: codecs_after_def)

lemma hw_try_get_after: "codecs_after env s s' \<Longrightarrow> fst (hw_try_get env f s') = fst (hw_try_get env f s)"
  by (frule codecs_after_fst) (simp add: hw_try_get_def split_beta Let_def split: CodecFormat.splits)

lemma codecs_after_fields:
  "codecs_after env s s' \<Longrightarrow> peer_decodings s' = peer_decodings s \<and> not_use s' = not_use s \<and> fallback_gdi s' = fallback_gdi s
     \<and> encode_codec_format s' = encode_codec_format s"
  by (auto simp: codecs_after_def)

lemma vram_available_after:
  assumes "codecs_after env s s'"
  shows "fst (vram_available env f s') = fst (vram_available env f s)" "codecs_after env s (snd (vram_available env f s'))"
proof -
  note f = codecs_after_fields [OF assms] codecs_after_fst [OF assms] hw_try_get_after [OF assms]
    hw_try_get_after [of env s "snd (hw_get env s')"] hw_try_get_after [of env s "snd (hw_get env s)"] codecs_after_hw [OF assms]
  have "fst (hw_try_get env f (snd (hw_get env s'))) = fst (hw_try_get env f (snd (hw_get env s)))"
    using f by (simp add: codecs_after_def)
  then show "fst (vram_available env f s') = fst (vram_available env f s)"
    using f by (simp add: vram_available_def split_beta Let_def split: option.splits)
  show "codecs_after env s (snd (vram_available env f s'))"
    using f assms by (simp add: vram_available_def split_beta Let_def split: option.splits)
qed


lemma vram_encoding_after:
  assumes "codecs_after env s s'"
  shows "fst (vram_encoding env b f s') = (feat_vram env \<and> enable_vram_option env True \<and> b \<and> fst (vram_available env f s) \<noteq> [])"
    "codecs_after env s (snd (vram_encoding env b f s'))"
  using vram_available_after [OF assms, of f] assms by (auto simp: vram_encoding_def split_beta)

lemma hw_encoding_after:
  assumes "codecs_after env s s'"
  shows "fst (hw_encoding env b f s') =
      (if feat_hwcodec env \<and> enable_hwcodec_option env \<and> b then map_option info_name (fst (hw_try_get env f s)) else None)"
    "codecs_after env s (snd (hw_encoding env b f s'))"
  using hw_try_get_after [OF assms, of f] codecs_after_hw [OF assms] assms by (simp_all add: hw_encoding_def split_beta Let_def)

text \<open>Whether the host has an encoder for H264 or H265.\<close>

definition host_encodes :: "CodecEnv \<Rightarrow> CodecFormat \<Rightarrow> Codecs \<Rightarrow> bool" where
  "host_encodes env f s =
     (feat_vram env \<and> enable_vram_option env True \<and> fst (vram_available env f s) \<noteq> []
      \<or> feat_hwcodec env \<and> enable_hwcodec_option env \<and> fst (hw_try_get env f s) \<noteq> None)"

definition usable_264 :: "CodecEnv \<Rightarrow> (int \<times> SupportedDecoding) list \<Rightarrow> Codecs \<Rightarrow> bool" where
  "usable_264 env ds s = (all_peers ability_h264 ds \<and> host_encodes env H264 s)"

definition usable_265 :: "CodecEnv \<Rightarrow> (int \<times> SupportedDecoding) list \<Rightarrow> Codecs \<Rightarrow> bool" where
  "usable_265 env ds s = (all_peers ability_h265 ds \<and> host_encodes env H265 s)"

definition usable_av1 :: "CodecEnv \<Rightarrow> (int \<times> SupportedDecoding) list \<Rightarrow> bool" where
  "usable_av1 env ds = (all_peers ability_av1 ds \<and> \<not> disable_av1 env)"

text \<open>The votes that count, and what is encoded when there is none.\<close>

definition votes :: "CodecEnv \<Rightarrow> (int \<times> SupportedDecoding) list \<Rightarrow> Codecs \<Rightarrow> int list" where
  "votes env ds s =
     map (\<lambda>(_, d). prefer_codec d) (filter (\<lambda>(_, d). usable_preference (all_peers ability_vp8 ds) (usable_av1 env ds)
        (usable_264 env ds s) (usable_265 env ds s) (prefer_codec d)) ds)"

definition automatic :: "CodecEnv \<Rightarrow> (int \<times> SupportedDecoding) list \<Rightarrow> Codecs \<Rightarrow> CodecFormat" where
  "automatic env ds s =
     auto_codec env (all_peers ability_vp8 ds) (usable_av1 env ds) (usable_264 env ds s) (usable_265 env ds s)"

fun voted_format :: "PreferCodec \<Rightarrow> CodecFormat \<Rightarrow> CodecFormat" where
  "voted_format PreferAuto a = a"
| "voted_format PreferVP9 a = VP9"
| "voted_format PreferH264 a = H264"
| "voted_format PreferH265 a = H265"
| "voted_format PreferVP8 a = VP8"
| "voted_format PreferAV1 a = AV1"

section \<open>The vote\<close>

lemma add_count_keys: "fst ` set (add_count p cs) = insert p (fst ` set cs)"
  by (induction p cs rule: add_count.induct) auto

lemma add_count_map_of: "map_of (add_count p cs) q = (if q = p then Some (case map_of cs p of Some n \<Rightarrow> n + 1 | None \<Rightarrow> 1) else map_of cs q)"
  by (induction p cs rule: add_count.induct) auto

lemma add_count_distinct: "distinct (map fst cs) \<Longrightarrow> distinct (map fst (add_count p cs))"
  by (induction p cs rule: add_count.induct) (auto simp: add_count_keys image_iff)

lemma tally:
  assumes "distinct (map fst cs)"
  shows "distinct (map fst (fold add_count ps cs))"
    and "map_of (fold add_count ps cs) q =
      (if q \<in> set ps then Some (count_list ps q + (case map_of cs q of Some n \<Rightarrow> n | None \<Rightarrow> 0)) else map_of cs q)"
  using assms
proof (induction ps arbitrary: cs)
  case (Cons p ps)
  {
    case 1
    show ?case using Cons.IH(1) [OF add_count_distinct [OF 1]] by simp
  next
    case 2
    show ?case using Cons.IH(2) [OF add_count_distinct [OF 2, of p]]
      by (auto simp: add_count_map_of split: option.splits)
  }
qed simp_all

lemma most_frequent_wins:
  assumes "ps \<noteq> []"
  shows "most_frequent ps \<in> set ps \<and> (\<forall>q. count_list ps q \<le> count_list ps (most_frequent ps))"
proof -
  let ?c = "fold add_count ps []" and ?m = "Max (set (map snd (fold add_count ps [])))"
  note t = tally [of "[]" ps, simplified]
  have in_iff: "(q, n) \<in> set ?c \<longleftrightarrow> q \<in> set ps \<and> n = count_list ps q" for q n
    using t(2) [of q] map_of_eq_Some_iff [OF t(1), of q n] by (auto split: if_splits)
  obtain p0 where "p0 \<in> set ps" using assms by (cases ps) auto
  then have ne: "?c \<noteq> []" using in_iff [of p0 "count_list ps p0"] by auto
  then have "?m \<in> set (map snd ?c)" by (intro Max_in) auto
  then have "\<exists>x\<in>set ?c. (\<lambda>(_, n). n = ?m) x" by force
  then obtain p n where f: "find (\<lambda>(_, n). n = ?m) ?c = Some (p, n)"
    by (metis (no_types, lifting) find_None_iff not_None_eq surj_pair)
  then have pn: "(p, n) \<in> set ?c" "n = ?m" by (auto simp: find_Some_iff) (metis nth_mem)
  have "most_frequent ps = p" using f ne by (simp add: most_frequent_def Let_def)
  moreover have "count_list ps q \<le> count_list ps p" for q
  proof (cases "q \<in> set ps")
    case True
    then have "(q, count_list ps q) \<in> set ?c" by (simp add: in_iff)
    then have "count_list ps q \<le> ?m" by (intro Max_ge) (auto simp: image_iff intro!: bexI [of _ "(q, count_list ps q)"])
    then show ?thesis using pn in_iff [of p n] by simp
  qed (simp add: count_list_0_iff)
  ultimately show ?thesis using pn(1) in_iff by blast
qed


lemma enum_value_or_auto_value [simp]: "enum_value_or_auto (prefer_value p) = p"
  by (cases p) (simp_all add: enum_value_or_auto_def)

lemma enum_value_or_auto_inv: "enum_value_or_auto n = p \<Longrightarrow> p \<noteq> PreferAuto \<Longrightarrow> n = prefer_value p"
  by (auto simp: enum_value_or_auto_def split: if_splits)

lemma voted_usable:
  "votes env ds s \<noteq> [] \<Longrightarrow> usable_preference (all_peers ability_vp8 ds) (usable_av1 env ds) (usable_264 env ds s)
     (usable_265 env ds s) (most_frequent (votes env ds s))"
  using most_frequent_wins [of "votes env ds s"] by (auto simp: votes_def)

lemma no_votes [simp]: "most_frequent [] = prefer_value PreferAuto"
  by (simp add: most_frequent_def)

lemma voted_264: "enum_value_or_auto (most_frequent (votes env ds s)) = PreferH264 \<Longrightarrow> usable_264 env ds s"
  using voted_usable [of env ds s] enum_value_or_auto_inv [of "most_frequent (votes env ds s)" PreferH264]
  by (cases "votes env ds s = []") (auto simp: usable_preference_def)

lemma voted_265: "enum_value_or_auto (most_frequent (votes env ds s)) = PreferH265 \<Longrightarrow> usable_265 env ds s"
  using voted_usable [of env ds s] enum_value_or_auto_inv [of "most_frequent (votes env ds s)" PreferH265]
  by (cases "votes env ds s = []") (auto simp: usable_preference_def)

lemma update_encoding_eq:
  fixes s ds env u
  defines "ds \<equiv> apply_update u (peer_decodings s)"
  shows "encode_codec_format (update_encoding env u s) =
      voted_format (enum_value_or_auto (most_frequent (votes env ds s))) (automatic env ds s)"
    and "peer_decodings (update_encoding env u s) = ds"
    and "\<exists>s'. codecs_after env s s' \<and> hw_config (update_encoding env u s) = hw_config s' \<and>
      not_use (update_encoding env u s) = not_use s \<and> fallback_gdi (update_encoding env u s) = fallback_gdi s"
proof -
  define s1 where "s1 = snd (vram_encoding env (all_peers ability_h264 ds) H264 s)"
  define s2 where "s2 = snd (vram_encoding env (all_peers ability_h265 ds) H265 s1)"
  define s3 where "s3 = snd (hw_encoding env (all_peers ability_h264 ds) H264 s2)"
  define s4 where "s4 = snd (hw_encoding env (all_peers ability_h265 ds) H265 s3)"
  have a0: "codecs_after env s s" by (simp add: codecs_after_def)
  have a1: "codecs_after env s s1" unfolding s1_def by (rule vram_encoding_after [OF a0])
  have a2: "codecs_after env s s2" unfolding s2_def by (rule vram_encoding_after [OF a1])
  have a3: "codecs_after env s s3" unfolding s3_def by (rule hw_encoding_after [OF a2])
  have a4: "codecs_after env s s4" unfolding s4_def by (rule hw_encoding_after [OF a3])
  show "peer_decodings (update_encoding env u s) = ds"
    unfolding update_encoding_def ds_def by (simp add: Let_def split_beta)
  show "\<exists>s'. codecs_after env s s' \<and> hw_config (update_encoding env u s) = hw_config s' \<and>
      not_use (update_encoding env u s) = not_use s \<and> fallback_gdi (update_encoding env u s) = fallback_gdi s"
    using a4 codecs_after_fields [OF a4]
    by (intro exI [of _ s4]) (simp add: update_encoding_def Let_def split_beta s1_def s2_def s3_def s4_def ds_def)
  have h4: "(all_peers ability_h264 ds \<and> (fst (vram_encoding env (all_peers ability_h264 ds) H264 s) \<or>
      fst (hw_encoding env (all_peers ability_h264 ds) H264 s2) \<noteq> None)) = usable_264 env ds s"
    using vram_encoding_after [OF a0] hw_encoding_after [OF a2] by (auto simp: usable_264_def host_encodes_def)
  have h5: "(all_peers ability_h265 ds \<and> (fst (vram_encoding env (all_peers ability_h265 ds) H265 s1) \<or>
      fst (hw_encoding env (all_peers ability_h265 ds) H265 s3) \<noteq> None)) = usable_265 env ds s"
    using vram_encoding_after [OF a1] hw_encoding_after [OF a3] by (auto simp: usable_265_def host_encodes_def)
  have "encode_codec_format (update_encoding env u s) =
    (case enum_value_or_auto (most_frequent (votes env ds s)) of
       PreferVP8 \<Rightarrow> VP8 | PreferVP9 \<Rightarrow> VP9 | PreferAV1 \<Rightarrow> AV1
     | PreferH264 \<Rightarrow> (if fst (vram_encoding env (all_peers ability_h264 ds) H264 s) \<or>
         fst (hw_encoding env (all_peers ability_h264 ds) H264 s2) \<noteq> None then H264 else automatic env ds s)
     | PreferH265 \<Rightarrow> (if fst (vram_encoding env (all_peers ability_h265 ds) H265 s1) \<or>
         fst (hw_encoding env (all_peers ability_h265 ds) H265 s3) \<noteq> None then H265 else automatic env ds s)
     | PreferAuto \<Rightarrow> automatic env ds s)"
    unfolding votes_def automatic_def usable_av1_def h4 [symmetric] h5 [symmetric]
    unfolding update_encoding_def ds_def [symmetric] s3_def s2_def s1_def by (simp add: Let_def split_beta del: not_None_eq split del: if_split)
  then show "encode_codec_format (update_encoding env u s) =
      voted_format (enum_value_or_auto (most_frequent (votes env ds s))) (automatic env ds s)"
    using h4 h5 voted_264 [of env ds s] voted_265 [of env ds s]
    by (cases "enum_value_or_auto (most_frequent (votes env ds s))") auto
qed

section \<open>What is negotiated\<close>

fun ability :: "CodecFormat \<Rightarrow> SupportedDecoding \<Rightarrow> int" where
  "ability VP8 d = ability_vp8 d"
| "ability VP9 d = ability_vp9 d"
| "ability AV1 d = ability_av1 d"
| "ability H264 d = ability_h264 d"
| "ability H265 d = ability_h265 d"
| "ability Unknown d = 0"

lemma hw_try_get_cong: "fst (hw_get env s') = fst (hw_get env s) \<Longrightarrow> fst (hw_try_get env f s') = fst (hw_try_get env f s)"
  by (simp add: hw_try_get_def split_beta Let_def split: CodecFormat.splits)

lemma vram_available_cong:
  assumes "hw_config s' = hw_config s" "not_use s' = not_use s" "fallback_gdi s' = fallback_gdi s"
  shows "fst (vram_available env f s') = fst (vram_available env f s)"
proof -
  note g = hw_get_other [OF assms(1), of env]
  have "fst (hw_get env (snd (hw_get env s'))) = fst (hw_get env (snd (hw_get env s)))"
    using g by simp
  then have "fst (hw_try_get env f (snd (hw_get env s'))) = fst (hw_try_get env f (snd (hw_get env s)))"
    by (rule hw_try_get_cong)
  then show ?thesis using assms g by (simp add: vram_available_def split_beta Let_def split: option.splits)
qed

lemma host_encodes_cong:
  assumes "hw_config s' = hw_config s" "not_use s' = not_use s" "fallback_gdi s' = fallback_gdi s"
  shows "host_encodes env f s' = host_encodes env f s"
  using vram_available_cong [OF assms] hw_try_get_cong [OF hw_get_other(1) [OF assms(1)]]
  by (simp add: host_encodes_def)

lemma host_encodes_after: "codecs_after env s s' \<Longrightarrow> host_encodes env f s' = host_encodes env f s"
  by (simp add: host_encodes_def vram_available_after hw_try_get_after)

lemma host_encodes_update: "host_encodes env f (update_encoding env u s) = host_encodes env f s"
proof -
  obtain s' where s': "codecs_after env s s'" "hw_config (update_encoding env u s) = hw_config s'"
    "not_use (update_encoding env u s) = not_use s" "fallback_gdi (update_encoding env u s) = fallback_gdi s"
    using update_encoding_eq(3) by blast
  from codecs_after_fields [OF s'(1)] s' have "host_encodes env f (update_encoding env u s) = host_encodes env f s'"
    by (intro host_encodes_cong) simp_all
  also have "\<dots> = host_encodes env f s"
    using vram_available_after(1) [OF s'(1)] hw_try_get_after [OF s'(1)] by (simp add: host_encodes_def)
  finally show ?thesis .
qed

lemma no_votes_auto [simp]: "enum_value_or_auto (most_frequent []) = PreferAuto"
  by (simp add: most_frequent_def enum_value_or_auto_def)

lemma automatic_cases:
  "automatic env ds s = VP9 \<or> automatic env ds s = VP8 \<and> all_peers ability_vp8 ds \<or> automatic env ds s = AV1 \<and> usable_av1 env ds
   \<or> automatic env ds s = H264 \<and> usable_264 env ds s \<or> automatic env ds s = H265 \<and> usable_265 env ds s"
  by (auto simp: automatic_def auto_codec_def Let_def)

lemma voted_cases:
  fixes env ds s
  defines "f \<equiv> voted_format (enum_value_or_auto (most_frequent (votes env ds s))) (automatic env ds s)"
  shows "f = VP9 \<or> f = VP8 \<and> all_peers ability_vp8 ds \<or> f = AV1 \<and> usable_av1 env ds
   \<or> f = H264 \<and> usable_264 env ds s \<or> f = H265 \<and> usable_265 env ds s"
proof (cases "enum_value_or_auto (most_frequent (votes env ds s)) = PreferAuto")
  case True
  then show ?thesis using automatic_cases [of env ds s] by (simp add: f_def)
next
  case False
  then obtain p where p: "enum_value_or_auto (most_frequent (votes env ds s)) = p" "p \<noteq> PreferAuto"
    "most_frequent (votes env ds s) = prefer_value p" using enum_value_or_auto_inv by blast
  then have "votes env ds s \<noteq> []" using no_votes_auto by metis
  from voted_usable [OF this] p show ?thesis
    by (cases p) (simp_all add: f_def usable_preference_def)
qed

text \<open>
  C24: the codec the host settles on can be decoded by every viewer and encoded by the host. Whatever a viewer reports or
  whoever leaves, the negotiated codec is VP9 or one that all connected viewers say they can decode; it is AV1 only on a 64-bit
  host, and H264 or H265 only when the host has an encoder for it.
\<close>

theorem negotiated_codec_decodable:
  "negotiated_codec (update_encoding env u s) = VP9 \<or>
   peer_decodings (update_encoding env u s) \<noteq> [] \<and>
   (\<forall>(i, d) \<in> set (peer_decodings (update_encoding env u s)).
      ability (negotiated_codec (update_encoding env u s)) d > 0) \<and>
   (negotiated_codec (update_encoding env u s) = AV1 \<longrightarrow> usize_bytes env \<noteq> 4) \<and>
   (negotiated_codec (update_encoding env u s) \<in> {H264, H265} \<longrightarrow>
      host_encodes env (negotiated_codec (update_encoding env u s)) (update_encoding env u s))"
  using voted_cases [of env "apply_update u (peer_decodings s)" s] host_encodes_update [of env _ u s]
  unfolding negotiated_codec_def update_encoding_eq
  by (auto simp: all_peers_def list_all_iff usable_av1_def usable_264_def usable_265_def disable_av1_def)

definition example_codec_env :: CodecEnv where
  "example_codec_env = \<lparr>feat_hwcodec = True, feat_vram = False, os = Linux, usize_bytes = 8, total_memory = 17179869184,
     codec_settings = empty_settings, local_option = (\<lambda>_. []),
     prioritized = (\<lambda>cs. (find (\<lambda>c. info_format c = DataH264) cs, find (\<lambda>c. info_format c = DataH265) cs)),
     soft_decoders = (None, None), display_luids = None, stored_hwcodec = hw_default, gpu_signature = 0,
     creates = (\<lambda>cfg _. case cfg of CfgVPX _ _ \<Rightarrow> True | _ \<Rightarrow> False)\<rparr>"

definition example_codecs :: Codecs where
  "example_codecs = codecs_init\<lparr>hw_config := Some (hw_default\<lparr>ram_encode :=
     [\<lparr>info_name = ''h264_nvenc'', info_mc_name = None, info_format = DataH264, info_priority = 0\<rparr>]\<rparr>)\<rparr>"

definition example_decoding :: "int \<Rightarrow> SupportedDecoding" where
  "example_decoding p = decoding_default\<lparr>ability_vp9 := 1, ability_h264 := 1, ability_av1 := 1, prefer_codec := p\<rparr>"

lemma example_codec_options: "get_option empty_settings k = []"
  by (simp add: get_option_def get_or_def empty_settings_def empty_config2_def)

lemma example_negotiated: "negotiated_codec (update_encoding example_codec_env (Update 1 (example_decoding 0)) example_codecs) = H264"
  by (simp add: negotiated_codec_def update_encoding_def example_codecs_def codecs_init_def example_decoding_def decoding_default_def
      all_peers_def vram_encoding_def hw_encoding_def hw_try_get_def hw_get_def example_codec_env_def enable_hwcodec_option_def
      example_codec_options option2bool_def starts_with_def usable_preference_def most_frequent_def enum_value_or_auto_def auto_codec_def)

theorem negotiated_codec_decodable_witness:
  "negotiated_codec (update_encoding example_codec_env (Update 1 (example_decoding 0)) example_codecs) = H264 \<and>
   host_encodes example_codec_env H264 (update_encoding example_codec_env (Update 1 (example_decoding 0)) example_codecs)"
  using negotiated_codec_decodable [of example_codec_env "Update 1 (example_decoding 0)" example_codecs] example_negotiated by simp

text \<open>
  The viewers vote. Each viewer whose preference is usable for all has one vote; a preference with the most votes is
  taken, and the automatic choice (H265 before H264 before AV1 or VP9, or VP8 on a host of little memory) only when no vote
  counts.
\<close>

theorem negotiated_codec_majority:
  fixes env u s
  defines "ds \<equiv> apply_update u (peer_decodings s)"
  shows "(votes env ds s = [] \<longrightarrow> negotiated_codec (update_encoding env u s) = automatic env ds s) \<and>
    (votes env ds s \<noteq> [] \<longrightarrow> (\<exists>p. p \<noteq> PreferAuto \<and> prefer_value p \<in> set (votes env ds s) \<and>
       (\<forall>q. count_list (votes env ds s) q \<le> count_list (votes env ds s) (prefer_value p)) \<and>
       negotiated_codec (update_encoding env u s) = voted_format p VP9))"
proof -
  let ?v = "votes env ds s"
  have f: "negotiated_codec (update_encoding env u s) = voted_format (enum_value_or_auto (most_frequent ?v)) (automatic env ds s)"
    by (simp add: negotiated_codec_def update_encoding_eq ds_def)
  have "\<exists>p. p \<noteq> PreferAuto \<and> prefer_value p \<in> set ?v \<and> (\<forall>q. count_list ?v q \<le> count_list ?v (prefer_value p)) \<and>
      negotiated_codec (update_encoding env u s) = voted_format p VP9" if "?v \<noteq> []"
  proof -
    from voted_usable [OF that] obtain p where p: "most_frequent ?v = prefer_value p" "p \<noteq> PreferAuto"
      unfolding usable_preference_def by blast
    then have "voted_format p (automatic env ds s) = voted_format p VP9" by (cases p) auto
    with p most_frequent_wins [OF that] f show ?thesis by (intro exI [of _ p]) simp
  qed
  moreover have "negotiated_codec (update_encoding env u s) = automatic env ds s" if "?v = []"
    using f that no_votes_auto by (simp del: no_votes)
  ultimately show ?thesis by blast
qed


theorem negotiated_codec_majority_witness:
  "negotiated_codec (update_encoding example_codec_env (Update 1 (example_decoding 5)) example_codecs) = AV1"
proof -
  have v: "votes example_codec_env (apply_update (Update 1 (example_decoding 5)) (peer_decodings example_codecs)) example_codecs = [5]"
    by (simp add: votes_def example_codecs_def codecs_init_def example_decoding_def decoding_default_def usable_preference_def
        usable_av1_def all_peers_def disable_av1_def example_codec_env_def)
  obtain p where "prefer_value p = 5"
    "negotiated_codec (update_encoding example_codec_env (Update 1 (example_decoding 5)) example_codecs) = voted_format p VP9"
    using negotiated_codec_majority [of example_codec_env "Update 1 (example_decoding 5)" example_codecs] v by auto
  then show ?thesis by (cases p) simp_all
qed

section \<open>Setting up an encoder\<close>

lemma set_fallback_format: "cfg_format cfg = Some f \<Longrightarrow> negotiated_codec (set_fallback cfg s) = f"
  by (simp add: set_fallback_def negotiated_codec_def)

lemma vram_available_format: "x \<in> set (fst (vram_available env f s)) \<Longrightarrow> format_data f = Some (data_format x)"
  by (auto simp: vram_available_def split_beta Let_def split: if_splits option.splits)

lemma vram_try_get_format: "fst (vram_try_get env dev f s) = Some x \<Longrightarrow> format_data f = Some (data_format x)"
proof -
  assume a: "fst (vram_try_get env dev f s) = Some x"
  let ?v = "filter (\<lambda>x. luid x = dev) (fst (vram_available env f s))"
  have r: "fst (vram_try_get env dev f s) =
      (if ?v \<noteq> [] then (case find driver_ffmpeg ?v of Some x \<Rightarrow> Some x | None \<Rightarrow> Some (hd ?v)) else None)"
    by (simp add: vram_try_get_def split_beta Let_def)
  have "x \<in> set ?v"
  proof (cases "find driver_ffmpeg ?v")
    case None
    then show ?thesis using a r hd_in_set [of ?v] by (simp split: if_splits)
  next
    case (Some y)
    then have "x = y" using a r by (simp split: if_splits)
    then show ?thesis using Some unfolding find_Some_iff by (metis nth_mem)
  qed
  then show ?thesis using vram_available_format by auto
qed

lemma get_encoder_config_format: "\<exists>f. cfg_format (fst (get_encoder_config env c q r s)) = Some f"
proof -
  obtain s2 where g: "get_encoder_config env c q r s =
     (let prm = encoder_params c q r; f = negotiated_codec s2
      in if f = H264 \<or> f = H265 then
           (case (if feat_vram env then vram_try_get env (cap_device c) f s2 else (None, s2)) of
              (Some x, s3) \<Rightarrow> (CfgVRAM x prm, s3)
            | (None, s3) \<Rightarrow>
                (case (if feat_hwcodec env then hw_try_get env f s3 else (None, s3)) of
                   (Some hw, s4) \<Rightarrow> (CfgHWRAM (info_name hw) (info_mc_name hw) prm, s4)
                 | (None, s4) \<Rightarrow> (CfgVPX IdVP9 prm, s4)))
         else if f = VP8 then (CfgVPX IdVP8 prm, s2)
         else if f = AV1 then (CfgAOM prm, s2)
         else (CfgVPX IdVP9 prm, s2))"
    unfolding get_encoder_config_def Let_def by blast
  let ?f = "negotiated_codec s2"
  obtain v s3 where v: "(if feat_vram env then vram_try_get env (cap_device c) ?f s2 else (None, s2)) = (v, s3)" by fastforce
  obtain h s4 where h: "(if feat_hwcodec env then hw_try_get env ?f s3 else (None, s3)) = (h, s4)" by fastforce
  show ?thesis
  proof (cases "(?f = H264 \<or> ?f = H265) \<and> v \<noteq> None")
    case True
    then obtain x where x: "v = Some x" by auto
    then have "format_data ?f = Some (data_format x)" using v vram_try_get_format [of env "cap_device c" ?f s2 x] by (simp split: if_splits)
    with True x v show ?thesis unfolding g by (auto simp: Let_def)
  next
    case False
    then show ?thesis using v h unfolding g by (cases h) (auto simp: Let_def)
  qed
qed

lemma setup_encoder_result:
  assumes "setup_encoder env c q a b s = (Some (cfg, f, u), s')"
  shows "cfg_format cfg = Some f \<and> creates env cfg u \<and> negotiated_codec s' = f"
proof -
  obtain cfg1 s1 where g: "get_encoder_config env c q (a \<or> b) s = (cfg1, s1)" by (cases "get_encoder_config env c q (a \<or> b) s")
  obtain f1 where f1: "cfg_format cfg1 = Some f1" using get_encoder_config_format [of env c q "a \<or> b" s] g by auto
  show ?thesis using assms set_fallback_format [OF f1, of s1] f1 g
    by (auto simp: setup_encoder_def encoder_new_def Let_def split: if_splits)
qed

text \<open>
  C25: video always starts. In a build without the texture encoders, if the library can create a VP9 encoder, then setting up an
  encoder succeeds whatever was negotiated and whichever other encoder fails to be created; the encoder that is used could be
  created, and the codec that is announced is the one it produces.
\<close>

theorem start_encoder_succeeds:
  assumes "\<not> feat_vram env" and "\<And>p u. creates env (CfgVPX IdVP9 p) u"
  shows "\<exists>cfg f u s'. start_encoder env c q a b s = (Some (cfg, f, u), s') \<and>
    creates env cfg u \<and> cfg_format cfg = Some f \<and> negotiated_codec s' = f"
proof (cases "setup_encoder env c q a b s")
  case (Pair r s1)
  show ?thesis
  proof (cases r)
    case (Some x)
    obtain cfg f u where "x = (cfg, f, u)" by (cases x)
    with Some Pair setup_encoder_result [of env c q a b s cfg f u s1] show ?thesis by (simp add: start_encoder_def)
  next
    case None
    let ?p = "\<lparr>width = cap_width c, height = cap_height c, quality = q, keyframe_interval = None\<rparr>"
    let ?s = "set_fallback (CfgVPX IdVP9 ?p) s1" and ?cfg = "CfgVPX IdVP9 (encoder_params c q (a \<or> b))"
    have n: "negotiated_codec ?s = VP9" by (simp add: set_fallback_format)
    then have g: "get_encoder_config env c q (a \<or> b) ?s = (?cfg, ?s)"
      using assms(1) by (simp add: get_encoder_config_def Let_def)
    have "setup_encoder env c q a b ?s = (Some (?cfg, VP9, use_i444 ?cfg (set_fallback ?cfg ?s)), set_fallback ?cfg ?s)"
      using assms(2) by (simp add: setup_encoder_def g encoder_new_def Let_def set_fallback_format)
    then show ?thesis
      using None Pair assms(2) by (simp add: start_encoder_def set_fallback_format)
  qed
qed

definition example_capture :: Capture where
  "example_capture = \<lparr>cap_width = 1920, cap_height = 1080, cap_gdi = False, cap_device = 0, cap_portable = False,
     cap_source = Monitor, cap_name = ''monitor0''\<rparr>"

theorem start_encoder_succeeds_witness:
  "\<exists>cfg f u s'. start_encoder example_codec_env example_capture 1 False False
      (update_encoding example_codec_env (Update 1 (example_decoding 5)) example_codecs) = (Some (cfg, f, u), s') \<and>
    creates example_codec_env cfg u \<and> cfg_format cfg = Some f \<and> negotiated_codec s' = f"
  by (rule start_encoder_succeeds) (simp_all add: example_codec_env_def)

lemma av1_only:
  assumes "\<not> disable_av1 env" "peer_decodings s \<noteq> []"
    "\<And>i d. (i, d) \<in> set (peer_decodings s) \<Longrightarrow> prefer_codec d = prefer_value PreferAV1 \<and> ability_av1 d > 0"
  shows "negotiated_codec (update_encoding env Check s) = AV1"
proof -
  let ?ds = "peer_decodings s"
  have "usable_av1 env ?ds" using assms by (auto simp: usable_av1_def all_peers_def list_all_iff)
  then have "filter (\<lambda>(_, d). usable_preference v (usable_av1 env ?ds) w x (prefer_codec d)) ?ds = ?ds" for v w x
    using assms(3) by (auto simp: filter_id_conv usable_preference_def)
  then have v: "votes env ?ds s = map (\<lambda>(_, d). prefer_codec d) ?ds" by (simp add: votes_def)
  then have "votes env ?ds s \<noteq> []" "set (votes env ?ds s) \<subseteq> {prefer_value PreferAV1}" using assms(2,3) by auto
  with most_frequent_wins have "most_frequent (votes env ?ds s) = prefer_value PreferAV1" by blast
  then show ?thesis using update_encoding_eq(1) [of env Check s] enum_value_or_auto_value [of PreferAV1]
    by (simp add: negotiated_codec_def)
qed

lemma set_fallback_peers [simp]: "peer_decodings (set_fallback cfg s) = peer_decodings s"
  by (simp add: set_fallback_def split: option.splits)

lemma setup_av1_fails:
  assumes "feat_vram env" "\<not> disable_av1 env" "peer_decodings s \<noteq> []"
    "\<And>i d. (i, d) \<in> set (peer_decodings s) \<Longrightarrow> prefer_codec d = prefer_value PreferAV1 \<and> ability_av1 d > 0"
    "\<And>p u. \<not> creates env (CfgAOM p) u"
  shows "fst (setup_encoder env c q a b s) = None" "peer_decodings (snd (setup_encoder env c q a b s)) = peer_decodings s"
proof -
  let ?s1 = "if os env = Windows \<and> feat_vram env \<and> (cap_portable c \<or> cap_gdi c \<or> cap_source c = Camera)
                then set_not_use (cap_name c) True s else s"
  have p: "peer_decodings ?s1 = peer_decodings s" by (simp add: set_not_use_def)
  have n: "negotiated_codec (update_encoding env Check ?s1) = AV1"
    by (rule av1_only [OF assms(2)]) (use assms(3,4) p in auto)
  have g: "get_encoder_config env c q (a \<or> b) s = (CfgAOM (encoder_params c q (a \<or> b)), update_encoding env Check ?s1)"
    using assms(1) n by (simp add: get_encoder_config_def Let_def)
  show "fst (setup_encoder env c q a b s) = None" "peer_decodings (snd (setup_encoder env c q a b s)) = peer_decodings s"
    using assms(5) update_encoding_eq(2) [of env Check ?s1] p by (simp_all add: setup_encoder_def g encoder_new_def Let_def)
qed

text \<open>
  In a build with the texture encoders the fallback to VP9 is undone. When the viewers prefer AV1 and no AV1 encoder can be
  created, the second attempt negotiates again and ends at AV1 again, so setting up the encoder fails although VP9 would work.
\<close>

theorem fallback_undone:
  assumes "feat_vram env" and "\<not> disable_av1 env" and "peer_decodings s \<noteq> []"
    and "\<And>i d. (i, d) \<in> set (peer_decodings s) \<Longrightarrow> prefer_codec d = prefer_value PreferAV1 \<and> ability_av1 d > 0"
    and "\<And>p u. \<not> creates env (CfgAOM p) u"
  shows "fst (start_encoder env c q a b s) = None"
proof -
  have "fst (setup_encoder env c q a b s) = None" "peer_decodings (snd (setup_encoder env c q a b s)) = peer_decodings s"
    by (rule setup_av1_fails [OF assms(1-3)]; use assms(4,5) in auto)+
  then obtain s1 where s1: "setup_encoder env c q a b s = (None, s1)" "peer_decodings s1 = peer_decodings s"
    by (cases "setup_encoder env c q a b s") simp
  have "fst (setup_encoder env c q a b (set_fallback cfg s1)) = None" for cfg
    by (rule setup_av1_fails [OF assms(1,2)]) (use assms(3-5) s1(2) in auto)
  then show ?thesis by (simp add: start_encoder_def s1(1))
qed

theorem fallback_undone_witness:
  "fst (start_encoder (example_codec_env\<lparr>feat_vram := True, os := Windows\<rparr>) example_capture 1 False False
      (example_codecs\<lparr>peer_decodings := [(1, example_decoding 5)]\<rparr>)) = None \<and>
   creates (example_codec_env\<lparr>feat_vram := True, os := Windows\<rparr>) (CfgVPX IdVP9 (encoder_params example_capture 1 False)) False"
proof -
  have "fst (start_encoder (example_codec_env\<lparr>feat_vram := True, os := Windows\<rparr>) example_capture 1 False False
      (example_codecs\<lparr>peer_decodings := [(1, example_decoding 5)]\<rparr>)) = None"
    by (rule fallback_undone) (auto simp: example_codec_env_def disable_av1_def example_decoding_def)
  then show ?thesis by (simp add: example_codec_env_def)
qed

end
