(* ===== verification/Host_Policy.thy ===== *)
theory Host_Policy
  imports Codec_Negotiation "HOL-Library.Multiset"
begin

text \<open>
  The decisions that the host keeps apart from the code that carries them out: which displays to capture and when to add a virtual
  one (\<open>src/headless_policy.rs\<close>), when to register and over what (\<open>src/host_startup.rs\<close>, \<open>src/rendezvous_transport.rs\<close>), which
  processes to end on exit (\<open>src/tray_exit.rs\<close>) and which address of the host is offered in the local network
  (\<open>src/direct_access.rs\<close>). Durations are in milliseconds.
\<close>

section \<open>Displays\<close>

definition REQUIRED_NO_DISPLAY_SAMPLES :: nat where "REQUIRED_NO_DISPLAY_SAMPLES = 4"
definition FIRST_FRAME_TIMEOUT :: nat where "FIRST_FRAME_TIMEOUT = 12000"
definition FIRST_FRAME_WOULD_BLOCK_LIMIT :: nat where "FIRST_FRAME_WOULD_BLOCK_LIMIT = 3"

record DisplayProbe =
  online :: bool
  headless_virtual :: bool

definition should_insert_headless :: "bool list \<Rightarrow> bool" where
  "should_insert_headless samples = (length samples \<ge> REQUIRED_NO_DISPLAY_SAMPLES \<and> list_all (\<lambda>a. \<not> a) samples)"

definition should_prepare_headless_before_disconnect :: "bool \<Rightarrow> bool \<Rightarrow> bool \<Rightarrow> bool \<Rightarrow> bool" where
  "should_prepare_headless_before_disconnect capable requested usable has_virtual =
     (capable \<and> requested \<and> \<not> usable \<and> \<not> has_virtual)"

definition online_indices :: "DisplayProbe list \<Rightarrow> nat list" where
  "online_indices probes = filter (\<lambda>i. online (probes ! i)) [0..<length probes]"

definition usable_display_indices :: "DisplayProbe list \<Rightarrow> bool \<Rightarrow> nat list" where
  "usable_display_indices probes prefer_headless_virtual =
     (if prefer_headless_virtual
      then sort_key (\<lambda>i. if headless_virtual (probes ! i) then 0 else (1 :: nat)) (online_indices probes)
      else online_indices probes)"

definition should_restart_first_frame_capture :: "bool \<Rightarrow> nat \<Rightarrow> bool" where
  "should_restart_first_frame_capture sent elapsed = (\<not> sent \<and> elapsed \<ge> FIRST_FRAME_TIMEOUT)"

definition should_fallback_first_frame_capture :: "bool \<Rightarrow> nat \<Rightarrow> bool" where
  "should_fallback_first_frame_capture first_captured n = (\<not> first_captured \<and> n \<ge> FIRST_FRAME_WOULD_BLOCK_LIMIT)"

definition should_recover_headless_after_capture_error :: "bool \<Rightarrow> bool \<Rightarrow> bool \<Rightarrow> string \<Rightarrow> bool" where
  "should_recover_headless_after_capture_error capable sent gdi err =
     (capable \<and> \<not> sent \<and> ((gdi \<and> contains_text ''Failed to copy screen to Windows buffer'' err) \<or> \<not> gdi))"

section \<open>Registration and exit\<close>

definition can_start_rendezvous :: "(string + unit) option \<Rightarrow> int option \<Rightarrow> bool" where
  "can_start_rendezvous ipc_ready owner_online =
     (case ipc_ready of
        Some (Inr _) \<Rightarrow> True
      | Some (Inl _) \<Rightarrow> True
      | None \<Rightarrow> (case owner_online of Some n \<Rightarrow> n \<le> 0 | None \<Rightarrow> True))"

definition should_start_portable_service :: "bool \<Rightarrow> bool \<Rightarrow> bool \<Rightarrow> bool \<Rightarrow> bool" where
  "should_start_portable_service installed args_empty quick_support pre_elevate =
     (\<not> installed \<and> args_empty \<and> (quick_support \<or> pre_elevate))"

definition should_start_with_tcp :: "bool \<Rightarrow> bool \<Rightarrow> bool \<Rightarrow> bool \<Rightarrow> bool" where
  "should_start_with_tcp test_tcp prx websocket udp_disabled = (test_tcp \<or> prx \<or> websocket \<or> udp_disabled)"

definition should_fallback_to_tcp :: "int \<Rightarrow> bool" where
  "should_fallback_to_tcp failures = (failures \<ge> 4)"

definition exe_name :: "string \<Rightarrow> string" where
  "exe_name n = (let m = to_lowercase n in if drop (length m - 4) m = ''.exe'' then m else m @ ''.exe'')"

definition cleanup_target_pids :: "(nat \<times> string) list \<Rightarrow> string list \<Rightarrow> nat \<Rightarrow> nat list" where
  "cleanup_target_pids processes names keep_pid =
     map fst (filter (\<lambda>(pid, n). pid \<noteq> keep_pid \<and> to_lowercase n \<in> set (map exe_name names)) processes)"

definition should_clear_stop_service :: "bool \<Rightarrow> bool \<Rightarrow> bool" where
  "should_clear_stop_service terminated stopped = (terminated \<and> stopped)"

definition should_recover_stop_service :: "bool \<Rightarrow> bool \<Rightarrow> bool \<Rightarrow> bool" where
  "should_recover_stop_service cleanup others running = (cleanup \<and> \<not> others \<and> \<not> running)"

section \<open>The address in the local network\<close>

type_synonym ipv4 = "u8 \<times> u8 \<times> u8 \<times> u8"

fun is_private :: "ipv4 \<Rightarrow> bool" where
  "is_private (a, b, c, d) = (a = 10 \<or> a = 172 \<and> 16 \<le> b \<and> b \<le> 31 \<or> a = 192 \<and> b = 168)"

fun is_public_ipv4 :: "ipv4 \<Rightarrow> bool" where
  "is_public_ipv4 (a, b, c, d) =
     (\<not> is_private (a, b, c, d) \<and> a \<noteq> 127 \<and> \<not> (a = 169 \<and> b = 254) \<and> \<not> (224 \<le> a \<and> a \<le> 239) \<and>
      (a, b, c, d) \<noteq> (255, 255, 255, 255) \<and> (a, b, c, d) \<noteq> (0, 0, 0, 0) \<and> a \<noteq> 0 \<and> a < 240)"

record LanAddressCandidate =
  address :: ipv4
  adapter :: string
  is_default :: bool
  has_gateway :: bool
  is_physical :: bool

definition virtual_markers :: "string list" where
  "virtual_markers = [''virtual'', ''vethernet'', ''vmware'', ''virtualbox'', ''vbox'', ''hyper-v'', ''wsl'', ''docker'',
     ''tailscale'', ''wireguard'', ''vpn'', ''tunnel'', ''loopback'', ''bluetooth'', ''bt'', ''pseudo'', ''tun'', ''tap'', ''ppp'',
     ''isatap'', ''teredo'', ''6to4'']"

definition is_virtual :: "LanAddressCandidate \<Rightarrow> bool" where
  "is_virtual c = list_ex (\<lambda>m. contains_text m (to_lowercase (adapter c))) virtual_markers"

definition range_score :: "ipv4 \<Rightarrow> int" where
  "range_score a = (case a of (a0, a1, _, _) \<Rightarrow>
     if a0 = 192 \<and> a1 = 168 then 5000 else if a0 = 10 then 200 else if a0 = 172 \<and> 16 \<le> a1 \<and> a1 \<le> 31 then 100 else 0)"

definition lan_candidate_score :: "LanAddressCandidate \<Rightarrow> int" where
  "lan_candidate_score c =
     (if is_virtual c then -500 else 0) + (if is_physical c then 50 else 0) + (if has_gateway c then 50 else 0)
     + (if is_default c \<and> \<not> is_virtual c then 10000 else 0) + range_score (address c)"

definition choose_lan_ipv4 :: "LanAddressCandidate list \<Rightarrow> ipv4 option" where
  "choose_lan_ipv4 cs = map_option address (iter_max_by lan_candidate_score (filter (\<lambda>c. is_private (address c)) cs))"

section \<open>Properties\<close>

lemma insort_key_after: "\<forall>x \<in> set A. f x < f a \<Longrightarrow> \<forall>x \<in> set B. f a \<le> f x \<Longrightarrow> insort_key f a (A @ B) = A @ a # B"
  by (induction A) (auto simp: insort_is_Cons)

lemma sort_two_classes:
  "sort_key (\<lambda>i. if P i then 0 else (1 :: nat)) xs = filter P xs @ filter (\<lambda>i. \<not> P i) xs"
proof (induction xs)
  case (Cons x xs)
  show ?case
  proof (cases "P x")
    case True
    then show ?thesis using Cons by (simp add: insort_is_Cons)
  next
    case False
    then show ?thesis using Cons insort_key_after [of "filter P xs" "\<lambda>i. if P i then 0 else (1 :: nat)" x "filter (\<lambda>i. \<not> P i) xs"] by simp
  qed
qed simp

text \<open>
  The displays that are captured are exactly the online ones, each once. When a virtual display is preferred, the virtual ones come
  first, and otherwise the order of the system is kept.
\<close>

theorem usable_displays:
  "set (usable_display_indices probes b) = {i. i < length probes \<and> online (probes ! i)} \<and>
   distinct (usable_display_indices probes b) \<and>
   (\<exists>vs ps. usable_display_indices probes True = vs @ ps \<and> sorted vs \<and> sorted ps \<and>
      list_all (\<lambda>i. headless_virtual (probes ! i)) vs \<and> list_all (\<lambda>i. \<not> headless_virtual (probes ! i)) ps) \<and>
   sorted (usable_display_indices probes False)"
proof -
  let ?o = "online_indices probes" and ?v = "\<lambda>i. headless_virtual (probes ! i)"
  have o: "set ?o = {i. i < length probes \<and> online (probes ! i)}" "distinct ?o" "sorted ?o"
    by (auto simp: online_indices_def intro: sorted_wrt_filter)
  have "usable_display_indices probes True = filter ?v ?o @ filter (\<lambda>i. \<not> ?v i) ?o"
    by (simp add: usable_display_indices_def sort_two_classes)
  moreover have "sorted (filter ?v ?o)" "sorted (filter (\<lambda>i. \<not> ?v i) ?o)" using o(3) by (auto intro: sorted_wrt_filter)
  moreover have "list_all ?v (filter ?v ?o)" "list_all (\<lambda>i. \<not> ?v i) (filter (\<lambda>i. \<not> ?v i) ?o)" by (simp_all add: list_all_iff)
  ultimately have "\<exists>vs ps. usable_display_indices probes True = vs @ ps \<and> sorted vs \<and> sorted ps \<and>
      list_all ?v vs \<and> list_all (\<lambda>i. \<not> ?v i) ps" by blast
  with o show ?thesis by (auto simp: usable_display_indices_def)
qed

lemma score_bounds:
  "is_default c \<Longrightarrow> \<not> is_virtual c \<Longrightarrow> lan_candidate_score c \<ge> 10000"
  "\<not> (is_default c \<and> \<not> is_virtual c) \<Longrightarrow> lan_candidate_score c \<le> 5100"
  by (auto simp: lan_candidate_score_def range_score_def split: prod.splits)

text \<open>
  The address that is offered in the local network is a private one of the host, there is one whenever the host has one, and an
  adapter that carries the default route and is not virtual is preferred to every other.
\<close>

theorem lan_address_choice:
  "(choose_lan_ipv4 cs = None \<longleftrightarrow> list_all (\<lambda>c. \<not> is_private (address c)) cs) \<and>
   (\<forall>a. choose_lan_ipv4 cs = Some a \<longrightarrow> (\<exists>c \<in> set cs. address c = a \<and> is_private a \<and>
      (\<forall>d \<in> set cs. is_private (address d) \<longrightarrow> lan_candidate_score d \<le> lan_candidate_score c) \<and>
      ((\<exists>d \<in> set cs. is_private (address d) \<and> is_default d \<and> \<not> is_virtual d) \<longrightarrow> is_default c \<and> \<not> is_virtual c)))"
proof (intro conjI allI impI)
  show "choose_lan_ipv4 cs = None \<longleftrightarrow> list_all (\<lambda>c. \<not> is_private (address c)) cs"
    by (auto simp: choose_lan_ipv4_def filter_empty_conv list_all_iff)
  fix a assume "choose_lan_ipv4 cs = Some a"
  then obtain c where c: "iter_max_by lan_candidate_score (filter (\<lambda>c. is_private (address c)) cs) = Some c" "address c = a"
    by (auto simp: choose_lan_ipv4_def)
  from iter_max_by_Some [OF c(1)] have m: "c \<in> set cs" "is_private (address c)"
    "\<And>d. d \<in> set cs \<Longrightarrow> is_private (address d) \<Longrightarrow> lan_candidate_score d \<le> lan_candidate_score c" by auto
  have "is_default c \<and> \<not> is_virtual c" if "d \<in> set cs" "is_private (address d)" "is_default d" "\<not> is_virtual d" for d
    using m(3) [OF that(1,2)] score_bounds(1) [OF that(3,4)] score_bounds(2) [of c] by linarith
  with m c(2) show "\<exists>c \<in> set cs. address c = a \<and> is_private a \<and>
      (\<forall>d \<in> set cs. is_private (address d) \<longrightarrow> lan_candidate_score d \<le> lan_candidate_score c) \<and>
      ((\<exists>d \<in> set cs. is_private (address d) \<and> is_default d \<and> \<not> is_virtual d) \<longrightarrow> is_default c \<and> \<not> is_virtual c)" by blast
qed

definition example_adapter :: "ipv4 \<Rightarrow> string \<Rightarrow> bool \<Rightarrow> LanAddressCandidate" where
  "example_adapter a n dflt = \<lparr>address = a, adapter = n, is_default = dflt, has_gateway = True, is_physical = True\<rparr>"

theorem lan_address_choice_witness:
  "choose_lan_ipv4 [example_adapter (192, 168, 2, 10) ''Ethernet 2'' False, example_adapter (10, 16, 1, 20) ''Wi-Fi'' True]
     = Some (10, 16, 1, 20)"
proof -
  let ?c = "example_adapter (192, 168, 2, 10) ''Ethernet 2'' False" and ?d = "example_adapter (10, 16, 1, 20) ''Wi-Fi'' True"
  have v: "\<not> is_virtual ?d" by code_simp
  have p: "is_private (address ?c)" "is_private (address ?d)" "is_default ?d" "\<not> is_default ?c" by (simp_all add: example_adapter_def)
  then have "choose_lan_ipv4 [?c, ?d] \<noteq> None" using lan_address_choice [of "[?c, ?d]"] by auto
  then obtain a where a: "choose_lan_ipv4 [?c, ?d] = Some a" by blast
  then have "a = address ?d" using lan_address_choice [of "[?c, ?d]"] p v by auto
  then show ?thesis using a by (simp add: example_adapter_def)
qed

text \<open>A virtual adapter in the usual home range still wins over a physical one in another range without the default route.\<close>

lemma virtual_adapter_wins:
  "choose_lan_ipv4 [example_adapter (10, 16, 1, 20) ''Ethernet'' False, example_adapter (192, 168, 56, 1) ''VMware VMnet8'' False]
     = Some (192, 168, 56, 1)"
  by (simp add: choose_lan_ipv4_def iter_max_by_def lan_candidate_score_def range_score_def example_adapter_def)

end
