(* ===== verification/Privacy_Mode.thy ===== *)
theory Privacy_Mode
  imports Prelude
begin

text \<open>
  Privacy mode (\<open>src/privacy_mode.rs\<close>): the trait \<open>PrivacyMode\<close> with two of its implementations, that of macOS
  (\<open>src/privacy_mode/macos.rs\<close>) and the top-most window of Windows (\<open>src/privacy_mode/win_topmost_window.rs\<close>), the
  module that holds the implementation in use, and the requests of a connection (\<open>src/server/connection.rs\<close>). What the
  operating system answers is in \<open>PmEnv\<close>; what it is told goes to a list of actions. The contract of the trait is the locale
  \<open>privacy_trait\<close>. The virtual display of Windows, the only implementation that is turned on asynchronously, is not modelled.
\<close>

section \<open>The trait\<close>

definition INVALID_PRIVACY_MODE_CONN_ID :: int where "INVALID_PRIVACY_MODE_CONN_ID = 0"
definition OCCUPIED :: string where "OCCUPIED = ''Privacy occupied by another one.''"
definition TURN_OFF_OTHER_ID :: string where
  "TURN_OFF_OTHER_ID = ''Failed to turn off privacy mode that belongs to someone else.''"
definition PRIVACY_MODE_IMPL_WIN_MAG :: string where "PRIVACY_MODE_IMPL_WIN_MAG = ''privacy_mode_impl_mag''"

datatype PrivacyModeState = OffSucceeded | OffByPeer | OffUnknown

text \<open>The two checks take the connection that holds the mode, and the one that asks.\<close>

definition check_on_conn_id :: "int \<Rightarrow> int \<Rightarrow> string + bool" where
  "check_on_conn_id pre c =
     (if pre = c then Inr True
      else if pre \<noteq> INVALID_PRIVACY_MODE_CONN_ID then Inl OCCUPIED
      else Inr False)"

definition check_off_conn_id :: "int \<Rightarrow> int \<Rightarrow> string + unit" where
  "check_off_conn_id pre c =
     (if pre \<noteq> INVALID_PRIVACY_MODE_CONN_ID \<and> c \<noteq> INVALID_PRIVACY_MODE_CONN_ID \<and> pre \<noteq> c then Inl TURN_OFF_OTHER_ID
      else Inr ())"

text \<open>
  The answers of the system: whether macOS switches the mode; for Windows the directory of the program, its library, the
  start of the broker (an error, and whether the process handles are set), the window that is looked up, and the input hook.
\<close>

record PmEnv =
  mac_set :: "bool \<Rightarrow> bool"
  exe_dir :: "string + unit"
  dll_exists :: bool
  start_broker :: "string option \<times> bool"
  find_hwnd :: "string + nat"
  hook :: "string + unit"
  unhook :: "string + unit"
  supported_impls :: "string list"
  option_impl_key :: string
  default_impl :: string
  test_create_capturer :: string

datatype pm_action =
  MacSetPrivacyMode bool
| StartBroker
| ShowWindow nat
| HideWindow nat
| Hook
| Unhook
| SetPrivacyModeState int PrivacyModeState

section \<open>macOS\<close>

record MacImpl =
  mac_key :: string
  mac_conn_id :: int

definition mac_new :: "string \<Rightarrow> MacImpl" where
  "mac_new k = \<lparr>mac_key = k, mac_conn_id = 0\<rparr>"

definition mac_clear :: "PmEnv \<Rightarrow> MacImpl \<Rightarrow> MacImpl \<times> pm_action list" where
  "mac_clear env i = (i\<lparr>mac_conn_id := 0\<rparr>, [MacSetPrivacyMode False])"

definition mac_turn_on :: "PmEnv \<Rightarrow> int \<Rightarrow> MacImpl \<Rightarrow> (string + bool) \<times> MacImpl \<times> pm_action list" where
  "mac_turn_on env c i =
     (case check_on_conn_id (mac_conn_id i) c of
        Inl e \<Rightarrow> (Inl e, i, [])
      | Inr True \<Rightarrow> (Inr True, i, [])
      | Inr False \<Rightarrow>
          if \<not> mac_set env True then (Inl ''Failed to turn on privacy mode'', i, [MacSetPrivacyMode True])
          else (Inr True, i\<lparr>mac_conn_id := c\<rparr>, [MacSetPrivacyMode True]))"

definition mac_turn_off :: "PmEnv \<Rightarrow> int \<Rightarrow> PrivacyModeState option \<Rightarrow> MacImpl \<Rightarrow> (string + unit) \<times> MacImpl \<times> pm_action list" where
  "mac_turn_off env c st i =
     (case check_off_conn_id (mac_conn_id i) c of
        Inl e \<Rightarrow> (Inl e, i, [])
      | Inr _ \<Rightarrow>
          if \<not> mac_set env False then (Inl ''Failed to turn off privacy mode'', i, [MacSetPrivacyMode False])
          else (Inr (), i\<lparr>mac_conn_id := 0\<rparr>, [MacSetPrivacyMode False]))"

section \<open>The top-most window of Windows\<close>

record TopmostImpl =
  top_key :: string
  top_conn_id :: int
  handlers :: bool
  hwnd :: nat

definition top_new :: "string \<Rightarrow> TopmostImpl" where
  "top_new k = \<lparr>top_key = k, top_conn_id = INVALID_PRIVACY_MODE_CONN_ID, handlers = False, hwnd = 0\<rparr>"

definition top_start :: "PmEnv \<Rightarrow> TopmostImpl \<Rightarrow> (string + unit) \<times> TopmostImpl \<times> pm_action list" where
  "top_start env i =
     (if handlers i then (Inr (), i, [])
      else case start_broker env of
        (Some e, h) \<Rightarrow> (Inl e, i\<lparr>handlers := h\<rparr>, [StartBroker])
      | (None, h) \<Rightarrow> (Inr (), i\<lparr>handlers := h\<rparr>, [StartBroker]))"

definition top_show :: "PmEnv \<Rightarrow> int \<Rightarrow> TopmostImpl \<Rightarrow> (string + bool) \<times> TopmostImpl \<times> pm_action list" where
  "top_show env c i =
     (case find_hwnd env of
        Inl e \<Rightarrow> (Inl e, i, [])
      | Inr w \<Rightarrow>
          if w = 0 then (Inl ''No privacy window created'', i, [])
          else case hook env of
            Inl e \<Rightarrow> (Inl e, i, [Hook])
          | Inr _ \<Rightarrow> (Inr True, i\<lparr>top_conn_id := c, hwnd := w\<rparr>, [Hook, ShowWindow w]))"

definition top_turn_on :: "PmEnv \<Rightarrow> int \<Rightarrow> TopmostImpl \<Rightarrow> (string + bool) \<times> TopmostImpl \<times> pm_action list" where
  "top_turn_on env c i =
     (case check_on_conn_id (top_conn_id i) c of
        Inl e \<Rightarrow> (Inl e, i, [])
      | Inr True \<Rightarrow> (Inr True, i, [])
      | Inr False \<Rightarrow>
          (case exe_dir env of
             Inl e \<Rightarrow> (Inl e, i, [])
           | Inr _ \<Rightarrow>
               if \<not> dll_exists env then (Inr False, i, [])
               else if \<not> handlers i then
                 (case top_start env i of
                    (Inl e, i1, as) \<Rightarrow> (Inl e, i1, as)
                  | (Inr _, i1, as) \<Rightarrow> (case top_show env c i1 of (r, i2, bs) \<Rightarrow> (r, i2, as @ bs)))
               else top_show env c i))"

definition top_turn_off :: "PmEnv \<Rightarrow> int \<Rightarrow> PrivacyModeState option \<Rightarrow> TopmostImpl \<Rightarrow> (string + unit) \<times> TopmostImpl \<times> pm_action list" where
  "top_turn_off env c st i =
     (case check_off_conn_id (top_conn_id i) c of
        Inl e \<Rightarrow> (Inl e, i, [])
      | Inr _ \<Rightarrow>
          (case unhook env of
             Inl e \<Rightarrow> (Inl e, i, [Unhook])
           | Inr _ \<Rightarrow>
               (case find_hwnd env of
                  Inl e \<Rightarrow> (Inl e, i, [Unhook])
                | Inr w \<Rightarrow>
                    (Inr (), (if top_conn_id i \<noteq> INVALID_PRIVACY_MODE_CONN_ID then i\<lparr>top_conn_id := INVALID_PRIVACY_MODE_CONN_ID\<rparr> else i),
                     [Unhook] @ (if w \<noteq> 0 then [HideWindow w] else []) @
                     (if top_conn_id i \<noteq> INVALID_PRIVACY_MODE_CONN_ID
                      then (case st of Some s \<Rightarrow> [SetPrivacyModeState c s] | None \<Rightarrow> []) else [])))))"

definition top_clear :: "PmEnv \<Rightarrow> TopmostImpl \<Rightarrow> TopmostImpl \<times> pm_action list" where
  "top_clear env i = snd (top_turn_off env (top_conn_id i) None i)"

section \<open>The implementation in use\<close>

datatype PrivacyImpl = Mac MacImpl | Topmost TopmostImpl

fun pre_conn_id :: "PrivacyImpl \<Rightarrow> int" where
  "pre_conn_id (Mac i) = mac_conn_id i"
| "pre_conn_id (Topmost i) = top_conn_id i"

fun get_impl_key :: "PrivacyImpl \<Rightarrow> string" where
  "get_impl_key (Mac i) = mac_key i"
| "get_impl_key (Topmost i) = top_key i"

fun impl_turn_on :: "PmEnv \<Rightarrow> int \<Rightarrow> PrivacyImpl \<Rightarrow> (string + bool) \<times> PrivacyImpl \<times> pm_action list" where
  "impl_turn_on env c (Mac i) = (case mac_turn_on env c i of (r, i', as) \<Rightarrow> (r, Mac i', as))"
| "impl_turn_on env c (Topmost i) = (case top_turn_on env c i of (r, i', as) \<Rightarrow> (r, Topmost i', as))"

fun impl_turn_off :: "PmEnv \<Rightarrow> int \<Rightarrow> PrivacyModeState option \<Rightarrow> PrivacyImpl \<Rightarrow> (string + unit) \<times> PrivacyImpl \<times> pm_action list" where
  "impl_turn_off env c st (Mac i) = (case mac_turn_off env c st i of (r, i', as) \<Rightarrow> (r, Mac i', as))"
| "impl_turn_off env c st (Topmost i) = (case top_turn_off env c st i of (r, i', as) \<Rightarrow> (r, Topmost i', as))"

fun impl_clear :: "PmEnv \<Rightarrow> PrivacyImpl \<Rightarrow> PrivacyImpl \<times> pm_action list" where
  "impl_clear env (Mac i) = (case mac_clear env i of (i', as) \<Rightarrow> (Mac i', as))"
| "impl_clear env (Topmost i) = (case top_clear env i of (i', as) \<Rightarrow> (Topmost i', as))"

text \<open>\<open>Drop\<close> of the two implementations.\<close>

fun impl_drop :: "PmEnv \<Rightarrow> PrivacyImpl \<Rightarrow> pm_action list" where
  "impl_drop env (Mac i) = snd (mac_clear env i)"
| "impl_drop env (Topmost i) =
     (if top_conn_id i \<noteq> INVALID_PRIVACY_MODE_CONN_ID then snd (snd (top_turn_off env (top_conn_id i) None i)) else [])"

text \<open>The table of creators: the keys of the platform; every key of Windows but that of the virtual display makes a top-most window.\<close>

definition creator :: "bool \<Rightarrow> string list \<Rightarrow> string \<Rightarrow> PrivacyImpl option" where
  "creator macos keys k =
     (if k \<notin> set keys then None else if macos then Some (Mac (mac_new k)) else Some (Topmost (top_new k)))"

type_synonym creators = "string \<Rightarrow> PrivacyImpl option"
type_synonym pm = "PrivacyImpl option"

definition get_supported_impl :: "PmEnv \<Rightarrow> string \<Rightarrow> string" where
  "get_supported_impl env k =
     (if k \<in> set (supported_impls env) then k
      else if option_impl_key env \<in> set (supported_impls env) then option_impl_key env
      else default_impl env)"

definition switch :: "creators \<Rightarrow> PmEnv \<Rightarrow> string \<Rightarrow> pm \<Rightarrow> pm \<times> pm_action list" where
  "switch cr env k m =
     (case m of
        Some i \<Rightarrow>
          if get_impl_key i = k then (m, [])
          else (case cr k of Some j \<Rightarrow> (Some j, impl_drop env i) | None \<Rightarrow> (m, []))
      | None \<Rightarrow> (case cr k of Some j \<Rightarrow> (Some j, []) | None \<Rightarrow> (m, [])))"

text \<open>Turning on, once an implementation is in place.\<close>

definition turn_on_current :: "PmEnv \<Rightarrow> int \<Rightarrow> pm \<Rightarrow> (string + bool) option \<times> pm \<times> pm_action list" where
  "turn_on_current env c m =
     (case m of
        None \<Rightarrow> (None, None, [])
      | Some i \<Rightarrow> (case impl_turn_on env c i of (r, i', as) \<Rightarrow> (Some r, Some i', as)))"

definition turn_on_privacy :: "creators \<Rightarrow> PmEnv \<Rightarrow> string \<Rightarrow> int \<Rightarrow> pm \<Rightarrow> (string + bool) option \<times> pm \<times> pm_action list" where
  "turn_on_privacy cr env k0 c m =
     (let k = get_supported_impl env k0;
          cur = (case m of Some i \<Rightarrow> get_impl_key i | None \<Rightarrow> []);
          chk = (case m of Some i \<Rightarrow> check_on_conn_id (pre_conn_id i) c | None \<Rightarrow> Inr False)
      in case chk of
           Inl e \<Rightarrow> (Some (Inl e), m, [])
         | Inr same \<Rightarrow>
             if same \<and> cur = k then (Some (Inr True), m, [])
             else if cur \<noteq> k then
               (case cr k of
                  Some j \<Rightarrow>
                    (let as = (case m of
                         Some i \<Rightarrow> (case impl_clear env i of (i1, bs) \<Rightarrow> bs @ impl_drop env i1)
                       | None \<Rightarrow> [])
                     in case turn_on_current env c (Some j) of (r, m', bs) \<Rightarrow> (r, m', as @ bs))
                | None \<Rightarrow> (Some (Inl (''Unsupported privacy mode: '' @ k)), m, []))
             else turn_on_current env c m)"

definition turn_off_privacy :: "PmEnv \<Rightarrow> int \<Rightarrow> PrivacyModeState option \<Rightarrow> pm \<Rightarrow> (string + unit) option \<times> pm \<times> pm_action list" where
  "turn_off_privacy env c st m =
     (case m of
        None \<Rightarrow> (None, None, [])
      | Some i \<Rightarrow> (case impl_turn_off env c st i of (r, i', as) \<Rightarrow> (Some r, Some i', as)))"

definition get_cur_impl_key :: "pm \<Rightarrow> string option" where
  "get_cur_impl_key m = map_option get_impl_key m"

definition is_current_privacy_mode_impl :: "string \<Rightarrow> pm \<Rightarrow> bool" where
  "is_current_privacy_mode_impl k m = (case m of Some i \<Rightarrow> get_impl_key i = k | None \<Rightarrow> False)"

definition check_privacy_mode_err :: "PmEnv \<Rightarrow> pm \<Rightarrow> string" where
  "check_privacy_mode_err env m =
     (if is_current_privacy_mode_impl PRIVACY_MODE_IMPL_WIN_MAG m then test_create_capturer env else [])"

definition is_privacy_mode_supported :: "PmEnv \<Rightarrow> bool" where
  "is_privacy_mode_supported env = (default_impl env \<noteq> [])"

definition get_privacy_mode_conn_id :: "pm \<Rightarrow> int option" where
  "get_privacy_mode_conn_id m = map_option pre_conn_id m"

definition is_in_privacy_mode :: "pm \<Rightarrow> bool" where
  "is_in_privacy_mode m = (case m of Some i \<Rightarrow> pre_conn_id i \<noteq> INVALID_PRIVACY_MODE_CONN_ID | None \<Rightarrow> False)"

section \<open>The requests of a connection\<close>

datatype prv_state = PrvNotSupported | PrvOffSucceeded | PrvOffFailed | PrvOnSucceeded | PrvOnFailed | PrvOnFailedPlugin
  | PrvOffByPeer | PrvOffUnknown

record PrivacyMsg =
  prv :: prv_state
  details :: string
  prv_impl :: string

definition make_privacy_mode_msg_with_details :: "prv_state \<Rightarrow> string \<Rightarrow> string \<Rightarrow> PrivacyMsg" where
  "make_privacy_mode_msg_with_details s d k = \<lparr>prv = s, details = d, prv_impl = k\<rparr>"

definition make_privacy_mode_msg :: "prv_state \<Rightarrow> string \<Rightarrow> PrivacyMsg" where
  "make_privacy_mode_msg s k = make_privacy_mode_msg_with_details s [] k"

definition UNSUPPORTED_TEXT :: string where
  "UNSUPPORTED_TEXT = ''Unsupported. 1 Multi-screen is not supported. 2 Please confirm the license is activated.''"

definition turn_off_privacy_to_msg :: "PmEnv \<Rightarrow> int \<Rightarrow> pm \<Rightarrow> PrivacyMsg \<times> pm \<times> pm_action list" where
  "turn_off_privacy_to_msg env c m =
     (case turn_off_privacy env c None m of
        (Some (Inr _), m1, as) \<Rightarrow> (make_privacy_mode_msg PrvOffSucceeded [], m1, as)
      | (Some (Inl e), m1, as) \<Rightarrow> (make_privacy_mode_msg_with_details PrvOffFailed e [], m1, as)
      | (None, m1, as) \<Rightarrow> (make_privacy_mode_msg_with_details PrvOffFailed ''Not supported'' [], m1, as))"

text \<open>The answer after the attempt to turn the mode on.\<close>

definition turned_on_msg :: "PmEnv \<Rightarrow> string \<Rightarrow> int \<Rightarrow> (string + bool) option \<Rightarrow> pm \<Rightarrow> PrivacyMsg \<times> pm \<times> pm_action list" where
  "turned_on_msg env k c res m =
     (case res of
        Some (Inr True) \<Rightarrow>
          (let err = check_privacy_mode_err env m
           in if err = [] then (make_privacy_mode_msg PrvOnSucceeded k, m, [])
              else (case turn_off_privacy_to_msg env c m of
                      (_, m1, as) \<Rightarrow> (make_privacy_mode_msg_with_details PrvOnFailed err k, m1, as)))
      | Some (Inr False) \<Rightarrow> (make_privacy_mode_msg PrvOnFailedPlugin k, m, [])
      | Some (Inl e) \<Rightarrow>
          (case (if is_in_privacy_mode m then snd (turn_off_privacy_to_msg env INVALID_PRIVACY_MODE_CONN_ID m) else (m, [])) of
             (m1, as) \<Rightarrow> (make_privacy_mode_msg_with_details PrvOnFailed e k, m1, as))
      | None \<Rightarrow> (make_privacy_mode_msg_with_details PrvOffFailed ''Not supported'' k, m, []))"

definition conn_turn_on_privacy :: "creators \<Rightarrow> PmEnv \<Rightarrow> string \<Rightarrow> int \<Rightarrow> pm \<Rightarrow> PrivacyMsg list \<times> pm \<times> pm_action list" where
  "conn_turn_on_privacy cr env k c m =
     (if \<not> is_privacy_mode_supported env
      then ([make_privacy_mode_msg_with_details PrvNotSupported UNSUPPORTED_TEXT k], m, [])
      else
        (let off = (if is_in_privacy_mode m
                    then (case get_cur_impl_key m of
                            Some pre \<Rightarrow> if \<not> is_current_privacy_mode_impl pre m then [make_privacy_mode_msg PrvOffSucceeded pre] else []
                          | None \<Rightarrow> [])
                    else [])
         in case turn_on_privacy cr env k c m of
              (res, m1, as) \<Rightarrow> (case turned_on_msg env k c res m1 of (msg, m2, bs) \<Rightarrow> (off @ [msg], m2, as @ bs))))"

definition conn_turn_off_privacy :: "PmEnv \<Rightarrow> string \<Rightarrow> int \<Rightarrow> pm \<Rightarrow> PrivacyMsg list \<times> pm \<times> pm_action list" where
  "conn_turn_off_privacy env k c m =
     (if \<not> is_privacy_mode_supported env
      then ([make_privacy_mode_msg_with_details PrvNotSupported UNSUPPORTED_TEXT k], m, [])
      else (case turn_off_privacy_to_msg env c m of (msg, m1, as) \<Rightarrow> ([msg], m1, as)))"

definition toggle_privacy_mode :: "creators \<Rightarrow> PmEnv \<Rightarrow> bool \<Rightarrow> string \<Rightarrow> int \<Rightarrow> pm \<Rightarrow> PrivacyMsg list \<times> pm \<times> pm_action list" where
  "toggle_privacy_mode cr env on k c m =
     (if on then conn_turn_on_privacy cr env k c m else conn_turn_off_privacy env k c m)"

text \<open>What the end of a connection does.\<close>

definition conn_end_privacy :: "PmEnv \<Rightarrow> int \<Rightarrow> pm \<Rightarrow> pm \<times> pm_action list" where
  "conn_end_privacy env c m =
     (case get_privacy_mode_conn_id m of
        Some i \<Rightarrow> if i = c then snd (turn_off_privacy_to_msg env c m) else (m, [])
      | None \<Rightarrow> (m, []))"

section \<open>The contract of the trait\<close>

locale privacy_trait =
  fixes turn_on :: "PmEnv \<Rightarrow> int \<Rightarrow> 'i \<Rightarrow> (string + bool) \<times> 'i \<times> pm_action list"
    and turn_off :: "PmEnv \<Rightarrow> int \<Rightarrow> PrivacyModeState option \<Rightarrow> 'i \<Rightarrow> (string + unit) \<times> 'i \<times> pm_action list"
    and owner :: "'i \<Rightarrow> int"
  assumes on_checks: "check_on_conn_id (owner i) c = Inl e \<Longrightarrow> turn_on env c i = (Inl e, i, [])"
    and on_again: "owner i = c \<Longrightarrow> turn_on env c i = (Inr True, i, [])"
    and on_result: "turn_on env c i = (r, i', as) \<Longrightarrow> owner i' = (if r = Inr True then c else owner i)"
    and off_checks: "check_off_conn_id (owner i) c = Inl e \<Longrightarrow> turn_off env c st i = (Inl e, i, [])"
    and off_result: "turn_off env c st i = (ro, i', as) \<Longrightarrow> owner i' = (if ro = Inr () then 0 else owner i)"
begin

text \<open>Nobody else can take the mode over, or turn it off.\<close>

lemma occupied:
  assumes "owner i \<noteq> 0" and "c \<noteq> owner i"
  shows "turn_on env c i = (Inl OCCUPIED, i, [])"
  using assms by (intro on_checks) (simp add: check_on_conn_id_def INVALID_PRIVACY_MODE_CONN_ID_def)

lemma not_yours:
  assumes "owner i \<noteq> 0" and "c \<noteq> owner i" and "c \<noteq> 0"
  shows "turn_off env c st i = (Inl TURN_OFF_OTHER_ID, i, [])"
  using assms by (intro off_checks) (simp add: check_off_conn_id_def INVALID_PRIVACY_MODE_CONN_ID_def)

lemma off_owner: "turn_off env c st i = (r, i', as) \<Longrightarrow> owner i' = 0 \<or> owner i' = owner i"
  using off_result by (metis (full_types))

end

lemma check_on_cases:
  "check_on_conn_id pre c = Inr True \<longleftrightarrow> pre = c"
  "check_on_conn_id pre c = Inr False \<longleftrightarrow> pre \<noteq> c \<and> pre = 0"
  "check_on_conn_id pre c = Inl e \<longleftrightarrow> pre \<noteq> c \<and> pre \<noteq> 0 \<and> e = OCCUPIED"
  by (auto simp: check_on_conn_id_def INVALID_PRIVACY_MODE_CONN_ID_def)

interpretation mac: privacy_trait mac_turn_on mac_turn_off mac_conn_id
proof
  fix env c r as and i i' :: MacImpl and st e
  show "check_on_conn_id (mac_conn_id i) c = Inl e \<Longrightarrow> mac_turn_on env c i = (Inl e, i, [])"
    by (simp add: mac_turn_on_def)
  show "mac_conn_id i = c \<Longrightarrow> mac_turn_on env c i = (Inr True, i, [])"
    by (simp add: mac_turn_on_def check_on_conn_id_def)
  show "mac_turn_on env c i = (r, i', as) \<Longrightarrow> mac_conn_id i' = (if r = Inr True then c else mac_conn_id i)"
    by (auto simp: mac_turn_on_def check_on_cases split: sum.splits bool.splits if_splits)
  show "check_off_conn_id (mac_conn_id i) c = Inl e \<Longrightarrow> mac_turn_off env c st i = (Inl e, i, [])"
    by (simp add: mac_turn_off_def)
next
  fix env c and r :: "string + unit" and as and i i' :: MacImpl and st
  show "mac_turn_off env c st i = (r, i', as) \<Longrightarrow> mac_conn_id i' = (if r = Inr () then 0 else mac_conn_id i)"
    by (auto simp: mac_turn_off_def split: sum.splits if_splits)
qed

lemma top_show_owner:
  "top_show env c i = (r, i', as) \<Longrightarrow> top_conn_id i' = (if r = Inr True then c else top_conn_id i)"
  by (auto simp: top_show_def split: sum.splits if_splits)

lemma top_start_owner: "top_start env i = (r, i', as) \<Longrightarrow> top_conn_id i' = top_conn_id i"
  by (auto simp: top_start_def split: prod.splits option.splits if_splits)

interpretation topmost: privacy_trait top_turn_on top_turn_off top_conn_id
proof
  fix env c r as and i i' :: TopmostImpl and st e
  show "check_on_conn_id (top_conn_id i) c = Inl e \<Longrightarrow> top_turn_on env c i = (Inl e, i, [])"
    by (simp add: top_turn_on_def)
  show "top_conn_id i = c \<Longrightarrow> top_turn_on env c i = (Inr True, i, [])"
    by (simp add: top_turn_on_def check_on_conn_id_def)
  show "top_turn_on env c i = (r, i', as) \<Longrightarrow> top_conn_id i' = (if r = Inr True then c else top_conn_id i)"
    by (auto simp: top_turn_on_def check_on_cases split: sum.splits bool.splits if_splits prod.splits
        dest!: top_show_owner top_start_owner)
  show "check_off_conn_id (top_conn_id i) c = Inl e \<Longrightarrow> top_turn_off env c st i = (Inl e, i, [])"
    by (simp add: top_turn_off_def)
next
  fix env c and r :: "string + unit" and as and i i' :: TopmostImpl and st
  show "top_turn_off env c st i = (r, i', as) \<Longrightarrow> top_conn_id i' = (if r = Inr () then 0 else top_conn_id i)"
    by (auto simp: top_turn_off_def INVALID_PRIVACY_MODE_CONN_ID_def split: sum.splits if_splits)
qed

text \<open>The trait object: whichever implementation is in use keeps the contract.\<close>

interpretation impl: privacy_trait impl_turn_on impl_turn_off pre_conn_id
proof
  fix env c e and i :: PrivacyImpl
  show "check_on_conn_id (pre_conn_id i) c = Inl e \<Longrightarrow> impl_turn_on env c i = (Inl e, i, [])"
    by (cases i) (simp_all add: mac.on_checks topmost.on_checks)
  show "pre_conn_id i = c \<Longrightarrow> impl_turn_on env c i = (Inr True, i, [])"
    by (cases i) (simp_all add: mac.on_again topmost.on_again)
next
  fix env c r as and i i' :: PrivacyImpl
  show "impl_turn_on env c i = (r, i', as) \<Longrightarrow> pre_conn_id i' = (if r = Inr True then c else pre_conn_id i)"
    by (cases i) (auto split: prod.splits dest!: mac.on_result topmost.on_result)
next
  fix env c st e and i :: PrivacyImpl
  show "check_off_conn_id (pre_conn_id i) c = Inl e \<Longrightarrow> impl_turn_off env c st i = (Inl e, i, [])"
    by (cases i) (simp_all add: mac.off_checks topmost.off_checks)
next
  fix env c st as and r :: "string + unit" and i i' :: PrivacyImpl
  show "impl_turn_off env c st i = (r, i', as) \<Longrightarrow> pre_conn_id i' = (if r = Inr () then 0 else pre_conn_id i)"
    by (cases i) (auto split: prod.splits dest!: mac.off_result topmost.off_result)
qed

section \<open>Who holds the mode\<close>

definition holder :: "pm \<Rightarrow> int" where
  "holder m = (case m of Some i \<Rightarrow> pre_conn_id i | None \<Rightarrow> 0)"

definition fresh_creators :: "creators \<Rightarrow> bool" where
  "fresh_creators cr \<longleftrightarrow> (\<forall>k i. cr k = Some i \<longrightarrow> pre_conn_id i = 0 \<and> get_impl_key i = k)"

lemma creator_fresh: "fresh_creators (creator macos keys)"
  by (auto simp: fresh_creators_def creator_def mac_new_def top_new_def INVALID_PRIVACY_MODE_CONN_ID_def split: if_splits)

lemma turn_on_occupied:
  assumes "holder m \<noteq> 0" and "c \<noteq> holder m"
  shows "turn_on_privacy cr env k c m = (Some (Inl OCCUPIED), m, [])"
  using assms by (auto simp: turn_on_privacy_def holder_def check_on_conn_id_def INVALID_PRIVACY_MODE_CONN_ID_def Let_def split: option.splits)

lemma turn_on_current_holder:
  "turn_on_current env c m = (r, m', as) \<Longrightarrow> holder m' = (if r = Some (Inr True) then c else holder m)"
  by (auto simp: turn_on_current_def holder_def split: option.splits prod.splits if_splits dest!: impl.on_result)

lemma turn_on_holder:
  assumes "fresh_creators cr" and "turn_on_privacy cr env k c m = (r, m', as)"
  shows "holder m' = (if r = Some (Inr True) then c else holder m) \<or> holder m = c \<and> holder m' = 0"
proof (cases "\<exists>e. (case m of Some i \<Rightarrow> check_on_conn_id (pre_conn_id i) c | None \<Rightarrow> Inr False) = Inl e")
  case True
  with assms(2) show ?thesis by (auto simp: turn_on_privacy_def Let_def)
next
  case False
  let ?k = "get_supported_impl env k" and ?cur = "case m of Some i \<Rightarrow> get_impl_key i | None \<Rightarrow> []"
  from False have h: "holder m = c \<or> holder m = 0"
    by (auto simp: holder_def check_on_conn_id_def INVALID_PRIVACY_MODE_CONN_ID_def split: option.splits if_splits)
  from False obtain same where same: "(case m of Some i \<Rightarrow> check_on_conn_id (pre_conn_id i) c | None \<Rightarrow> Inr False) = Inr same"
    by (cases "case m of Some i \<Rightarrow> check_on_conn_id (pre_conn_id i) c | None \<Rightarrow> Inr False") auto
  have sm: "same \<Longrightarrow> holder m = c"
    using same by (auto simp: holder_def check_on_cases split: option.splits)
  consider "same \<and> ?cur = ?k" | "?cur \<noteq> ?k" "cr ?k = None" | j where "?cur \<noteq> ?k" "cr ?k = Some j" | "\<not> same" "?cur = ?k" by auto
  then show ?thesis
  proof cases
    case 1
    with assms(2) same sm show ?thesis by (simp add: turn_on_privacy_def Let_def)
  next
    case 2
    with assms(2) same show ?thesis by (auto simp: turn_on_privacy_def Let_def)
  next
    case 3
    obtain r1 m1 bs where t: "turn_on_current env c (Some j) = (r1, m1, bs)" by (metis prod_cases3)
    with assms(2) same 3 have "r = r1" "m' = m1" by (auto simp: turn_on_privacy_def Let_def)
    moreover have "holder (Some j) = 0" using assms(1) 3(2) by (simp add: fresh_creators_def holder_def)
    ultimately show ?thesis using turn_on_current_holder [OF t] h by auto
  next
    case 4
    with assms(2) same have "turn_on_current env c m = (r, m', as)" by (simp add: turn_on_privacy_def Let_def)
    then show ?thesis by (simp add: turn_on_current_holder)
  qed
qed

lemma turn_off_holder:
  "turn_off_privacy env c st m = (r, m', as) \<Longrightarrow> holder m' = (if r = Some (Inr ()) then 0 else holder m)"
  by (auto simp: turn_off_privacy_def holder_def split: option.splits prod.splits if_splits dest!: impl.off_result)

lemma turn_off_other:
  assumes "holder m \<noteq> 0" and "c \<noteq> holder m" and "c \<noteq> 0"
  shows "turn_off_privacy env c st m = (Some (Inl TURN_OFF_OTHER_ID), m, [])"
  using assms by (auto simp: turn_off_privacy_def holder_def impl.not_yours split: option.splits)


definition example_pm_env :: PmEnv where
  "example_pm_env = \<lparr>mac_set = (\<lambda>_. True), exe_dir = Inr (), dll_exists = True, start_broker = (None, True), find_hwnd = Inr 1,
     hook = Inr (), unhook = Inr (), supported_impls = [''privacy_mode_impl_macos''], option_impl_key = [],
     default_impl = ''privacy_mode_impl_macos'', test_create_capturer = []\<rparr>"

definition example_pm :: pm where
  "example_pm = Some (Mac \<lparr>mac_key = ''privacy_mode_impl_macos'', mac_conn_id = 1001\<rparr>)"


text \<open>An attempt that fails takes the mode away from its holder. When a second connection asks for privacy mode while another
  holds it, it is told that the mode is occupied, and the handler then turns the mode off for the holder: the
  screen of the host is visible again although its holder did nothing and is not told.\<close>

theorem failed_attempt_ends_privacy:
  assumes "is_privacy_mode_supported env" and "holder m \<noteq> 0" and "c \<noteq> holder m"
    and "mac_set env False" "unhook env = Inr ()" "find_hwnd env = Inr w"
  shows "case conn_turn_on_privacy cr env k c m of (msgs, m', as) \<Rightarrow>
    msgs = [make_privacy_mode_msg_with_details PrvOnFailed OCCUPIED k] \<and> holder m' = 0 \<and>
    (MacSetPrivacyMode False \<in> set as \<or> Unhook \<in> set as)"
proof -
  obtain i where i: "m = Some i" "pre_conn_id i \<noteq> 0" using assms(2) by (cases m) (auto simp: holder_def)
  obtain r m1 as where t: "turn_off_privacy env 0 None m = (r, m1, as)" by (metis prod_cases3)
  have "r = Some (Inr ()) \<and> (MacSetPrivacyMode False \<in> set as \<or> Unhook \<in> set as)"
    using t assms(4-6) i
    by (cases i) (auto simp: turn_off_privacy_def mac_turn_off_def top_turn_off_def check_off_conn_id_def
        INVALID_PRIVACY_MODE_CONN_ID_def)
  moreover from this turn_off_holder [OF t] have "holder m1 = 0" by simp
  ultimately show ?thesis
    using t i assms(1) turn_on_occupied [OF assms(2,3), of cr env k]
    by (simp add: conn_turn_on_privacy_def get_cur_impl_key_def is_current_privacy_mode_impl_def turned_on_msg_def
        is_in_privacy_mode_def turn_off_privacy_to_msg_def INVALID_PRIVACY_MODE_CONN_ID_def)
qed

theorem failed_attempt_ends_privacy_witness:
  "holder (fst (snd (conn_turn_on_privacy (creator True [''privacy_mode_impl_macos'']) example_pm_env [] 1002 example_pm))) = 0"
proof -
  have "case conn_turn_on_privacy (creator True [''privacy_mode_impl_macos'']) example_pm_env [] 1002 example_pm of (msgs, m', as) \<Rightarrow>
    msgs = [make_privacy_mode_msg_with_details PrvOnFailed OCCUPIED []] \<and> holder m' = 0 \<and>
    (MacSetPrivacyMode False \<in> set as \<or> Unhook \<in> set as)"
    by (rule failed_attempt_ends_privacy [where w = 1])
      (simp_all add: is_privacy_mode_supported_def example_pm_env_def example_pm_def holder_def)
  then show ?thesis by (simp add: split_beta)
qed

text \<open>The message that the mode of the previous implementation is off is never sent: the answer is always a single message.\<close>

lemma one_answer: "length (fst (conn_turn_on_privacy cr env k c m)) = 1"
  by (auto simp: conn_turn_on_privacy_def get_cur_impl_key_def is_current_privacy_mode_impl_def Let_def
      split: prod.splits option.splits)

text \<open>Privacy mode does not outlive its connection. When the system carries the request out, the end of a connection leaves
  the mode with whoever else holds it, and with nobody if it was this connection's.\<close>

theorem privacy_ends_with_connection:
  assumes "c \<noteq> 0" and "mac_set env False" and "unhook env = Inr ()" and "find_hwnd env = Inr w"
  shows "holder (fst (conn_end_privacy env c m)) = (if holder m = c then 0 else holder m) \<and>
    (holder m \<noteq> c \<longrightarrow> conn_end_privacy env c m = (m, []))"
proof (cases "holder m = c")
  case True
  then obtain i where i: "m = Some i" "pre_conn_id i = c" using assms(1) by (cases m) (auto simp: holder_def)
  obtain r m1 as where t: "turn_off_privacy env c None m = (r, m1, as)" by (metis prod_cases3)
  have "r = Some (Inr ())" using t assms(2-4) i
    by (cases i) (auto simp: turn_off_privacy_def mac_turn_off_def top_turn_off_def check_off_conn_id_def
        INVALID_PRIVACY_MODE_CONN_ID_def)
  with turn_off_holder [OF t] t i True show ?thesis
    by (simp add: conn_end_privacy_def get_privacy_mode_conn_id_def turn_off_privacy_to_msg_def)
next
  case False
  then show ?thesis
    by (auto simp: conn_end_privacy_def get_privacy_mode_conn_id_def holder_def split: option.splits)
qed

theorem privacy_ends_with_connection_witness: "holder (fst (conn_end_privacy example_pm_env 1001 example_pm)) = 0"
  using privacy_ends_with_connection [of 1001 example_pm_env 1 example_pm]
  by (simp add: example_pm_env_def example_pm_def holder_def)

end
