(* ===== verification/File_Listing.thy ===== *)
theory File_Listing
  imports File_Confinement
begin

text \<open>
  Directory listings (\<open>libs/hbb_common/src/fs.rs\<close>): one directory, the files below a directory, its empty
  directories, the read job made from such a listing, and the removal of a tree of empty directories. The order in which
  a directory yields its names is that of the table; the modification times of directories and links, which the table does
  not hold, are the argument \<open>mt\<close>.
\<close>

section \<open>Reading directories\<close>

text \<open>The names a directory of a Unix file system can hold.\<close>

definition name_ok :: "string \<Rightarrow> bool" where
  "name_ok s = (s \<noteq> [] \<and> s \<noteq> ''.'' \<and> s \<noteq> ''..'' \<and> CHR ''/'' \<notin> set s \<and> CHR 0x00 \<notin> set s)"

definition children :: "Fs \<Rightarrow> location \<Rightarrow> string list" where
  "children fs q =
     remdups (map last (filter (\<lambda>x. x \<noteq> [] \<and> butlast x = q \<and> name_ok (last x)) (map fst (nodes fs))))"

definition fs_read_dir :: "Fs \<Rightarrow> path \<Rightarrow> fs_error + string list" where
  "fs_read_dir fs p =
     (case resolve fs p of
        Inl e \<Rightarrow> Inl e
      | Inr q \<Rightarrow>
          (case node_at fs q of
             None \<Rightarrow> Inl NotFoundErr
           | Some DirNode \<Rightarrow> Inr (children fs q)
           | Some _ \<Rightarrow> Inl NotADirectory))"

fun is_symlink :: "node \<Rightarrow> bool" where
  "is_symlink (LinkNode _) = True"
| "is_symlink _ = False"

fun node_len :: "node \<Rightarrow> nat" where
  "node_len (FileNode d _) = length d"
| "node_len (LinkNode t) = length t"
| "node_len DirNode = 0"

fun node_modified :: "nat \<Rightarrow> node \<Rightarrow> nat" where
  "node_modified t (FileNode _ m) = m div 10 ^ 9"
| "node_modified t _ = t"

definition get_file_name :: "path \<Rightarrow> string" where
  "get_file_name p = (case file_name p of Some n \<Rightarrow> n | None \<Rightarrow> [])"

record FileDirectory =
  dir_path :: path
  entries :: "FileEntry list"

definition read_entry :: "(path \<Rightarrow> nat) \<Rightarrow> Fs \<Rightarrow> bool \<Rightarrow> path \<Rightarrow> FileEntry option" where
  "read_entry mt fs include_hidden p =
     (let n = get_file_name p
      in if n = [] then None
         else case symlink_metadata fs p of
           Inl _ \<Rightarrow> None
         | Inr meta \<Rightarrow>
             (let hidden = (hd n = CHR ''.'');
                  (t, sz) = (if is_dir fs p then (if is_symlink meta then (DirLink, 0) else (Dir, 0))
                             else if is_symlink meta then (FileLink, 0) else (File, node_len meta))
              in if hidden \<and> \<not> include_hidden then None
                 else Some \<lparr>entry_type = t, name = get_file_name p, is_hidden = hidden, size = sz,
                        modified_time = node_modified (mt p) meta\<rparr>))"

definition read_dir :: "(path \<Rightarrow> nat) \<Rightarrow> Fs \<Rightarrow> path \<Rightarrow> bool \<Rightarrow> transfer_error + FileDirectory" where
  "read_dir mt fs p include_hidden =
     (case fs_read_dir fs p of
        Inl e \<Rightarrow> Inl (FsErr e)
      | Inr ns \<Rightarrow> Inr \<lparr>dir_path = p, entries = List.map_filter (\<lambda>s. read_entry mt fs include_hidden (path_join p s)) ns\<rparr>)"

section \<open>Names below a directory\<close>

lemma name_ok_names: "name_ok s \<Longrightarrow> path_names s = [s] \<and> \<not> is_absolute s \<and> name_component s = Normal s"
  by (cases s) (auto simp: name_ok_def path_names_def split_on_none is_absolute_def name_component_def)

lemma components_child:
  "p \<noteq> [] \<Longrightarrow> name_ok s \<Longrightarrow> path_components (path_join p s) = path_components p @ [Normal s]"
  by (simp add: path_components_join name_ok_names)

lemma components_child_root: "name_ok s \<Longrightarrow> path_components s = [Normal s]"
  by (cases s) (auto simp: name_ok_def path_components_def split_on_none is_absolute_def name_component_def)

lemma path_join_Nil: "path_join [] s = s"
  by (simp add: path_join_def)

lemma get_file_name_child: "name_ok s \<Longrightarrow> get_file_name (path_join p s) = s"
  by (cases "p = []") (simp_all add: get_file_name_def file_name_def components_child components_child_root path_join_Nil)

lemma last_split_child:
  assumes "name_ok s"
  shows "last (split_on (CHR ''/'') (path_join p s)) = s"
proof -
  have n: "CHR ''/'' \<notin> set s" using assms by (simp add: name_ok_def)
  have "\<exists>b. path_join p s = s \<or> path_join p s = b @ CHR ''/'' # s"
  proof (cases "p = [] \<or> is_absolute s")
    case True
    then show ?thesis by (auto simp: path_join_def)
  next
    case False
    then have "p = butlast p @ [last p]" by simp
    with False show ?thesis by (metis append.assoc append_Cons append_Nil path_join_def)
  qed
  with n show ?thesis by (auto simp: split_on_append_sep split_on_none)
qed

lemma child_no_nul: "CHR 0x00 \<notin> set p \<Longrightarrow> name_ok s \<Longrightarrow> CHR 0x00 \<notin> set (path_join p s)"
  by (auto simp: path_join_def name_ok_def)

lemma resolve_nonempty: "resolve fs p = Inr q \<Longrightarrow> p \<noteq> [] \<and> CHR 0x00 \<notin> set p \<and> resolve_components fs (path_components p) = Inr q"
  by (auto simp: resolve_def split: if_splits sum.splits)

lemma path_join_nonempty: "name_ok s \<Longrightarrow> path_join p s \<noteq> []"
  by (auto simp: path_join_def name_ok_def)

lemma names_directory_child: "name_ok s \<Longrightarrow> \<not> names_directory (path_join p s)"
  by (auto simp: names_directory_def last_split_child) (auto simp: name_ok_def)

lemma entry_child:
  assumes "resolve fs p = Inr q" and "node_at fs q = Some DirNode" and "name_ok s"
  shows "entry fs (path_join p s) = Inr (q @ [s])"
  using resolve_nonempty [OF assms(1)] assms(2,3)
  by (simp add: entry_def path_join_nonempty child_no_nul names_directory_child components_child entry_of_components_def)

lemma resolve_child:
  assumes "resolve fs p = Inr q" and "node_at fs q = Some DirNode" and "name_ok s"
    and "node_at fs (q @ [s]) = Some v" and "\<not> is_symlink v"
  shows "resolve fs (path_join p s) = Inr (q @ [s])"
proof -
  note r = resolve_nonempty [OF assms(1)]
  from walk_append [OF _ assms(2), of MAX_LINKS "cwd fs" "path_components p" "[Normal s]"] r obtain m where
    "walk MAX_LINKS fs (cwd fs) (path_components p @ [Normal s]) = walk m fs q [Normal s]"
    by (auto simp: resolve_components_def)
  moreover have "walk m fs q [Normal s] = Inr (q @ [s])" using assms(4,5) by (cases v) simp_all
  ultimately show ?thesis using r assms(3)
    by (simp add: resolve_def path_join_nonempty child_no_nul names_directory_child components_child resolve_components_def)
qed

lemma symlink_metadata_child:
  assumes "resolve fs p = Inr q" and "node_at fs q = Some DirNode" and "name_ok s" and "node_at fs (q @ [s]) = Some v"
  shows "symlink_metadata fs (path_join p s) = Inr v"
  using entry_child [OF assms(1-3)] assms(4) by (simp add: symlink_metadata_def node_result_def)

lemma metadata_child:
  assumes "resolve fs p = Inr q" and "node_at fs q = Some DirNode" and "name_ok s" and "node_at fs (q @ [s]) = Some v"
    and "\<not> is_symlink v"
  shows "metadata fs (path_join p s) = Inr v"
  using resolve_child [OF assms] assms(4) by (simp add: metadata_def node_result_def)

lemma set_children: "s \<in> set (children fs q) \<longleftrightarrow> name_ok s \<and> node_at fs (q @ [s]) \<noteq> None"
proof -
  have "s \<in> set (children fs q) \<longleftrightarrow> (\<exists>x \<in> fst ` set (nodes fs). x \<noteq> [] \<and> butlast x = q \<and> last x = s \<and> name_ok s)"
    by (auto simp: children_def)
  also have "\<dots> \<longleftrightarrow> name_ok s \<and> q @ [s] \<in> fst ` set (nodes fs)"
    by (metis append_butlast_last_id butlast_snoc last_snoc snoc_eq_iff_butlast)
  also have "q @ [s] \<in> fst ` set (nodes fs) \<longleftrightarrow> node_at fs (q @ [s]) \<noteq> None"
    by (simp add: node_at_def map_of_eq_None_iff)
  finally show ?thesis .
qed

lemma distinct_children: "distinct (children fs q)"
  by (simp add: children_def)

text \<open>An entry that is neither a link nor hidden from the listing.\<close>

definition shown :: "bool \<Rightarrow> string \<Rightarrow> bool" where
  "shown include_hidden s \<longleftrightarrow> name_ok s \<and> (include_hidden \<or> hd s \<noteq> CHR ''.'')"

definition entry_for :: "string \<Rightarrow> string \<Rightarrow> bytes \<Rightarrow> nat \<Rightarrow> FileEntry" where
  "entry_for n s d m = \<lparr>entry_type = File, name = n, is_hidden = (hd s = CHR ''.''), size = length d,
     modified_time = m div 10 ^ 9\<rparr>"

lemma read_entry_child:
  assumes "resolve fs p = Inr q" and "node_at fs q = Some DirNode" and "name_ok s" and "node_at fs (q @ [s]) = Some v"
  shows "read_entry mt fs h (path_join p s) =
    (if shown h s then Some \<lparr>entry_type = (if is_dir fs (path_join p s) then if is_symlink v then DirLink else Dir
        else if is_symlink v then FileLink else File), name = s, is_hidden = (hd s = CHR ''.''),
        size = (if is_dir fs (path_join p s) \<or> is_symlink v then 0 else node_len v),
        modified_time = node_modified (mt (path_join p s)) v\<rparr> else None)"
  using assms(3) symlink_metadata_child [OF assms]
  by (auto simp: read_entry_def get_file_name_child shown_def Let_def) (auto simp: name_ok_def)

lemma is_dir_child:
  assumes "resolve fs p = Inr q" and "node_at fs q = Some DirNode" and "name_ok s" and "node_at fs (q @ [s]) = Some v"
    and "\<not> is_symlink v"
  shows "is_dir fs (path_join p s) \<longleftrightarrow> v = DirNode"
  using metadata_child [OF assms] by (auto simp: is_dir_def)

text \<open>What a listing of a directory contains.\<close>

lemma read_dir_ok:
  assumes "resolve fs p = Inr q" and "node_at fs q = Some DirNode"
  shows "read_dir mt fs p h = Inr \<lparr>dir_path = p, entries = List.map_filter (\<lambda>s. read_entry mt fs h (path_join p s)) (children fs q)\<rparr>"
  using assms by (simp add: read_dir_def fs_read_dir_def)

lemma read_dir_Inr:
  assumes "read_dir mt fs p h = Inr fd"
  obtains q where "resolve fs p = Inr q" "node_at fs q = Some DirNode"
    "entries fd = List.map_filter (\<lambda>s. read_entry mt fs h (path_join p s)) (children fs q)"
  using assms by (auto simp: read_dir_def fs_read_dir_def split: sum.splits option.splits node.splits)

lemma entries_iff:
  assumes "resolve fs p = Inr q" and "node_at fs q = Some DirNode"
    and "entries fd = List.map_filter (\<lambda>s. read_entry mt fs h (path_join p s)) (children fs q)"
  shows "e \<in> set (entries fd) \<longleftrightarrow>
    (\<exists>s v. shown h s \<and> node_at fs (q @ [s]) = Some v \<and> read_entry mt fs h (path_join p s) = Some e)"
proof -
  have "e \<in> set (entries fd) \<longleftrightarrow> (\<exists>s \<in> set (children fs q). read_entry mt fs h (path_join p s) = Some e)"
    unfolding assms(3) by (auto simp: List.map_filter_def image_iff)
  also have "\<dots> \<longleftrightarrow> (\<exists>s v. shown h s \<and> node_at fs (q @ [s]) = Some v \<and> read_entry mt fs h (path_join p s) = Some e)"
    using read_entry_child [OF assms(1,2)] by (metis set_children shown_def not_None_eq)
  finally show ?thesis .
qed

lemma dir_entry:
  assumes "resolve fs p = Inr q" and "node_at fs q = Some DirNode"
    and "entries fd = List.map_filter (\<lambda>s. read_entry mt fs h (path_join p s)) (children fs q)"
    and "e \<in> set (entries fd)" and "entry_type e = Dir"
  shows "shown h (name e)" "node_at fs (q @ [name e]) = Some DirNode"
    "resolve fs (path_join p (name e)) = Inr (q @ [name e])"
proof -
  from entries_iff [OF assms(1-3), of e] assms(4) obtain s v where
    s: "shown h s" "node_at fs (q @ [s]) = Some v" "read_entry mt fs h (path_join p s) = Some e" by auto
  have ok: "name_ok s" using s(1) by (simp add: shown_def)
  from s(3) read_entry_child [OF assms(1,2) ok s(2), of mt h] s(1) have
    e: "name e = s" "is_dir fs (path_join p s)" "\<not> is_symlink v" using assms(5) by (auto split: if_splits)
  with is_dir_child [OF assms(1,2) ok s(2)] have "v = DirNode" by simp
  with e s ok resolve_child [OF assms(1,2) ok s(2)]
  show "shown h (name e)" "node_at fs (q @ [name e]) = Some DirNode"
    "resolve fs (path_join p (name e)) = Inr (q @ [name e])" by simp_all
qed

section \<open>The tree below a directory\<close>

definition below :: "Fs \<Rightarrow> path \<Rightarrow> nat" where
  "below fs p =
     (case resolve fs p of
        Inr q \<Rightarrow> if node_at fs q = Some DirNode then card {x \<in> fst ` set (nodes fs). strict_prefix q x} else 0
      | Inl _ \<Rightarrow> 0)"

lemma below_less:
  assumes "read_dir mt fs p h = Inr fd" and "e \<in> set (entries fd)" and "entry_type e = Dir"
  shows "below fs (path_join p (name e)) < below fs p"
proof -
  from read_dir_Inr [OF assms(1)] obtain q where q: "resolve fs p = Inr q" "node_at fs q = Some DirNode"
    "entries fd = List.map_filter (\<lambda>s. read_entry mt fs h (path_join p s)) (children fs q)" by blast
  note d = dir_entry [OF q assms(2,3)]
  let ?A = "\<lambda>r. {x \<in> fst ` set (nodes fs). strict_prefix r x}"
  have "q @ [name e] \<in> ?A q - ?A (q @ [name e])"
    using d(2) by (auto simp: node_at_def strict_prefix_def dest!: map_of_SomeD intro: rev_image_eqI)
  moreover have "?A (q @ [name e]) \<subseteq> ?A q"
    by (auto simp: strict_prefix_def dest: append_prefixD)
  ultimately have "?A (q @ [name e]) \<subset> ?A q" by blast
  then have "card (?A (q @ [name e])) < card (?A q)" by (intro psubset_card_mono) auto
  with d(2,3) q(1,2) show ?thesis by (simp add: below_def)
qed

function read_dir_recursive :: "(path \<Rightarrow> nat) \<Rightarrow> Fs \<Rightarrow> path \<Rightarrow> path \<Rightarrow> bool \<Rightarrow> transfer_error + FileEntry list" where
  "read_dir_recursive mt fs p pre h =
     (if is_dir fs p then
        (case read_dir mt fs p h of
           Inl e \<Rightarrow> Inl e
         | Inr fd \<Rightarrow>
             Inr (concat (map (\<lambda>e.
                case entry_type e of
                  File \<Rightarrow> [e\<lparr>name := path_join pre (name e)\<rparr>]
                | Dir \<Rightarrow>
                    (case read_dir_recursive mt fs (path_join p (name e)) (path_join pre (name e)) h of
                       Inr tmp \<Rightarrow> tmp | Inl _ \<Rightarrow> [])
                | _ \<Rightarrow> []) (entries fd))))
      else if is_file fs p then
        Inr [\<lparr>entry_type = File, name = [], is_hidden = False,
              size = (case metadata fs p of Inr meta \<Rightarrow> node_len meta | Inl _ \<Rightarrow> 0),
              modified_time = (case metadata fs p of Inr meta \<Rightarrow> node_modified (mt p) meta | Inl _ \<Rightarrow> 0)\<rparr>]
      else Inl (Bail ''Not exists''))"
  by pat_completeness auto
termination by (relation "measure (\<lambda>(mt, fs, p, pre, h). below fs p)") (auto intro: below_less)

declare read_dir_recursive.simps [simp del]

definition get_recursive_files :: "(path \<Rightarrow> nat) \<Rightarrow> Fs \<Rightarrow> path \<Rightarrow> bool \<Rightarrow> transfer_error + FileEntry list" where
  "get_recursive_files mt fs p h = read_dir_recursive mt fs p [] h"

function read_empty_dirs_recursive :: "(path \<Rightarrow> nat) \<Rightarrow> Fs \<Rightarrow> path \<Rightarrow> path \<Rightarrow> bool \<Rightarrow> transfer_error + FileDirectory list" where
  "read_empty_dirs_recursive mt fs p pre h =
     (if is_dir fs p then
        (case read_dir mt fs p h of
           Inl e \<Rightarrow> Inl e
         | Inr fd \<Rightarrow>
             if entries fd = [] then Inr [fd]
             else Inr (concat (map (\<lambda>e.
                case entry_type e of
                  Dir \<Rightarrow>
                    (case read_empty_dirs_recursive mt fs (path_join p (name e)) (path_join pre (name e)) h of
                       Inr tmp \<Rightarrow> tmp | Inl _ \<Rightarrow> [])
                | _ \<Rightarrow> []) (entries fd))))
      else if is_file fs p then Inr []
      else Inl (Bail ''Not exists''))"
  by pat_completeness auto
termination by (relation "measure (\<lambda>(mt, fs, p, pre, h). below fs p)") (auto intro: below_less)

declare read_empty_dirs_recursive.simps [simp del]

definition get_empty_dirs_recursive :: "(path \<Rightarrow> nat) \<Rightarrow> Fs \<Rightarrow> path \<Rightarrow> bool \<Rightarrow> transfer_error + FileDirectory list" where
  "get_empty_dirs_recursive mt fs p h = read_empty_dirs_recursive mt fs p [] h"

text \<open>A read job lists the files below its path when it is created.\<close>

definition new_read :: "(path \<Rightarrow> nat) \<Rightarrow> Fs \<Rightarrow> int \<Rightarrow> JobType \<Rightarrow> string \<Rightarrow> DataSource \<Rightarrow> int \<Rightarrow> bool \<Rightarrow> bool \<Rightarrow> bool \<Rightarrow>
    transfer_error + TransferJob" where
  "new_read mt fs i t rem src num hidden is_rem detect =
     (case (case src of
              FilePath p \<Rightarrow>
                (case get_recursive_files mt fs p hidden of Inl e \<Rightarrow> Inl e | Inr fl \<Rightarrow> Inr (fl, sum_sizes fl))
            | MemoryCursor d _ \<Rightarrow> Inr ([], length d)) of
        Inl e \<Rightarrow> Inl e
      | Inr (fl, n) \<Rightarrow>
          Inr (job_default\<lparr>job_id := i, job_type := t, remote := rem, data_source := src, file_num := num,
            show_hidden := hidden, is_remote := is_rem, files := fl, total_size := n,
            enable_overwrite_detection := detect\<rparr>))"

section \<open>What a recursive listing contains\<close>

lemma path_names_join: "\<not> is_absolute n \<Longrightarrow> path_names (path_join b n) = path_names b @ path_names n"
proof (cases "b = [] \<or> last b \<noteq> CHR ''/''")
  case True
  moreover assume "\<not> is_absolute n"
  ultimately show ?thesis
    by (cases "b = []") (auto simp: path_join_def path_names_def split_on_append_sep)
next
  case False
  then obtain c where "b = c @ ''/''" by (metis append_butlast_last_id)
  moreover assume "\<not> is_absolute n"
  ultimately show ?thesis
    using split_on_append_sep [of "CHR ''/''" c n] split_on_append_sep [of "CHR ''/''" c "[]"]
    by (auto simp: path_join_def path_names_def)
qed

definition names_path :: "path \<Rightarrow> string list \<Rightarrow> path" where
  "names_path pre ns = foldl path_join pre ns"

lemma names_path_simps [simp]: "names_path pre [] = pre" "names_path pre (s # ns) = names_path (path_join pre s) ns"
  by (simp_all add: names_path_def)

lemma path_names_names_path: "list_all name_ok ns \<Longrightarrow> path_names (names_path pre ns) = path_names pre @ ns"
  by (induction ns arbitrary: pre) (auto simp: path_names_join name_ok_names)

lemma names_path_inj:
  "list_all name_ok ns \<Longrightarrow> list_all name_ok ms \<Longrightarrow> names_path pre ns = names_path pre ms \<Longrightarrow> ns = ms"
  by (metis path_names_names_path same_append_eq)

text \<open>A file below the directory \<open>q\<close> that is reached through directories only, none of them hidden from the listing.\<close>

definition listed :: "Fs \<Rightarrow> bool \<Rightarrow> location \<Rightarrow> string list \<Rightarrow> bytes \<Rightarrow> nat \<Rightarrow> bool" where
  "listed fs h q ns d m \<longleftrightarrow> ns \<noteq> [] \<and> list_all (shown h) ns \<and> node_at fs (q @ ns) = Some (FileNode d m) \<and>
     (\<forall>k < length ns. node_at fs (q @ take k ns) = Some DirNode)"

lemma listed_Cons:
  assumes "node_at fs q = Some DirNode"
  shows "listed fs h q (s # ns) d m \<longleftrightarrow> shown h s \<and>
    (ns = [] \<and> node_at fs (q @ [s]) = Some (FileNode d m) \<or>
     node_at fs (q @ [s]) = Some DirNode \<and> listed fs h (q @ [s]) ns d m)"
proof (cases "ns = []")
  case True
  then show ?thesis using assms by (auto simp: listed_def)
next
  case False
  have "(\<forall>k < Suc (length ns). node_at fs (q @ take k (s # ns)) = Some DirNode) \<longleftrightarrow>
    (\<forall>k < length ns. node_at fs (q @ s # take k ns) = Some DirNode)"
    using assms by (auto simp: less_Suc_eq_0_disj)
  moreover have "(\<forall>k < length ns. node_at fs (q @ s # take k ns) = Some DirNode) \<Longrightarrow> node_at fs (q @ [s]) = Some DirNode"
    using False by (metis length_greater_0_conv take0)
  ultimately show ?thesis using False by (auto simp: listed_def)
qed

lemma file_entry:
  assumes "resolve fs p = Inr q" and "node_at fs q = Some DirNode"
    and "entries fd = List.map_filter (\<lambda>s. read_entry mt fs h (path_join p s)) (children fs q)"
  shows "e \<in> set (entries fd) \<and> entry_type e = File \<longleftrightarrow>
    (\<exists>s d m. shown h s \<and> node_at fs (q @ [s]) = Some (FileNode d m) \<and> e = entry_for s s d m)"
    (is "?l \<longleftrightarrow> ?r")
proof
  assume ?l
  with entries_iff [OF assms, of e] obtain s v where
    s: "shown h s" "node_at fs (q @ [s]) = Some v" "read_entry mt fs h (path_join p s) = Some e" "entry_type e = File" by auto
  have ok: "name_ok s" using s(1) by (simp add: shown_def)
  note r = read_entry_child [OF assms(1,2) ok s(2), of mt h]
  from r s have nv: "\<not> is_dir fs (path_join p s)" "\<not> is_symlink v" by (auto split: if_splits)
  with is_dir_child [OF assms(1,2) ok s(2)] obtain d m where v: "v = FileNode d m" by (cases v) auto
  from r s v nv have "e = entry_for s s d m" by (simp add: entry_for_def)
  with s v show ?r by blast
next
  assume ?r
  then obtain s d m where s: "shown h s" "node_at fs (q @ [s]) = Some (FileNode d m)" "e = entry_for s s d m" by blast
  have ok: "name_ok s" using s(1) by (simp add: shown_def)
  have "\<not> is_dir fs (path_join p s)" using is_dir_child [OF assms(1,2) ok s(2)] by simp
  with read_entry_child [OF assms(1,2) ok s(2), of mt h] s have "read_entry mt fs h (path_join p s) = Some e"
    by (simp add: entry_for_def)
  with entries_iff [OF assms, of e] s show ?l by (auto simp: entry_for_def)
qed

lemma dir_entry_iff:
  assumes "resolve fs p = Inr q" and "node_at fs q = Some DirNode"
    and "entries fd = List.map_filter (\<lambda>s. read_entry mt fs h (path_join p s)) (children fs q)"
  shows "(\<exists>e \<in> set (entries fd). entry_type e = Dir \<and> name e = s) \<longleftrightarrow> shown h s \<and> node_at fs (q @ [s]) = Some DirNode"
    (is "?l \<longleftrightarrow> ?r")
proof
  assume ?l
  then show ?r using dir_entry [OF assms] by auto
next
  assume s: ?r
  then have ok: "name_ok s" by (simp add: shown_def)
  have d: "is_dir fs (path_join p s)" using is_dir_child [OF assms(1,2) ok, of DirNode] s by simp
  let ?e = "\<lparr>entry_type = Dir, name = s, is_hidden = (hd s = CHR ''.''), size = 0, modified_time = mt (path_join p s)\<rparr>"
  have "read_entry mt fs h (path_join p s) = Some ?e"
    using read_entry_child [OF assms(1,2) ok, of DirNode mt h] s d by simp
  with entries_iff [OF assms, of ?e] s show ?l by force
qed

lemma read_dir_recursive_lists:
  assumes "resolve fs p = Inr q" and "node_at fs q = Some DirNode"
  shows "\<exists>l. read_dir_recursive mt fs p pre h = Inr l \<and>
    (\<forall>e. e \<in> set l \<longleftrightarrow> (\<exists>ns d m. listed fs h q ns d m \<and> e = entry_for (names_path pre ns) (last ns) d m))"
  using assms
proof (induction "below fs p" arbitrary: p q pre rule: less_induct)
  case less
  note q = less.prems
  define fd where "fd = \<lparr>dir_path = p, entries = List.map_filter (\<lambda>s. read_entry mt fs h (path_join p s)) (children fs q)\<rparr>"
  have fd: "read_dir mt fs p h = Inr fd"
    "entries fd = List.map_filter (\<lambda>s. read_entry mt fs h (path_join p s)) (children fs q)"
    using q by (simp_all add: fd_def read_dir_ok)
  let ?f = "\<lambda>e. case entry_type e of File \<Rightarrow> [e\<lparr>name := path_join pre (name e)\<rparr>]
     | Dir \<Rightarrow> (case read_dir_recursive mt fs (path_join p (name e)) (path_join pre (name e)) h of Inr tmp \<Rightarrow> tmp | Inl _ \<Rightarrow> [])
     | _ \<Rightarrow> []"
  have r: "read_dir_recursive mt fs p pre h = Inr (concat (map ?f (entries fd)))"
    using q fd(1) by (simp add: read_dir_recursive.simps [of mt fs p pre h] is_dir_def metadata_def node_result_def)
  let ?F = "{x. \<exists>s d m. shown h s \<and> node_at fs (q @ [s]) = Some (FileNode d m) \<and> x = entry_for (path_join pre s) s d m}"
  let ?D = "{x. \<exists>s ns d m. shown h s \<and> node_at fs (q @ [s]) = Some DirNode \<and> listed fs h (q @ [s]) ns d m \<and>
      x = entry_for (names_path (path_join pre s) ns) (last ns) d m}"
  have sub: "x \<in> set (?f e) \<longleftrightarrow> (\<exists>ns d m. listed fs h (q @ [name e]) ns d m \<and>
      x = entry_for (names_path (path_join pre (name e)) ns) (last ns) d m)"
    if e: "e \<in> set (entries fd)" "entry_type e = Dir" for e x
  proof -
    note d = dir_entry [OF q fd(2) e]
    from less.hyps [OF below_less [OF fd(1) e] d(3,2), of "path_join pre (name e)"] obtain l where
      "read_dir_recursive mt fs (path_join p (name e)) (path_join pre (name e)) h = Inr l"
      "\<forall>x. x \<in> set l \<longleftrightarrow> (\<exists>ns d m. listed fs h (q @ [name e]) ns d m \<and>
         x = entry_for (names_path (path_join pre (name e)) ns) (last ns) d m)" by blast
    then show ?thesis using e(2) by simp
  qed
  have fl: "x \<in> set (?f e) \<longleftrightarrow> x = e\<lparr>name := path_join pre (name e)\<rparr>" if "entry_type e = File" for e x
    using that by simp
  have C: "x \<in> set (concat (map ?f (entries fd))) \<longleftrightarrow> x \<in> ?F \<union> ?D" for x
  proof
    assume "x \<in> set (concat (map ?f (entries fd)))"
    then obtain e where e: "e \<in> set (entries fd)" "x \<in> set (?f e)" by auto
    then consider "entry_type e = File" | "entry_type e = Dir" by (cases "entry_type e") auto
    then show "x \<in> ?F \<union> ?D"
    proof cases
      case 1
      with file_entry [OF q fd(2), of e] e obtain s d m where
        "shown h s" "node_at fs (q @ [s]) = Some (FileNode d m)" "e = entry_for s s d m" by blast
      with fl [OF 1, of x] e(2) have "x \<in> ?F" by (auto simp: entry_for_def)
      then show ?thesis ..
    next
      case 2
      with sub [OF e(1) 2, of x] e dir_entry [OF q fd(2) e(1) 2] have "x \<in> ?D" by blast
      then show ?thesis ..
    qed
  next
    assume "x \<in> ?F \<union> ?D"
    then show "x \<in> set (concat (map ?f (entries fd)))"
    proof
      assume "x \<in> ?F"
      then obtain s d m where s: "shown h s" "node_at fs (q @ [s]) = Some (FileNode d m)" "x = entry_for (path_join pre s) s d m" by blast
      with file_entry [OF q fd(2), of "entry_for s s d m"] have "entry_for s s d m \<in> set (entries fd)" by blast
      moreover have "x \<in> set (?f (entry_for s s d m))" using s(3) by (simp add: entry_for_def)
      ultimately show ?thesis unfolding set_concat set_map by blast
    next
      assume "x \<in> ?D"
      then obtain s ns d m where s: "shown h s" "node_at fs (q @ [s]) = Some DirNode" "listed fs h (q @ [s]) ns d m"
        "x = entry_for (names_path (path_join pre s) ns) (last ns) d m" by blast
      with dir_entry_iff [OF q fd(2), of s] obtain e where e: "e \<in> set (entries fd)" "entry_type e = Dir" "name e = s" by blast
      with sub [OF e(1,2), of x] s have "x \<in> set (?f e)" by blast
      with e(1) show ?thesis by auto
    qed
  qed
  have L: "x \<in> ?F \<union> ?D \<longleftrightarrow> (\<exists>ns d m. listed fs h q ns d m \<and> x = entry_for (names_path pre ns) (last ns) d m)" for x
  proof
    assume "x \<in> ?F \<union> ?D"
    then show "\<exists>ns d m. listed fs h q ns d m \<and> x = entry_for (names_path pre ns) (last ns) d m"
    proof
      assume "x \<in> ?F"
      then obtain s d m where "shown h s" "node_at fs (q @ [s]) = Some (FileNode d m)" "x = entry_for (path_join pre s) s d m" by blast
      then show ?thesis using q(2) by (intro exI [of _ "[s]"] exI [of _ d] exI [of _ m]) (simp add: listed_Cons)
    next
      assume "x \<in> ?D"
      then obtain s ns d m where "shown h s" "node_at fs (q @ [s]) = Some DirNode" "listed fs h (q @ [s]) ns d m"
        "x = entry_for (names_path (path_join pre s) ns) (last ns) d m" by blast
      moreover from this(3) have "ns \<noteq> []" by (simp add: listed_def)
      ultimately show ?thesis using q(2)
        by (intro exI [of _ "s # ns"] exI [of _ d] exI [of _ m]) (simp add: listed_Cons)
    qed
  next
    assume "\<exists>ns d m. listed fs h q ns d m \<and> x = entry_for (names_path pre ns) (last ns) d m"
    then obtain ns d m where l: "listed fs h q ns d m" "x = entry_for (names_path pre ns) (last ns) d m" by blast
    then obtain s ms where ns: "ns = s # ms" by (cases ns) (auto simp: listed_def)
    show "x \<in> ?F \<union> ?D"
    proof (cases "ms = []")
      case True
      with l ns q(2) show ?thesis by (auto simp: listed_Cons)  (auto simp: listed_def)
    next
      case False
      with l(1) ns q(2) have "shown h s" "node_at fs (q @ [s]) = Some DirNode" "listed fs h (q @ [s]) ms d m"
        by (auto simp: listed_Cons)
      with l(2) ns False have "x \<in> ?D" by auto
      then show ?thesis ..
    qed
  qed
  show ?case
    by (rule exI [of _ "concat (map ?f (entries fd))"], rule conjI [OF r], rule allI, rule trans [OF C L])
qed

text \<open>No file is listed twice.\<close>

lemma entries_names_distinct:
  assumes "resolve fs p = Inr q" and "node_at fs q = Some DirNode"
    and "entries fd = List.map_filter (\<lambda>s. read_entry mt fs h (path_join p s)) (children fs q)"
  shows "distinct (map name (entries fd))"
proof -
  have "map name (List.map_filter (\<lambda>s. read_entry mt fs h (path_join p s)) ss) = filter (shown h) ss"
    if "set ss \<subseteq> set (children fs q)" for ss
    using that
  proof (induction ss)
    case (Cons s ss)
    then obtain v where "name_ok s" "node_at fs (q @ [s]) = Some v" by (auto simp: set_children)
    with Cons show ?case using read_entry_child [OF assms(1,2), of s v mt h] by (simp add: List.map_filter_simps)
  qed (simp add: List.map_filter_simps)
  then show ?thesis unfolding assms(3) by (simp add: distinct_children)
qed

lemma distinct_concat_by:
  assumes "distinct (map k xs)" and "\<And>x. x \<in> set xs \<Longrightarrow> distinct (f x)"
    and "\<And>x y z. x \<in> set xs \<Longrightarrow> y \<in> set xs \<Longrightarrow> z \<in> set (f x) \<Longrightarrow> z \<in> set (f y) \<Longrightarrow> k x = k y"
  shows "distinct (concat (map f xs))"
  using assms
proof (induction xs)
  case (Cons x xs)
  have "z \<notin> set (f y)" if "z \<in> set (f x)" "y \<in> set xs" for y z
    using Cons.prems(1) Cons.prems(3) [of x y z] that by (metis image_eqI list.set_intros(1,2) list.simps(9) distinct.simps(2) list.set_map)
  then have "set (f x) \<inter> set (concat (map f xs)) = {}" by auto
  moreover have "distinct (concat (map f xs))" using Cons.prems by (intro Cons.IH) auto
  ultimately show ?case using Cons.prems(2) [of x] by simp
qed simp

lemma listed_name_ok: "listed fs h q ns d m \<Longrightarrow> list_all name_ok ns"
  by (auto simp: listed_def shown_def list_all_iff)

lemma read_dir_recursive_distinct:
  assumes "resolve fs p = Inr q" and "node_at fs q = Some DirNode" and "read_dir_recursive mt fs p pre h = Inr l"
  shows "distinct (map name l)"
  using assms
proof (induction "below fs p" arbitrary: p q pre l rule: less_induct)
  case less
  note q = less.prems(1,2)
  define fd where "fd = \<lparr>dir_path = p, entries = List.map_filter (\<lambda>s. read_entry mt fs h (path_join p s)) (children fs q)\<rparr>"
  have fd: "read_dir mt fs p h = Inr fd"
    "entries fd = List.map_filter (\<lambda>s. read_entry mt fs h (path_join p s)) (children fs q)"
    using q by (simp_all add: fd_def read_dir_ok)
  let ?f = "\<lambda>e. map name (case entry_type e of File \<Rightarrow> [e\<lparr>name := path_join pre (name e)\<rparr>]
     | Dir \<Rightarrow> (case read_dir_recursive mt fs (path_join p (name e)) (path_join pre (name e)) h of Inr tmp \<Rightarrow> tmp | Inl _ \<Rightarrow> [])
     | _ \<Rightarrow> [])"
  have l: "map name l = concat (map ?f (entries fd))"
    using q fd(1) less.prems(3)
    by (auto simp: read_dir_recursive.simps [of mt fs p pre h] is_dir_def metadata_def node_result_def map_concat o_def)
  have key: "\<exists>ns. list_all name_ok (name e # ns) \<and> z = names_path pre (name e # ns)" and kd: "distinct (?f e)"
    if e: "e \<in> set (entries fd)" "z \<in> set (?f e)" for e z
  proof -
    consider "entry_type e = File" | "entry_type e = Dir" using e(2) by (cases "entry_type e") auto
    then have "(\<exists>ns. list_all name_ok (name e # ns) \<and> z = names_path pre (name e # ns)) \<and> distinct (?f e)"
    proof cases
      case 1
      with file_entry [OF q fd(2), of e] e obtain s d m where "shown h s" "e = entry_for s s d m" by blast
      with e(2) 1 show ?thesis by (auto simp: entry_for_def shown_def intro!: exI [of _ "[]"])
    next
      case 2
      note d = dir_entry [OF q fd(2) e(1) 2]
      from read_dir_recursive_lists [OF d(3,2)] obtain t where
        t: "read_dir_recursive mt fs (path_join p (name e)) (path_join pre (name e)) h = Inr t"
        "\<forall>x. x \<in> set t \<longleftrightarrow> (\<exists>ns d m. listed fs h (q @ [name e]) ns d m \<and>
           x = entry_for (names_path (path_join pre (name e)) ns) (last ns) d m)" by blast
      from less.hyps [OF below_less [OF fd(1) e(1) 2] d(3,2) t(1)] have "distinct (?f e)" using 2 t(1) by simp
      moreover from e(2) 2 t obtain ns d m where "listed fs h (q @ [name e]) ns d m"
        "z = names_path (path_join pre (name e)) ns" by (auto simp: entry_for_def)
      moreover from calculation(2) have "list_all name_ok (name e # ns)" using d(1) by (auto simp: shown_def dest: listed_name_ok)
      ultimately show ?thesis by (metis names_path_simps(2))
    qed
    then show "\<exists>ns. list_all name_ok (name e # ns) \<and> z = names_path pre (name e # ns)" "distinct (?f e)" by blast+
  qed
  show ?case
    unfolding l
  proof (rule distinct_concat_by [OF entries_names_distinct [OF q fd(2)]])
    fix e assume e: "e \<in> set (entries fd)"
    show "distinct (?f e)"
    proof (cases "?f e")
      case (Cons z zs)
      then have "z \<in> set (?f e)" by (metis list.set_intros(1))
      from kd [OF e this] show ?thesis .
    qed simp
  next
    fix e e' z
    assume e: "e \<in> set (entries fd)" "e' \<in> set (entries fd)" "z \<in> set (?f e)" "z \<in> set (?f e')"
    from key [OF e(1,3)] key [OF e(2,4)] names_path_inj show "name e = name e'"
      by (metis list.inject)
  qed
qed

text \<open>The receiver of a listing accepts all of its names.\<close>

lemma names_path_no_nul: "CHR 0x00 \<notin> set pre \<Longrightarrow> list_all name_ok ns \<Longrightarrow> CHR 0x00 \<notin> set (names_path pre ns)"
  by (induction ns arbitrary: pre) (auto simp: child_no_nul)

lemma names_path_relative:
  assumes "list_all name_ok ns" and "ns \<noteq> []"
  shows "names_path [] ns \<noteq> [] \<and> \<not> is_absolute (names_path [] ns)"
proof -
  have "pre \<noteq> [] \<Longrightarrow> \<not> is_absolute pre \<Longrightarrow> list_all name_ok ms \<Longrightarrow> names_path pre ms \<noteq> [] \<and> \<not> is_absolute (names_path pre ms)" for pre ms
  proof (induction ms arbitrary: pre)
    case (Cons s ms)
    then have "path_join pre s \<noteq> [] \<and> \<not> is_absolute (path_join pre s)"
      using name_ok_names [of s] by (auto simp: path_join_def is_absolute_def)
    with Cons show ?case by simp
  qed simp
  moreover obtain s ms where ns: "ns = s # ms" using assms(2) by (cases ns) auto
  ultimately show ?thesis using assms(1) name_ok_names [of s] by (simp add: path_join_Nil) (metis name_ok_def)
qed

lemma names_path_valid:
  assumes "list_all name_ok ns" and "ns \<noteq> []"
  shows "validate_file_name_no_traversal (names_path [] ns) = Inr ()"
proof -
  have "path_names (names_path [] ns) = ns" using path_names_names_path [OF assms(1), of "[]"] by (simp add: path_names_def)
  moreover have "''..'' \<notin> set ns" using assms(1) by (auto simp: list_all_iff name_ok_def)
  moreover have "''..'' \<in> set (split_on (CHR ''/'') x) \<Longrightarrow> ''..'' \<in> set (path_names x)" for x
    by (simp add: path_names_def)
  ultimately have "''..'' \<notin> set (split_on (CHR ''/'') (names_path [] ns))" by metis
  then have "\<not> list_ex (\<lambda>s. s = ''..'') (filter (\<lambda>s. s \<noteq> []) (split_on (CHR ''/'') (names_path [] ns)))"
    by (simp add: list_ex_iff)
  then show ?thesis
    using names_path_no_nul [of "[]" ns] names_path_relative [OF assms] assms(1)
    by (simp add: validate_file_name_no_traversal_def)
qed

lemma validate_each_ok:
  "(\<And>f. f \<in> set l \<Longrightarrow> name f \<noteq> [] \<and> validate_file_name_no_traversal (name f) = Inr ()) \<Longrightarrow> validate_each l = Inr ()"
  by (induction l) auto


definition example_tree :: Fs where
  "example_tree = \<lparr>nodes = [([''d''], DirNode), ([''d'', ''a''], FileNode [1, 2] 5000000000), ([''d'', ''e''], DirNode),
     ([''d'', ''e'', ''b''], FileNode [3] 0), ([''d'', ''.h''], FileNode [4] 0), ([''d'', ''l''], LinkNode ''a'')],
     cwd = [], readonly = [], clock = 0\<rparr>"

lemma example_tree_resolve: "resolve example_tree ''/d'' = Inr [''d'']"
  by (simp add: example_tree_def resolve_def resolve_components_def path_components_def is_absolute_def name_component_def
      node_at_def names_directory_def MAX_LINKS_def Let_def)


section \<open>Removing empty directories\<close>

text \<open>\<open>std::fs::remove_dir\<close>\<close>

definition fs_remove_dir :: "path \<Rightarrow> Fs \<Rightarrow> (fs_error + unit) \<times> Fs" where
  "fs_remove_dir p fs =
     (case entry fs p of
        Inl e \<Rightarrow> (Inl e, fs)
      | Inr q \<Rightarrow>
          if q \<in> set (readonly fs) then (Inl Denied, fs)
          else (case node_at fs q of
              None \<Rightarrow> (Inl NotFoundErr, fs)
            | Some DirNode \<Rightarrow> if q = [] \<or> has_children fs q then (Inl OtherFs, fs) else (Inr (), del_node q fs)
            | Some _ \<Rightarrow> (Inl NotADirectory, fs)))"

text \<open>What is done with one entry of the listing; errors below the top are dropped.\<close>

definition remove_entry :: "(path \<Rightarrow> Fs \<Rightarrow> ((transfer_error + unit) \<times> Fs) option) \<Rightarrow> path \<Rightarrow> FileEntry \<Rightarrow> Fs option \<Rightarrow> Fs option" where
  "remove_entry rec p e st =
     (case st of
        None \<Rightarrow> None
      | Some fs1 \<Rightarrow>
          (case entry_type e of
             Dir \<Rightarrow> map_option snd (rec (path_join p (name e)) fs1)
           | DirLink \<Rightarrow> Some (snd (fs_remove_file (path_join p (name e)) fs1))
           | FileLink \<Rightarrow> Some (snd (fs_remove_file (path_join p (name e)) fs1))
           | _ \<Rightarrow> Some fs1))"

text \<open>
  The recursion, with the depth it may still go; \<open>None\<close> is running out of it. The listing is taken before anything is removed.
\<close>

fun remove_tree :: "nat \<Rightarrow> (path \<Rightarrow> nat) \<Rightarrow> path \<Rightarrow> Fs \<Rightarrow> ((transfer_error + unit) \<times> Fs) option" where
  "remove_tree 0 mt p fs = None"
| "remove_tree (Suc n) mt p fs =
     (case read_dir mt fs p True of
        Inl e \<Rightarrow> Some (Inl e, fs)
      | Inr fd \<Rightarrow>
          (case fold (remove_entry (remove_tree n mt) p) (entries fd) (Some fs) of
             None \<Rightarrow> None
           | Some fs2 \<Rightarrow> Some (Inr (), snd (fs_remove_dir p fs2))))"

definition remove_all_empty_dir :: "(path \<Rightarrow> nat) \<Rightarrow> path \<Rightarrow> Fs \<Rightarrow> ((transfer_error + unit) \<times> Fs) option" where
  "remove_all_empty_dir mt p fs = remove_tree (Suc (length (nodes fs))) mt p fs"

text \<open>A state in which directories and links below \<open>q\<close> are gone, and nothing else changed.\<close>

definition pruned :: "location \<Rightarrow> Fs \<Rightarrow> Fs \<Rightarrow> bool" where
  "pruned q fs fs' \<longleftrightarrow> cwd fs' = cwd fs \<and> readonly fs' = readonly fs \<and> clock fs' = clock fs \<and>
     (\<forall>x. node_at fs' x = node_at fs x \<or>
        prefix q x \<and> node_at fs' x = None \<and> (\<exists>v. node_at fs x = Some v \<and> (v = DirNode \<or> is_symlink v)))"

lemma pruned_refl [simp]: "pruned q fs fs"
  by (simp add: pruned_def)

lemma pruned_trans:
  assumes "pruned q fs fs1" and "pruned q' fs1 fs2" and "prefix q q'"
  shows "pruned q fs fs2"
proof -
  have "node_at fs2 x = node_at fs x \<or>
      prefix q x \<and> node_at fs2 x = None \<and> (\<exists>v. node_at fs x = Some v \<and> (v = DirNode \<or> is_symlink v))" for x
    using assms unfolding pruned_def by (metis prefix_order.trans option.distinct(1))
  with assms(1,2) show ?thesis by (simp add: pruned_def)
qed

lemma pruned_walk:
  assumes "walk n fs' cur cs = Inr r" and "pruned q fs fs'"
  shows "walk n fs cur cs = Inr r \<or> node_at fs' r = None"
  using assms
proof (induction n fs' cur cs rule: walk.induct)
  case (5 n fs' cur s cs)
  have "node_at fs' (cur @ [s]) = node_at fs (cur @ [s]) \<or> node_at fs' (cur @ [s]) = None"
    using 5(4) by (auto simp: pruned_def)
  then show ?case
  proof
    assume "node_at fs' (cur @ [s]) = node_at fs (cur @ [s])"
    with 5 show ?thesis by (auto split: option.splits node.splits if_splits nat.splits)
  next
    assume "node_at fs' (cur @ [s]) = None"
    with 5(3) show ?thesis by (auto split: if_splits)
  qed
qed auto

lemma pruned_node: "pruned q fs fs' \<Longrightarrow> node_at fs' x = Some v \<Longrightarrow> node_at fs x = Some v"
  by (metis option.distinct(1) pruned_def)

lemma pruned_resolve:
  assumes "resolve fs' p = Inr r" and "pruned q fs fs'" and "node_at fs' r = Some v"
  shows "resolve fs p = Inr r"
proof -
  have "cwd fs' = cwd fs" using assms(2) by (simp add: pruned_def)
  with assms pruned_walk [OF _ assms(2), of MAX_LINKS "cwd fs" "path_components p" r] pruned_node [OF assms(2,3)]
  show ?thesis by (auto simp: resolve_def resolve_components_def split: if_splits sum.splits)
qed

text \<open>The depth below a path only shrinks.\<close>

lemma below_pruned:
  assumes "pruned q fs fs'"
  shows "below fs' p \<le> below fs p"
proof (cases "\<exists>r. resolve fs' p = Inr r \<and> node_at fs' r = Some DirNode")
  case True
  then obtain r where r: "resolve fs' p = Inr r" "node_at fs' r = Some DirNode" by blast
  have "{x \<in> fst ` set (nodes fs'). strict_prefix r x} \<subseteq> {x \<in> fst ` set (nodes fs). strict_prefix r x}"
  proof
    fix x
    assume "x \<in> {x \<in> fst ` set (nodes fs'). strict_prefix r x}"
    then have x: "strict_prefix r x" "map_of (nodes fs') x \<noteq> None" by (auto simp: map_of_eq_None_iff)
    then have "x \<noteq> []" by auto
    with x pruned_node [OF assms, of x] have "map_of (nodes fs) x \<noteq> None" by (auto simp: node_at_def)
    with x show "x \<in> {x \<in> fst ` set (nodes fs). strict_prefix r x}" by (auto simp: map_of_eq_None_iff)
  qed
  then have "card {x \<in> fst ` set (nodes fs'). strict_prefix r x} \<le> card {x \<in> fst ` set (nodes fs). strict_prefix r x}"
    by (intro card_mono) auto
  with r pruned_resolve [OF r(1) assms r(2)] pruned_node [OF assms r(2)] show ?thesis by (simp add: below_def)
next
  case False
  then have "below fs' p = 0" by (auto simp: below_def split: sum.splits)
  then show ?thesis by simp
qed

lemma entry_dir:
  assumes "entry fs p = Inr r" and "node_at fs r = Some DirNode"
  shows "resolve fs p = Inr r"
proof (cases "names_directory p")
  case True
  with assms show ?thesis by (auto simp: entry_def split: if_splits)
next
  case False
  with assms(1) have p: "p \<noteq> []" "CHR 0x00 \<notin> set p" and e: "entry_of_components fs (path_components p) = Inr r"
    by (auto simp: entry_def split: if_splits)
  have "resolve_components fs (path_components p) = Inr r"
  proof (cases "\<exists>s rcs. rev (path_components p) = Normal s # rcs")
    case True
    then obtain s rcs where rc: "rev (path_components p) = Normal s # rcs" by blast
    then have pc: "path_components p = rev rcs @ [Normal s]" by (metis rev.simps(2) rev_rev_ident)
    from e rc obtain q where q: "resolve_components fs (rev rcs) = Inr q" "node_at fs q = Some DirNode" "r = q @ [s]"
      by (auto simp: entry_of_components_def split: sum.splits option.splits node.splits)
    from walk_append [OF _ q(2), of MAX_LINKS "cwd fs" "rev rcs" "[Normal s]"] q(1) obtain m where
      "walk MAX_LINKS fs (cwd fs) (rev rcs @ [Normal s]) = walk m fs q [Normal s]" by (auto simp: resolve_components_def)
    with pc q(3) assms(2) show ?thesis by (simp add: resolve_components_def)
  next
    case False
    with e show ?thesis by (auto simp: entry_of_components_def split: list.splits component.splits)
  qed
  with False p show ?thesis by (simp add: resolve_def)
qed

lemma remove_dir_pruned:
  assumes "resolve fs p = Inr q" and "pruned q fs fs'"
  shows "pruned q fs (snd (fs_remove_dir p fs'))"
proof (cases "\<exists>r. entry fs' p = Inr r \<and> r \<notin> set (readonly fs') \<and> node_at fs' r = Some DirNode \<and> r \<noteq> [] \<and> \<not> has_children fs' r")
  case True
  then obtain r where r: "entry fs' p = Inr r" "r \<notin> set (readonly fs')" "node_at fs' r = Some DirNode" "r \<noteq> []" "\<not> has_children fs' r"
    by blast
  from pruned_resolve [OF entry_dir [OF r(1,3)] assms(2) r(3)] assms(1) have "r = q" by simp
  with r have "snd (fs_remove_dir p fs') = del_node q fs'" by (simp add: fs_remove_dir_def)
  moreover have "pruned q fs' (del_node q fs')"
    using r \<open>r = q\<close> by (auto simp: pruned_def del_node_def node_at_def AList.delete_conv')
  ultimately show ?thesis using pruned_trans [OF assms(2), of q] by simp
next
  case False
  then have "snd (fs_remove_dir p fs') = fs'"
    by (auto simp: fs_remove_dir_def split: sum.splits option.splits node.splits if_splits)
  with assms(2) show ?thesis by simp
qed

lemma remove_link_pruned:
  assumes "resolve fs p = Inr q" and "node_at fs q = Some DirNode" and "name_ok s"
    and "node_at fs (q @ [s]) = Some v" and "is_symlink v" and "pruned q fs fs'"
  shows "pruned q fs (snd (fs_remove_file (path_join p s) fs'))"
proof (cases "\<exists>r. entry fs' (path_join p s) = Inr r \<and> r \<notin> set (readonly fs') \<and> node_at fs' r \<noteq> None \<and> node_at fs' r \<noteq> Some DirNode")
  case True
  then obtain r w where r: "entry fs' (path_join p s) = Inr r" "r \<notin> set (readonly fs')" "node_at fs' r = Some w" "w \<noteq> DirNode" by auto
  have p: "p \<noteq> []" "CHR 0x00 \<notin> set p" "resolve_components fs (path_components p) = Inr q"
    using resolve_nonempty [OF assms(1)] by auto
  have cw: "cwd fs' = cwd fs" using assms(6) by (simp add: pruned_def)
  from r(1) p assms(3) have "entry_of_components fs' (path_components p @ [Normal s]) = Inr r"
    by (simp add: entry_def path_join_nonempty child_no_nul names_directory_child components_child)
  then obtain x where x: "walk MAX_LINKS fs' (cwd fs') (path_components p) = Inr x" "node_at fs' x = Some DirNode" "r = x @ [s]"
    by (auto simp: entry_of_components_def resolve_components_def split: sum.splits option.splits node.splits)
  from pruned_walk [OF x(1) assms(6)] x(2) p(3) cw have "x = q" by (simp add: resolve_components_def)
  then have rq: "r = q @ [s]" using x(3) by simp
  from r have "snd (fs_remove_file (path_join p s) fs') = del_node r fs'"
    by (cases w) (simp_all add: fs_remove_file_def)
  moreover have "w = v" using pruned_node [OF assms(6) r(3)] rq assms(4) by simp
  then have "pruned q fs' (del_node r fs')"
    using r(3) rq assms(5) by (auto simp: pruned_def del_node_def node_at_def AList.delete_conv')
  ultimately show ?thesis using pruned_trans [OF assms(6), of q] by simp
next
  case False
  then have "snd (fs_remove_file (path_join p s) fs') = fs'"
    by (auto simp: fs_remove_file_def split: sum.splits option.splits node.splits if_splits)
  with assms(6) show ?thesis by simp
qed

text \<open>One entry of the listing, and the whole tree: enough depth is left, and only directories and links below \<open>q\<close> go.\<close>

lemma remove_entries:
  assumes "\<And>e fs1. e \<in> set es \<Longrightarrow> pruned q fs fs1 \<Longrightarrow> \<exists>fs2. remove_entry rec p e (Some fs1) = Some fs2 \<and> pruned q fs fs2"
    and "pruned q fs fs1"
  shows "\<exists>fs2. fold (remove_entry rec p) es (Some fs1) = Some fs2 \<and> pruned q fs fs2"
  using assms
proof (induction es arbitrary: fs1)
  case (Cons e es)
  from Cons.prems(1) [of e fs1] Cons.prems(2) obtain fs2 where "remove_entry rec p e (Some fs1) = Some fs2" "pruned q fs fs2"
    by auto
  moreover from Cons.IH [OF _ this(2)] Cons.prems(1) have "\<exists>fs3. fold (remove_entry rec p) es (Some fs2) = Some fs3 \<and> pruned q fs fs3"
    by auto
  ultimately show ?case by auto
qed auto

lemma link_entry:
  assumes "resolve fs p = Inr q" and "node_at fs q = Some DirNode"
    and "entries fd = List.map_filter (\<lambda>s. read_entry mt fs h (path_join p s)) (children fs q)"
    and "e \<in> set (entries fd)" and "entry_type e = DirLink \<or> entry_type e = FileLink"
  shows "name_ok (name e) \<and> (\<exists>v. node_at fs (q @ [name e]) = Some v \<and> is_symlink v)"
proof -
  from entries_iff [OF assms(1-3), of e] assms(4) obtain s v where
    s: "shown h s" "node_at fs (q @ [s]) = Some v" "read_entry mt fs h (path_join p s) = Some e" by auto
  have ok: "name_ok s" using s(1) by (simp add: shown_def)
  from s(3) read_entry_child [OF assms(1,2) ok s(2), of mt h] s(1) have "name e = s" "is_symlink v"
    using assms(5) by (auto split: if_splits)
  with ok s(2) show ?thesis by simp
qed

lemma remove_tree_prunes:
  assumes "below fs p < n"
  shows "\<exists>r fs'. remove_tree n mt p fs = Some (r, fs') \<and> (\<forall>q. resolve fs p = Inr q \<longrightarrow> pruned q fs fs') \<and>
    (\<forall>e. resolve fs p = Inl e \<longrightarrow> fs' = fs)"
  using assms
proof (induction n arbitrary: p fs)
  case (Suc n)
  show ?case
  proof (cases "read_dir mt fs p True")
    case (Inl e)
    then show ?thesis by simp
  next
    case (Inr fd)
    from read_dir_Inr [OF Inr] obtain q where q: "resolve fs p = Inr q" "node_at fs q = Some DirNode"
      "entries fd = List.map_filter (\<lambda>s. read_entry mt fs True (path_join p s)) (children fs q)" by blast
    have step: "\<exists>fs2. remove_entry (remove_tree n mt) p e (Some fs1) = Some fs2 \<and> pruned q fs fs2"
      if e: "e \<in> set (entries fd)" and p1: "pruned q fs fs1" for e fs1
    proof -
      consider "entry_type e = Dir" | "entry_type e = DirLink \<or> entry_type e = FileLink" | "entry_type e = File \<or> entry_type e = DirDrive"
        by (cases "entry_type e") auto
      then show ?thesis
      proof cases
        case 1
        let ?c = "path_join p (name e)"
        note d = dir_entry [OF q e 1]
        have "below fs1 ?c < n"
          using below_pruned [OF p1, of ?c] below_less [OF Inr e 1] Suc.prems by simp
        from Suc.IH [OF this] obtain r fs2 where
          r: "remove_tree n mt ?c fs1 = Some (r, fs2)" "\<forall>x. resolve fs1 ?c = Inr x \<longrightarrow> pruned x fs1 fs2"
          "\<forall>x. resolve fs1 ?c = Inl x \<longrightarrow> fs2 = fs1" by blast
        have "pruned q fs fs2"
        proof (cases "resolve fs1 ?c")
          case (Inl x)
          with r(3) p1 show ?thesis by simp
        next
          case x: (Inr x)
          show ?thesis
          proof (cases "node_at fs1 x")
            case None
            then have "\<exists>y. read_dir mt fs1 ?c True = Inl y" using x by (simp add: read_dir_def fs_read_dir_def)
            with r(1) have "fs2 = fs1" by (cases n) auto
            with p1 show ?thesis by simp
          next
            case (Some v)
            with pruned_resolve [OF x p1] d(3) have "x = q @ [name e]" by simp
            with r(2) x pruned_trans [OF p1, of x fs2] show ?thesis by simp
          qed
        qed
        with r(1) 1 show ?thesis by (simp add: remove_entry_def)
      next
        case 2
        from link_entry [OF q e 2] obtain v where "name_ok (name e)" "node_at fs (q @ [name e]) = Some v" "is_symlink v" by blast
        from remove_link_pruned [OF q(1,2) this p1] 2 show ?thesis by (auto simp: remove_entry_def)
      next
        case 3
        with p1 show ?thesis by (auto simp: remove_entry_def)
      qed
    qed
    from remove_entries [OF step pruned_refl] obtain fs2 where
      "fold (remove_entry (remove_tree n mt) p) (entries fd) (Some fs) = Some fs2" "pruned q fs fs2" by blast
    with remove_dir_pruned [OF q(1), of fs2] Inr q(1) show ?thesis by simp
  qed
qed simp

lemma below_bound: "below fs p \<le> length (nodes fs)"
proof -
  have "card {x \<in> fst ` set (nodes fs). strict_prefix q x} \<le> length (nodes fs)" for q
    by (rule order_trans [OF card_mono [of "fst ` set (nodes fs)"]])
      (auto intro: order_trans [OF card_image_le card_length])
  then show ?thesis by (simp add: below_def split: sum.splits)
qed

text \<open>C36: removing a tree of empty directories ends, and loses no file. Whatever the tree contains, links that lead out of it or back
  into it included, \<open>remove_all_empty_dir\<close> returns; every node it removes was a directory or a link at or
  below the given directory; and every regular file of the file system is what it was.\<close>

theorem remove_all_empty_dir_keeps_files:
  assumes "resolve fs p = Inr q"
  shows "\<exists>r fs'. remove_all_empty_dir mt p fs = Some (r, fs') \<and>
    (\<forall>x d m. node_at fs x = Some (FileNode d m) \<longrightarrow> node_at fs' x = Some (FileNode d m)) \<and>
    (\<forall>x. node_at fs' x \<noteq> node_at fs x \<longrightarrow> prefix q x \<and> node_at fs' x = None)"
proof -
  have "below fs p < Suc (length (nodes fs))" using below_bound [of fs p] by simp
  from remove_tree_prunes [OF this, of mt] assms obtain r fs' where
    r: "remove_tree (Suc (length (nodes fs))) mt p fs = Some (r, fs')" "pruned q fs fs'" by blast
  have "node_at fs' x = node_at fs x \<or>
     prefix q x \<and> node_at fs' x = None \<and> (\<exists>v. node_at fs x = Some v \<and> (v = DirNode \<or> is_symlink v))" for x
    using r(2) by (simp add: pruned_def)
  then have "\<forall>x d m. node_at fs x = Some (FileNode d m) \<longrightarrow> node_at fs' x = Some (FileNode d m)"
    "\<forall>x. node_at fs' x \<noteq> node_at fs x \<longrightarrow> prefix q x \<and> node_at fs' x = None"
    by (metis is_symlink.simps(3) node.distinct(1) option.inject is_symlink.simps(2))+
  with r(1) show ?thesis unfolding remove_all_empty_dir_def by blast
qed

theorem remove_all_empty_dir_keeps_files_witness:
  "\<exists>r fs'. remove_all_empty_dir (\<lambda>_. 0) ''/d'' example_tree = Some (r, fs') \<and>
     node_at fs' [''d'', ''a''] = Some (FileNode [1, 2] 5000000000)"
proof -
  have "node_at example_tree [''d'', ''a''] = Some (FileNode [1, 2] 5000000000)" by (simp add: example_tree_def node_at_def)
  with remove_all_empty_dir_keeps_files [OF example_tree_resolve, of "\<lambda>_. 0"] show ?thesis by blast
qed

end
