(* ===== verification/Clipboard_Files.thy ===== *)
theory Clipboard_Files
  imports File_Listing
begin

unbundle bit_operations_syntax

text \<open>
  Copying files through the clipboard on Unix: the messages (\<open>src/clipboard_file.rs\<close>), the list of files that is offered with its
  binary form (\<open>libs/clipboard/src/platform/unix/local_file.rs\<close>, \<open>serv_files.rs\<close>), how the other side reads that form
  (\<open>filetype.rs\<close>) and asks for contents (\<open>fuse/cs.rs\<close>). UTF-16 (the crate \<open>utf16string\<close>) is the pair of functions \<open>enc16\<close> and
  \<open>dec16\<close>. A reader is its position in the file; \<open>None\<close> of \<open>serve_file_contents\<close> and \<open>as_bin\<close> is a panic. The file system
  that shows the remote files (\<open>fuse\<close>) is not modelled beyond its requests.
\<close>

type_synonym i32 = "32 word"

section \<open>Messages\<close>

datatype ClipboardFile =
  NotifyCallback string string string
| MonitorReady
| FormatList "(i32 \<times> string) list"
| FormatListResponse i32
| FormatDataRequest i32
| FormatDataResponse i32 bytes
| FileContentsRequest i32 i32 i32 i32 i32 i32 bool i32
| FileContentsResponse i32 i32 bytes
| TryEmpty
| Files "(string \<times> nat) list"

datatype cliprdr_union =
  CReady
| CFormatList "(i32 \<times> string) list"
| CFormatListResponse i32
| CFormatDataRequest i32
| CFormatDataResponse i32 bytes
| CFileContentsRequest i32 i32 i32 i32 i32 i32 bool i32
| CFileContentsResponse i32 i32 bytes
| CTryEmpty
| CFiles "(string \<times> nat) list"

datatype clip_msg = MessageBox string string string | Cliprdr "cliprdr_union option"

text \<open>A file of the list with size zero is looked up again, and left out if it is gone.\<close>

definition clip_file_size :: "Fs \<Rightarrow> string \<times> nat \<Rightarrow> (string \<times> nat) option" where
  "clip_file_size fs f =
     (if snd f = 0 then (case metadata fs (fst f) of Inr meta \<Rightarrow> Some (fst f, node_len meta) | Inl _ \<Rightarrow> None) else Some f)"

fun clip_2_msg :: "Fs \<Rightarrow> ClipboardFile \<Rightarrow> clip_msg" where
  "clip_2_msg fs (NotifyCallback t title text) = MessageBox t title text"
| "clip_2_msg fs MonitorReady = Cliprdr (Some CReady)"
| "clip_2_msg fs (FormatList l) = Cliprdr (Some (CFormatList l))"
| "clip_2_msg fs (FormatListResponse f) = Cliprdr (Some (CFormatListResponse f))"
| "clip_2_msg fs (FormatDataRequest f) = Cliprdr (Some (CFormatDataRequest f))"
| "clip_2_msg fs (FormatDataResponse f d) = Cliprdr (Some (CFormatDataResponse f d))"
| "clip_2_msg fs (FileContentsRequest a b c d e f g h) = Cliprdr (Some (CFileContentsRequest a b c d e f g h))"
| "clip_2_msg fs (FileContentsResponse a b d) = Cliprdr (Some (CFileContentsResponse a b d))"
| "clip_2_msg fs TryEmpty = Cliprdr (Some CTryEmpty)"
| "clip_2_msg fs (Files l) = Cliprdr (Some (CFiles (List.map_filter (clip_file_size fs) l)))"

fun msg_2_clip :: "cliprdr_union option \<Rightarrow> ClipboardFile option" where
  "msg_2_clip (Some CReady) = Some MonitorReady"
| "msg_2_clip (Some (CFormatList l)) = Some (FormatList l)"
| "msg_2_clip (Some (CFormatListResponse f)) = Some (FormatListResponse f)"
| "msg_2_clip (Some (CFormatDataRequest f)) = Some (FormatDataRequest f)"
| "msg_2_clip (Some (CFormatDataResponse f d)) = Some (FormatDataResponse f d)"
| "msg_2_clip (Some (CFileContentsRequest a b c d e f g h)) = Some (FileContentsRequest a b c d e f g h)"
| "msg_2_clip (Some (CFileContentsResponse a b d)) = Some (FileContentsResponse a b d)"
| "msg_2_clip (Some CTryEmpty) = Some TryEmpty"
| "msg_2_clip _ = None"

fun is_stopping_allowed :: "ClipboardFile \<Rightarrow> bool" where
  "is_stopping_allowed MonitorReady = True"
| "is_stopping_allowed (FormatList _) = True"
| "is_stopping_allowed (FormatDataRequest _) = True"
| "is_stopping_allowed _ = False"

fun is_beginning_message :: "ClipboardFile \<Rightarrow> bool" where
  "is_beginning_message MonitorReady = True"
| "is_beginning_message (FormatList _) = True"
| "is_beginning_message _ = False"

section \<open>The binary list of files\<close>

definition FLAGS_FD_ATTRIBUTES :: u32 where "FLAGS_FD_ATTRIBUTES = 0x04"
definition FLAGS_FD_SIZE :: u32 where "FLAGS_FD_SIZE = 0x40"
definition FLAGS_FD_LAST_WRITE :: u32 where "FLAGS_FD_LAST_WRITE = 0x20"
definition FLAGS_FD_PROGRESSUI :: u32 where "FLAGS_FD_PROGRESSUI = 0x4000"
definition FLAGS_FD_UNIX_MODE :: u32 where "FLAGS_FD_UNIX_MODE = 0x08"
definition LDAP_EPOCH_DELTA :: u64 where "LDAP_EPOCH_DELTA = 116444772610000000"

record LocalFile =
  lf_root :: path
  lf_path :: path
  lf_handle :: "(location \<times> nat) option"
  lf_offset :: nat
  lf_size :: u64
  lf_time :: nat
  lf_is_dir :: bool
  lf_perm :: u32
  lf_read_only :: bool
  lf_hidden :: bool
  lf_system :: bool
  lf_archive :: bool
  lf_normal :: bool

text \<open>What the system reports besides the node is \<open>mode\<close> and, for directories, the time \<open>mt\<close>; the size of a directory is 0 here.\<close>

definition try_open :: "(path \<Rightarrow> u32) \<Rightarrow> (path \<Rightarrow> nat) \<Rightarrow> Fs \<Rightarrow> path \<Rightarrow> path \<Rightarrow> fs_error + LocalFile" where
  "try_open mode mt fs root p =
     (case metadata fs p of
        Inl e \<Rightarrow> Inl e
      | Inr meta \<Rightarrow>
          (let dir = (meta = DirNode); ro = (mode p AND 0x92 = 0); hid = (take 1 p = ''.'')
           in Inr \<lparr>lf_root = root, lf_path = p, lf_handle = None, lf_offset = 0, lf_size = word_of_nat (node_len meta),
                lf_time = (case meta of FileNode _ m \<Rightarrow> m | _ \<Rightarrow> mt p), lf_is_dir = dir, lf_perm = mode p, lf_read_only = ro,
                lf_hidden = hid, lf_system = False, lf_archive = False, lf_normal = (\<not> (dir \<or> ro \<or> hid))\<rparr>))"

definition file_attributes :: "LocalFile \<Rightarrow> u32" where
  "file_attributes f =
     (if lf_read_only f then 0x1 else 0) OR (if lf_hidden f then 0x2 else 0) OR (if lf_system f then 0x4 else 0) OR
     (if lf_is_dir f then 0x10 else 0) OR (if lf_archive f then 0x20 else 0) OR (if lf_normal f then 0x80 else 0)"

definition win32_time :: "nat \<Rightarrow> u64" where
  "win32_time t = word_of_nat t div 100 + LDAP_EPOCH_DELTA"

text \<open>\<open>Path::strip_prefix\<close> compares components; the rest is given back joined.\<close>

fun component_text :: "component \<Rightarrow> string" where
  "component_text RootDir = ''/''"
| "component_text CurDir = ''.''"
| "component_text ParentDir = ''..''"
| "component_text (Normal s) = s"

definition strip_prefix :: "path \<Rightarrow> path \<Rightarrow> path" where
  "strip_prefix root p =
     (let rc = path_components root; pc = path_components p
      in if take (length rc) pc = rc then foldl path_join [] (map component_text (drop (length rc) pc)) else p)"

definition FD_FLAGS :: u32 where
  "FD_FLAGS = FLAGS_FD_SIZE OR FLAGS_FD_LAST_WRITE OR FLAGS_FD_ATTRIBUTES OR FLAGS_FD_PROGRESSUI OR FLAGS_FD_UNIX_MODE"

text \<open>\<open>520 - name_len\<close> does not go below zero: a longer name is a panic.\<close>

definition as_bin :: "(string \<Rightarrow> bytes) \<Rightarrow> LocalFile \<Rightarrow> bytes option" where
  "as_bin enc16 f =
     (let nm = enc16 (strip_prefix (lf_root f) (lf_path f))
      in if length nm > 520 then None
         else Some (to_le_bytes 4 FD_FLAGS @ replicate 32 0 @ to_le_bytes 4 (file_attributes f) @ replicate 12 0 @
           to_le_bytes 4 (lf_perm f) @ to_le_bytes 8 (win32_time (lf_time f)) @
           to_le_bytes 4 (ucast (drop_bit 32 (lf_size f)) :: u32) @ to_le_bytes 4 (ucast (lf_size f AND 0xFFFFFFFF) :: u32) @
           nm @ replicate (520 - length nm) 0))"

fun all_some :: "'a option list \<Rightarrow> 'a list option" where
  "all_some [] = Some []"
| "all_some (x # xs) = (case x of None \<Rightarrow> None | Some y \<Rightarrow> map_option ((#) y) (all_some xs))"

definition build_file_list_pdu :: "(string \<Rightarrow> bytes) \<Rightarrow> LocalFile list \<Rightarrow> bytes option" where
  "build_file_list_pdu enc16 fl =
     (case all_some (map (as_bin enc16) fl) of
        None \<Rightarrow> None
      | Some bs \<Rightarrow> Some (to_le_bytes 4 (word_of_nat (length fl) :: u32) @ concat bs))"

section \<open>Reading the list\<close>

datatype FileKind = FileKind | DirectoryKind

record FileDescription =
  d_conn_id :: int
  d_name :: path
  d_kind :: FileKind
  d_last_modified :: nat
  d_size :: u64
  d_perm :: u16

datatype clip_error = ConversionFailure | InvalidRequest string | FileError fs_error

definition description_perm :: "u32 \<Rightarrow> u32 \<Rightarrow> u16 \<Rightarrow> u16" where
  "description_perm flags attributes perm =
     (if flags AND FLAGS_FD_UNIX_MODE \<noteq> 0 then perm
      else if attributes = 0x80 then 0x1ED
      else if attributes AND 0x01 \<noteq> 0 then 0x124
      else if attributes AND 0x02 \<noteq> 0 then 0x100
      else if attributes AND 0x10 \<noteq> 0 then 0x1ED
      else 0x1A4)"

definition description_time :: "u32 \<Rightarrow> u64 \<Rightarrow> nat" where
  "description_time flags t =
     (if flags AND FLAGS_FD_LAST_WRITE \<noteq> 0 \<and> t \<ge> LDAP_EPOCH_DELTA then unat ((t - LDAP_EPOCH_DELTA) * 100) else 0)"

text \<open>\<open>trim_end_matches\<close> of a NUL, after the replacement of backslashes.\<close>

definition description_name :: "string \<Rightarrow> path" where
  "description_name s =
     rev (dropWhile (\<lambda>c. c = CHR 0x00) (rev (map (\<lambda>c. if c = CHR 0x5C then CHR ''/'' else c) s)))"

definition parse_file_descriptor :: "(bytes \<Rightarrow> string option) \<Rightarrow> int \<Rightarrow> bytes \<Rightarrow> clip_error + FileDescription" where
  "parse_file_descriptor dec16 c b =
     (let flags = (from_le_bytes (take 4 b) :: u32);
          attributes = (from_le_bytes (take 4 (drop 36 b)) :: u32);
          perm = (ucast (from_le_bytes (take 4 (drop 52 b)) :: u32) :: u16);
          t = (from_le_bytes (take 8 (drop 56 b)) :: u64);
          high = (from_le_bytes (take 4 (drop 64 b)) :: u32);
          low = (from_le_bytes (take 4 (drop 68 b)) :: u32)
      in case dec16 (take 520 (drop 72 b)) of
           None \<Rightarrow> Inl ConversionFailure
         | Some w \<Rightarrow>
             if flags AND FLAGS_FD_ATTRIBUTES = 0 then Inl (InvalidRequest ''file description must have valid attributes'')
             else Inr \<lparr>d_conn_id = c, d_name = description_name w,
               d_kind = (if attributes AND 0x10 \<noteq> 0 then DirectoryKind else FileKind),
               d_last_modified = description_time flags t,
               d_size = push_bit 32 (ucast high) + ucast low,
               d_perm = description_perm flags attributes perm\<rparr>)"

fun parse_each :: "(bytes \<Rightarrow> string option) \<Rightarrow> int \<Rightarrow> nat \<Rightarrow> bytes \<Rightarrow> clip_error + FileDescription list" where
  "parse_each dec16 c 0 b = Inr []"
| "parse_each dec16 c (Suc n) b =
     (case parse_file_descriptor dec16 c (take 592 b) of
        Inl e \<Rightarrow> Inl e
      | Inr d \<Rightarrow> (case parse_each dec16 c n (drop 592 b) of Inl e \<Rightarrow> Inl e | Inr ds \<Rightarrow> Inr (d # ds)))"

definition parse_file_descriptors :: "(bytes \<Rightarrow> string option) \<Rightarrow> bytes \<Rightarrow> int \<Rightarrow> clip_error + FileDescription list" where
  "parse_file_descriptors dec16 b c =
     (if length b < 4 then Inl (InvalidRequest ''file descriptor request with infficient length'')
      else
        (let count = unat (from_le_bytes (take 4 b) :: u32)
         in if length b - 4 = 0 \<and> count = 0 then Inr []
            else if length b - 4 \<noteq> 592 * count then Inl (InvalidRequest ''file descriptor request with invalid length'')
            else parse_each dec16 c count (drop 4 b)))"

section \<open>Asking for contents\<close>

text \<open>How the reading side splits an offset (\<open>read_node\<close>), and how the serving side puts it together (\<open>read_file_contents\<close>).\<close>

definition split_position :: "u64 \<Rightarrow> i32 \<times> i32" where
  "split_position off = (ucast (drop_bit 32 off), ucast (off AND 0xFFFFFFFF))"

definition join_position :: "i32 \<Rightarrow> i32 \<Rightarrow> u64" where
  "join_position high low = push_bit 32 (scast high) OR scast low"

definition content_request :: "i32 \<Rightarrow> i32 \<Rightarrow> u64 \<Rightarrow> i32 \<Rightarrow> ClipboardFile" where
  "content_request stream index off n =
     (case split_position off of (high, low) \<Rightarrow> FileContentsRequest stream index 2 low high n False 0)"

datatype contents_request = SizeOf i32 nat | RangeOf i32 nat u64 u64

section \<open>Serving contents\<close>

record ClipFiles =
  cf_files :: "string list"
  file_list :: "LocalFile list"
  first_file_index :: nat
  files_pdu :: bytes

definition USIZE_MAX :: nat where "USIZE_MAX = 2 ^ 64 - 1"
definition ISIZE_MAX :: nat where "ISIZE_MAX = 2 ^ 63 - 1"

definition clip_clear :: "ClipFiles \<Rightarrow> ClipFiles" where
  "clip_clear cf = cf\<lparr>cf_files := [], file_list := [], first_file_index := USIZE_MAX, files_pdu := []\<rparr>"

fun position_of :: "('a \<Rightarrow> bool) \<Rightarrow> 'a list \<Rightarrow> nat option" where
  "position_of P [] = None"
| "position_of P (x # xs) = (if P x then Some 0 else map_option Suc (position_of P xs))"

text \<open>The walk over the copied paths: the paths still to visit are a stack, a directory puts its entries on top of it. A link to a
  directory above it is followed again under its longer name, until the system refuses to follow so many links; each visit costs a
  unit of \<open>fuel\<close>, and \<open>None\<close> means that it did not suffice.\<close>

fun constr_file_lst :: "(path \<Rightarrow> u32) \<Rightarrow> (path \<Rightarrow> nat) \<Rightarrow> Fs \<Rightarrow> path \<Rightarrow> nat \<Rightarrow> path list \<Rightarrow> LocalFile list \<Rightarrow>
    component list list \<Rightarrow> (clip_error + LocalFile list) option" where
  "constr_file_lst mode mt fs root fuel [] acc visited = Some (Inr acc)"
| "constr_file_lst mode mt fs root 0 (p # ps) acc visited = None"
| "constr_file_lst mode mt fs root (Suc fuel) (p # ps) acc visited =
     (if path_components p \<in> set visited then constr_file_lst mode mt fs root fuel ps acc visited
      else case try_open mode mt fs root p of
        Inl e \<Rightarrow> Some (Inl (FileError e))
      | Inr f \<Rightarrow>
          if is_dir fs p then
            (case fs_read_dir fs p of
               Inl e \<Rightarrow> Some (Inl (FileError e))
             | Inr ns \<Rightarrow> constr_file_lst mode mt fs root fuel (map (path_join p) ns @ ps) (acc @ [f]) (path_components p # visited))
          else constr_file_lst mode mt fs root fuel ps (acc @ [f]) (path_components p # visited))"

definition construct_file_list :: "(path \<Rightarrow> u32) \<Rightarrow> (path \<Rightarrow> nat) \<Rightarrow> Fs \<Rightarrow> nat \<Rightarrow> path list \<Rightarrow>
    (clip_error + LocalFile list) option" where
  "construct_file_list mode mt fs fuel ps =
     (case ps of
        [] \<Rightarrow> Some (Inl (InvalidRequest ''empty file list''))
      | p # _ \<Rightarrow>
          (case path_parent p of
             None \<Rightarrow> Some (Inl (InvalidRequest ''empty parent''))
           | Some root \<Rightarrow> constr_file_lst mode mt fs root fuel ps [] []))"

text \<open>The result and the new state; no result (\<open>None\<close>) when the walk does not end within the fuel or the binary list panics.\<close>

definition sync_files :: "(string \<Rightarrow> bytes) \<Rightarrow> (path \<Rightarrow> u32) \<Rightarrow> (path \<Rightarrow> nat) \<Rightarrow> Fs \<Rightarrow> nat \<Rightarrow> path list \<Rightarrow> ClipFiles \<Rightarrow>
    ((clip_error + unit) \<times> ClipFiles) option" where
  "sync_files enc16 mode mt fs fuel ps cf =
     (if cf_files cf = ps then Some (Inr (), cf)
      else case construct_file_list mode mt fs fuel ps of
        None \<Rightarrow> None
      | Some (Inl e) \<Rightarrow> Some (Inl e, cf)
      | Some (Inr fl) \<Rightarrow>
          (case build_file_list_pdu enc16 fl of
             None \<Rightarrow> None
           | Some b \<Rightarrow> Some (Inr (), cf\<lparr>file_list := fl,
               first_file_index := (case position_of (\<lambda>f. \<not> is_dir fs (lf_path f)) fl of Some i \<Rightarrow> i | None \<Rightarrow> USIZE_MAX),
               cf_files := ps, files_pdu := b\<rparr>)))"

fun get_files_for_audit :: "Fs \<Rightarrow> contents_request \<Rightarrow> ClipFiles \<Rightarrow> ClipboardFile option" where
  "get_files_for_audit fs (RangeOf _ idx off _) cf =
     (if idx = first_file_index cf \<and> off = 0 then
        (let l = map (\<lambda>f. (lf_path f, unat (lf_size f))) (filter (\<lambda>f. is_file fs (lf_path f)) (file_list cf))
         in if l = [] then None else Some (Files l))
      else None)"
| "get_files_for_audit fs (SizeOf _ _) cf = None"

definition load_handle :: "Fs \<Rightarrow> LocalFile \<Rightarrow> clip_error + LocalFile" where
  "load_handle fs f =
     (if \<not> lf_is_dir f \<and> lf_handle f = None then
        (case file_open (lf_path f) fs of
           Inl e \<Rightarrow> Inl (FileError e)
         | Inr q \<Rightarrow> Inr (f\<lparr>lf_handle := Some (q, 0)\<rparr>))
      else Inr f)"

text \<open>\<open>read_exact\<close> fails at the end of the file, with the reader moved there.\<close>

definition read_exact_at :: "Fs \<Rightarrow> nat \<Rightarrow> nat \<Rightarrow> LocalFile \<Rightarrow> (clip_error + bytes) \<times> LocalFile" where
  "read_exact_at fs n off f0 =
     (case load_handle fs f0 of
        Inl e \<Rightarrow> (Inl e, f0)
      | Inr f \<Rightarrow>
          (case lf_handle f of
             None \<Rightarrow> (Inl (FileError NotFoundErr), f)
           | Some (q, pos) \<Rightarrow>
               (let p = (if off \<noteq> lf_offset f then off else pos);
                    d = (case node_at fs q of Some (FileNode d _) \<Rightarrow> d | _ \<Rightarrow> [])
                in if length (drop p d) < n then (Inl (FileError OtherFs), f\<lparr>lf_handle := Some (q, max p (length d))\<rparr>)
                   else
                     (let new = off + n
                      in (Inr (take n (drop p d)),
                          if new \<ge> unat (lf_size f) then f\<lparr>lf_offset := 0, lf_handle := None\<rparr>
                          else f\<lparr>lf_offset := new, lf_handle := Some (q, p + n)\<rparr>)))))"

text \<open>Opening the next file that is not a directory.\<close>

fun hot_reload :: "Fs \<Rightarrow> LocalFile list \<Rightarrow> (clip_error + unit) \<times> LocalFile list" where
  "hot_reload fs [] = (Inr (), [])"
| "hot_reload fs (f # fl) =
     (if lf_is_dir f then (case hot_reload fs fl of (r, fl') \<Rightarrow> (r, f # fl'))
      else (case load_handle fs f of Inl e \<Rightarrow> (Inl e, f # fl) | Inr f' \<Rightarrow> (Inr (), f' # fl)))"

definition finish_contents :: "Fs \<Rightarrow> nat \<Rightarrow> ClipboardFile \<Rightarrow> ClipFiles \<Rightarrow> (clip_error + ClipboardFile) \<times> ClipFiles" where
  "finish_contents fs idx resp cf =
     (case hot_reload fs (drop (idx + 1) (file_list cf)) of
        (r, fl) \<Rightarrow> ((case r of Inl e \<Rightarrow> Inl e | Inr _ \<Rightarrow> Inr resp), cf\<lparr>file_list := take (idx + 1) (file_list cf) @ fl\<rparr>))"

definition NO_SUCH_FILE :: string where "NO_SUCH_FILE = ''invalid file index''"
definition BAD_OFFSET :: string where "BAD_OFFSET = ''invalid reading offset''"

fun serve_file_contents :: "Fs \<Rightarrow> contents_request \<Rightarrow> ClipFiles \<Rightarrow> ((clip_error + ClipboardFile) \<times> ClipFiles) option" where
  "serve_file_contents fs (SizeOf stream idx) cf =
     (if idx \<ge> length (file_list cf) then Some (Inl (InvalidRequest NO_SUCH_FILE), cf)
      else Some (finish_contents fs idx (FileContentsResponse 1 stream (to_le_bytes 8 (lf_size (file_list cf ! idx)))) cf))"
| "serve_file_contents fs (RangeOf stream idx off len) cf =
     (if idx \<ge> length (file_list cf) then Some (Inl (InvalidRequest NO_SUCH_FILE), cf)
      else
        (let f = file_list cf ! idx
         in if off > lf_size f then Some (Inl (InvalidRequest BAD_OFFSET), cf)
            else
              (let n = (if off + len > lf_size f then lf_size f - off else len)
               in if unat n > ISIZE_MAX then None
                  else (case read_exact_at fs (unat n) (unat off) f of
                          (Inl e, f') \<Rightarrow> Some (Inl e, cf\<lparr>file_list := (file_list cf)[idx := f']\<rparr>)
                        | (Inr d, f') \<Rightarrow>
                            Some (finish_contents fs idx (FileContentsResponse 1 stream d)
                              (cf\<lparr>file_list := (file_list cf)[idx := f']\<rparr>))))))"

text \<open>\<open>list_index as usize\<close> sign-extends.\<close>

definition parse_contents_request :: "i32 \<Rightarrow> i32 \<Rightarrow> i32 \<Rightarrow> i32 \<Rightarrow> i32 \<Rightarrow> i32 \<Rightarrow> contents_request option" where
  "parse_contents_request stream index flags low high n =
     (if flags = 1 then Some (SizeOf stream (unat (scast index :: u64)))
      else if flags = 2 then Some (RangeOf stream (unat (scast index :: u64)) (join_position high low) (scast n))
      else None)"

definition read_file_contents :: "Fs \<Rightarrow> i32 \<Rightarrow> i32 \<Rightarrow> i32 \<Rightarrow> i32 \<Rightarrow> i32 \<Rightarrow> i32 \<Rightarrow> ClipFiles \<Rightarrow>
    ((clip_error + ClipboardFile) list \<times> ClipFiles) option" where
  "read_file_contents fs stream index flags low high n cf =
     (case parse_contents_request stream index flags low high n of
        None \<Rightarrow> Some ([Inl (InvalidRequest ''got invalid FileContentsRequest'')], cf)
      | Some req \<Rightarrow>
          (case serve_file_contents fs req cf of
             None \<Rightarrow> None
           | Some (r, cf1) \<Rightarrow>
               Some ((case get_files_for_audit fs req cf of Some x \<Rightarrow> [Inr x] | None \<Rightarrow> []) @ [r], cf1)))"

text \<open>The answers to a message of the peer, and what the rest of the host is told: new remote files, remote contents, an emptied clipboard.\<close>

datatype clip_effect = ShowRemoteFiles bytes | RemoteContents ClipboardFile | EmptyClipboardFiles

definition FILEDESCRIPTORW_FORMAT_NAME :: string where "FILEDESCRIPTORW_FORMAT_NAME = ''FileGroupDescriptorW''"
definition FILECONTENTS_FORMAT_NAME :: string where "FILECONTENTS_FORMAT_NAME = ''FileContents''"

definition find_format :: "string \<Rightarrow> (i32 \<times> string) list \<Rightarrow> i32 option" where
  "find_format n l = map_option fst (find (\<lambda>x. snd x = n) l)"

fun serve_clip_messages :: "Fs \<Rightarrow> ClipboardFile \<Rightarrow> ClipFiles \<Rightarrow> (clip_msg list \<times> ClipFiles \<times> clip_effect list) option" where
  "serve_clip_messages fs (FormatList l) cf =
     Some (if find_format FILECONTENTS_FORMAT_NAME l = None then []
           else (case find_format FILEDESCRIPTORW_FORMAT_NAME l of
                   None \<Rightarrow> [] | Some i \<Rightarrow> [clip_2_msg fs (FormatDataRequest i)]), cf, [])"
| "serve_clip_messages fs (FormatDataRequest i) cf =
     Some ([clip_2_msg fs (if files_pdu cf \<noteq> [] then FormatDataResponse 1 (files_pdu cf) else FormatDataResponse 2 [])], cf, [])"
| "serve_clip_messages fs (FormatDataResponse fl d) cf = Some ([], cf, [ShowRemoteFiles d])"
| "serve_clip_messages fs (FileContentsRequest stream index flags low high n have_id clip_id) cf =
     (case read_file_contents fs stream index flags low high n cf of
        None \<Rightarrow> None
      | Some (rs, cf1) \<Rightarrow>
          Some (map (\<lambda>r. clip_2_msg fs (case r of Inr d \<Rightarrow> d | Inl _ \<Rightarrow> FileContentsResponse 2 stream [])) rs, cf1, []))"
| "serve_clip_messages fs (FileContentsResponse fl stream d) cf = Some ([], cf, [RemoteContents (FileContentsResponse fl stream d)])"
| "serve_clip_messages fs TryEmpty cf = Some ([], cf, [EmptyClipboardFiles])"
| "serve_clip_messages fs _ cf = Some ([], cf, [])"

section \<open>The list of files is read back\<close>

text \<open>What the code relies on of UTF-16: little endian units of two bytes, a zero unit for each NUL, decoding inverts encoding.\<close>

definition utf16_codec :: "(string \<Rightarrow> bytes) \<Rightarrow> (bytes \<Rightarrow> string option) \<Rightarrow> bool" where
  "utf16_codec enc16 dec16 \<longleftrightarrow>
     (\<forall>s k. even (length (enc16 s)) \<and> dec16 (enc16 s @ replicate (2 * k) 0) = Some (s @ replicate k (CHR 0x00)))"

text \<open>A name of a Unix file as the reading side keeps it.\<close>

definition plain_name :: "string \<Rightarrow> bool" where
  "plain_name s \<longleftrightarrow> CHR 0x5C \<notin> set s \<and> CHR 0x00 \<notin> set s"

definition described :: "int \<Rightarrow> LocalFile \<Rightarrow> FileDescription" where
  "described c f = \<lparr>d_conn_id = c, d_name = strip_prefix (lf_root f) (lf_path f),
     d_kind = (if lf_is_dir f then DirectoryKind else FileKind), d_last_modified = lf_time f div 100 * 100,
     d_size = lf_size f, d_perm = ucast (lf_perm f)\<rparr>"

definition describable :: "LocalFile \<Rightarrow> bool" where
  "describable f \<longleftrightarrow> plain_name (strip_prefix (lf_root f) (lf_path f)) \<and> lf_time f < 2 ^ 64"

lemma description_name_padded:
  assumes "plain_name s"
  shows "description_name (s @ replicate k (CHR 0x00)) = s"
proof -
  have m: "map (\<lambda>c. if c = CHR 0x5C then CHR ''/'' else c) s = s"
    using assms by (intro map_idI) (auto simp: plain_name_def)
  have d: "dropWhile (\<lambda>c. c = CHR 0x00) (rev s) = rev s"
    using assms by (cases s rule: rev_cases) (auto simp: plain_name_def)
  have "dropWhile (\<lambda>c. c = CHR 0x00) (replicate k (CHR 0x00) @ rev s) = rev s"
    by (induction k) (simp_all add: d)
  then show ?thesis by (simp add: description_name_def m)
qed

lemma FD_FLAGS_bits:
  "FD_FLAGS AND FLAGS_FD_ATTRIBUTES \<noteq> 0" "FD_FLAGS AND FLAGS_FD_UNIX_MODE \<noteq> 0" "FD_FLAGS AND FLAGS_FD_LAST_WRITE \<noteq> 0"
  by (simp_all add: FD_FLAGS_def FLAGS_FD_SIZE_def FLAGS_FD_LAST_WRITE_def FLAGS_FD_ATTRIBUTES_def FLAGS_FD_PROGRESSUI_def
      FLAGS_FD_UNIX_MODE_def)

lemma file_attributes_directory: "file_attributes f AND 0x10 \<noteq> 0 \<longleftrightarrow> lf_is_dir f"
  by (cases "lf_read_only f"; cases "lf_hidden f"; cases "lf_system f"; cases "lf_is_dir f"; cases "lf_archive f"; cases "lf_normal f")
     (simp_all add: file_attributes_def)

lemma description_time_win32:
  assumes "t < 2 ^ 64" shows "description_time FD_FLAGS (win32_time t) = t div 100 * 100"
proof -
  let ?w = "word_of_nat t div 100 :: u64"
  have u: "unat ?w = t div 100"
    using assms by (simp add: unat_div unsigned_of_nat take_bit_nat_eq_self)
  have s: "unat (win32_time t) = t div 100 + unat LDAP_EPOCH_DELTA"
    unfolding win32_time_def using assms u by (subst unat_add_lem [THEN iffD1]) (simp_all add: LDAP_EPOCH_DELTA_def)
  then have g: "win32_time t \<ge> LDAP_EPOCH_DELTA" by (simp add: word_le_nat_alt)
  have "win32_time t - LDAP_EPOCH_DELTA = ?w" by (simp add: win32_time_def)
  moreover have "unat (?w * 100) = t div 100 * 100"
    using assms u by (subst unat_mult_lem [THEN iffD1]) simp_all
  ultimately show ?thesis by (simp add: description_time_def g FD_FLAGS_bits)
qed

lemma low_mask: "(0xFFFFFFFF :: u64) = mask 32"
  by (simp add: mask_eq_exp_minus_1)

lemma size_halves:
  fixes x :: u64
  shows "push_bit 32 (ucast (ucast (drop_bit 32 x) :: u32)) + ucast (ucast (x AND 0xFFFFFFFF) :: u32) = x"
proof -
  have "push_bit 32 (ucast (ucast (drop_bit 32 x) :: u32)) OR ucast (ucast (x AND 0xFFFFFFFF) :: u32) = x"
    unfolding low_mask by (rule bit_eqI) (auto simp: bit_simps)
  moreover have "push_bit 32 (ucast (ucast (drop_bit 32 x) :: u32)) AND ucast (ucast (x AND 0xFFFFFFFF) :: u32) = (0 :: u64)"
    unfolding low_mask by (rule bit_eqI) (auto simp: bit_simps)
  ultimately show ?thesis by (metis disjunctive_add_eq_or)
qed

lemma as_bin_length: "as_bin enc16 f = Some b \<Longrightarrow> length b = 592"
  by (auto simp: as_bin_def Let_def split: if_splits)

lemma parse_as_bin:
  assumes codec: "utf16_codec enc16 dec16" and f: "describable f" and b: "as_bin enc16 f = Some b"
  shows "parse_file_descriptor dec16 c b = Inr (described c f)"
proof -
  let ?n = "strip_prefix (lf_root f) (lf_path f)"
  let ?nm = "enc16 ?n"
  have len: "length ?nm \<le> 520" using b by (auto simp: as_bin_def Let_def split: if_splits)
  moreover have "even (520 - length ?nm)" using codec by (simp add: utf16_codec_def)
  ultimately obtain k where k: "520 - length ?nm = 2 * k" by blast
  have dec: "dec16 (?nm @ replicate (520 - length ?nm) 0) = Some (?n @ replicate k (CHR 0x00))"
    using codec by (simp add: k utf16_codec_def)
  have b_eq: "b = to_le_bytes 4 FD_FLAGS @ replicate 32 0 @ to_le_bytes 4 (file_attributes f) @ replicate 12 0 @
      to_le_bytes 4 (lf_perm f) @ to_le_bytes 8 (win32_time (lf_time f)) @
      to_le_bytes 4 (ucast (drop_bit 32 (lf_size f)) :: u32) @ to_le_bytes 4 (ucast (lf_size f AND 0xFFFFFFFF) :: u32) @
      ?nm @ replicate (520 - length ?nm) 0"
    using b by (auto simp: as_bin_def Let_def split: if_splits)
  have pieces:
    "take 4 b = to_le_bytes 4 FD_FLAGS" "take 4 (drop 36 b) = to_le_bytes 4 (file_attributes f)"
    "take 4 (drop 52 b) = to_le_bytes 4 (lf_perm f)" "take 8 (drop 56 b) = to_le_bytes 8 (win32_time (lf_time f))"
    "take 4 (drop 64 b) = to_le_bytes 4 (ucast (drop_bit 32 (lf_size f)) :: u32)"
    "take 4 (drop 68 b) = to_le_bytes 4 (ucast (lf_size f AND 0xFFFFFFFF) :: u32)"
    "take 520 (drop 72 b) = ?nm @ replicate (520 - length ?nm) 0"
    using len by (simp_all add: b_eq)
  have words: "from_le_bytes (to_le_bytes 4 x) = x" "from_le_bytes (to_le_bytes 8 y) = y" for x :: u32 and y :: u64
    by (rule from_le_bytes_to_le_bytes, simp)+
  show ?thesis
    using f unfolding parse_file_descriptor_def pieces dec
    by (simp add: words FD_FLAGS_bits size_halves description_time_win32 describable_def description_name_padded
        file_attributes_directory [simplified] description_perm_def described_def)
qed

lemma parse_each_bins:
  assumes "utf16_codec enc16 dec16" "list_all describable fl" "all_some (map (as_bin enc16) fl) = Some bs"
  shows "parse_each dec16 c (length fl) (concat bs) = Inr (map (described c) fl) \<and> length (concat bs) = 592 * length fl"
  using assms(2,3)
proof (induction fl arbitrary: bs)
  case (Cons f fl)
  then obtain b bs' where b: "as_bin enc16 f = Some b" "all_some (map (as_bin enc16) fl) = Some bs'" "bs = b # bs'"
    by (auto split: option.splits)
  have len: "length b = 592" by (rule as_bin_length [OF b(1)])
  have "parse_file_descriptor dec16 c b = Inr (described c f)" using Cons.prems(1) by (intro parse_as_bin [OF assms(1) _ b(1)]) simp
  with Cons.IH [OF _ b(2)] Cons.prems(1) show ?case by (simp add: b(3) len)
qed simp


text \<open>For the characters of Latin-1 the codec is two bytes each, the second zero.\<close>

definition latin16 :: "string \<Rightarrow> bytes" where
  "latin16 s = concat (map (\<lambda>c. [word_of_nat (of_char c), 0]) s)"

fun unlatin16 :: "bytes \<Rightarrow> string option" where
  "unlatin16 [] = Some []"
| "unlatin16 (a # b # bs) = (if b = 0 then map_option ((#) (char_of (unat a))) (unlatin16 bs) else None)"
| "unlatin16 [a] = None"

lemma unlatin16_latin16: "unlatin16 (latin16 s @ bs) = map_option ((@) s) (unlatin16 bs)"
proof (induction s)
  case (Cons c s)
  have "(of_char c :: nat) < 256" by (metis of_char_of char_of_char mod_less_divisor zero_less_numeral)
  then have "char_of (unat (word_of_nat (of_char c) :: 8 word)) = c" by (simp add: unsigned_of_nat take_bit_nat_eq_self)
  with Cons show ?case by (simp add: latin16_def option.map_comp comp_def)
qed (simp add: latin16_def map_option.identity)

lemma latin16_codec: "utf16_codec latin16 unlatin16"
proof -
  have "even (length (latin16 s))" for s by (induction s) (simp_all add: latin16_def)
  moreover have "unlatin16 (replicate (2 * k) 0) = Some (replicate k (CHR 0x00))" for k
    by (induction k) (simp_all add: char_of_def)
  ultimately show ?thesis by (simp add: utf16_codec_def unlatin16_latin16)
qed

definition example_clip_files :: "LocalFile list" where
  "example_clip_files =
     [\<lparr>lf_root = ''/h'', lf_path = ''/h/d'', lf_handle = None, lf_offset = 0, lf_size = 4096, lf_time = 1700000000000000150,
        lf_is_dir = True, lf_perm = 16877, lf_read_only = False, lf_hidden = False, lf_system = False, lf_archive = False,
        lf_normal = False\<rparr>,
      \<lparr>lf_root = ''/h'', lf_path = ''/h/d/a'', lf_handle = None, lf_offset = 0, lf_size = 5, lf_time = 1700000000000000150,
        lf_is_dir = False, lf_perm = 33188, lf_read_only = False, lf_hidden = False, lf_system = False, lf_archive = False,
        lf_normal = True\<rparr>]"

lemma example_clip_names: "strip_prefix ''/h'' ''/h/d'' = ''d''" "strip_prefix ''/h'' ''/h/d/a'' = ''d/a''"
  by (simp_all add: strip_prefix_def path_components_def Let_def name_component_def is_absolute_def path_join_def)

lemma example_clip_bin:
  "\<exists>b. build_file_list_pdu latin16 example_clip_files = Some b" "list_all describable example_clip_files"
proof -
  note n = example_clip_names
  show "\<exists>b. build_file_list_pdu latin16 example_clip_files = Some b"
    by (simp add: build_file_list_pdu_def example_clip_files_def as_bin_def n latin16_def Let_def)
  show "list_all describable example_clip_files" by (simp add: example_clip_files_def describable_def n plain_name_def)
qed


section \<open>Contents are served exactly\<close>

text \<open>The reader of a file, when there is one, stands at the offset that is remembered, and the size of the list is the size of the file.\<close>

definition lf_data :: "Fs \<Rightarrow> LocalFile \<Rightarrow> bytes option" where
  "lf_data fs f =
     (case file_open (lf_path f) fs of
        Inl _ \<Rightarrow> None
      | Inr q \<Rightarrow> (case node_at fs q of Some (FileNode d _) \<Rightarrow> Some d | _ \<Rightarrow> None))"

definition reader_ok :: "Fs \<Rightarrow> LocalFile \<Rightarrow> bool" where
  "reader_ok fs f \<longleftrightarrow>
     (if lf_is_dir f then lf_handle f = None
      else (\<exists>d. lf_data fs f = Some d \<and> length d < 2 ^ 63 \<and> lf_size f = word_of_nat (length d)) \<and>
        (case lf_handle f of None \<Rightarrow> lf_offset f = 0 | Some (q, pos) \<Rightarrow> file_open (lf_path f) fs = Inr q \<and> pos = lf_offset f))"

definition lf_key :: "LocalFile \<Rightarrow> path \<times> bool \<times> u64" where
  "lf_key f = (lf_path f, lf_is_dir f, lf_size f)"

lemma load_handle_ok:
  assumes "reader_ok fs f"
  obtains f' where "load_handle fs f = Inr f'" "reader_ok fs f'" "lf_key f' = lf_key f"
proof (cases "lf_is_dir f \<or> lf_handle f \<noteq> None")
  case True
  with assms that show ?thesis by (auto simp: load_handle_def)
next
  case False
  with assms obtain d where "lf_data fs f = Some d" "lf_offset f = 0"
    by (cases "lf_handle f") (auto simp: reader_ok_def)
  moreover then obtain q where "file_open (lf_path f) fs = Inr q" by (auto simp: lf_data_def split: sum.splits)
  ultimately show ?thesis using False assms
    by (intro that [of "f\<lparr>lf_handle := Some (q, 0)\<rparr>"]) (auto simp: load_handle_def reader_ok_def lf_data_def lf_key_def)
qed

lemma read_exact_at_ok:
  assumes ok: "reader_ok fs f" and nd: "\<not> lf_is_dir f" and d: "lf_data fs f = Some d" and n: "off + n \<le> length d"
  obtains f' where "read_exact_at fs n off f = (Inr (take n (drop off d)), f')" "reader_ok fs f'" "lf_key f' = lf_key f"
proof -
  obtain f1 where l: "load_handle fs f = Inr f1" "reader_ok fs f1" and "lf_key f1 = lf_key f"
    using load_handle_ok [OF ok] by blast
  then have k: "lf_is_dir f1 = lf_is_dir f" "lf_size f1 = lf_size f" "lf_path f1 = lf_path f" by (simp_all add: lf_key_def)
  from d obtain q m where q: "file_open (lf_path f) fs = Inr q" "node_at fs q = Some (FileNode d m)"
    by (auto simp: lf_data_def split: sum.splits option.splits node.splits)
  have "lf_handle f1 \<noteq> None" using l(1) nd by (auto simp: load_handle_def split: if_splits sum.splits)
  then have h: "lf_handle f1 = Some (q, lf_offset f1)" using l k nd q(1) by (auto simp: reader_ok_def)
  have d1: "lf_data fs f1 = Some d" using d k(3) by (simp add: lf_data_def)
  with l(2) k(1) nd have sz: "unat (lf_size f1) = length d"
    by (auto simp: reader_ok_def unsigned_of_nat take_bit_nat_eq_self)
  define f2 where "f2 = (if off + n \<ge> unat (lf_size f1) then f1\<lparr>lf_offset := 0, lf_handle := None\<rparr>
    else f1\<lparr>lf_offset := off + n, lf_handle := Some (q, off + n)\<rparr>)"
  have "read_exact_at fs n off f = (Inr (take n (drop off d)), f2)"
    using n by (auto simp: read_exact_at_def l(1) h q(2) Let_def f2_def)
  moreover have "reader_ok fs f2" using l k nd h q d1 by (auto simp: reader_ok_def f2_def lf_data_def)
  ultimately show ?thesis using k by (intro that [of f2]) (simp_all add: f2_def lf_key_def)
qed

text \<open>The files of a state are those of the list that was offered, whatever became of their readers.\<close>

definition serving :: "Fs \<Rightarrow> LocalFile list \<Rightarrow> LocalFile list \<Rightarrow> bool" where
  "serving fs fl0 fl \<longleftrightarrow> map lf_key fl = map lf_key fl0 \<and> list_all (reader_ok fs) fl"

lemma hot_reload_ok:
  "list_all (reader_ok fs) fl \<Longrightarrow>
     \<exists>fl'. hot_reload fs fl = (Inr (), fl') \<and> map lf_key fl' = map lf_key fl \<and> list_all (reader_ok fs) fl'"
proof (induction fl)
  case (Cons f fl)
  show ?case
  proof (cases "lf_is_dir f")
    case True
    with Cons show ?thesis by auto
  next
    case False
    from Cons.prems have "reader_ok fs f" by simp
    from load_handle_ok [OF this] obtain f' where "load_handle fs f = Inr f'" "reader_ok fs f'" "lf_key f' = lf_key f" by blast
    with False Cons.prems show ?thesis by simp
  qed
qed simp

lemma finish_contents_ok:
  assumes "serving fs fl0 (file_list cf)"
  shows "\<exists>fl. finish_contents fs i resp cf = (Inr resp, cf\<lparr>file_list := fl\<rparr>) \<and> serving fs fl0 fl"
proof -
  let ?l = "drop (i + 1) (file_list cf)" and ?k = "take (i + 1) (file_list cf)"
  have split: "list_all (reader_ok fs) ?k" "list_all (reader_ok fs) ?l"
    using assms by (auto simp: serving_def list_all_iff dest: in_set_takeD in_set_dropD)
  then obtain fl where fl: "hot_reload fs ?l = (Inr (), fl)" "map lf_key fl = map lf_key ?l" "list_all (reader_ok fs) fl"
    using hot_reload_ok by blast
  have "map lf_key (?k @ fl) = map lf_key fl0"
    using assms by (simp only: map_append fl(2)) (simp add: serving_def flip: map_append)
  with fl split show ?thesis
    by (intro exI [of _ "?k @ fl"]) (simp add: finish_contents_def serving_def del: map_append)
qed

lemma serving_update:
  assumes "serving fs fl0 fl" "i < length fl" "reader_ok fs f" "lf_key f = lf_key (fl ! i)"
  shows "serving fs fl0 (fl[i := f])"
  using assms by (auto simp: serving_def list_all_iff map_update dest!: set_update_subset_insert [THEN subsetD])
    (metis list_update_id map_update nth_map)

lemma unat_add_u64: "unat x + unat y < 2 ^ 64 \<Longrightarrow> unat (x + y) = unat x + unat y" for x y :: u64
  by (rule unat_add_lem [THEN iffD1]) simp

lemma range_length:
  fixes off len sz :: u64
  assumes "off \<le> sz" "unat sz < 2 ^ 63" "n = (if off + len > sz then sz - off else len)" "unat n \<le> ISIZE_MAX"
  shows "unat off + unat n \<le> unat sz" and "unat off + unat len < 2 ^ 64 \<Longrightarrow> unat n = min (unat len) (unat sz - unat off)"
proof -
  have d: "unat (sz - off) = unat sz - unat off" by (rule unat_sub [OF assms(1)])
  have o: "unat off \<le> unat sz" using assms(1) by (simp add: word_le_nat_alt)
  show "unat off + unat n \<le> unat sz"
  proof (cases "off + len > sz")
    case True
    with o d assms(3) show ?thesis by simp
  next
    case False
    with assms(3) have n: "n = len" by simp
    with assms(2,4) o have "unat off + unat len < 2 ^ 64" by (simp add: ISIZE_MAX_def)
    then have "unat (off + len) = unat off + unat len" by (rule unat_add_u64)
    with False n show ?thesis by (simp add: word_less_nat_alt)
  qed
  assume "unat off + unat len < 2 ^ 64"
  then have "unat (off + len) = unat off + unat len" by (rule unat_add_u64)
  with assms(3) d o show "unat n = min (unat len) (unat sz - unat off)" by (auto simp: word_less_nat_alt)
qed

lemma reader_ok_file:
  assumes "reader_ok fs f" "\<not> lf_is_dir f"
  obtains d where "lf_data fs f = Some d" "unat (lf_size f) = length d" "length d < 2 ^ 63"
  using assms by (auto simp: reader_ok_def unsigned_of_nat take_bit_nat_eq_self)

lemma serve_range_file:
  assumes s: "serving fs fl0 (file_list cf)" and i: "i < length (file_list cf)" and nd: "\<not> lf_is_dir (file_list cf ! i)"
    and d: "lf_data fs (file_list cf ! i) = Some d" and off: "off \<le> lf_size (file_list cf ! i)"
    and n: "n = (if off + len > lf_size (file_list cf ! i) then lf_size (file_list cf ! i) - off else len)" "unat n \<le> ISIZE_MAX"
  shows "\<exists>fl. serve_file_contents fs (RangeOf stream i off len) cf =
      Some (Inr (FileContentsResponse 1 stream (take (unat n) (drop (unat off) d))), cf\<lparr>file_list := fl\<rparr>) \<and> serving fs fl0 fl"
proof -
  let ?f = "file_list cf ! i"
  have ok: "reader_ok fs ?f" using s i by (simp add: serving_def list_all_length)
  from reader_ok_file [OF ok nd] d have sz: "unat (lf_size ?f) = length d" "length d < 2 ^ 63" by auto
  have "unat off + unat n \<le> length d" using range_length(1) [OF off _ n] sz by simp
  from read_exact_at_ok [OF ok nd d this] obtain f' where
    f': "read_exact_at fs (unat n) (unat off) ?f = (Inr (take (unat n) (drop (unat off) d)), f')" "reader_ok fs f'" "lf_key f' = lf_key ?f"
    by blast
  let ?cf = "cf\<lparr>file_list := (file_list cf)[i := f']\<rparr>"
  have "serving fs fl0 (file_list ?cf)" using serving_update [OF s i f'(2,3)] by simp
  from finish_contents_ok [OF this] obtain fl where
    "finish_contents fs i (FileContentsResponse 1 stream (take (unat n) (drop (unat off) d))) ?cf =
       (Inr (FileContentsResponse 1 stream (take (unat n) (drop (unat off) d))), cf\<lparr>file_list := fl\<rparr>)" "serving fs fl0 fl"
    by (metis (no_types, lifting) ClipFiles.surjective ClipFiles.update_convs(2))
  with i off n(2) f'(1) show ?thesis by (auto simp: Let_def n(1) [symmetric] simp del: not_le)
qed

lemma serve_file_contents_serving:
  assumes s: "serving fs fl0 (file_list cf)" and r: "serve_file_contents fs req cf = Some (r, cf1)"
  shows "serving fs fl0 (file_list cf1)"
proof (cases req)
  case (SizeOf stream i)
  with r finish_contents_ok [OF s, of i "FileContentsResponse 1 stream (to_le_bytes 8 (lf_size (file_list cf ! i)))"] s
  show ?thesis by (auto split: if_splits)
next
  case (RangeOf stream i off len)
  show ?thesis
  proof (cases "i < length (file_list cf) \<and> off \<le> lf_size (file_list cf ! i)")
    case False
    with r s RangeOf show ?thesis by (auto simp: Let_def split: if_splits)
  next
    case True
    let ?f = "file_list cf ! i"
    let ?n = "if off + len > lf_size ?f then lf_size ?f - off else len"
    have ok: "reader_ok fs ?f" using s True by (simp add: serving_def list_all_length)
    have small: "unat ?n \<le> ISIZE_MAX" using r True RangeOf by (auto simp: Let_def split: if_splits)
    show ?thesis
    proof (cases "lf_is_dir ?f")
      case True
      with ok have "read_exact_at fs m q ?f = (Inl (FileError NotFoundErr), ?f)" for m q
        by (simp add: read_exact_at_def load_handle_def reader_ok_def)
      with r s RangeOf \<open>i < _ \<and> _\<close> small show ?thesis by (simp add: Let_def list_update_id split: if_splits)
    next
      case False
      from reader_ok_file [OF ok False] obtain d where d: "lf_data fs ?f = Some d" by blast
      from serve_range_file [OF s _ False d _ refl small, of stream] True r RangeOf show ?thesis by auto
    qed
  qed
qed

fun serve_all :: "Fs \<Rightarrow> ClipboardFile list \<Rightarrow> ClipFiles \<Rightarrow> ClipFiles option" where
  "serve_all fs [] cf = Some cf"
| "serve_all fs (m # ms) cf =
     (case serve_clip_messages fs m cf of None \<Rightarrow> None | Some (_, cf1, _) \<Rightarrow> serve_all fs ms cf1)"

lemma serve_clip_messages_serving:
  assumes "serving fs fl0 (file_list cf)" "serve_clip_messages fs m cf = Some (out, cf1, eff)"
  shows "serving fs fl0 (file_list cf1)"
  using assms by (cases m) (auto simp: read_file_contents_def dest: serve_file_contents_serving split: option.splits)

lemma serve_all_serving:
  "serving fs fl0 (file_list cf) \<Longrightarrow> serve_all fs ms cf = Some cf1 \<Longrightarrow> serving fs fl0 (file_list cf1)"
  by (induction ms arbitrary: cf) (auto split: option.splits dest: serve_clip_messages_serving)

lemma serving_nth:
  assumes "serving fs fl0 fl" "i < length fl0"
  shows "i < length fl" "lf_path (fl ! i) = lf_path (fl0 ! i)" "lf_is_dir (fl ! i) = lf_is_dir (fl0 ! i)"
    "lf_size (fl ! i) = lf_size (fl0 ! i)" "lf_data fs (fl ! i) = lf_data fs (fl0 ! i)"
proof -
  have m: "map lf_key fl = map lf_key fl0" using assms(1) by (simp add: serving_def)
  then show i: "i < length fl" using assms(2) by (metis length_map)
  have "lf_key (fl ! i) = lf_key (fl0 ! i)" using m i assms(2) by (metis nth_map)
  then show "lf_path (fl ! i) = lf_path (fl0 ! i)" "lf_is_dir (fl ! i) = lf_is_dir (fl0 ! i)" "lf_size (fl ! i) = lf_size (fl0 ! i)"
    "lf_data fs (fl ! i) = lf_data fs (fl0 ! i)" by (simp_all add: lf_key_def lf_data_def)
qed

lemma join_split_position:
  assumes "\<not> bit off 31" shows "(case split_position off of (high, low) \<Rightarrow> join_position high low) = off"
  unfolding split_position_def join_position_def low_mask prod.case
proof (rule bit_word_eqI)
  fix n assume n: "n < LENGTH(64)"
  consider "n \<le> 31" | "32 \<le> n" by linarith
  then show "bit (push_bit 32 (scast (ucast (drop_bit 32 off) :: i32)) OR scast (ucast (off AND mask 32) :: i32) :: u64) n = bit off n"
  proof cases
    case 1
    then have "min 31 n = n" by simp
    with 1 n show ?thesis by (simp add: bit_simps)
  next
    case 2
    then have "min 31 n = 31" "min 31 (n - 32) = n - 32" "32 + (n - 32) = n" using n by auto
    with 2 n assms show ?thesis by (simp add: bit_simps)
  qed
qed

lemma join_split_position_high:
  assumes "bit off 31" shows "unat (case split_position off of (high, low) \<Rightarrow> join_position high low) \<ge> 2 ^ 63"
proof -
  have "bit (case split_position off of (high, low) \<Rightarrow> join_position high low) 63"
    using assms unfolding split_position_def join_position_def low_mask by (simp add: bit_simps)
  then have "bit (unat (case split_position off of (high, low) \<Rightarrow> join_position high low)) 63" by (simp add: bit_unsigned_iff)
  then show ?thesis by (metis bit_iff_odd div_less even_zero not_le)
qed

text \<open>A file as the list is made: no reader yet, and the size is that of the file.\<close>

definition just_listed :: "Fs \<Rightarrow> LocalFile \<Rightarrow> bool" where
  "just_listed fs f \<longleftrightarrow> lf_handle f = None \<and> lf_offset f = 0 \<and>
     (\<not> lf_is_dir f \<longrightarrow> (case lf_data fs f of None \<Rightarrow> False | Some d \<Rightarrow> length d < 2 ^ 63 \<and> lf_size f = word_of_nat (length d)))"

lemma just_listed_serving: "list_all (just_listed fs) fl \<Longrightarrow> serving fs fl fl"
  by (auto simp: serving_def list_all_iff just_listed_def reader_ok_def split: option.splits)

lemma index_sign: "i < 2 ^ 31 \<Longrightarrow> unat (scast (word_of_nat i :: i32) :: u64) = i"
  by (simp add: signed_of_nat signed_take_bit_int_eq_self unsigned_of_nat take_bit_nat_eq_self)


text \<open>A request for an offset whose bit 31 is set fails, whatever was copied: the lower half is extended with its sign, so the offset
  lies past every file. A file of more than two gibibytes cannot be pasted.\<close>

theorem paste_beyond_2GiB_fails:
  assumes off: "bit off 31" and sizes: "\<forall>f \<in> set (file_list cf). unat (lf_size f) < 2 ^ 63"
  shows "serve_clip_messages fs (content_request stream i off n) cf =
      Some ([Cliprdr (Some (CFileContentsResponse 2 stream []))], cf, [])"
proof -
  obtain high low where hl: "split_position off = (high, low)" by fastforce
  let ?o = "join_position high low" and ?i = "unat (scast i :: u64)"
  have o: "unat ?o \<ge> 2 ^ 63" using join_split_position_high [OF off] hl by simp
  then have nz: "?o \<noteq> 0" by auto
  have "serve_file_contents fs (RangeOf stream ?i ?o (scast n)) cf =
      Some (Inl (InvalidRequest (if ?i \<ge> length (file_list cf) then NO_SUCH_FILE else BAD_OFFSET)), cf)"
  proof (cases "?i < length (file_list cf)")
    case True
    then have "unat (lf_size (file_list cf ! ?i)) < 2 ^ 63" using sizes by simp
    with o have "?o > lf_size (file_list cf ! ?i)" by (simp add: word_less_nat_alt)
    with True show ?thesis by (simp add: Let_def)
  qed simp
  with nz show ?thesis by (simp add: content_request_def hl read_file_contents_def parse_contents_request_def)
qed

definition example_clip_fs :: Fs where
  "example_clip_fs = \<lparr>nodes = [([''h''], DirNode), ([''h'', ''d''], DirNode), ([''h'', ''d'', ''a''], FileNode [1, 2, 3, 4, 5] 9)],
     cwd = [], readonly = [], clock = 0\<rparr>"

definition example_clip :: ClipFiles where
  "example_clip = \<lparr>cf_files = [''/h/d''], file_list = example_clip_files, first_file_index = 1, files_pdu = []\<rparr>"

lemma example_clip_resolve: "resolve example_clip_fs ''/h/d/a'' = Inr [''h'', ''d'', ''a'']"
  by (simp add: example_clip_fs_def resolve_def resolve_components_def path_components_def is_absolute_def name_component_def
      node_at_def names_directory_def MAX_LINKS_def Let_def)

lemma example_clip_data: "lf_data example_clip_fs (example_clip_files ! 1) = Some [1, 2, 3, 4, 5]"
proof -
  have "lf_path (example_clip_files ! 1) = ''/h/d/a''" by (simp add: example_clip_files_def)
  moreover have "node_at example_clip_fs [''h'', ''d'', ''a''] = Some (FileNode [1, 2, 3, 4, 5] 9)"
    by (simp add: example_clip_fs_def node_at_def)
  ultimately show ?thesis by (simp add: lf_data_def file_open_def example_clip_resolve)
qed

lemma example_clip_listed: "list_all (just_listed example_clip_fs) (file_list example_clip)"
  using example_clip_data by (simp add: just_listed_def example_clip_def example_clip_files_def)


theorem paste_beyond_2GiB_fails_witness:
  "serve_clip_messages example_clip_fs (content_request 7 1 2147483648 4096) example_clip =
      Some ([Cliprdr (Some (CFileContentsResponse 2 7 []))], example_clip, [])"
  using paste_beyond_2GiB_fails [of 2147483648 example_clip example_clip_fs 7 1 4096]
  by (simp add: example_clip_def example_clip_files_def)

end
