(* ===== verification/Cm_Files.thy ===== *)
theory Cm_Files
  imports File_Listing
begin

text \<open>
  The file tasks of the connection manager (\<open>src/ui_cm_interface.rs\<close>), the process that touches the files of the host on behalf
  of a connection: the commands of \<open>src/ipc.rs\<close>, the checks on names, the write and read jobs, and the turn over the read
  jobs. A command changes the jobs of the task and the file system and sends answers; \<open>None\<close> is a panic of the task. The JSON
  logs of jobs and the errors of the thread pool are left out.
\<close>

section \<open>Commands and answers\<close>

datatype FS =
  ReadEmptyDirs path bool
| ReadDir path bool
| RemoveDir path int bool
| RemoveFile path int int
| CreateDir path int
| NewWrite path int int "(string \<times> nat) list" bool nat int
| CancelWrite int
| WriteBlock int int bytes bool
| WriteDone int int
| WriteError int int string
| WriteOffset int int nat
| CheckDigest int int nat nat bool bool
| SendConfirm FileTransferSendConfirmRequest
| Rename int path string
| ReadFile path int int bool int bool
| CancelRead int int
| SendConfirmForRead int int bool nat int
| ReadAllFiles path int bool int

datatype cm_error = TooManyFiles nat nat | Failed transfer_error

datatype cm_out =
  RawMessage FileMessage
| EmptyDirs path "FileDirectory list"
| DigestMessage FileTransferDigest bool
| ReadJobInitResult int int bool int "cm_error + int \<times> path \<times> FileEntry list"
| FileBlockFromCM int int bytes bool int
| FileReadDone int int int
| FileReadError int int transfer_error int
| FileDigestFromCM int int nat nat bool int
| AllFilesResult int int path "cm_error + int \<times> path \<times> FileEntry list"

record CmEnv =
  fenv :: Env
  cm_grab :: "nat \<Rightarrow> nat"
  mtimes :: "path \<Rightarrow> nat"
  home :: path
  max_files_option :: string

record CmTask =
  write_jobs :: "TransferJob list"
  read_jobs :: "TransferJob list"

definition cm_start :: CmTask where
  "cm_start = \<lparr>write_jobs = [], read_jobs = []\<rparr>"

section \<open>The limit on the number of files\<close>

definition DEFAULT_MAX_VALIDATED_FILES :: nat where "DEFAULT_MAX_VALIDATED_FILES = 10000"
definition USIZE_MAX :: nat where "USIZE_MAX = 2 ^ 64 - 1"

text \<open>\<open>str::trim\<close> on ASCII, and \<open>parse::<usize>\<close>.\<close>

definition is_space :: "char \<Rightarrow> bool" where
  "is_space c = (c \<in> {CHR '' '', CHR 0x09, CHR 0x0A, CHR 0x0B, CHR 0x0C, CHR 0x0D})"

definition trim :: "string \<Rightarrow> string" where
  "trim s = rev (dropWhile is_space (rev (dropWhile is_space s)))"

definition is_digit :: "char \<Rightarrow> bool" where
  "is_digit c = (48 \<le> (of_char c :: nat) \<and> (of_char c :: nat) \<le> 57)"

definition parse_usize :: "string \<Rightarrow> nat option" where
  "parse_usize s =
     (let d = (case s of c # r \<Rightarrow> if c = CHR ''+'' then r else s | [] \<Rightarrow> s)
      in if d = [] \<or> \<not> list_all is_digit d \<or> undecimal d > USIZE_MAX then None else Some (undecimal d))"

definition get_max_validated_files :: "CmEnv \<Rightarrow> nat" where
  "get_max_validated_files env =
     (let c = (case parse_usize (trim (max_files_option env)) of Some n \<Rightarrow> n | None \<Rightarrow> USIZE_MAX)
      in if c = 0 then DEFAULT_MAX_VALIDATED_FILES else c)"

definition check_file_count_limit :: "CmEnv \<Rightarrow> nat \<Rightarrow> cm_error + unit" where
  "check_file_count_limit env n =
     (if n > get_max_validated_files env then Inl (TooManyFiles n (get_max_validated_files env)) else Inr ())"

section \<open>Checks on names\<close>

definition cm_validate_file_name :: "string \<Rightarrow> transfer_error + unit" where
  "cm_validate_file_name n =
     (if CHR 0x00 \<in> set n then Inl (Bail ''file name contains null bytes'')
      else if list_ex (\<lambda>s. s = ''..'') (filter (\<lambda>s. s \<noteq> []) (concat (map (split_on (CHR 0x5C)) (split_on (CHR ''/'') n))))
        then Inl (Bail ''path traversal detected in file name'')
      else if n \<noteq> [] \<and> (hd n = CHR ''/'' \<or> hd n = CHR 0x5C) then Inl (Bail ''absolute path detected in file name'')
      else Inr ())"

definition is_single_file_with_empty_name :: "(string \<times> nat) list \<Rightarrow> bool" where
  "is_single_file_with_empty_name fl = (length fl = 1 \<and> fst (hd fl) = [])"

fun cm_validate_each :: "(string \<times> nat) list \<Rightarrow> transfer_error + unit" where
  "cm_validate_each [] = Inr ()"
| "cm_validate_each ((n, t) # fl) =
     (if n = [] then Inl (Bail ''empty file name in multi-file transfer'')
      else case cm_validate_file_name n of Inl e \<Rightarrow> Inl e | Inr _ \<Rightarrow> cm_validate_each fl)"

definition cm_validate_transfer_file_names :: "(string \<times> nat) list \<Rightarrow> transfer_error + unit" where
  "cm_validate_transfer_file_names fl = (if is_single_file_with_empty_name fl then Inr () else cm_validate_each fl)"

section \<open>Reading\<close>

definition start_read_job :: "CmEnv \<Rightarrow> path \<Rightarrow> int \<Rightarrow> bool \<Rightarrow> int \<Rightarrow> int \<Rightarrow> bool \<Rightarrow> Fs \<Rightarrow> TransferJob list \<Rightarrow>
    TransferJob list \<times> cm_out list" where
  "start_read_job env p num hidden i c detect fs jobs =
     (case new_read (mtimes env) fs i Generic [] (FilePath p) num hidden True detect of
        Inl e \<Rightarrow> (jobs, [ReadJobInitResult i num hidden c (Inl (Failed e))])
      | Inr job \<Rightarrow>
          (case check_file_count_limit env (length (files job)) of
             Inl e \<Rightarrow> (jobs, [ReadJobInitResult i num hidden c (Inl e)])
           | Inr _ \<Rightarrow>
               (jobs @ [job\<lparr>conn_id := c\<rparr>], [ReadJobInitResult i num hidden c (Inr (i, p, files job))])))"

definition init_read_job_for_cm :: "TransferJob \<Rightarrow> int \<Rightarrow> Fs \<Rightarrow> (transfer_error + unit) \<times> TransferJob \<times> cm_out list" where
  "init_read_job_for_cm job c fs =
     (case init_data_stream_for_cm job fs of
        (Inl e, job1) \<Rightarrow> (Inl e, job1, [])
      | (Inr (Some (m, len)), job1) \<Rightarrow>
          (Inr (), job1, [FileDigestFromCM (job_id job1) (file_num job1) m len (is_resume job1) c])
      | (Inr None, job1) \<Rightarrow> (Inr (), job1, []))"

text \<open>The loop over the jobs: jobs of an earlier session are passed over, so is one that fails to open; the first other one has its turn.\<close>

fun read_jobs_turn :: "CmEnv \<Rightarrow> int \<Rightarrow> Fs \<Rightarrow> TransferJob list \<Rightarrow> TransferJob list \<times> int list \<times> cm_out list" where
  "read_jobs_turn env c fs [] = ([], [], [])"
| "read_jobs_turn env c fs (job # js) =
     (if is_last_job job then
        (case read_jobs_turn env c fs js of (js', fin, os) \<Rightarrow> (job # js', fin, os))
      else case init_read_job_for_cm job c fs of
        (Inl e, job1, os1) \<Rightarrow>
          (case read_jobs_turn env c fs js of
             (js', fin, os) \<Rightarrow>
               (job1 # js', job_id job1 # fin, os1 @ FileReadError (job_id job1) (file_num job1) e c # os))
      | (Inr _, job1, os1) \<Rightarrow>
          (case read_block (fenv env) (cm_grab env) job1 fs of
             (Inl e, job2) \<Rightarrow> (job2 # js, [job_id job2], os1 @ [FileReadError (job_id job2) (file_num job2) e c])
           | (Inr (Some b), job2) \<Rightarrow>
               (job2 # js, [], os1 @ [FileBlockFromCM (blk_id b) (blk_file_num b) (blk_data b) (blk_compressed b) c])
           | (Inr None, job2) \<Rightarrow>
               if job_completed job2 then
                 (job2 # js, [job_id job2],
                  os1 @ [case job_error job2 of
                           Some e \<Rightarrow> FileReadError (job_id job2) (file_num job2) (Bail e) c
                         | None \<Rightarrow> FileReadDone (job_id job2) (file_num job2) c])
               else (job2 # js, [], os1)))"

definition handle_read_jobs_tick :: "CmEnv \<Rightarrow> int \<Rightarrow> Fs \<Rightarrow> TransferJob list \<Rightarrow> TransferJob list \<times> cm_out list" where
  "handle_read_jobs_tick env c fs jobs =
     (case read_jobs_turn env c fs jobs of
        (js, fin, os) \<Rightarrow> (fold (\<lambda>i js. snd (remove_job i js)) fin js, os))"

definition read_all_files :: "CmEnv \<Rightarrow> path \<Rightarrow> bool \<Rightarrow> int \<Rightarrow> int \<Rightarrow> Fs \<Rightarrow> cm_out list" where
  "read_all_files env p hidden i c fs =
     [AllFilesResult i c p
        (case get_recursive_files (mtimes env) fs p hidden of
           Inl e \<Rightarrow> Inl (Failed e)
         | Inr fl \<Rightarrow> (case check_file_count_limit env (length fl) of Inl e \<Rightarrow> Inl e | Inr _ \<Rightarrow> Inr (i, p, fl)))]"

definition read_empty_dirs :: "CmEnv \<Rightarrow> path \<Rightarrow> bool \<Rightarrow> Fs \<Rightarrow> cm_out list" where
  "read_empty_dirs env p hidden fs =
     (case get_empty_dirs_recursive (mtimes env) fs p hidden of Inr fds \<Rightarrow> [EmptyDirs p fds] | Inl _ \<Rightarrow> [])"

definition cm_read_dir :: "CmEnv \<Rightarrow> path \<Rightarrow> bool \<Rightarrow> Fs \<Rightarrow> cm_out list" where
  "cm_read_dir env dir hidden fs =
     (case read_dir (mtimes env) fs (if dir = [] then home env else dir) hidden of
        Inr fd \<Rightarrow> [RawMessage (MsgDir 0 (dir_path fd) (entries fd))]
      | Inl _ \<Rightarrow> [])"

section \<open>Changing files\<close>

definition handle_result :: "transfer_error + unit \<Rightarrow> int \<Rightarrow> int \<Rightarrow> cm_out list" where
  "handle_result r i num =
     [RawMessage (case r of Inl e \<Rightarrow> new_error i e num | Inr _ \<Rightarrow> new_done i num)]"

definition cm_remove_file :: "path \<Rightarrow> int \<Rightarrow> int \<Rightarrow> Fs \<Rightarrow> Fs \<times> cm_out list" where
  "cm_remove_file p i num fs = (case remove_file p fs of (r, fs1) \<Rightarrow> (fs1, handle_result r i num))"

definition cm_create_dir :: "path \<Rightarrow> int \<Rightarrow> Fs \<Rightarrow> Fs \<times> cm_out list" where
  "cm_create_dir p i fs = (case create_dir p fs of (r, fs1) \<Rightarrow> (fs1, handle_result r i 0))"

definition cm_rename_file :: "path \<Rightarrow> string \<Rightarrow> int \<Rightarrow> Fs \<Rightarrow> Fs \<times> cm_out list" where
  "cm_rename_file p n i fs =
     (if n = [] then (fs, handle_result (Inl (Bail ''new file name cannot be empty'')) i 0)
      else case cm_validate_file_name n of
        Inl e \<Rightarrow> (fs, handle_result (Inl e) i 0)
      | Inr _ \<Rightarrow> (case rename_file p n fs of (r, fs1) \<Rightarrow> (fs1, handle_result r i 0)))"

definition cm_remove_dir :: "CmEnv \<Rightarrow> path \<Rightarrow> int \<Rightarrow> bool \<Rightarrow> Fs \<Rightarrow> (Fs \<times> cm_out list) option" where
  "cm_remove_dir env p i recursive fs =
     (if recursive then
        (case remove_all_empty_dir (mtimes env) p fs of
           None \<Rightarrow> None
         | Some (r, fs1) \<Rightarrow> Some (fs1, handle_result r i 0))
      else (case fs_remove_dir p fs of
              (Inl e, fs1) \<Rightarrow> Some (fs1, handle_result (Inl (FsErr e)) i 0)
            | (Inr _, fs1) \<Rightarrow> Some (fs1, handle_result (Inr ()) i 0)))"

section \<open>Writing\<close>

text \<open>Putting a changed job back into the list: \<open>get_job\<close> gives out a mutable reference.\<close>

fun put_job :: "TransferJob \<Rightarrow> TransferJob list \<Rightarrow> TransferJob list" where
  "put_job j [] = []"
| "put_job j (x # xs) = (if job_id x = job_id j then j # xs else x # put_job j xs)"

definition new_write_job :: "path \<Rightarrow> int \<Rightarrow> int \<Rightarrow> bool \<Rightarrow> nat \<Rightarrow> int \<Rightarrow> TransferJob" where
  "new_write_job p i num detect total_sz c =
     (new_write i Generic [] (FilePath p) num False False detect)\<lparr>total_size := total_sz, conn_id := c\<rparr>"

definition check_digest :: "CmEnv \<Rightarrow> int \<Rightarrow> int \<Rightarrow> nat \<Rightarrow> nat \<Rightarrow> bool \<Rightarrow> bool \<Rightarrow> TransferJob \<Rightarrow> Fs \<Rightarrow> TransferJob \<times> cm_out list" where
  "check_digest env i num sz modified is_upload resume job fs =
     (if as_usize num < length (files job) then
        (case data_source job of
           FilePath p \<Rightarrow>
             (let dg = \<lparr>fd_id = i, fd_file_num = num, fd_last_modified = modified, fd_file_size = sz,
                    fd_is_identical = False, fd_transferred_size = 0, fd_is_resume = False\<rparr>;
                  job1 = set_digest sz modified job
              in (job1,
                  [case is_write_need_confirmation (fenv env) resume (job_join p (name (files job ! as_usize num))) dg fs of
                     IsSame \<Rightarrow> RawMessage (new_send_confirm \<lparr>cf_id = i, cf_file_num = num, cf_union = Some (Skip True)\<rparr>)
                   | NeedConfirm d \<Rightarrow> DigestMessage d is_upload
                   | NoSuchFile \<Rightarrow> RawMessage (new_send_confirm \<lparr>cf_id = i, cf_file_num = num, cf_union = Some (OffsetBlk 0)\<rparr>)]))
         | MemoryCursor _ _ \<Rightarrow> (job, []))
      else (job, []))"

section \<open>The command handler\<close>

definition handle_fs :: "CmEnv \<Rightarrow> FS \<Rightarrow> CmTask \<Rightarrow> Fs \<Rightarrow> (CmTask \<times> Fs \<times> cm_out list) option" where
  "handle_fs env cmd t fs =
     (case cmd of
        ReadEmptyDirs dir hidden \<Rightarrow> Some (t, fs, read_empty_dirs env dir hidden fs)
      | ReadDir dir hidden \<Rightarrow> Some (t, fs, cm_read_dir env dir hidden fs)
      | RemoveDir p i recursive \<Rightarrow> map_option (\<lambda>(fs1, os). (t, fs1, os)) (cm_remove_dir env p i recursive fs)
      | RemoveFile p i num \<Rightarrow> (case cm_remove_file p i num fs of (fs1, os) \<Rightarrow> Some (t, fs1, os))
      | CreateDir p i \<Rightarrow> (case cm_create_dir p i fs of (fs1, os) \<Rightarrow> Some (t, fs1, os))
      | NewWrite p i num fl detect total_sz c \<Rightarrow>
          (case cm_validate_transfer_file_names fl of
             Inl e \<Rightarrow> Some (t, fs, [RawMessage (new_error i e num)])
           | Inr _ \<Rightarrow> Some (t\<lparr>write_jobs := write_jobs t @ [new_write_job p i num detect total_sz c]\<rparr>, fs, []))
      | CancelWrite i \<Rightarrow>
          (case remove_job i (write_jobs t) of
             (Some job, js) \<Rightarrow> Some (t\<lparr>write_jobs := js\<rparr>, remove_download_file job fs, [])
           | (None, _) \<Rightarrow> Some (t, fs, []))
      | WriteDone i num \<Rightarrow>
          (case remove_job i (write_jobs t) of
             (Some job, js) \<Rightarrow> Some (t\<lparr>write_jobs := js\<rparr>, modify_time job fs, [RawMessage (new_done i num)])
           | (None, _) \<Rightarrow> Some (t, fs, []))
      | WriteError i num err \<Rightarrow>
          (case remove_job i (write_jobs t) of
             (Some job, js) \<Rightarrow> Some (t\<lparr>write_jobs := js\<rparr>, fs, [RawMessage (new_error (job_id job) (Bail err) num)])
           | (None, _) \<Rightarrow> Some (t, fs, []))
      | WriteBlock i num d cp \<Rightarrow>
          (case get_job i (write_jobs t) of
             Some job \<Rightarrow>
               (case write_block (fenv env) \<lparr>blk_id = i, blk_file_num = num, blk_data = d, blk_compressed = cp\<rparr> job fs of
                  (r, job1, fs1) \<Rightarrow>
                    Some (t\<lparr>write_jobs := put_job job1 (write_jobs t)\<rparr>, fs1,
                      case r of Inl e \<Rightarrow> [RawMessage (new_error i e num)] | Inr _ \<Rightarrow> []))
           | None \<Rightarrow> Some (t, fs, []))
      | CheckDigest i num sz modified up resume \<Rightarrow>
          (case get_job i (write_jobs t) of
             Some job \<Rightarrow>
               (case check_digest env i num sz modified up resume job fs of
                  (job1, os) \<Rightarrow> Some (t\<lparr>write_jobs := put_job job1 (write_jobs t)\<rparr>, fs, os))
           | None \<Rightarrow> Some (t, fs, []))
      | SendConfirm r \<Rightarrow>
          (case get_job (cf_id r) (write_jobs t) of
             Some job \<Rightarrow>
               map_option (\<lambda>(job1, fs1). (t\<lparr>write_jobs := put_job job1 (write_jobs t)\<rparr>, fs1, [])) (confirm r job fs)
           | None \<Rightarrow> Some (t, fs, []))
      | Rename i p n \<Rightarrow> (case cm_rename_file p n i fs of (fs1, os) \<Rightarrow> Some (t, fs1, os))
      | ReadFile p i num hidden c detect \<Rightarrow>
          (case start_read_job env p num hidden i c detect fs (read_jobs t) of
             (js, os) \<Rightarrow> Some (t\<lparr>read_jobs := js\<rparr>, fs, os))
      | CancelRead i c \<Rightarrow> Some (t\<lparr>read_jobs := snd (remove_job i (read_jobs t))\<rparr>, fs, [])
      | SendConfirmForRead i num skip offset_blk c \<Rightarrow>
          (case get_job i (read_jobs t) of
             Some job \<Rightarrow>
               map_option (\<lambda>(job1, fs1). (t\<lparr>read_jobs := put_job job1 (read_jobs t)\<rparr>, fs1, []))
                 (confirm \<lparr>cf_id = i, cf_file_num = file_num job,
                    cf_union = Some (if skip then Skip True else OffsetBlk offset_blk)\<rparr> job fs)
           | None \<Rightarrow> Some (t, fs, []))
      | ReadAllFiles p i hidden c \<Rightarrow> Some (t, fs, read_all_files env p hidden i c fs)
      | WriteOffset _ _ _ \<Rightarrow> Some (t, fs, []))"

text \<open>A task runs commands, and a turn of its read jobs whenever its timer fires.\<close>

datatype cm_event = Command FS | Tick

fun cm_step :: "CmEnv \<Rightarrow> int \<Rightarrow> cm_event \<Rightarrow> CmTask \<times> Fs \<Rightarrow> (CmTask \<times> Fs \<times> cm_out list) option" where
  "cm_step env c (Command cmd) (t, fs) = handle_fs env cmd t fs"
| "cm_step env c Tick (t, fs) =
     (case handle_read_jobs_tick env c fs (read_jobs t) of (js, os) \<Rightarrow> Some (t\<lparr>read_jobs := js\<rparr>, fs, os))"

fun cm_run :: "CmEnv \<Rightarrow> int \<Rightarrow> cm_event list \<Rightarrow> CmTask \<times> Fs \<Rightarrow> (CmTask \<times> Fs \<times> cm_out list) option" where
  "cm_run env c [] (t, fs) = Some (t, fs, [])"
| "cm_run env c (e # es) (t, fs) =
     (case cm_step env c e (t, fs) of
        None \<Rightarrow> None
      | Some (t1, fs1, os1) \<Rightarrow>
          (case cm_run env c es (t1, fs1) of None \<Rightarrow> None | Some (t2, fs2, os2) \<Rightarrow> Some (t2, fs2, os1 @ os2)))"

section \<open>The jobs of a task\<close>

lemma get_job_id: "get_job i js = Some j \<Longrightarrow> job_id j = i \<and> j \<in> set js"
  by (auto simp: get_job_def find_Some_iff)

lemma put_get: "get_job i js = Some j \<Longrightarrow> put_job j js = js"
proof (induction js)
  case (Cons x js)
  with get_job_id [OF Cons.prems] show ?case by (auto simp: get_job_def split: if_splits)
qed simp

lemma set_put_job: "set (put_job j js) \<subseteq> insert j (set js)"
  by (induction js) auto

lemma set_remove_job: "remove_job i js = (r, js') \<Longrightarrow> set js' \<subseteq> set js"
  by (induction js arbitrary: js') (auto split: if_splits prod.splits)

lemma remove_job_in: "remove_job i js = (Some j, js') \<Longrightarrow> j \<in> set js"
  by (induction js arbitrary: js') (auto split: if_splits prod.splits)

text \<open>A confirmation never changes the file system.\<close>

lemma open_existing: "path_exists fs p \<Longrightarrow> snd (file_open_write p fs) = fs"
  by (auto simp: path_exists_def metadata_def node_result_def file_open_write_def split: sum.splits option.splits node.splits)

lemma confirm_keeps_fs: "confirm r job fs = Some (job', fs') \<Longrightarrow> fs' = fs"
proof -
  have "set_stream_offset n k j fs = Some (job', fs') \<Longrightarrow> fs' = fs" for n k j
    using open_existing [of fs]
    by (auto simp: set_stream_offset_def Let_def split: DataSource.splits option.splits if_splits prod.splits sum.splits)
      (metis snd_conv)+
  then show "confirm r job fs = Some (job', fs') \<Longrightarrow> fs' = fs"
    by (auto simp: confirm_def Let_def split: if_splits option.splits confirm_union.splits)
qed

lemma confirm_keeps_job: "confirm r job fs = Some (job', fs') \<Longrightarrow> files job' = files job \<and> data_source job' = data_source job"
  by (auto simp: confirm_def set_stream_offset_def set_file_skipped_def set_file_confirmed_def set_file_is_waiting_def Let_def
      split: if_splits option.splits confirm_union.splits DataSource.splits prod.splits sum.splits)

section \<open>Write jobs have no files\<close>

definition bare :: "TransferJob \<Rightarrow> bool" where
  "bare j \<longleftrightarrow> files j = [] \<and> (\<exists>p. data_source j = FilePath p)"

definition all_bare :: "CmTask \<Rightarrow> bool" where
  "all_bare t \<longleftrightarrow> (\<forall>j \<in> set (write_jobs t). bare j)"

lemma bare_write: "bare j \<Longrightarrow> blk_id b = job_id j \<Longrightarrow> write_block env b j fs = (Inl (Bail ''Wrong file number''), j, fs)"
  by (auto simp: bare_def write_block_def write_prepare_def)

lemma bare_modify [simp]: "bare j \<Longrightarrow> modify_time j fs = fs" "bare j \<Longrightarrow> remove_download_file j fs = fs"
  by (auto simp: bare_def modify_time_def remove_download_file_def)

lemma bare_digest: "bare j \<Longrightarrow> check_digest env i num sz m up resume j fs = (j, [])"
  by (auto simp: bare_def check_digest_def)

lemma bare_new: "bare (new_write_job p i num detect sz c)"
  by (simp add: bare_def new_write_job_def new_write_def job_default_def)

lemma all_bare_put: "all_bare t \<Longrightarrow> bare j \<Longrightarrow> all_bare (t\<lparr>write_jobs := put_job j (write_jobs t)\<rparr>)"
  using set_put_job [of j "write_jobs t"] by (auto simp: all_bare_def)

lemma bare_confirm: "bare j \<Longrightarrow> confirm r j fs = Some (j', fs') \<Longrightarrow> bare j'"
  using confirm_keeps_job [of r j fs j' fs'] by (simp add: bare_def)

text \<open>The commands that are meant to change the file system by themselves.\<close>

fun edits :: "cm_event \<Rightarrow> bool" where
  "edits (Command (RemoveDir _ _ _)) = True"
| "edits (Command (RemoveFile _ _ _)) = True"
| "edits (Command (CreateDir _ _)) = True"
| "edits (Command (Rename _ _ _)) = True"
| "edits _ = False"

lemma handle_fs_bare:
  assumes "handle_fs env cmd t fs = Some (t', fs', os)" and "all_bare t"
  shows "all_bare t' \<and> (\<not> edits (Command cmd) \<longrightarrow> fs' = fs)"
proof (cases cmd)
  case (RemoveDir p i r)
  with assms show ?thesis by (auto simp: handle_fs_def)
next
  case (RemoveFile p i n)
  with assms show ?thesis by (auto simp: handle_fs_def split: prod.splits)
next
  case (CreateDir p i)
  with assms show ?thesis by (auto simp: handle_fs_def split: prod.splits)
next
  case (Rename i p n)
  with assms show ?thesis by (auto simp: handle_fs_def split: prod.splits)
next
  case (NewWrite p i num fl detect sz c)
  with assms show ?thesis by (auto simp: handle_fs_def all_bare_def bare_new split: sum.splits)
next
  case (CancelWrite i)
  obtain r js where r: "remove_job i (write_jobs t) = (r, js)" by (metis prod.exhaust)
  show ?thesis
  proof (cases r)
    case None
    with assms CancelWrite r show ?thesis by (simp add: handle_fs_def)
  next
    case (Some j)
    with r remove_job_in [of i "write_jobs t" j js] set_remove_job [OF r] assms(2) have
      "bare j" "\<forall>x \<in> set js. bare x" by (auto simp: all_bare_def)
    with assms CancelWrite r Some show ?thesis by (auto simp: handle_fs_def all_bare_def)
  qed
next
  case (WriteDone i num)
  obtain r js where r: "remove_job i (write_jobs t) = (r, js)" by (metis prod.exhaust)
  show ?thesis
  proof (cases r)
    case None
    with assms WriteDone r show ?thesis by (simp add: handle_fs_def)
  next
    case (Some j)
    with r remove_job_in [of i "write_jobs t" j js] set_remove_job [OF r] assms(2) have
      "bare j" "\<forall>x \<in> set js. bare x" by (auto simp: all_bare_def)
    with assms WriteDone r Some show ?thesis by (auto simp: handle_fs_def all_bare_def)
  qed
next
  case (WriteError i num e)
  obtain r js where r: "remove_job i (write_jobs t) = (r, js)" by (metis prod.exhaust)
  with set_remove_job [OF r] assms WriteError show ?thesis by (cases r) (auto simp: handle_fs_def all_bare_def)
next
  case (WriteBlock i num d cp)
  show ?thesis
  proof (cases "get_job i (write_jobs t)")
    case None
    with assms WriteBlock show ?thesis by (simp add: handle_fs_def)
  next
    case (Some j)
    from get_job_id [OF Some] assms(2) have j: "job_id j = i" "bare j" by (auto simp: all_bare_def)
    with assms WriteBlock Some show ?thesis
      by (auto simp: handle_fs_def bare_write intro: all_bare_put)
  qed
next
  case (CheckDigest i num sz m up resume)
  show ?thesis
  proof (cases "get_job i (write_jobs t)")
    case None
    with assms CheckDigest show ?thesis by (simp add: handle_fs_def)
  next
    case (Some j)
    from get_job_id [OF Some] assms(2) have j: "bare j" by (auto simp: all_bare_def)
    with assms CheckDigest Some show ?thesis by (auto simp: handle_fs_def bare_digest intro: all_bare_put)
  qed
next
  case (SendConfirm r)
  show ?thesis
  proof (cases "get_job (cf_id r) (write_jobs t)")
    case None
    with assms SendConfirm show ?thesis by (simp add: handle_fs_def)
  next
    case (Some j)
    from get_job_id [OF Some] assms(2) have j: "bare j" by (auto simp: all_bare_def)
    with assms SendConfirm Some show ?thesis
      by (auto simp: handle_fs_def dest: confirm_keeps_fs intro: all_bare_put bare_confirm)
  qed
next
  case (SendConfirmForRead i num skip off c)
  with assms show ?thesis
    by (cases "get_job i (read_jobs t)") (auto simp: handle_fs_def all_bare_def dest: confirm_keeps_fs)
qed (use assms in \<open>auto simp: handle_fs_def all_bare_def split: prod.splits\<close>)

lemma cm_run_bare:
  assumes "cm_run env c es (t, fs) = Some (t', fs', os)" and "all_bare t"
  shows "all_bare t' \<and> (list_all (\<lambda>e. \<not> edits e) es \<longrightarrow> fs' = fs)"
  using assms
proof (induction es arbitrary: t fs os)
  case (Cons e es)
  from Cons.prems(1) obtain t1 fs1 os1 os2 where
    s: "cm_step env c e (t, fs) = Some (t1, fs1, os1)" "cm_run env c es (t1, fs1) = Some (t', fs', os2)"
    by (auto split: option.splits prod.splits)
  have "all_bare t1 \<and> (\<not> edits e \<longrightarrow> fs1 = fs)"
  proof (cases e)
    case (Command cmd)
    with s(1) handle_fs_bare [of env cmd t fs t1 fs1 os1] Cons.prems(2) show ?thesis by simp
  next
    case Tick
    with s(1) Cons.prems(2) show ?thesis by (auto simp: all_bare_def split: prod.splits)
  qed
  with Cons.IH [OF s(2)] show ?case by auto
qed simp

text \<open>C37: nothing that is sent to a host is ever written. The task checks the names of an announced upload and then makes a write
  job without them. So whatever commands it has run, every block of an upload is refused as having a wrong file number, and unless a
  command removes, creates or renames something itself the files of the host are what they were.\<close>

theorem upload_never_arrives:
  assumes "cm_run env c es (cm_start, fs) = Some (t, fs1, os)"
  shows "(list_all (\<lambda>e. \<not> edits e) es \<longrightarrow> fs1 = fs) \<and>
    (get_job i (write_jobs t) \<noteq> None \<longrightarrow>
      handle_fs env (WriteBlock i num d cp) t fs1 = Some (t, fs1, [RawMessage (new_error i (Bail ''Wrong file number'') num)]))"
proof -
  have "all_bare cm_start" by (simp add: all_bare_def cm_start_def)
  from cm_run_bare [OF assms this] have b: "all_bare t" "list_all (\<lambda>e. \<not> edits e) es \<longrightarrow> fs1 = fs" by auto
  moreover have "handle_fs env (WriteBlock i num d cp) t fs1 = Some (t, fs1, [RawMessage (new_error i (Bail ''Wrong file number'') num)])"
    if "get_job i (write_jobs t) = Some j" for j
    using get_job_id [OF that] b(1) that
    by (auto simp: handle_fs_def bare_write all_bare_def put_get)
  ultimately show ?thesis by auto
qed

definition example_cm_env :: CmEnv where
  "example_cm_env = \<lparr>fenv = \<lparr>zstd_compress = Some, zstd_decode = Some, digest_to_json = (\<lambda>_. []), digest_from_json = (\<lambda>_. None)\<rparr>,
     cm_grab = id, mtimes = (\<lambda>_. 0), home = ''/h'', max_files_option = []\<rparr>"

theorem upload_never_arrives_witness:
  "\<exists>t. cm_run example_cm_env 7 [Command (NewWrite ''/d'' 1 0 [(''new.txt'', 0)] False 3 7)] (cm_start, example_tree) = Some (t, example_tree, []) \<and>
     handle_fs example_cm_env (WriteBlock 1 0 [1, 2, 3] False) t example_tree =
       Some (t, example_tree, [RawMessage (new_error 1 (Bail ''Wrong file number'') 0)])"
proof -
  let ?t = "cm_start\<lparr>write_jobs := [new_write_job ''/d'' 1 0 False 3 7]\<rparr>"
  have v: "cm_validate_transfer_file_names [(''new.txt'', 0)] = Inr ()"
    by (simp add: cm_validate_transfer_file_names_def is_single_file_with_empty_name_def cm_validate_file_name_def)
  then have r: "cm_run example_cm_env 7 [Command (NewWrite ''/d'' 1 0 [(''new.txt'', 0)] False 3 7)] (cm_start, example_tree) =
      Some (?t, example_tree, [])"
    by (simp add: handle_fs_def cm_start_def)
  have "get_job 1 (write_jobs ?t) \<noteq> None" by (simp add: get_job_def new_write_job_def new_write_def)
  with upload_never_arrives [OF r, of 1 0 "[1, 2, 3]" False] r show ?thesis by blast
qed

section \<open>The limit on the number of files\<close>

fun listed_files :: "cm_out \<Rightarrow> FileEntry list option" where
  "listed_files (ReadJobInitResult _ _ _ _ (Inr (_, _, fl))) = Some fl"
| "listed_files (AllFilesResult _ _ _ (Inr (_, _, fl))) = Some fl"
| "listed_files _ = None"

definition within :: "CmEnv \<Rightarrow> cm_out \<Rightarrow> bool" where
  "within env x \<longleftrightarrow> (\<forall>fl. listed_files x = Some fl \<longrightarrow> length fl \<le> get_max_validated_files env)"

lemma read_jobs_turn_within: "read_jobs_turn env c fs js = (js', fin, os) \<Longrightarrow> \<forall>x \<in> set os. within env x"
proof (induction js arbitrary: js' fin os)
  case (Cons j js)
  obtain r j1 os1 where i: "init_read_job_for_cm j c fs = (r, j1, os1)" by (metis prod_cases3)
  then have o1: "\<forall>x \<in> set os1. within env x"
    by (auto simp: init_read_job_for_cm_def within_def split: prod.splits sum.splits option.splits)
  obtain js2 f2 os2 where t: "read_jobs_turn env c fs js = (js2, f2, os2)" by (metis prod_cases3)
  from Cons.IH [OF t] o1 i t Cons.prems show ?case
    by (auto simp: within_def split: if_splits prod.splits sum.splits option.splits)
qed simp

lemma handle_fs_within: "handle_fs env cmd t fs = Some (t', fs', os) \<Longrightarrow> \<forall>x \<in> set os. within env x"
  by (cases cmd)
    (auto simp: handle_fs_def within_def read_empty_dirs_def cm_read_dir_def cm_remove_dir_def cm_remove_file_def cm_create_dir_def
      cm_rename_file_def handle_result_def check_digest_def start_read_job_def read_all_files_def check_file_count_limit_def Let_def
      split: prod.splits sum.splits option.splits if_splits DataSource.splits DigestCheckResult.splits)

text \<open>A peer cannot make the host list more files than allowed. In every run of a task, each list of files it sends, for a download or
  as the listing of a tree, is at most as long as the configured limit; without one, or with an unreadable one, the limit is the
  largest number there is, and zero stands for ten thousand.\<close>

theorem listings_bounded:
  assumes "cm_run env c es (t, fs) = Some (t', fs', os)" and "x \<in> set os" and "listed_files x = Some fl"
  shows "length fl \<le> get_max_validated_files env \<and> 0 < get_max_validated_files env"
proof -
  have "\<forall>x \<in> set os. within env x"
    using assms(1)
  proof (induction es arbitrary: t fs os)
    case (Cons e es)
    from Cons.prems obtain t1 fs1 os1 os2 where
      s: "cm_step env c e (t, fs) = Some (t1, fs1, os1)" "cm_run env c es (t1, fs1) = Some (t', fs', os2)" "os = os1 @ os2"
      by (auto split: option.splits prod.splits)
    have "\<forall>x \<in> set os1. within env x"
    proof (cases e)
      case (Command cmd)
      with s(1) handle_fs_within [of env cmd t fs] show ?thesis by simp
    next
      case Tick
      with s(1) show ?thesis
        using read_jobs_turn_within [of env c fs "read_jobs t"] by (auto simp: handle_read_jobs_tick_def split: prod.splits)
    qed
    with Cons.IH [OF s(2)] s(3) show ?case by auto
  qed simp
  with assms(2,3) have "length fl \<le> get_max_validated_files env" by (auto simp: within_def)
  moreover have "0 < get_max_validated_files env" by (auto simp: get_max_validated_files_def DEFAULT_MAX_VALIDATED_FILES_def Let_def)
  ultimately show ?thesis by simp
qed

theorem listings_bounded_witness:
  "\<exists>e. AllFilesResult 1 7 ''/d/a'' (Inr (1, ''/d/a'', [e])) \<in>
       set (snd (snd (the (cm_run example_cm_env 7 [Command (ReadAllFiles ''/d/a'' 1 True 7)] (cm_start, example_tree))))) \<and>
     length [e] \<le> get_max_validated_files example_cm_env"
proof -
  have r: "resolve example_tree ''/d/a'' = Inr [''d'', ''a'']"
    by (simp add: example_tree_def resolve_def resolve_components_def path_components_def is_absolute_def name_component_def
        node_at_def names_directory_def MAX_LINKS_def Let_def)
  have m: "metadata example_tree ''/d/a'' = Inr (FileNode [1, 2] 5000000000)"
    using r by (simp add: metadata_def node_result_def) (simp add: example_tree_def node_at_def)
  obtain e where g: "get_recursive_files (mtimes example_cm_env) example_tree ''/d/a'' True = Inr [e]"
    using m by (simp add: get_recursive_files_def read_dir_recursive.simps is_dir_def is_file_def)
  have l: "get_max_validated_files example_cm_env = USIZE_MAX"
    by (simp add: get_max_validated_files_def example_cm_env_def trim_def parse_usize_def USIZE_MAX_def)
  then have "check_file_count_limit example_cm_env (Suc 0) = Inr ()" by (simp add: check_file_count_limit_def USIZE_MAX_def)
  with g have c: "cm_run example_cm_env 7 [Command (ReadAllFiles ''/d/a'' 1 True 7)] (cm_start, example_tree) =
      Some (cm_start, example_tree, [AllFilesResult 1 7 ''/d/a'' (Inr (1, ''/d/a'', [e]))])"
    by (simp add: handle_fs_def read_all_files_def)
  from listings_bounded [OF c, of "AllFilesResult 1 7 ''/d/a'' (Inr (1, ''/d/a'', [e]))" "[e]"] c show ?thesis by auto
qed

end
