(* ===== verification/Conn_Files.thy ===== *)
theory Conn_Files
  imports Cm_Files Version_Number
begin

text \<open>
  What a connection does with the file messages of an authorized peer (\<open>src/server/connection.rs\<close>): the file actions and
  responses of \<open>on_message\<close>, the read jobs it runs itself, the read jobs it leaves to the connection manager with the answers that
  come back, and the log of removed files. An action yields messages to the peer, commands to the connection manager, logs and
  audits; \<open>None\<close> is a panic. Audits are recorded whether or not an audit server is configured.
\<close>

section \<open>State\<close>

record FileRemove =
  fr_id :: int
  fr_path :: path

record FileRemoveLogControl =
  log_instant :: nat
  removed_files :: "FileRemove list"
  removed_dirs :: "FileRemove list"

record FileConn =
  fc_conn_id :: int
  fc_version :: string
  is_file_conn :: bool
  delayed_read_dir :: "(path \<times> bool) option"
  cm_read_job_ids :: "int set"
  jobs :: "TransferJob list"
  printer_data :: "(nat \<times> path \<times> bytes) list"
  file_transferred :: bool
  remove_log :: FileRemoveLogControl

record FcEnv =
  cm_env :: CmEnv
  need_fs_cm :: bool
  one_way_file_transfer :: bool
  secs :: nat

datatype file_action =
  AReadEmptyDirs path bool
| AReadDir path bool
| AAllFiles path int bool
| ASend int path int bool int
| AReceive int path int "FileEntry list" nat
| ARemoveDir int path bool
| ARemoveFile int path int
| ACreate int path
| ACancel int
| ASendConfirm FileTransferSendConfirmRequest
| ARename int path string
| ANone

datatype file_response =
  RBlock FileTransferBlock
| RDone int int
| RDigest int int nat nat bool
| RError int string int
| ROther

datatype fc_out =
  Send FileMessage
| SendErr int cm_error int
| Relay cm_out
| ToFs FS
| RemovedLog int path bool
| CreatedLog int path
| RenamedLog path string
| CancelledLog int
| AuditSend path "(string \<times> nat) list"
| AuditReceive path "(string \<times> nat) list"

section \<open>The log of removed files\<close>

definition remove_log_new :: "nat \<Rightarrow> FileRemoveLogControl" where
  "remove_log_new t = \<lparr>log_instant = t, removed_files = [], removed_dirs = []\<rparr>"

definition on_remove_file :: "nat \<Rightarrow> FileRemove \<Rightarrow> FileRemoveLogControl \<Rightarrow> FileRemoveLogControl" where
  "on_remove_file t f l = l\<lparr>log_instant := t, removed_files := removed_files l @ [f]\<rparr>"

text \<open>Paths are compared by their components.\<close>

definition direct_child :: "path \<Rightarrow> path \<Rightarrow> bool" where
  "direct_child parent child =
     (case path_parent child of None \<Rightarrow> False | Some p \<Rightarrow> path_components p = path_components parent)"

definition on_remove_dir :: "nat \<Rightarrow> FileRemove \<Rightarrow> FileRemoveLogControl \<Rightarrow> FileRemoveLogControl" where
  "on_remove_dir t d l =
     (let fl = filter (\<lambda>f. \<not> direct_child (fr_path f) (fr_path d)) (removed_files l);
          ds = filter (\<lambda>x. \<not> direct_child (fr_path d) (fr_path x)) (removed_dirs l)
      in l\<lparr>log_instant := t, removed_files := fl,
           removed_dirs := (if list_ex (\<lambda>x. direct_child (fr_path x) (fr_path d)) ds then ds else ds @ [d])\<rparr>)"

definition remove_log_on_timer :: "nat \<Rightarrow> FileRemoveLogControl \<Rightarrow> fc_out list \<times> FileRemoveLogControl" where
  "remove_log_on_timer t l =
     (if t - log_instant l < 1 then ([], l)
      else (map (\<lambda>f. RemovedLog (fr_id f) (fr_path f) False) (removed_files l) @
            map (\<lambda>d. RemovedLog (fr_id d) (fr_path d) True) (removed_dirs l),
            l\<lparr>removed_files := [], removed_dirs := []\<rparr>))"

section \<open>Read jobs of the connection\<close>

definition get_files_for_audit :: "JobType \<Rightarrow> FileEntry list \<Rightarrow> (string \<times> nat) list" where
  "get_files_for_audit t fl = map (\<lambda>f. (if t = Printer then ''Remote print'' else name f, size f)) fl"

definition process_new_read_job :: "TransferJob \<Rightarrow> path \<Rightarrow> FileConn \<Rightarrow> FileConn \<times> fc_out list" where
  "process_new_read_job job p c =
     (c\<lparr>jobs := jobs c @ [job\<lparr>is_remote := True, conn_id := fc_conn_id c\<rparr>]\<rparr>,
      [Send (new_dir (job_id job) p (files job)),
       AuditSend (if job_type job = Printer then ''Remote print'' else p) (get_files_for_audit (job_type job) (files job))])"

definition create_and_start_read_job :: "FcEnv \<Rightarrow> Fs \<Rightarrow> int \<Rightarrow> JobType \<Rightarrow> DataSource \<Rightarrow> int \<Rightarrow> bool \<Rightarrow> bool \<Rightarrow> path \<Rightarrow> bool \<Rightarrow>
    FileConn \<Rightarrow> FileConn \<times> fc_out list" where
  "create_and_start_read_job env fs i t src num hidden detect p limit c =
     (case new_read (mtimes (cm_env env)) fs i t [] src num hidden False detect of
        Inl e \<Rightarrow> (c, [Send (new_error i e 0)])
      | Inr job \<Rightarrow>
          (case (if limit then check_file_count_limit (cm_env env) (length (files job)) else Inr ()) of
             Inl e \<Rightarrow> (c, [SendErr i e (-1)])
           | Inr _ \<Rightarrow> process_new_read_job job p c))"

definition can_enable_overwrite_detection :: "int \<Rightarrow> bool" where
  "can_enable_overwrite_detection v = (v \<ge> get_version_number ''1.1.10'')"

definition detects :: "FileConn \<Rightarrow> bool" where
  "detects c = can_enable_overwrite_detection (get_version_number (fc_version c))"

section \<open>File actions\<close>

text \<open>\<open>Send\<close>: the job of a print is in memory under its path; any other is read here or by the connection manager.\<close>

definition send_action :: "FcEnv \<Rightarrow> Fs \<Rightarrow> int \<Rightarrow> path \<Rightarrow> int \<Rightarrow> bool \<Rightarrow> int \<Rightarrow> FileConn \<Rightarrow> FileConn \<times> fc_out list" where
  "send_action env fs i p num hidden t c =
     (case job_type_from_i32 t of
        Generic \<Rightarrow>
          (let (c1, out) =
             (if need_fs_cm env
              then (c\<lparr>cm_read_job_ids := insert i (cm_read_job_ids c)\<rparr>, [ToFs (ReadFile p i num hidden (fc_conn_id c) (detects c))])
              else create_and_start_read_job env fs i Generic (FilePath p) num hidden (detects c) p True c)
           in (c1\<lparr>file_transferred := True\<rparr>, out))
      | Printer \<Rightarrow>
          (case List.extract (\<lambda>x. fst (snd x) = p) (printer_data c) of
             None \<Rightarrow> (c, [])
           | Some (before, x, after) \<Rightarrow>
               (let (c1, out) = create_and_start_read_job env fs i Printer (MemoryCursor (snd (snd x)) 0) num hidden True p False
                      (c\<lparr>printer_data := before @ after\<rparr>)
                in (c1\<lparr>file_transferred := True\<rparr>, out))))"

fun one_way_job :: "file_action \<Rightarrow> int option" where
  "one_way_job (ASend i _ _ _ _) = Some i"
| "one_way_job (ARemoveFile i _ _) = Some i"
| "one_way_job (ARename i _ _) = Some i"
| "one_way_job (ACreate i _) = Some i"
| "one_way_job (ARemoveDir i _ _) = Some i"
| "one_way_job _ = None"

fun confirm_first :: "FileTransferSendConfirmRequest \<Rightarrow> TransferJob list \<Rightarrow> Fs \<Rightarrow> (TransferJob list \<times> Fs) option" where
  "confirm_first r [] fs = Some ([], fs)"
| "confirm_first r (j # js) fs =
     (if job_id j = cf_id r then (case confirm r j fs of None \<Rightarrow> None | Some (j', fs1) \<Rightarrow> Some (j' # js, fs1))
      else (case confirm_first r js fs of None \<Rightarrow> None | Some (js', fs1) \<Rightarrow> Some (j # js', fs1)))"

definition skip_of :: "FileTransferSendConfirmRequest \<Rightarrow> bool" where
  "skip_of r = (case cf_union r of Some (Skip s) \<Rightarrow> s | _ \<Rightarrow> False)"

definition offset_of :: "FileTransferSendConfirmRequest \<Rightarrow> nat" where
  "offset_of r = (case cf_union r of Some (OffsetBlk n) \<Rightarrow> n | _ \<Rightarrow> 0)"

fun file_action_body :: "FcEnv \<Rightarrow> file_action \<Rightarrow> FileConn \<Rightarrow> Fs \<Rightarrow> (FileConn \<times> Fs \<times> fc_out list) option" where
  "file_action_body env (AReadEmptyDirs p h) c fs = Some (c, fs, [ToFs (ReadEmptyDirs p h)])"
| "file_action_body env (AReadDir p h) c fs = Some (c, fs, [ToFs (ReadDir p h)])"
| "file_action_body env (AAllFiles p i h) c fs =
     Some (c, fs,
       if need_fs_cm env then [ToFs (ReadAllFiles p i h (fc_conn_id c))]
       else (case get_recursive_files (mtimes (cm_env env)) fs p h of
               Inl e \<Rightarrow> [Send (new_error i e (-1))]
             | Inr fl \<Rightarrow>
                 (case check_file_count_limit (cm_env env) (length fl) of
                    Inl e \<Rightarrow> [SendErr i e (-1)]
                  | Inr _ \<Rightarrow> [Send (new_dir i p fl)])))"
| "file_action_body env (ASend i p num h t) c fs =
     (let (c1, out) = send_action env fs i p num h t c in Some (c1, fs, out))"
| "file_action_body env (AReceive i p num fl tot) c fs =
     Some (c\<lparr>file_transferred := True\<rparr>, fs,
       [ToFs (NewWrite p i num (map (\<lambda>f. (name f, modified_time f)) fl) (detects c) tot (fc_conn_id c)),
        AuditReceive p (get_files_for_audit Generic fl)])"
| "file_action_body env (ARemoveDir i p r) c fs =
     Some (c\<lparr>remove_log := on_remove_dir (secs env) \<lparr>fr_id = i, fr_path = p\<rparr> (remove_log c)\<rparr>, fs, [ToFs (RemoveDir p i r)])"
| "file_action_body env (ARemoveFile i p num) c fs =
     Some (c\<lparr>remove_log := on_remove_file (secs env) \<lparr>fr_id = i, fr_path = p\<rparr> (remove_log c)\<rparr>, fs, [ToFs (RemoveFile p i num)])"
| "file_action_body env (ACreate i p) c fs = Some (c, fs, [ToFs (CreateDir p i), CreatedLog i p])"
| "file_action_body env (ACancel i) c fs =
     (case remove_job i (jobs c) of
        (r, js) \<Rightarrow>
          Some (c\<lparr>cm_read_job_ids := cm_read_job_ids c - {i}, jobs := js\<rparr>, fs,
            [ToFs (CancelWrite i), ToFs (CancelRead i (fc_conn_id c))] @ (case r of None \<Rightarrow> [] | Some j \<Rightarrow> [CancelledLog i])))"
| "file_action_body env (ASendConfirm r) c fs =
     (if get_job (cf_id r) (jobs c) \<noteq> None
      then (case confirm_first r (jobs c) fs of None \<Rightarrow> None | Some (js, fs1) \<Rightarrow> Some (c\<lparr>jobs := js\<rparr>, fs1, []))
      else Some (c, fs,
        if cf_id r \<in> cm_read_job_ids c
        then [ToFs (SendConfirmForRead (cf_id r) (cf_file_num r) (skip_of r) (offset_of r) (fc_conn_id c))]
        else [ToFs (SendConfirm r)]))"
| "file_action_body env (ARename i p n) c fs = Some (c, fs, [ToFs (Rename i p n), RenamedLog p n])"
| "file_action_body env ANone c fs = Some (c, fs, [])"

definition is_print :: "file_action \<Rightarrow> bool" where
  "is_print a = (case a of ASend _ _ _ _ t \<Rightarrow> job_type_from_i32 t = Printer | _ \<Rightarrow> False)"

definition ONE_WAY :: transfer_error where "ONE_WAY = Bail ''one-way-file-transfer-tip''"

definition on_file_action :: "FcEnv \<Rightarrow> file_action \<Rightarrow> FileConn \<Rightarrow> Fs \<Rightarrow> (FileConn \<times> Fs \<times> fc_out list) option" where
  "on_file_action env a c fs =
     (if \<not> is_file_conn c \<and> \<not> is_print a then Some (c, fs, [])
      else if delayed_read_dir c \<noteq> None
      then Some (case a of AReadDir p h \<Rightarrow> c\<lparr>delayed_read_dir := Some (p, h)\<rparr> | _ \<Rightarrow> c, fs, [])
      else case (if one_way_file_transfer env then one_way_job a else None) of
        Some i \<Rightarrow> Some (c, fs, [Send (new_error i ONE_WAY 0)])
      | None \<Rightarrow> file_action_body env a c fs)"

fun on_file_response :: "file_response \<Rightarrow> fc_out list" where
  "on_file_response (RBlock b) = [ToFs (WriteBlock (blk_id b) (blk_file_num b) (blk_data b) (blk_compressed b))]"
| "on_file_response (RDone i n) = [ToFs (WriteDone i n)]"
| "on_file_response (RDigest i n sz m r) = [ToFs (CheckDigest i n sz m True r)]"
| "on_file_response (RError i e n) = [ToFs (WriteError i n e)]"
| "on_file_response ROther = []"

section \<open>Answers of the connection manager\<close>

definition handle_read_job_init_result :: "int \<Rightarrow> cm_error + int \<times> path \<times> FileEntry list \<Rightarrow> FileConn \<Rightarrow> FileConn \<times> fc_out list" where
  "handle_read_job_init_result i r c =
     (if i \<notin> cm_read_job_ids c then (c, [])
      else case r of
        Inl e \<Rightarrow> (c\<lparr>cm_read_job_ids := cm_read_job_ids c - {i}\<rparr>, [SendErr i e 0])
      | Inr (_, p, fl) \<Rightarrow>
          (c\<lparr>file_transferred := True\<rparr>, [Send (new_dir i p fl), AuditSend p (get_files_for_audit Generic fl)]))"

definition handle_file_block_from_cm :: "int \<Rightarrow> int \<Rightarrow> bytes \<Rightarrow> bool \<Rightarrow> FileConn \<Rightarrow> FileConn \<times> fc_out list" where
  "handle_file_block_from_cm i n d z c =
     (c, if i \<notin> cm_read_job_ids c then []
         else [Send (MsgBlock \<lparr>blk_id = i, blk_file_num = n, blk_data = d, blk_compressed = z\<rparr>)])"

definition handle_file_read_done :: "int \<Rightarrow> int \<Rightarrow> FileConn \<Rightarrow> FileConn \<times> fc_out list" where
  "handle_file_read_done i n c =
     (if i \<notin> cm_read_job_ids c then (c, [])
      else (c\<lparr>cm_read_job_ids := cm_read_job_ids c - {i}\<rparr>, [Send (MsgDone i n)]))"

definition handle_file_read_error :: "int \<Rightarrow> int \<Rightarrow> transfer_error \<Rightarrow> FileConn \<Rightarrow> FileConn \<times> fc_out list" where
  "handle_file_read_error i n e c =
     (if i \<notin> cm_read_job_ids c then (c, [])
      else (c\<lparr>cm_read_job_ids := cm_read_job_ids c - {i}\<rparr>, [Send (new_error i e n)]))"

definition handle_file_digest_from_cm :: "int \<Rightarrow> int \<Rightarrow> nat \<Rightarrow> nat \<Rightarrow> bool \<Rightarrow> FileConn \<Rightarrow> FileConn \<times> fc_out list" where
  "handle_file_digest_from_cm i n m sz r c =
     (c, if i \<notin> cm_read_job_ids c then []
         else [Send (MsgDigest \<lparr>fd_id = i, fd_file_num = n, fd_last_modified = m, fd_file_size = sz, fd_is_identical = False,
                fd_transferred_size = 0, fd_is_resume = r\<rparr>)])"

definition handle_all_files_result :: "int \<Rightarrow> cm_error + int \<times> path \<times> FileEntry list \<Rightarrow> fc_out list" where
  "handle_all_files_result i r =
     (case r of Inl e \<Rightarrow> [SendErr i e (-1)] | Inr (j, p, fl) \<Rightarrow> [Send (MsgDir j p fl)])"

section \<open>The events of the connection loop that concern files\<close>

datatype fc_event =
  FileAction file_action
| FileResponse file_response
| FromCm cm_out
| FileTick bool
| SecondTick

text \<open>An answer that names another connection is dropped.\<close>

fun on_cm_answer :: "cm_out \<Rightarrow> FileConn \<Rightarrow> FileConn \<times> fc_out list" where
  "on_cm_answer (RawMessage m) c = (c, [Send m])"
| "on_cm_answer (EmptyDirs p l) c = (c, [Relay (EmptyDirs p l)])"
| "on_cm_answer (DigestMessage d up) c = (c, [Relay (DigestMessage d up)])"
| "on_cm_answer (ReadJobInitResult i n h k r) c = (if k = fc_conn_id c then handle_read_job_init_result i r c else (c, []))"
| "on_cm_answer (FileBlockFromCM i n d z k) c = (if k = fc_conn_id c then handle_file_block_from_cm i n d z c else (c, []))"
| "on_cm_answer (FileReadDone i n k) c = (if k = fc_conn_id c then handle_file_read_done i n c else (c, []))"
| "on_cm_answer (FileReadError i n e k) c = (if k = fc_conn_id c then handle_file_read_error i n e c else (c, []))"
| "on_cm_answer (FileDigestFromCM i n m sz r k) c =
     (if k = fc_conn_id c then handle_file_digest_from_cm i n m sz r c else (c, []))"
| "on_cm_answer (AllFilesResult i k p r) c = (c, if k = fc_conn_id c then handle_all_files_result i r else [])"

text \<open>The turn over the read jobs; an error of the stream ends the connection.\<close>

definition file_tick :: "FcEnv \<Rightarrow> bool \<Rightarrow> FileConn \<Rightarrow> Fs \<Rightarrow> bool \<times> FileConn \<times> fc_out list" where
  "file_tick env brk c fs =
     (if jobs c = [] then (True, c, [])
      else case handle_read_jobs (fenv (cm_env env)) (cm_grab (cm_env env)) (jobs c) fs \<lparr>sent = [], broken = brk\<rparr> of
        (r, js, st) \<Rightarrow> (case r of Inl _ \<Rightarrow> False | Inr _ \<Rightarrow> True, c\<lparr>jobs := js\<rparr>, map Send (sent st)))"

text \<open>The result says first whether the connection goes on.\<close>

fun fc_step :: "FcEnv \<Rightarrow> fc_event \<Rightarrow> FileConn \<Rightarrow> Fs \<Rightarrow> (bool \<times> FileConn \<times> Fs \<times> fc_out list) option" where
  "fc_step env (FileAction a) c fs =
     (case on_file_action env a c fs of None \<Rightarrow> None | Some (c1, fs1, out) \<Rightarrow> Some (True, c1, fs1, out))"
| "fc_step env (FileResponse r) c fs = Some (True, c, fs, on_file_response r)"
| "fc_step env (FromCm a) c fs = (case on_cm_answer a c of (c1, out) \<Rightarrow> Some (True, c1, fs, out))"
| "fc_step env (FileTick brk) c fs = (case file_tick env brk c fs of (go, c1, out) \<Rightarrow> Some (go, c1, fs, out))"
| "fc_step env SecondTick c fs =
     (case remove_log_on_timer (secs env) (remove_log c) of (out, l) \<Rightarrow> Some (True, c\<lparr>remove_log := l\<rparr>, fs, out))"

fun fc_run :: "(FcEnv \<times> fc_event) list \<Rightarrow> FileConn \<Rightarrow> Fs \<Rightarrow> (FileConn \<times> Fs \<times> fc_out list) option" where
  "fc_run [] c fs = Some (c, fs, [])"
| "fc_run ((env, e) # es) c fs =
     (case fc_step env e c fs of
        None \<Rightarrow> None
      | Some (go, c1, fs1, out) \<Rightarrow>
          if \<not> go then Some (c1, fs1, out)
          else (case fc_run es c1 fs1 of None \<Rightarrow> None | Some (c2, fs2, out2) \<Rightarrow> Some (c2, fs2, out @ out2)))"

section \<open>Whose data is sent\<close>

text \<open>The jobs whose data may leave, the jobs an event starts, and the jobs whose data it sends.\<close>

definition live :: "FileConn \<Rightarrow> int set" where
  "live c = job_id ` set (jobs c) \<union> cm_read_job_ids c"

definition blocks :: "fc_out list \<Rightarrow> int set" where
  "blocks out = {blk_id b |b. Send (MsgBlock b) \<in> set out}"

fun asked :: "fc_event \<Rightarrow> int set" where
  "asked (FileAction (ASend i _ _ _ _)) = {i}"
| "asked _ = {}"

fun relayed :: "fc_event \<Rightarrow> int set" where
  "relayed (FromCm (RawMessage (MsgBlock b))) = {blk_id b}"
| "relayed _ = {}"

lemma live_simps [simp]:
  "live (c\<lparr>file_transferred := b\<rparr>) = live c" "live (c\<lparr>printer_data := p\<rparr>) = live c" "live (c\<lparr>remove_log := l\<rparr>) = live c"
  "live (c\<lparr>delayed_read_dir := d\<rparr>) = live c" "live (c\<lparr>jobs := js\<rparr>) = job_id ` set js \<union> cm_read_job_ids c"
  by (simp_all add: live_def)

lemma blocks_simps [simp]:
  "blocks [] = {}" "blocks (x # xs) = (case x of Send (MsgBlock b) \<Rightarrow> {blk_id b} | _ \<Rightarrow> {}) \<union> blocks xs"
  "blocks (xs @ ys) = blocks xs \<union> blocks ys"
  by (auto simp: blocks_def split: fc_out.splits FileMessage.splits)

lemma send_msgs: "send m out = (r, out') \<Longrightarrow> sent out' = sent out \<or> sent out' = sent out @ [m]"
  by (auto simp: send_def split: if_splits)

lemma open_data_stream_id: "open_data_stream j fs = (r, j1) \<Longrightarrow> job_id j1 = job_id j"
  by (auto simp: open_data_stream_def split: DataSource.splits if_splits sum.splits)

lemma init_data_stream_id:
  assumes "init_data_stream j fs out = (r, j1, out1)"
  shows "job_id j1 = job_id j \<and> (\<exists>ms. sent out1 = sent out @ ms \<and> blocks (map Send ms) = {})"
proof -
  obtain q j2 where o: "open_data_stream j fs = (q, j2)" by fastforce
  have "job_id j2 = job_id j" by (rule open_data_stream_id [OF o])
  with assms o show ?thesis
    by (auto simp: init_data_stream_def send_current_digest_def send_def split: sum.splits bool.splits if_splits)
qed

lemma init_jobs_ids:
  "init_jobs js fs out = (r, js', out') \<Longrightarrow>
     map job_id js' = map job_id js \<and> (\<exists>ms. sent out' = sent out @ ms \<and> blocks (map Send ms) = {})"
proof (induction js arbitrary: out r js' out')
  case (Cons j js)
  show ?case
  proof (cases "is_last_job j")
    case True
    with Cons show ?thesis by (auto split: prod.splits)
  next
    case False
    obtain q j1 out1 where i: "init_data_stream j fs out = (q, j1, out1)" by (metis prod_cases3)
    obtain ms where ms: "job_id j1 = job_id j" "sent out1 = sent out @ ms" "blocks (map Send ms) = {}"
      using init_data_stream_id [OF i] by blast
    show ?thesis
    proof (cases q)
      case (Inr u)
      obtain r2 js2 out2 where h: "init_jobs js fs out1 = (r2, js2, out2)" by (metis prod_cases3)
      with Cons.IH [OF h] Cons.prems False i Inr ms show ?thesis by auto
    next
      case (Inl e)
      obtain r1 out2 where s: "send (new_error (job_id j1) e (file_num j1)) out1 = (r1, out2)" by fastforce
      then obtain ms2 where ms2: "sent out2 = sent out @ ms2" "blocks (map Send ms2) = {}"
        using ms send_msgs [OF s] by (auto simp: new_error_def)
      show ?thesis
      proof (cases r1)
        case (Inl e2)
        with Cons.prems False i \<open>q = Inl e\<close> s ms ms2 show ?thesis by auto
      next
        case (Inr u)
        obtain r2 js2 out3 where h: "init_jobs js fs out2 = (r2, js2, out3)" by (metis prod_cases3)
        with Cons.IH [OF h] Cons.prems False i \<open>q = Inl e\<close> s Inr ms ms2 show ?thesis by auto
      qed
    qed
  qed
qed auto

lemma next_file_id: "job_id (next_file j) = job_id j"
  by (simp add: next_file_def Let_def)

lemma read_block_ids:
  "read_block env grab j fs = (r, j1) \<Longrightarrow> job_id j1 = job_id j \<and> (\<forall>b. r = Inr (Some b) \<longrightarrow> blk_id b = job_id j)"
  by (auto simp: read_block_def Let_def next_file_id split: if_splits option.splits sum.splits prod.splits)

lemma read_first_ids:
  "read_first env grab js fs out = (r, js', out') \<Longrightarrow>
     map job_id js' = map job_id js \<and> (\<exists>ms. sent out' = sent out @ ms \<and> blocks (map Send ms) \<subseteq> job_id ` set js)"
proof (induction js arbitrary: r js' out')
  case (Cons j js)
  show ?case
  proof (cases "is_last_job j")
    case True
    obtain r2 js2 out2 where h: "read_first env grab js fs out = (r2, js2, out2)" by (metis prod_cases3)
    with Cons.IH [OF h] Cons.prems True show ?thesis by auto
  next
    case False
    obtain q j1 where b: "read_block env grab j fs = (q, j1)" by fastforce
    note ids = read_block_ids [OF b]
    have "map job_id js' = map job_id (j # js) \<and> (sent out' = sent out \<or> (\<exists>m. sent out' = sent out @ [m] \<and>
        blocks [Send m] \<subseteq> {job_id j}))"
      using Cons.prems False b ids
      by (auto simp: send_def new_error_def new_done_def new_block_def split: sum.splits option.splits if_splits)
    then show ?thesis by (elim conjE disjE exE) auto
  qed
qed auto

lemma remove_job_ids: "remove_job i js = (r, js') \<Longrightarrow> job_id ` set js' \<subseteq> job_id ` set js"
proof -
  have "set (snd (remove_job i js)) \<subseteq> set js" by (induction js) (auto split: prod.splits)
  then show "remove_job i js = (r, js') \<Longrightarrow> job_id ` set js' \<subseteq> job_id ` set js" by auto
qed

lemma remove_jobs_ids: "job_id ` set (fold (\<lambda>i js. snd (remove_job i js)) fin js) \<subseteq> job_id ` set js"
proof (induction fin arbitrary: js)
  case (Cons i fin)
  obtain r js' where h: "remove_job i js = (r, js')" by fastforce
  with Cons [of js'] remove_job_ids [OF h] show ?case by auto
qed simp

lemma remove_job_forgets: "distinct (map job_id js) \<Longrightarrow> remove_job i js = (r, js') \<Longrightarrow> i \<notin> job_id ` set js'"
  by (induction js arbitrary: js') (auto split: if_splits prod.splits)

lemma file_tick_ids:
  assumes "file_tick env brk c fs = (go, c', out)"
  shows "live c' \<subseteq> live c" and "blocks out \<subseteq> live c" and "cm_read_job_ids c' = cm_read_job_ids c"
proof -
  let ?env = "fenv (cm_env env)" and ?g = "cm_grab (cm_env env)" and ?st = "\<lparr>sent = [], broken = brk\<rparr>"
  obtain r js st where h: "handle_read_jobs ?env ?g (jobs c) fs ?st = (r, js, st)" by (metis prod_cases3)
  obtain q js1 out1 where i: "init_jobs (jobs c) fs ?st = (q, js1, out1)" by (metis prod_cases3)
  obtain ms where ms: "map job_id js1 = map job_id (jobs c)" "sent out1 = ms" "blocks (map Send ms) = {}"
    using init_jobs_ids [OF i] by auto
  have ids: "job_id ` set js1 = job_id ` set (jobs c)" using ms(1) by (metis image_set)
  obtain q2 js2 out2 where f: "read_first ?env ?g js1 fs out1 = (q2, js2, out2)" by (metis prod_cases3)
  obtain ms2 where ms2: "map job_id js2 = map job_id js1" "sent out2 = ms @ ms2" "blocks (map Send ms2) \<subseteq> job_id ` set js1"
    using read_first_ids [OF f] ms by auto
  have ids2: "job_id ` set js2 = job_id ` set (jobs c)" using ms2(1) ids by (metis image_set)
  have "job_id ` set js \<subseteq> job_id ` set (jobs c) \<and> blocks (map Send (sent st)) \<subseteq> job_id ` set (jobs c)"
    using h i f ms ms2 ids ids2 remove_jobs_ids
    by (auto simp: handle_read_jobs_def split: sum.splits prod.splits) (metis image_eqI subsetD remove_jobs_ids)+
  with assms h show "live c' \<subseteq> live c" "blocks out \<subseteq> live c" "cm_read_job_ids c' = cm_read_job_ids c"
    by (auto simp: file_tick_def live_def split: if_splits)
qed

lemma confirm_id: "confirm r j fs = Some (j', fs') \<Longrightarrow> job_id j' = job_id j"
  by (auto simp: confirm_def set_stream_offset_def set_file_skipped_def set_file_confirmed_def set_file_is_waiting_def Let_def
      split: if_splits option.splits confirm_union.splits DataSource.splits sum.splits prod.splits)

lemma confirm_first_ids: "confirm_first r js fs = Some (js', fs') \<Longrightarrow> map job_id js' = map job_id js"
  by (induction js arbitrary: js') (auto split: if_splits option.splits dest: confirm_id)

lemma new_read_id: "new_read mt fs i t rem src num h rm dt = Inr job \<Longrightarrow> job_id job = i"
  by (auto simp: new_read_def split: DataSource.splits sum.splits)

lemma create_and_start_read_job_ids:
  assumes "create_and_start_read_job env fs i t src num h dt p lim c = (c', out)"
  shows "live c' \<subseteq> live c \<union> {i}" and "blocks out = {}"
  using assms new_read_id [of "mtimes (cm_env env)" fs i t "[]" src num h False dt]
  by (auto simp: create_and_start_read_job_def process_new_read_job_def live_def new_error_def new_dir_def split: sum.splits)

lemma send_action_ids:
  assumes "send_action env fs i p num h t c = (c', out)"
  shows "live c' \<subseteq> live c \<union> {i}" and "blocks out = {}"
proof -
  have "live c' \<subseteq> live c \<union> {i} \<and> blocks out = {}"
  proof (cases "job_type_from_i32 t")
    case Generic
    show ?thesis
    proof (cases "need_fs_cm env")
      case True
      with assms Generic show ?thesis by (auto simp: send_action_def live_def)
    next
      case False
      obtain c1 out1 where h: "create_and_start_read_job env fs i Generic (FilePath p) num h (detects c) p True c = (c1, out1)" by fastforce
      with create_and_start_read_job_ids [OF h] assms Generic False show ?thesis by (auto simp: send_action_def)
    qed
  next
    case Printer
    show ?thesis
    proof (cases "List.extract (\<lambda>x. fst (snd x) = p) (printer_data c)")
      case None
      with assms Printer show ?thesis by (auto simp: send_action_def)
    next
      case (Some y)
      obtain b x a where y: "y = (b, x, a)" by (metis prod_cases3)
      obtain c1 out1 where h: "create_and_start_read_job env fs i Printer (MemoryCursor (snd (snd x)) 0) num h True p False
          (c\<lparr>printer_data := b @ a\<rparr>) = (c1, out1)" by fastforce
      with create_and_start_read_job_ids [OF h] assms Printer Some y show ?thesis by (auto simp: send_action_def)
    qed
  qed
  then show "live c' \<subseteq> live c \<union> {i}" "blocks out = {}" by auto
qed

lemma file_action_body_ids:
  assumes "file_action_body env a c fs = Some (c', fs', out)"
  shows "live c' \<subseteq> live c \<union> asked (FileAction a) \<and> blocks out = {}"
proof (cases a)
  case (ASend i p num h t)
  obtain c1 out1 where s: "send_action env fs i p num h t c = (c1, out1)" by fastforce
  with send_action_ids [OF s] ASend assms show ?thesis by auto
next
  case (ACancel i)
  obtain r js where h: "remove_job i (jobs c) = (r, js)" by fastforce
  with remove_job_ids [OF h] ACancel assms show ?thesis by (auto simp: live_def split: option.splits)
next
  case (ASendConfirm r)
  show ?thesis
  proof (cases "get_job (cf_id r) (jobs c)")
    case None
    with ASendConfirm assms show ?thesis by (auto split: if_splits)
  next
    case (Some j)
    with ASendConfirm assms obtain js where h: "confirm_first r (jobs c) fs = Some (js, fs')" "c' = c\<lparr>jobs := js\<rparr>" "out = []"
      by (auto split: option.splits)
    have "job_id ` set js = job_id ` set (jobs c)" using confirm_first_ids [OF h(1)] by (metis image_set)
    then show ?thesis by (simp add: h(2,3) live_def)
  qed
qed (use assms in \<open>auto simp: live_def new_error_def new_dir_def split: sum.splits if_splits\<close>)

lemma fc_step_ids:
  assumes "fc_step env e c fs = Some (go, c', fs', out)"
  shows "live c' \<subseteq> live c \<union> asked e" and "blocks out \<subseteq> live c \<union> relayed e"
proof -
  have "live c' \<subseteq> live c \<union> asked e \<and> blocks out \<subseteq> live c \<union> relayed e"
  proof (cases e)
    case (FileAction a)
    with assms obtain c1 fs1 where o: "on_file_action env a c fs = Some (c', fs', out)" by (auto split: option.splits)
    then show ?thesis
      using file_action_body_ids [of env a c fs c' fs' out] FileAction
      by (auto simp: on_file_action_def live_def new_error_def split: if_splits option.splits file_action.splits)
  next
    case (FileResponse r)
    with assms show ?thesis by (cases r) auto
  next
    case (FromCm a)
    with assms show ?thesis
      by (cases a) (auto simp: live_def handle_read_job_init_result_def handle_file_block_from_cm_def handle_file_read_done_def
          handle_file_read_error_def handle_file_digest_from_cm_def handle_all_files_result_def new_error_def new_dir_def
          split: if_splits sum.splits FileMessage.splits)
  next
    case (FileTick brk)
    obtain g c1 out1 where t: "file_tick env brk c fs = (g, c1, out1)" by (metis prod_cases3)
    with file_tick_ids [OF t] FileTick assms show ?thesis by auto
  next
    case SecondTick
    with assms show ?thesis
      by (auto simp: live_def remove_log_on_timer_def blocks_def split: if_splits)
  qed
  then show "live c' \<subseteq> live c \<union> asked e" "blocks out \<subseteq> live c \<union> relayed e" by auto
qed

lemma fc_run_silent:
  assumes "fc_run es c fs = Some (c', fs', out)" "i \<notin> live c" "\<forall>(env, e) \<in> set es. i \<notin> asked e \<union> relayed e"
  shows "i \<notin> blocks out"
  using assms
proof (induction es arbitrary: c fs out)
  case (Cons x es)
  obtain env e where x: "x = (env, e)" by fastforce
  from Cons.prems(1) x obtain go c1 fs1 out1 where s: "fc_step env e c fs = Some (go, c1, fs1, out1)" by (auto split: option.splits)
  have i: "i \<notin> asked e" "i \<notin> relayed e" using Cons.prems(3) x by auto
  have "i \<notin> blocks out1" "i \<notin> live c1" using fc_step_ids [OF s] Cons.prems(2) i by auto
  moreover have "\<forall>(env, e) \<in> set es. i \<notin> asked e \<union> relayed e" using Cons.prems(3) by simp
  ultimately show ?case using Cons.IH [of c1 fs1] Cons.prems(1) x s by (auto split: if_splits option.splits)
qed simp

text \<open>C13: once the peer cancels a transfer, no block of it leaves the host, whatever the connection manager still delivers and in
  whatever order, until the peer asks for a transfer of that number again.\<close>

theorem cancelled_transfer_silent:
  assumes "is_file_conn c" "delayed_read_dir c = None" "distinct (map job_id (jobs c))"
    and "\<forall>(env, e) \<in> set es. i \<notin> asked e \<union> relayed e"
    and "fc_run ((env, FileAction (ACancel i)) # es) c fs = Some (c', fs', out)"
  shows "\<forall>b. Send (MsgBlock b) \<in> set out \<longrightarrow> blk_id b \<noteq> i"
proof -
  obtain r js where h: "remove_job i (jobs c) = (r, js)" by fastforce
  let ?c = "c\<lparr>cm_read_job_ids := cm_read_job_ids c - {i}, jobs := js\<rparr>"
  from assms(1,2) h obtain out1 where s: "fc_step env (FileAction (ACancel i)) c fs = Some (True, ?c, fs, out1)"
    by (auto simp: on_file_action_def)
  with assms(5) obtain out2 where r: "fc_run es ?c fs = Some (c', fs', out2)" "out = out1 @ out2"
    by (auto split: option.splits)
  have "i \<notin> live ?c" using remove_job_forgets [OF assms(3) h] by (simp add: live_def)
  then have "i \<notin> blocks out2" by (rule fc_run_silent [OF r(1) _ assms(4)])
  moreover have "blocks out1 = {}" using s h assms(1,2) by (auto simp: on_file_action_def split: option.splits if_splits)
  ultimately have "i \<notin> blocks out" by (simp add: r(2))
  then show ?thesis by (auto simp: blocks_def)
qed

section \<open>One way only\<close>

text \<open>The commands that take something from the host or change its files other than by an upload.\<close>

fun takes_or_changes :: "fc_out \<Rightarrow> bool" where
  "takes_or_changes (ToFs (ReadFile _ _ _ _ _ _)) = True"
| "takes_or_changes (ToFs (RemoveDir _ _ _)) = True"
| "takes_or_changes (ToFs (RemoveFile _ _ _)) = True"
| "takes_or_changes (ToFs (CreateDir _ _)) = True"
| "takes_or_changes (ToFs (Rename _ _ _)) = True"
| "takes_or_changes (Send (MsgBlock _)) = True"
| "takes_or_changes _ = False"

lemma fc_step_one_way:
  assumes "fc_step env e c fs = Some (go, c', fs', out)" "one_way_file_transfer env" "live c = {}" "relayed e = {}"
  shows "live c' = {} \<and> (\<forall>x \<in> set out. \<not> takes_or_changes x)"
proof -
  have live: "jobs c = []" "cm_read_job_ids c = {}" using assms(3) by (auto simp: live_def)
  have none: "jobs (c\<lparr>delayed_read_dir := d\<rparr>) = []" for d using live by simp
  show ?thesis
  proof (cases e)
    case (FileAction a)
    with assms(1) have o: "on_file_action env a c fs = Some (c', fs', out)" by (auto split: option.splits)
    show ?thesis
      using o assms(2,3) live by (cases a)
        (auto simp: on_file_action_def live_def get_job_def new_error_def new_dir_def
          split: if_splits option.splits sum.splits)
  next
    case (FileResponse r)
    with assms show ?thesis by (cases r) auto
  next
    case (FromCm a)
    show ?thesis
    proof (cases a)
      case (RawMessage m)
      with FromCm assms show ?thesis by (cases m) auto
    qed (use FromCm assms(1,3) live in \<open>auto simp: live_def handle_read_job_init_result_def handle_file_block_from_cm_def handle_file_read_done_def
          handle_file_read_error_def handle_file_digest_from_cm_def handle_all_files_result_def
          split: if_splits sum.splits\<close>)
  next
    case (FileTick brk)
    with assms(1,3) live show ?thesis by (auto simp: file_tick_def)
  next
    case SecondTick
    with assms(1,3) show ?thesis by (auto simp: remove_log_on_timer_def split: if_splits)
  qed
qed

text \<open>C14: a host that allows files to go one way only gives nothing away and lets nothing be removed, renamed or created, whatever its peer
  asks for: no data block is sent and no such command reaches the connection manager.\<close>

theorem one_way_protects_host:
  assumes "\<forall>(env, e) \<in> set es. one_way_file_transfer env \<and> relayed e = {}" and "jobs c = []" and "cm_read_job_ids c = {}"
    and "fc_run es c fs = Some (c', fs', out)"
  shows "\<forall>x \<in> set out. \<not> takes_or_changes x"
proof -
  have "live c = {}" using assms(2,3) by (simp add: live_def)
  with assms(1,4) show ?thesis
  proof (induction es arbitrary: c fs out)
    case (Cons x es)
    obtain env e where x: "x = (env, e)" by fastforce
    from Cons.prems(2) x obtain go c1 fs1 out1 where s: "fc_step env e c fs = Some (go, c1, fs1, out1)"
      by (auto split: option.splits)
    have "live c1 = {} \<and> (\<forall>x \<in> set out1. \<not> takes_or_changes x)"
      using Cons.prems x by (intro fc_step_one_way [OF s]) auto
    with Cons.IH [of c1 fs1] Cons.prems x s show ?case by (auto split: if_splits option.splits)
  qed simp
qed

section \<open>Examples\<close>

definition example_fc_env :: "bool \<Rightarrow> FcEnv" where
  "example_fc_env oneway = \<lparr>cm_env = example_cm_env, need_fs_cm = True, one_way_file_transfer = oneway, secs = 100\<rparr>"

definition example_fc :: "int set \<Rightarrow> FileConn" where
  "example_fc ids = \<lparr>fc_conn_id = 7, fc_version = ''1.4.2'', is_file_conn = True, delayed_read_dir = None, cm_read_job_ids = ids,
     jobs = [], printer_data = [], file_transferred = False, remove_log = remove_log_new 0\<rparr>"

theorem cancelled_transfer_silent_witness:
  "\<exists>c' fs' out. fc_run [(example_fc_env False, FileAction (ACancel 4)), (example_fc_env False, FromCm (FileBlockFromCM 4 0 [1, 2] False 7)),
       (example_fc_env False, FromCm (FileBlockFromCM 5 0 [3] False 7))] (example_fc {4, 5}) example_tree = Some (c', fs', out) \<and>
     Send (MsgBlock \<lparr>blk_id = 5, blk_file_num = 0, blk_data = [3], blk_compressed = False\<rparr>) \<in> set out \<and>
     Send (MsgBlock \<lparr>blk_id = 4, blk_file_num = 0, blk_data = [1, 2], blk_compressed = False\<rparr>) \<notin> set out"
proof -
  let ?es = "[(example_fc_env False, FromCm (FileBlockFromCM 4 0 [1, 2] False 7)),
    (example_fc_env False, FromCm (FileBlockFromCM 5 0 [3] False 7))]"
  obtain c' fs' out where r: "fc_run ((example_fc_env False, FileAction (ACancel 4)) # ?es) (example_fc {4, 5}) example_tree = Some (c', fs', out)"
    and five: "Send (MsgBlock \<lparr>blk_id = 5, blk_file_num = 0, blk_data = [3], blk_compressed = False\<rparr>) \<in> set out"
    by (simp add: example_fc_def example_fc_env_def on_file_action_def handle_file_block_from_cm_def)
  have "\<forall>b. Send (MsgBlock b) \<in> set out \<longrightarrow> blk_id b \<noteq> 4"
    by (rule cancelled_transfer_silent [OF _ _ _ _ r]) (simp_all add: example_fc_def)
  with r five show ?thesis by fastforce
qed

theorem one_way_protects_host_witness:
  "\<exists>c' fs' out. fc_run [(example_fc_env True, FileAction (ASend 1 ''/d'' 0 True 0)), (example_fc_env True, FileAction (ARemoveFile 2 ''/d/a'' 0))]
       (example_fc {}) example_tree = Some (c', fs', out) \<and> out \<noteq> [] \<and> list_all (\<lambda>x. \<not> takes_or_changes x) out"
proof -
  let ?es = "[(example_fc_env True, FileAction (ASend 1 ''/d'' 0 True 0)), (example_fc_env True, FileAction (ARemoveFile 2 ''/d/a'' 0))]"
  obtain c' fs' out where r: "fc_run ?es (example_fc {}) example_tree = Some (c', fs', out)" and out: "out \<noteq> []"
    by (simp add: example_fc_def example_fc_env_def on_file_action_def)
  have "\<forall>x \<in> set out. \<not> takes_or_changes x"
    by (rule one_way_protects_host [OF _ _ _ r]) (simp_all add: example_fc_def example_fc_env_def)
  with r out show ?thesis by (auto simp: list_all_iff)
qed

end
