(* ===== verification/Conn_Control.thy ===== *)
theory Conn_Control
  imports Login Server Privacy_Mode Clipboard_Files Conn_Files
begin

text \<open>
  What an authorized peer can do with a connection (\<open>src/server/connection.rs\<close>): the permissions and options of a connection with the
  services it is subscribed to, the messages of the peer after the login (input, clipboard, files, display, options, voice), the
  decisions of the connection manager, the timers, and the end of the connection. The build is the desktop one for Linux with
  file clipboard. Effects on the world are listed as values of \<open>effect\<close>; the operating system, the clock and the settings are \<open>CtlEnv\<close>.
  Terminals, video quality and the codec table have theories of their own: here their calls are effects. Logs are left out.
\<close>

section \<open>Messages\<close>

datatype bool_option = NotSet | Yes | No

datatype image_quality = QualityNotSet | QualityValue int

text \<open>An unknown value of an enumeration is \<open>None\<close>.\<close>

record OptionMessage =
  o_image_quality :: "image_quality option"
  o_custom_image_quality :: int
  o_custom_fps :: int
  o_supported_decoding :: "bytes option"
  o_lock_after_session_end :: "bool_option option"
  o_show_remote_cursor :: "bool_option option"
  o_follow_remote_cursor :: "bool_option option"
  o_follow_remote_window :: "bool_option option"
  o_disable_audio :: "bool_option option"
  o_enable_file_transfer :: "bool_option option"
  o_disable_clipboard :: "bool_option option"
  o_disable_keyboard :: "bool_option option"
  o_privacy_mode :: "bool_option option"
  o_block_input :: "bool_option option"
  o_terminal_persistent :: "bool_option option"
  o_show_my_cursor :: "bool_option option"

record MouseEvent =
  mask :: int
  mouse_x :: int
  mouse_y :: int

datatype key_union = ControlKey int | Chr int | Unicode int | Seq string | NoKey

datatype keyboard_mode = LegacyMode | MapMode | TranslateMode | OtherMode

record KeyEvent =
  key_mode :: keyboard_mode
  key :: key_union
  press :: bool
  down :: bool

datatype ctl_msg =
  MouseMsg MouseEvent
| PointerMsg bytes
| KeyMsg KeyEvent
| ClipboardMsg bytes
| MultiClipboardsMsg "bytes list"
| CliprdrMsg "cliprdr_union option"
| FileActionMsg file_action
| FileResponseMsg file_response
| SwitchDisplayMsg nat int int
| CaptureDisplaysMsg "nat list" "nat list" "nat list"
| TogglePrivacyModeMsg bool string
| ChatMsg string
| OptionMsg OptionMessage
| RefreshVideoMsg bool
| RefreshVideoDisplayMsg nat
| VideoReceivedMsg
| RestartMsg
| ShutdownMsg
| AudioFormatMsg bytes
| SwitchSidesRequestMsg "string option"
| ChangeResolutionMsg int int
| ChangeDisplayResolutionMsg nat int int
| AutoAdjustFpsMsg nat
| ClientRecordStatusMsg bool
| MessageQueryMsg nat
| AudioFrameMsg bytes
| VoiceCallRequestMsg bool int
| VoiceCallResponseMsg
| ScreenshotMsg nat string
| TerminalActionMsg bytes
| UnknownMsg

datatype perm = PKeyboard | PClipboard | PAudio | PFile | PRestart | PRecording | PBlockInput

datatype effect =
  InputMouse MouseEvent bool bool
| InputPointer bytes
| InputKey KeyEvent bool
| BlockInput bool
| SetClipboard "bytes list"
| SendClip clip_msg
| AuditClip bool "(string \<times> nat) list"
| ClipEffect clip_effect
| EmptyFileClipboard
| FileOut fc_out
| SendPermission perm bool
| SendPrivacy PrivacyMsg
| PrivacyAct pm_action
| SendBlockInputError bool
| SendDisplayChanged nat
| SendUnsupportedCursor
| SendChat string
| SendSwitchBack
| SendCloseReason string
| SendVoiceCallResponse int bool
| SendVoiceCallRequest bool
| SendRaw bytes
| Reboot
| Shutdown
| SetResolution string int int
| Qos_image_quality int
| Qos_custom_fps nat
| Qos_auto_fps nat
| Qos_record bool
| CodecUpdate bytes
| FrameFetched
| StartAudioThread bytes
| PlayAudio bytes
| VoiceInputDevice bool
| TakeScreenshot nat string
| TerminalPersistent bool
| HandleTerminal bytes
| Whiteboard bool
| RunConnect string string
| CmChat string
| CmVoiceCallIncoming
| CmStartVoiceCall
| CmCloseVoiceCall
| CmClose bool
| LockScreen

section \<open>State\<close>

record Ctl = DisplayConn +
  my_peer_id :: string
  version :: string
  is_authorized :: bool
  authed_as :: "AuthConnType option"
  is_port_forward :: bool
  is_terminal :: bool
  keyboard :: bool
  clipboard :: bool
  audio :: bool
  file_perm :: bool
  restart :: bool
  recording :: bool
  block_input :: bool
  disable_audio :: bool
  disable_clipboard :: bool
  disable_keyboard :: bool
  enable_file_transfer :: bool
  lock_after_session_end :: bool
  show_remote_cursor :: bool
  follow_remote_cursor :: bool
  show_my_cursor :: bool
  voice_call_request_timestamp :: "int option"
  voice_calling :: bool
  audio_sender :: bool
  pressed_modifiers :: "string set"
  services_subed :: bool
  chat_unanswered :: bool
  auto_disconnect_timer :: "(nat \<times> nat) option"
  ctl_persistent :: bool
  closed :: bool
  fc :: FileConn

record CtlEnv =
  fc_env :: FcEnv
  pm_env :: PmEnv
  pm_creators :: creators
  time_ms :: int
  primary_display :: nat
  camera_there :: bool
  one_way_clipboard :: bool
  allow_auto_disconnect :: string
  auto_disconnect_timeout :: string
  whiteboard_supported :: bool
  display_list :: "string list option"
  display_changed :: "nat \<Rightarrow> bool"
  rdev_modifier :: "int \<Rightarrow> string option"

text \<open>What the connection shares: the server with its services, privacy mode, the copied files, the file system.\<close>

record World =
  srv :: Server
  pm :: pm
  clip_files :: ClipFiles
  wfs :: Fs

section \<open>Permissions\<close>

definition cid :: "'a DisplayConn_scheme \<Rightarrow> int" where "cid c = ConnInner.conn_id (inner c)"

definition peer_keyboard_enabled :: "Ctl \<Rightarrow> bool" where
  "peer_keyboard_enabled c = (keyboard c \<and> \<not> disable_keyboard c)"

definition clipboard_enabled :: "Ctl \<Rightarrow> bool" where
  "clipboard_enabled c = (clipboard c \<and> \<not> disable_clipboard c)"

definition can_sub_clipboard_service :: "CtlEnv \<Rightarrow> Ctl \<Rightarrow> bool" where
  "can_sub_clipboard_service env c = (clipboard_enabled c \<and> peer_keyboard_enabled c \<and> \<not> one_way_clipboard env)"

definition audio_enabled :: "Ctl \<Rightarrow> bool" where
  "audio_enabled c = (audio c \<and> \<not> disable_audio c)"

definition file_transfer_enabled :: "Ctl \<Rightarrow> bool" where
  "file_transfer_enabled c = (file_perm c \<and> enable_file_transfer c)"

definition can_sub_file_clipboard_service :: "CtlEnv \<Rightarrow> Ctl \<Rightarrow> bool" where
  "can_sub_file_clipboard_service env c =
     (clipboard_enabled c \<and> file_transfer_enabled c \<and> \<not> one_way_file_transfer (fc_env env))"

definition is_authed_view_camera_conn :: "Ctl \<Rightarrow> bool" where
  "is_authed_view_camera_conn c = (authed_as c = Some ViewCameraConn)"

definition is_remote_conn :: "Ctl \<Rightarrow> bool" where
  "is_remote_conn c = (\<not> is_file_conn (fc c) \<and> \<not> is_port_forward c \<and> \<not> DisplayConn.view_camera c \<and> \<not> is_terminal c)"

section \<open>Subscriptions\<close>

definition NAME_CURSOR :: string where "NAME_CURSOR = ''mouse_cursor''"
definition NAME_POS :: string where "NAME_POS = ''mouse_pos''"
definition AUDIO_NAME :: string where "AUDIO_NAME = ''audio''"
definition CLIPBOARD_NAME :: string where "CLIPBOARD_NAME = ''clipboard''"
definition FILE_CLIPBOARD_NAME :: string where "FILE_CLIPBOARD_NAME = ''file-clipboard''"

definition sub :: "string \<Rightarrow> bool \<Rightarrow> Ctl \<Rightarrow> World \<Rightarrow> World" where
  "sub n b c w = w\<lparr>srv := subscribe n (inner c) b (srv w)\<rparr>"

definition sub_clipboard :: "CtlEnv \<Rightarrow> Ctl \<Rightarrow> World \<Rightarrow> World" where
  "sub_clipboard env c = sub CLIPBOARD_NAME (can_sub_clipboard_service env c) c"

definition sub_file_clipboard :: "CtlEnv \<Rightarrow> Ctl \<Rightarrow> World \<Rightarrow> World" where
  "sub_file_clipboard env c = sub FILE_CLIPBOARD_NAME (can_sub_file_clipboard_service env c) c"

text \<open>A camera connection hears the host only during a voice call.\<close>

definition sub_audio :: "Ctl \<Rightarrow> World \<Rightarrow> World" where
  "sub_audio c w =
     (if is_authed_view_camera_conn c \<and> \<not> (voice_calling c \<or> \<not> audio_enabled c) then w
      else sub AUDIO_NAME (audio_enabled c) c w)"

definition get_auto_disconnect_timer :: "CtlEnv \<Rightarrow> (nat \<times> nat) option" where
  "get_auto_disconnect_timer env =
     (if allow_auto_disconnect env = ''Y'' then
        (let m = (case parse_usize (auto_disconnect_timeout env) of Some n \<Rightarrow> n | None \<Rightarrow> 10)
         in Some (secs (fc_env env), if m = 0 then 10 else m))
      else None)"

definition update_auto_disconnect_timer :: "CtlEnv \<Rightarrow> Ctl \<Rightarrow> Ctl" where
  "update_auto_disconnect_timer env c =
     c\<lparr>auto_disconnect_timer := map_option (\<lambda>(_, m). (secs (fc_env env), m)) (auto_disconnect_timer c)\<rparr>"

definition noperms_of :: "CtlEnv \<Rightarrow> Ctl \<Rightarrow> string list" where
  "noperms_of env c =
     (if \<not> peer_keyboard_enabled c \<and> \<not> show_remote_cursor c then [NAME_CURSOR] else []) @
     (if \<not> show_remote_cursor c then [NAME_POS] else []) @
     (if \<not> follow_remote_window c then [NAME_WINDOW_FOCUS] else []) @
     (if \<not> can_sub_clipboard_service env c then [CLIPBOARD_NAME] else []) @
     (if \<not> can_sub_file_clipboard_service env c then [FILE_CLIPBOARD_NAME] else []) @
     (if \<not> audio_enabled c then [AUDIO_NAME] else [])"

definition try_sub_monitor_services :: "CtlEnv \<Rightarrow> Ctl \<Rightarrow> World \<Rightarrow> Ctl \<times> World" where
  "try_sub_monitor_services env c w =
     (if is_remote_conn c \<and> \<not> services_subed c then
        (c\<lparr>services_subed := True, auto_disconnect_timer := get_auto_disconnect_timer env\<rparr>,
         w\<lparr>srv := add_connection (primary_display env) (inner c) (noperms_of env c)
             (try_add_primay_video_service (primary_display env) (srv w))\<rparr>)
      else (c, w))"

definition try_sub_camera_displays :: "CtlEnv \<Rightarrow> Ctl \<Rightarrow> World \<Rightarrow> World" where
  "try_sub_camera_displays env c w =
     w\<lparr>srv := add_camera_connection (camera_there env) (inner c) (try_add_primary_camera_service (camera_there env) (srv w))\<rparr>"

section \<open>Options\<close>

text \<open>The options of the peer are applied one after the other. Each is left alone when it is not set or not known.\<close>

type_synonym ctl_state = "Ctl \<times> World \<times> effect list"

definition on_option :: "bool_option option \<Rightarrow> (bool \<Rightarrow> ctl_state \<Rightarrow> ctl_state) \<Rightarrow> ctl_state \<Rightarrow> ctl_state" where
  "on_option q f s = (case q of Some Yes \<Rightarrow> f True s | Some No \<Rightarrow> f False s | _ \<Rightarrow> s)"

definition emit :: "effect list \<Rightarrow> ctl_state \<Rightarrow> ctl_state" where
  "emit es s = (case s of (c, w, out) \<Rightarrow> (c, w, out @ es))"

definition opt_quality :: "OptionMessage \<Rightarrow> ctl_state \<Rightarrow> ctl_state" where
  "opt_quality opts s =
     (case o_image_quality opts of
        None \<Rightarrow> s
      | Some q \<Rightarrow>
          (let v = (case q of
                      QualityNotSet \<Rightarrow> if o_custom_image_quality opts > 0 then o_custom_image_quality opts else -1
                    | QualityValue v \<Rightarrow> v)
           in if v > 0 then emit [Qos_image_quality v] s else s))"

definition opt_fps :: "OptionMessage \<Rightarrow> ctl_state \<Rightarrow> ctl_state" where
  "opt_fps opts s = (if o_custom_fps opts > 0 then emit [Qos_custom_fps (nat (o_custom_fps opts))] s else s)"

definition opt_decoding :: "OptionMessage \<Rightarrow> ctl_state \<Rightarrow> ctl_state" where
  "opt_decoding opts s = (case o_supported_decoding opts of None \<Rightarrow> s | Some d \<Rightarrow> emit [CodecUpdate d] s)"

definition opt_lock :: "bool \<Rightarrow> ctl_state \<Rightarrow> ctl_state" where
  "opt_lock b s = (case s of (c, w, out) \<Rightarrow> (c\<lparr>lock_after_session_end := b\<rparr>, w, out))"

definition opt_cursor :: "bool \<Rightarrow> ctl_state \<Rightarrow> ctl_state" where
  "opt_cursor b s =
     (case s of (c, w, out) \<Rightarrow>
        (let c1 = c\<lparr>show_remote_cursor := b\<rparr>
         in (c1, sub NAME_POS (show_remote_cursor c1) c1
               (sub NAME_CURSOR (peer_keyboard_enabled c1 \<or> show_remote_cursor c1) c1 w), out)))"

definition opt_follow_cursor :: "bool \<Rightarrow> ctl_state \<Rightarrow> ctl_state" where
  "opt_follow_cursor b s = (case s of (c, w, out) \<Rightarrow> (c\<lparr>follow_remote_cursor := b\<rparr>, w, out))"

definition opt_follow_window :: "bool \<Rightarrow> ctl_state \<Rightarrow> ctl_state" where
  "opt_follow_window b s =
     (case s of (c, w, out) \<Rightarrow>
        (let c1 = c\<lparr>follow_remote_window := b\<rparr> in (c1, sub NAME_WINDOW_FOCUS (follow_remote_window c1) c1 w, out)))"

definition opt_audio :: "bool \<Rightarrow> ctl_state \<Rightarrow> ctl_state" where
  "opt_audio b s =
     (case s of (c, w, out) \<Rightarrow> (let c1 = c\<lparr>disable_audio := b\<rparr> in (c1, sub_audio c1 w, out)))"

definition opt_file_transfer :: "CtlEnv \<Rightarrow> bool \<Rightarrow> ctl_state \<Rightarrow> ctl_state" where
  "opt_file_transfer env b s =
     (case s of (c, w, out) \<Rightarrow>
        (let c1 = c\<lparr>enable_file_transfer := b\<rparr>
         in (c1, sub_file_clipboard env c1 w, out @ (if \<not> b then [EmptyFileClipboard] else []))))"

definition opt_clipboard :: "CtlEnv \<Rightarrow> bool \<Rightarrow> ctl_state \<Rightarrow> ctl_state" where
  "opt_clipboard env b s =
     (case s of (c, w, out) \<Rightarrow> (let c1 = c\<lparr>disable_clipboard := b\<rparr> in (c1, sub_clipboard env c1 w, out)))"

definition opt_keyboard :: "CtlEnv \<Rightarrow> bool \<Rightarrow> ctl_state \<Rightarrow> ctl_state" where
  "opt_keyboard env b s =
     (case s of (c, w, out) \<Rightarrow>
        (let c1 = c\<lparr>disable_keyboard := b\<rparr>
         in (c1, sub NAME_CURSOR (peer_keyboard_enabled c1 \<or> show_remote_cursor c1) c1
               (sub_file_clipboard env c1 (sub_clipboard env c1 w)), out)))"

text \<open>Privacy mode as an option is for peers before 1.2.4.\<close>

definition privacy :: "CtlEnv \<Rightarrow> bool \<Rightarrow> string \<Rightarrow> ctl_state \<Rightarrow> ctl_state" where
  "privacy env b k s =
     (case s of (c, w, out) \<Rightarrow>
        (case toggle_privacy_mode (pm_creators env) (pm_env env) b k (cid c) (pm w) of
           (ms, m, as) \<Rightarrow> (c, w\<lparr>pm := m\<rparr>, out @ map PrivacyAct as @ map SendPrivacy ms)))"

definition opt_privacy :: "CtlEnv \<Rightarrow> bool \<Rightarrow> ctl_state \<Rightarrow> ctl_state" where
  "opt_privacy env b s = (if keyboard (fst s) then privacy env b [] s else s)"

definition opt_block_input :: "bool \<Rightarrow> ctl_state \<Rightarrow> ctl_state" where
  "opt_block_input b s =
     (if keyboard (fst s) \<and> block_input (fst s) then emit [BlockInput b] s else emit [SendBlockInputError b] s)"

definition opt_persistent :: "bool \<Rightarrow> ctl_state \<Rightarrow> ctl_state" where
  "opt_persistent b s = (case s of (c, w, out) \<Rightarrow> (c\<lparr>ctl_persistent := b\<rparr>, w, out @ [TerminalPersistent b]))"

definition opt_my_cursor :: "CtlEnv \<Rightarrow> bool \<Rightarrow> ctl_state \<Rightarrow> ctl_state" where
  "opt_my_cursor env b s =
     (case s of (c, w, out) \<Rightarrow>
        (c\<lparr>show_my_cursor := b\<rparr>, w,
         out @ (if whiteboard_supported env then [Whiteboard b] else if b then [SendUnsupportedCursor] else [])))"

definition update_options :: "CtlEnv \<Rightarrow> OptionMessage \<Rightarrow> ctl_state \<Rightarrow> ctl_state" where
  "update_options env opts s =
     (let s = opt_quality opts s;
          s = opt_fps opts s;
          s = opt_decoding opts s;
          s = on_option (o_lock_after_session_end opts) opt_lock s;
          s = on_option (o_show_remote_cursor opts) opt_cursor s;
          s = on_option (o_follow_remote_cursor opts) opt_follow_cursor s;
          s = on_option (o_follow_remote_window opts) opt_follow_window s;
          s = on_option (o_disable_audio opts) opt_audio s;
          s = on_option (o_enable_file_transfer opts) (opt_file_transfer env) s;
          s = on_option (o_disable_clipboard opts) (opt_clipboard env) s;
          s = on_option (o_disable_keyboard opts) (opt_keyboard env) s;
          s = (if get_version_number (version (fst s)) < get_version_number ''1.2.4''
               then on_option (o_privacy_mode opts) (opt_privacy env) s else s);
          s = on_option (o_block_input opts) opt_block_input s;
          s = on_option (o_terminal_persistent opts) opt_persistent s
      in on_option (o_show_my_cursor opts) (opt_my_cursor env) s)"

section \<open>Voice calls\<close>

definition handle_voice_call :: "bool \<Rightarrow> ctl_state \<Rightarrow> ctl_state" where
  "handle_voice_call accepted s =
     (case s of (c, w, out) \<Rightarrow>
        (case voice_call_request_timestamp c of
           None \<Rightarrow> s
         | Some ts \<Rightarrow>
             (let c1 = c\<lparr>voice_call_request_timestamp := None, voice_calling := accepted\<rparr>
              in (c1, if is_authed_view_camera_conn c1 then sub AUDIO_NAME (audio_enabled c1 \<and> accepted) c1 w else w,
                  out @ (if accepted then [VoiceInputDevice True, CmStartVoiceCall] else [CmCloseVoiceCall]) @
                    [SendVoiceCallResponse ts accepted]))))"

definition close_voice_call :: "ctl_state \<Rightarrow> ctl_state" where
  "close_voice_call s =
     (case s of (c, w, out) \<Rightarrow>
        (let c1 = c\<lparr>voice_calling := False\<rparr>
         in (c1, if is_authed_view_camera_conn c1 then sub AUDIO_NAME False c1 w else w,
             out @ [VoiceInputDevice False, CmCloseVoiceCall])))"

definition voice_call_request :: "CtlEnv \<Rightarrow> bool \<Rightarrow> int \<Rightarrow> ctl_state \<Rightarrow> ctl_state" where
  "voice_call_request env connect ts s =
     (if connect then
        (case s of (c, w, out) \<Rightarrow>
           (c\<lparr>voice_call_request_timestamp := Some (if ts = 0 then time_ms env else ts)\<rparr>, w, out @ [CmVoiceCallIncoming]))
      else close_voice_call s)"

section \<open>Input\<close>

definition on_mouse :: "CtlEnv \<Rightarrow> MouseEvent \<Rightarrow> ctl_state \<Rightarrow> ctl_state" where
  "on_mouse env me s =
     (case s of (c, w, out) \<Rightarrow>
        if is_authed_view_camera_conn c then s
        else (update_auto_disconnect_timer env c, w,
              out @ (if peer_keyboard_enabled c then [InputMouse me True (show_my_cursor c)]
                     else if show_my_cursor c then [InputMouse me False True] else [])))"

definition on_pointer :: "CtlEnv \<Rightarrow> bytes \<Rightarrow> ctl_state \<Rightarrow> ctl_state" where
  "on_pointer env pde s =
     (case s of (c, w, out) \<Rightarrow>
        if is_authed_view_camera_conn c then s
        else (update_auto_disconnect_timer env c, w, out @ (if peer_keyboard_enabled c then [InputPointer pde] else [])))"

text \<open>The control keys Alt, Shift, Control, Meta and their right-hand versions, by their protocol numbers.\<close>

definition is_modifier_event :: "KeyEvent \<Rightarrow> bool" where
  "is_modifier_event me =
     (case key me of ControlKey v \<Rightarrow> v \<in> set [1, 29, 4, 23, 75, 73, 74, 64] | _ \<Rightarrow> False)"

definition modifier_key :: "CtlEnv \<Rightarrow> KeyEvent \<Rightarrow> string option" where
  "modifier_key env me =
     (case key_mode me of
        MapMode \<Rightarrow> rdev_modifier env (case key me of Chr v \<Rightarrow> v | _ \<Rightarrow> 0)
      | TranslateMode \<Rightarrow> (case key me of Chr v \<Rightarrow> rdev_modifier env (v mod 65536) | _ \<Rightarrow> None)
      | _ \<Rightarrow> None)"

definition on_key :: "CtlEnv \<Rightarrow> KeyEvent \<Rightarrow> ctl_state \<Rightarrow> ctl_state" where
  "on_key env me s =
     (case s of (c, w, out) \<Rightarrow>
        if is_authed_view_camera_conn c then s
        else if \<not> peer_keyboard_enabled c then (update_auto_disconnect_timer env c, w, out)
        else
          (let k = modifier_key env me;
               is_press = ((press me \<or> down me) \<and> \<not> (is_modifier_event me \<or> k \<noteq> None));
               mods = (case k of
                         None \<Rightarrow> pressed_modifiers c
                       | Some m \<Rightarrow> if is_press then insert m (pressed_modifiers c) else pressed_modifiers c - {m});
               as_press = (is_press \<and> (case key me of Unicode _ \<Rightarrow> False | Seq _ \<Rightarrow> False | _ \<Rightarrow> True))
           in (update_auto_disconnect_timer env (c\<lparr>pressed_modifiers := mods\<rparr>), w, out @ [InputKey me as_press])))"

section \<open>Clipboard and displays\<close>

definition is_support_file_copy_paste :: "string \<Rightarrow> bool" where
  "is_support_file_copy_paste v = (get_version_number v \<ge> get_version_number ''1.3.8'')"

definition clip_answer :: "clip_msg \<Rightarrow> effect" where
  "clip_answer m = (case m of Cliprdr (Some (CFiles l)) \<Rightarrow> AuditClip True l | _ \<Rightarrow> SendClip m)"

definition on_cliprdr :: "cliprdr_union option \<Rightarrow> ctl_state \<Rightarrow> ctl_state option" where
  "on_cliprdr u s =
     (case s of (c, w, out) \<Rightarrow>
        (case u of
           Some (CFiles l) \<Rightarrow> Some (c, w, out @ [AuditClip False l])
         | _ \<Rightarrow>
             (case msg_2_clip u of
                None \<Rightarrow> Some s
              | Some clip \<Rightarrow>
                  if \<not> is_support_file_copy_paste (version c) then Some s
                  else (case serve_clip_messages (wfs w) clip (clip_files w) of
                          None \<Rightarrow> None
                        | Some (ms, cf, es) \<Rightarrow> Some (c, w\<lparr>clip_files := cf\<rparr>, out @ map ClipEffect es @ map clip_answer ms)))))"

text \<open>A message about the files copied on the host goes to the peer unless file transfer is off or one way.\<close>

definition handle_file_clip :: "CtlEnv \<Rightarrow> ClipboardFile \<Rightarrow> ctl_state \<Rightarrow> ctl_state" where
  "handle_file_clip env clip s =
     (case s of (c, w, out) \<Rightarrow>
        if is_stopping_allowed clip \<and> \<not> file_transfer_enabled c then s
        else if is_beginning_message clip \<and> one_way_file_transfer (fc_env env) then s
        else (c, w, out @ [SendClip (clip_2_msg (wfs w) clip)]))"

definition change_resolution :: "CtlEnv \<Rightarrow> nat option \<Rightarrow> int \<Rightarrow> int \<Rightarrow> ctl_state \<Rightarrow> ctl_state" where
  "change_resolution env d wd ht s =
     (case s of (c, w, out) \<Rightarrow>
        if \<not> keyboard c then s
        else (case display_list env of
                None \<Rightarrow> s
              | Some ds \<Rightarrow>
                  (let i = (case d of Some i \<Rightarrow> i | None \<Rightarrow> display_idx c)
                   in if i < length ds then emit [SetResolution (ds ! i) wd ht] s else s)))"

definition display_message :: "CtlEnv \<Rightarrow> nat \<Rightarrow> ctl_state \<Rightarrow> ctl_state" where
  "display_message env d s = (if display_changed env d then emit [SendDisplayChanged d] s else s)"

definition handle_switch_display :: "CtlEnv \<Rightarrow> nat \<Rightarrow> int \<Rightarrow> int \<Rightarrow> ctl_state \<Rightarrow> ctl_state" where
  "handle_switch_display env d wd ht s =
     (case s of (c, w, out) \<Rightarrow>
        if display_idx c = d then s
        else
          (let (dc, sv) = switch_display_to (primary_display env) d (DisplayConn.truncate c) (srv w);
               s1 = (c\<lparr>display_idx := display_idx dc\<rparr>, w\<lparr>srv := sv\<rparr>, out);
               s2 = (if wd \<noteq> 0 \<and> ht \<noteq> 0 then change_resolution env None wd ht s1 else s1)
           in display_message env (display_idx (fst s2)) s2))"

definition on_capture_displays :: "nat list \<Rightarrow> nat list \<Rightarrow> nat list \<Rightarrow> ctl_state \<Rightarrow> ctl_state" where
  "on_capture_displays add sb st s =
     (case s of (c, w, out) \<Rightarrow>
        (case conn_capture_displays add sb st (DisplayConn.truncate c) (srv w) of
           (dc, sv) \<Rightarrow> (c\<lparr>multi_ui_session := multi_ui_session dc\<rparr>, w\<lparr>srv := sv\<rparr>, out)))"

definition on_refresh :: "nat option \<Rightarrow> ctl_state \<Rightarrow> ctl_state" where
  "on_refresh d s = (case s of (c, w, out) \<Rightarrow> (c, w\<lparr>srv := refresh_video_display d (DisplayConn.truncate c) (srv w)\<rparr>, out))"

definition touch :: "CtlEnv \<Rightarrow> ctl_state \<Rightarrow> ctl_state" where
  "touch env s = (case s of (c, w, out) \<Rightarrow> (update_auto_disconnect_timer env c, w, out))"

section \<open>The end of a connection\<close>

definition on_close :: "bool \<Rightarrow> ctl_state \<Rightarrow> ctl_state" where
  "on_close lock s =
     (case s of (c, w, out) \<Rightarrow>
        if closed c then s
        else (c\<lparr>closed := True, is_port_forward := False\<rparr>, w,
              out @ [VoiceInputDevice False] @ (if lock \<and> lock_after_session_end c \<and> keyboard c then [LockScreen] else []) @
                [CmClose (chat_unanswered c \<or> file_transferred (fc c))]))"

definition CLOSED_BY_PEER :: string where "CLOSED_BY_PEER = ''Closed manually by the peer''"

definition close_reason :: "string \<Rightarrow> ctl_state \<Rightarrow> ctl_state" where
  "close_reason r = emit [SendCloseReason (if r = [] then CLOSED_BY_PEER else r)]"

text \<open>After the loop: the file clipboard, privacy mode, the services.\<close>

definition conn_end :: "CtlEnv \<Rightarrow> ctl_state \<Rightarrow> ctl_state" where
  "conn_end env s =
     (case s of (c, w, out) \<Rightarrow>
        (case conn_end_privacy (pm_env env) (cid c) (pm w) of
           (m, as) \<Rightarrow>
             on_close True (c, w\<lparr>pm := m, srv := remove_connection (inner c) (srv w)\<rparr>,
               out @ [EmptyFileClipboard] @ map PrivacyAct as @ [FrameFetched])))"

section \<open>Messages of an authorized peer\<close>

definition on_files :: "CtlEnv \<Rightarrow> file_action \<Rightarrow> ctl_state \<Rightarrow> ctl_state option" where
  "on_files env a s =
     (case s of (c, w, out) \<Rightarrow>
        (case on_file_action (fc_env env) a (fc c) (wfs w) of
           None \<Rightarrow> None
         | Some (f, fs, os) \<Rightarrow> Some (c\<lparr>fc := f\<rparr>, w\<lparr>wfs := fs\<rparr>, out @ map FileOut os)))"

definition goes :: "ctl_state \<Rightarrow> (bool \<times> ctl_state) option" where "goes s = Some (True, s)"

fun on_authorized_message :: "CtlEnv \<Rightarrow> ctl_msg \<Rightarrow> ctl_state \<Rightarrow> (bool \<times> ctl_state) option" where
  "on_authorized_message env (MouseMsg me) s = goes (on_mouse env me s)"
| "on_authorized_message env (PointerMsg pde) s = goes (on_pointer env pde s)"
| "on_authorized_message env (KeyMsg me) s = goes (on_key env me s)"
| "on_authorized_message env (ClipboardMsg cb) s = goes (if clipboard (fst s) then emit [SetClipboard [cb]] s else s)"
| "on_authorized_message env (MultiClipboardsMsg cbs) s = goes (if clipboard (fst s) then emit [SetClipboard cbs] s else s)"
| "on_authorized_message env (CliprdrMsg u) s = map_option (Pair True) (on_cliprdr u s)"
| "on_authorized_message env (FileActionMsg a) s = map_option (Pair True) (on_files env a s)"
| "on_authorized_message env (FileResponseMsg r) s = goes (emit (map FileOut (on_file_response r)) s)"
| "on_authorized_message env (SwitchDisplayMsg d wd ht) s = goes (handle_switch_display env d wd ht s)"
| "on_authorized_message env (CaptureDisplaysMsg add sb st) s = goes (on_capture_displays add sb st s)"
| "on_authorized_message env (TogglePrivacyModeMsg b k) s = goes (privacy env b k s)"
| "on_authorized_message env (ChatMsg t) s =
     goes (case s of (c, w, out) \<Rightarrow> (update_auto_disconnect_timer env (c\<lparr>chat_unanswered := True\<rparr>), w, out @ [CmChat t]))"
| "on_authorized_message env (OptionMsg opts) s = goes (update_options env opts s)"
| "on_authorized_message env (RefreshVideoMsg r) s = goes (touch env (if r then on_refresh None s else s))"
| "on_authorized_message env (RefreshVideoDisplayMsg d) s = goes (touch env (on_refresh (Some d) s))"
| "on_authorized_message env VideoReceivedMsg s = goes (emit [FrameFetched] s)"
| "on_authorized_message env RestartMsg s = goes (if restart (fst s) then emit [Reboot] s else s)"
| "on_authorized_message env ShutdownMsg s = goes (if restart (fst s) then emit [Shutdown] s else s)"
| "on_authorized_message env (AudioFormatMsg f) s =
     goes (case s of (c, w, out) \<Rightarrow>
             if disable_audio c then s else (c\<lparr>audio_sender := True\<rparr>, w, out @ [StartAudioThread f]))"
| "on_authorized_message env (SwitchSidesRequestMsg u) s =
     (case u of None \<Rightarrow> goes s | Some x \<Rightarrow> Some (False, on_close False (emit [RunConnect (my_peer_id (fst s)) x] s)))"
| "on_authorized_message env (ChangeResolutionMsg wd ht) s = goes (change_resolution env None wd ht s)"
| "on_authorized_message env (ChangeDisplayResolutionMsg d wd ht) s = goes (change_resolution env (Some d) wd ht s)"
| "on_authorized_message env (AutoAdjustFpsMsg n) s = goes (emit [Qos_auto_fps n] s)"
| "on_authorized_message env (ClientRecordStatusMsg b) s = goes (emit [Qos_record b] s)"
| "on_authorized_message env (MessageQueryMsg d) s = goes (display_message env d s)"
| "on_authorized_message env (AudioFrameMsg f) s =
     goes (if \<not> disable_audio (fst s) \<and> audio_sender (fst s) then emit [PlayAudio f] s else s)"
| "on_authorized_message env (VoiceCallRequestMsg b ts) s = goes (voice_call_request env b ts s)"
| "on_authorized_message env VoiceCallResponseMsg s = goes s"
| "on_authorized_message env (ScreenshotMsg d sid) s =
     goes (if ConnInner.tx (inner (fst s)) = None then s else on_refresh (Some d) (emit [TakeScreenshot d sid] s))"
| "on_authorized_message env (TerminalActionMsg a) s = goes (emit [HandleTerminal a] s)"
| "on_authorized_message env UnknownMsg s = goes s"

definition on_peer_message :: "CtlEnv \<Rightarrow> ctl_msg \<Rightarrow> ctl_state \<Rightarrow> (bool \<times> ctl_state) option" where
  "on_peer_message env m s =
     (if \<not> is_authorized (fst s) \<or> is_port_forward (fst s) then goes s else on_authorized_message env m s)"

section \<open>The connection manager\<close>

datatype cm_data =
  CmDataClose
| CmErr string
| CmChatMessage string
| SwitchPermission string bool
| CmRaw bytes
| CmPrivacyState PrivacyModeState string
| SwitchSidesBack
| CmVoiceCallResponse bool
| CmDataCloseVoiceCall
| CmFile cm_out

fun prv_off :: "PrivacyModeState \<Rightarrow> prv_state" where
  "prv_off OffSucceeded = PrvOffSucceeded"
| "prv_off OffByPeer = PrvOffByPeer"
| "prv_off OffUnknown = PrvOffUnknown"

definition switch_permission :: "CtlEnv \<Rightarrow> string \<Rightarrow> bool \<Rightarrow> ctl_state \<Rightarrow> ctl_state" where
  "switch_permission env n b s =
     (case s of (c, w, out) \<Rightarrow>
        if n = ''keyboard'' then
          (let c1 = c\<lparr>keyboard := b\<rparr>
           in (c1, sub NAME_CURSOR (b \<or> show_remote_cursor c1) c1 (sub_file_clipboard env c1 (sub_clipboard env c1 w)),
               out @ [SendPermission PKeyboard b]))
        else if n = ''clipboard'' then
          (let c1 = c\<lparr>clipboard := b\<rparr> in (c1, sub_clipboard env c1 w, out @ [SendPermission PClipboard b]))
        else if n = ''audio'' then
          (let c1 = c\<lparr>audio := b\<rparr>
           in (c1, if is_authorized c1 then sub_audio c1 w else w, out @ [SendPermission PAudio b]))
        else if n = ''file'' then
          (let c1 = c\<lparr>file_perm := b\<rparr>
           in (c1, sub_file_clipboard env c1 w, out @ [SendPermission PFile b] @ (if \<not> b then [EmptyFileClipboard] else [])))
        else if n = ''restart'' then (c\<lparr>restart := b\<rparr>, w, out @ [SendPermission PRestart b])
        else if n = ''recording'' then (c\<lparr>recording := b\<rparr>, w, out @ [SendPermission PRecording b])
        else if n = ''block_input'' then (c\<lparr>block_input := b\<rparr>, w, out @ [SendPermission PBlockInput b])
        else s)"

fun on_cm_data :: "CtlEnv \<Rightarrow> cm_data \<Rightarrow> ctl_state \<Rightarrow> bool \<times> ctl_state" where
  "on_cm_data env CmDataClose s =
     (False, on_close True (close_reason []
        (case s of (c, w, out) \<Rightarrow> (c\<lparr>chat_unanswered := False, fc := (fc c)\<lparr>file_transferred := False\<rparr>\<rparr>, w, out))))"
| "on_cm_data env (CmErr e) s = (if e \<noteq> ''expected'' then (False, on_close False s) else (True, s))"
| "on_cm_data env (CmChatMessage t) s =
     (True, case s of (c, w, out) \<Rightarrow> (c\<lparr>chat_unanswered := False\<rparr>, w, out @ [SendChat t]))"
| "on_cm_data env (SwitchPermission n b) s = (True, switch_permission env n b s)"
| "on_cm_data env (CmRaw b) s = (True, emit [SendRaw b] s)"
| "on_cm_data env (CmPrivacyState st k) s = (True, emit [SendPrivacy (make_privacy_mode_msg (prv_off st) k)] s)"
| "on_cm_data env SwitchSidesBack s = (True, emit [SendSwitchBack] s)"
| "on_cm_data env (CmVoiceCallResponse b) s = (True, handle_voice_call b s)"
| "on_cm_data env CmDataCloseVoiceCall s = (True, emit [SendVoiceCallRequest False] (close_voice_call s))"
| "on_cm_data env (CmFile a) s =
     (True, case s of (c, w, out) \<Rightarrow> (case on_cm_answer a (fc c) of (f, os) \<Rightarrow> (c\<lparr>fc := f\<rparr>, w, out @ map FileOut os)))"

section \<open>The loop\<close>

text \<open>What the login leaves to do once the answer is sent: the options that came with the request, then the services of the kind of
  connection. \<open>displays\<close> says that the displays of the host could be listed.\<close>

definition after_login :: "CtlEnv \<Rightarrow> OptionMessage option \<Rightarrow> path \<times> bool \<Rightarrow> bool \<Rightarrow> ctl_state \<Rightarrow> ctl_state" where
  "after_login env opts dir displays s0 =
     (let s = (case opts of None \<Rightarrow> s0 | Some x \<Rightarrow> update_options env x s0)
      in case s of (c, w, out) \<Rightarrow>
           if is_file_conn (fc c)
           then (c, w, out @ [FileOut (ToFs (ReadDir (if fst dir \<noteq> [] \<and> is_dir (wfs w) (fst dir) then fst dir else []) (snd dir)))])
           else if is_terminal c then (c\<lparr>keyboard := False\<rparr>, w, out)
           else if DisplayConn.view_camera c
           then (c\<lparr>keyboard := False\<rparr>, try_sub_camera_displays env c w, out @ [SendPermission PKeyboard False])
           else if displays then (case try_sub_monitor_services env c w of (c1, w1) \<Rightarrow> (c1, w1, out))
           else s)"

definition second_tick :: "CtlEnv \<Rightarrow> ctl_state \<Rightarrow> bool \<times> ctl_state" where
  "second_tick env s =
     (case s of (c, w, out) \<Rightarrow>
        if (case auto_disconnect_timer c of None \<Rightarrow> False | Some (t, m) \<Rightarrow> secs (fc_env env) - t > m * 60 mod 2 ^ 64)
        then (False, on_close True (close_reason ''Connection failed due to inactivity'' s))
        else (case remove_log_on_timer (secs (fc_env env)) (remove_log (fc c)) of
                (os, l) \<Rightarrow> (True, c\<lparr>fc := (fc c)\<lparr>remove_log := l\<rparr>\<rparr>, w, out @ map FileOut os)))"

definition file_timer_tick :: "CtlEnv \<Rightarrow> bool \<Rightarrow> ctl_state \<Rightarrow> bool \<times> ctl_state" where
  "file_timer_tick env brk s =
     (case s of (c, w, out) \<Rightarrow>
        (case file_tick (fc_env env) brk (fc c) (wfs w) of
           (go, f, os) \<Rightarrow>
             (let s1 = (c\<lparr>fc := f\<rparr>, w, out @ map FileOut os) in (go, if go then s1 else on_close False s1))))"

datatype ctl_event =
  LoggedIn AuthConnType "OptionMessage option" "path \<times> bool" bool
| Peer ctl_msg
| FromManager cm_data
| HostClip ClipboardFile
| FileTimer bool
| Second
| StreamEnds
| WebConsole
| StopServiceMsg

fun ctl_step :: "CtlEnv \<Rightarrow> ctl_event \<Rightarrow> ctl_state \<Rightarrow> (bool \<times> ctl_state) option" where
  "ctl_step env (LoggedIn t opts dir displays) s =
     goes (case s of (c, w, out) \<Rightarrow> after_login env opts dir displays (c\<lparr>is_authorized := True, authed_as := Some t\<rparr>, w, out))"
| "ctl_step env (Peer m) s = on_peer_message env m s"
| "ctl_step env (FromManager d) s = Some (on_cm_data env d s)"
| "ctl_step env (HostClip x) s = goes (if is_support_file_copy_paste (version (fst s)) then handle_file_clip env x s else s)"
| "ctl_step env (FileTimer brk) s = Some (file_timer_tick env brk s)"
| "ctl_step env Second s = Some (second_tick env s)"
| "ctl_step env StreamEnds s = Some (False, on_close True s)"
| "ctl_step env WebConsole s = Some (False, on_close True (close_reason ''Closed manually by web console'' s))"
| "ctl_step env StopServiceMsg s = Some (False, on_close False (close_reason [] s))"

text \<open>A connection that goes on is at its next event; one that stops is ended. The effects since the start are kept.\<close>

fun ctl_run :: "(CtlEnv \<times> ctl_event) list \<Rightarrow> ctl_state \<Rightarrow> ctl_state option" where
  "ctl_run [] s = Some s"
| "ctl_run ((env, e) # es) s =
     (case ctl_step env e s of
        None \<Rightarrow> None
      | Some (go, s1) \<Rightarrow> if go then ctl_run es s1 else Some (conn_end env s1))"

end
