(* ===== verification/Conn_Rights.thy ===== *)
theory Conn_Rights
  imports Conn_Control
begin

text \<open>
  What the permissions of a connection are worth: which effects a message of the peer can have, which services a connection is
  subscribed to over its whole life, that the server keeps its form, and that an idle connection ends. The contract that every option of the
  peer keeps is the locale \<open>option_invariant\<close>; each of these arguments is an interpretation of it.
\<close>

section \<open>What every option keeps\<close>

locale option_invariant =
  fixes env :: CtlEnv and J :: "ctl_state \<Rightarrow> bool"
  assumes quality: "J s \<Longrightarrow> J (opt_quality opts s)"
    and fps: "J s \<Longrightarrow> J (opt_fps opts s)"
    and decoding: "J s \<Longrightarrow> J (opt_decoding opts s)"
    and lock: "J s \<Longrightarrow> J (opt_lock b s)"
    and cursor: "J s \<Longrightarrow> J (opt_cursor b s)"
    and follow_cursor: "J s \<Longrightarrow> J (opt_follow_cursor b s)"
    and follow_window: "J s \<Longrightarrow> J (opt_follow_window b s)"
    and audio: "J s \<Longrightarrow> J (opt_audio b s)"
    and file_transfer: "J s \<Longrightarrow> J (opt_file_transfer env b s)"
    and clipboard: "J s \<Longrightarrow> J (opt_clipboard env b s)"
    and keyboard: "J s \<Longrightarrow> J (opt_keyboard env b s)"
    and opt_privacy: "J s \<Longrightarrow> J (opt_privacy env b s)"
    and block_input: "J s \<Longrightarrow> J (opt_block_input b s)"
    and persistent: "J s \<Longrightarrow> J (opt_persistent b s)"
    and my_cursor: "J s \<Longrightarrow> J (opt_my_cursor env b s)"
begin

lemma on_option: "J s \<Longrightarrow> (\<And>b s. J s \<Longrightarrow> J (f b s)) \<Longrightarrow> J (on_option q f s)"
  by (auto simp: on_option_def split: option.split bool_option.split)

lemma update_options: "J s \<Longrightarrow> J (update_options env opts s)"
  unfolding update_options_def Let_def
  by (intro on_option quality fps decoding lock cursor follow_cursor follow_window audio file_transfer clipboard keyboard opt_privacy
      block_input persistent my_cursor if_split [where P = J, THEN iffD2] conjI impI)

end

lemmas option_defs = opt_quality_def opt_fps_def opt_decoding_def opt_lock_def opt_cursor_def opt_follow_cursor_def opt_follow_window_def
  opt_audio_def opt_file_transfer_def opt_clipboard_def opt_keyboard_def opt_privacy_def opt_block_input_def opt_persistent_def
  opt_my_cursor_def emit_def

section \<open>Effects need permission\<close>

fun permitted :: "Ctl \<Rightarrow> effect \<Rightarrow> bool" where
  "permitted c (InputMouse _ simulate _) = ((simulate \<longrightarrow> peer_keyboard_enabled c) \<and> \<not> is_authed_view_camera_conn c)"
| "permitted c (InputPointer _) = (peer_keyboard_enabled c \<and> \<not> is_authed_view_camera_conn c)"
| "permitted c (InputKey _ _) = (peer_keyboard_enabled c \<and> \<not> is_authed_view_camera_conn c)"
| "permitted c (BlockInput _) = (keyboard c \<and> block_input c)"
| "permitted c (SetClipboard _) = clipboard c"
| "permitted c Reboot = restart c"
| "permitted c Shutdown = restart c"
| "permitted c (SetResolution _ _ _) = keyboard c"
| "permitted c (FileOut (ToFs x)) =
     (is_file_conn (fc c) \<or> (case x of WriteBlock _ _ _ _ \<Rightarrow> True | WriteDone _ _ \<Rightarrow> True | WriteError _ _ _ \<Rightarrow> True
        | CheckDigest _ _ _ _ _ _ \<Rightarrow> True | _ \<Rightarrow> False))"
| "permitted c (StartAudioThread _) = (\<not> disable_audio c)"
| "permitted c (PlayAudio _) = (\<not> disable_audio c)"
| "permitted c LockScreen = False"
| "permitted c _ = True"

definition effects_ok :: "Ctl \<Rightarrow> ctl_state \<Rightarrow> bool" where
  "effects_ok c0 s \<longleftrightarrow> keyboard (fst s) = keyboard c0 \<and> block_input (fst s) = block_input c0 \<and> (\<forall>x \<in> set (snd (snd s)). permitted c0 x)"

interpretation allowed: option_invariant env "effects_ok c0" for env c0
  by unfold_locales
    (auto simp: option_defs effects_ok_def privacy_def Let_def split: option.splits image_quality.splits prod.splits)

lemma send_action_print:
  "job_type_from_i32 t = Printer \<Longrightarrow> send_action env fs i p num h t c = (c', out) \<Longrightarrow> x \<in> set out \<Longrightarrow> x \<noteq> ToFs y"
  by (auto simp: send_action_def create_and_start_read_job_def process_new_read_job_def new_error_def
      split: option.splits prod.splits sum.splits if_splits)

lemma on_file_action_permitted:
  assumes "on_file_action env a f fs = Some (f', fs', out)" "fc c = f" "x \<in> set out"
  shows "permitted c (FileOut x)"
proof (cases "is_file_conn f")
  case True
  with assms(2) show ?thesis by (cases x) auto
next
  case False
  show ?thesis
  proof (cases a)
    case (ASend i p num h t)
    then show ?thesis
      using assms(1,3) False send_action_print [of t env fs i p num h f]
      by (cases x) (auto simp: on_file_action_def is_print_def split: if_splits option.splits prod.splits)
  qed (use assms(1,3) False in \<open>auto simp: on_file_action_def is_print_def\<close>)
qed


section \<open>The server stays well formed\<close>

definition server_ok :: "ctl_state \<Rightarrow> bool" where
  "server_ok s \<longleftrightarrow> srv_inv (srv (fst (snd s)))"

lemma srv_inv_sub [simp]: "srv_inv (srv w) \<Longrightarrow> srv_inv (srv (sub n b c w))"
  by (simp add: sub_def srv_inv_subscribe)

lemma srv_inv_sub_audio [simp]: "srv_inv (srv w) \<Longrightarrow> srv_inv (srv (sub_audio c w))"
  by (simp add: sub_audio_def)

lemma srv_inv_sub_clipboards [simp]:
  "srv_inv (srv w) \<Longrightarrow> srv_inv (srv (sub_clipboard env c w))" "srv_inv (srv w) \<Longrightarrow> srv_inv (srv (sub_file_clipboard env c w))"
  by (simp_all add: sub_clipboard_def sub_file_clipboard_def)

lemma set_video_service_opt_map:
  "set_video_service_opt d opt val sv =
     sv\<lparr>services := map (\<lambda>(k, s). (k, if is_video_service_name k \<and>
        \<not> (case d of Some (source, d) \<Rightarrow> k \<noteq> get_service_name source d | None \<Rightarrow> False)
        then snd (set_svc_option opt val s) else s)) (services sv)\<rparr>"
  unfolding set_video_service_opt_def by (rule arg_cong [where f = "\<lambda>x. sv\<lparr>services := x\<rparr>"], rule map_cong) auto

lemma srv_inv_refresh: "srv_inv sv \<Longrightarrow> srv_inv (refresh_video_display d c sv)"
  unfolding refresh_video_display_def set_video_service_opt_map
  by (rule srv_inv_map) (simp_all add: svc_inv_def set_svc_option_def)

lemma subed_at_refresh: "subed_at (refresh_video_display d c sv) n i = subed_at sv n i"
  unfolding refresh_video_display_def set_video_service_opt_map
  by (simp add: subed_at_def map_of_map_values is_subed_def set_svc_option_def split: option.split)

lemma srv_inv_switch_display: "srv_inv sv \<Longrightarrow> srv_inv (snd (switch_display_to p d c sv))"
  by (simp add: switch_display_to_def Let_def srv_inv_subscribe srv_inv_add_service svc_inv_video)

lemma srv_inv_capture: "srv_inv sv \<Longrightarrow> srv_inv (snd (conn_capture_displays add sb st c sv))"
  by (simp add: conn_capture_displays_def Let_def srv_inv_subscribe capture_displays_inv ensure_services)

lemma srv_inv_primary: "srv_inv sv \<Longrightarrow> srv_inv (try_add_primay_video_service p sv)" "srv_inv sv \<Longrightarrow> srv_inv (try_add_primary_camera_service b sv)"
  by (simp_all add: try_add_primay_video_service_def try_add_primary_camera_service_def srv_inv_add_service svc_inv_video)

lemma srv_inv_camera: "srv_inv sv \<Longrightarrow> srv_inv (add_camera_connection b c sv)"
  by (auto simp: add_camera_connection_def Let_def svc_inv_subscribe intro!: srv_inv_entry)

lemmas srv_inv_intros = srv_inv_refresh srv_inv_switch_display srv_inv_capture srv_inv_primary srv_inv_camera srv_inv_add_connection
  srv_inv_remove_connection

interpretation formed: option_invariant env server_ok for env
  by unfold_locales
    (auto simp: option_defs server_ok_def privacy_def Let_def split: option.splits image_quality.splits prod.splits)

lemma server_ok_close: "server_ok s \<Longrightarrow> server_ok (on_close b s)" "server_ok s \<Longrightarrow> server_ok (emit es s)"
  "server_ok s \<Longrightarrow> server_ok (close_reason r s)"
  by (auto simp: server_ok_def on_close_def emit_def close_reason_def split: prod.splits)

lemma server_ok_message:
  assumes "server_ok s" "on_authorized_message env m s = Some (go, s')"
  shows "server_ok s'"
proof -
  obtain c w out where s: "s = (c, w, out)" by (metis prod_cases3)
  have w: "srv_inv (srv w)" using assms(1) by (simp add: server_ok_def s)
  show ?thesis
  proof (cases m)
    case (OptionMsg opts)
    with assms formed.update_options [OF assms(1), of env opts] show ?thesis by (auto simp: goes_def)
  next
    case (SwitchDisplayMsg d wd ht)
    with assms(2) w srv_inv_switch_display [OF w, of "primary_display env" d "DisplayConn.truncate c"] show ?thesis
      by (auto simp: server_ok_def goes_def handle_switch_display_def display_message_def change_resolution_def emit_def Let_def s
          split: prod.splits if_splits option.splits)
  next
    case (CaptureDisplaysMsg add sb st)
    with assms(2) srv_inv_capture [OF w, of add sb st "DisplayConn.truncate c"] show ?thesis
      by (auto simp: server_ok_def goes_def on_capture_displays_def s split: prod.splits)
  next
    case (SwitchSidesRequestMsg u)
    with assms show ?thesis by (auto simp: goes_def server_ok_close split: option.splits)
  next
    case (CliprdrMsg u)
    with assms show ?thesis
      by (auto simp: on_cliprdr_def server_ok_def split: option.splits cliprdr_union.splits if_splits prod.splits)
  next
    case (FileActionMsg a)
    with assms show ?thesis by (auto simp: on_files_def server_ok_def split: option.splits prod.splits)
  qed (use assms(2) w in \<open>auto simp: server_ok_def s goes_def on_mouse_def on_pointer_def on_key_def emit_def touch_def on_refresh_def
      change_resolution_def display_message_def voice_call_request_def close_voice_call_def privacy_def Let_def srv_inv_refresh
      split: if_splits prod.splits option.splits\<close>)
qed

lemma server_ok_switch_permission: "server_ok s \<Longrightarrow> server_ok (switch_permission env n b s)"
  by (cases s) (simp add: server_ok_def switch_permission_def Let_def)

lemma server_ok_voice:
  "server_ok s \<Longrightarrow> server_ok (handle_voice_call b s)" "server_ok s \<Longrightarrow> server_ok (close_voice_call s)"
  by (cases s, simp add: server_ok_def handle_voice_call_def close_voice_call_def Let_def split: option.split)+

lemma server_ok_cm:
  assumes "server_ok s" shows "server_ok (snd (on_cm_data env d s))"
proof (cases d)
  case CmDataClose
  with assms show ?thesis by (cases s) (simp add: server_ok_def on_close_def close_reason_def emit_def)
next
  case (CmFile a)
  with assms show ?thesis by (cases s) (simp add: server_ok_def split: prod.split)
qed (use assms in \<open>cases s; simp add: server_ok_close server_ok_switch_permission server_ok_voice; simp add: server_ok_def\<close>)+

lemma server_ok_after_login:
  assumes "server_ok s" shows "server_ok (after_login env opts dir displays s)"
proof -
  let ?s = "case opts of None \<Rightarrow> s | Some x \<Rightarrow> update_options env x s"
  have "server_ok ?s" using assms formed.update_options by (auto split: option.split)
  then show ?thesis
    by (auto simp: after_login_def Let_def server_ok_def try_sub_camera_displays_def try_sub_monitor_services_def srv_inv_intros
        split: prod.splits option.splits)
qed

lemma server_ok_end: "server_ok s \<Longrightarrow> server_ok (conn_end env s)"
  by (auto simp: conn_end_def server_ok_def on_close_def srv_inv_remove_connection split: prod.splits)

lemma server_ok_step:
  assumes "server_ok s" "ctl_step env e s = Some (go, s')"
  shows "server_ok s'"
proof (cases e)
  case (LoggedIn t opts dir displays)
  then obtain c w out where "s = (c, w, out)" by (metis prod_cases3)
  with assms LoggedIn server_ok_after_login [of "(c\<lparr>is_authorized := True, authed_as := Some t\<rparr>, w, out)" env opts dir displays]
  show ?thesis by (auto simp: goes_def server_ok_def)
next
  case (Peer m)
  with assms server_ok_message show ?thesis by (auto simp: on_peer_message_def goes_def split: if_splits)
next
  case (FromManager d)
  with assms server_ok_cm [OF assms(1), of env d] show ?thesis by simp
qed (use assms in \<open>auto simp: goes_def handle_file_clip_def file_timer_tick_def second_tick_def on_close_def close_reason_def emit_def
    server_ok_def Let_def split: prod.splits if_splits option.splits\<close>)

lemma server_ok_run: "server_ok s \<Longrightarrow> ctl_run es s = Some s' \<Longrightarrow> server_ok s'"
proof (induction es arbitrary: s)
  case (Cons x es)
  obtain env e where x: "x = (env, e)" by fastforce
  with Cons.prems obtain go s1 where h: "ctl_step env e s = Some (go, s1)" by (auto split: option.splits)
  have "server_ok s1" by (rule server_ok_step [OF Cons.prems(1) h])
  with Cons h x show ?case by (auto simp: server_ok_end split: if_splits)
qed simp


section \<open>Subscriptions need permission\<close>

text \<open>The services a remote connection may be subscribed to under its permissions and options, with the two settings of the host that
  restrict the direction.\<close>

definition sub_allowed :: "bool \<Rightarrow> bool \<Rightarrow> Ctl \<Rightarrow> string \<Rightarrow> bool" where
  "sub_allowed oc ofl c n \<longleftrightarrow>
     (n = CLIPBOARD_NAME \<longrightarrow> clipboard_enabled c \<and> peer_keyboard_enabled c \<and> \<not> oc) \<and>
     (n = FILE_CLIPBOARD_NAME \<longrightarrow> file_transfer_enabled c \<and> \<not> ofl) \<and>
     (n = AUDIO_NAME \<longrightarrow> is_authorized c \<and> audio_enabled c) \<and>
     (n = NAME_CURSOR \<longrightarrow> keyboard c \<or> show_remote_cursor c) \<and>
     (n = NAME_POS \<longrightarrow> show_remote_cursor c) \<and>
     (n = NAME_WINDOW_FOCUS \<longrightarrow> follow_remote_window c)"

definition subs_ok :: "bool \<Rightarrow> bool \<Rightarrow> ctl_state \<Rightarrow> bool" where
  "subs_ok oc ofl s \<longleftrightarrow>
     (case s of (c, w, out) \<Rightarrow> is_remote_conn c \<and> authed_as c \<noteq> Some ViewCameraConn \<and> srv_inv (srv w) \<and>
        (\<forall>n. subed_at (srv w) n (cid c) \<longrightarrow> sub_allowed oc ofl c n))"

definition subs_auth :: "bool \<Rightarrow> bool \<Rightarrow> ctl_state \<Rightarrow> bool" where
  "subs_auth oc ofl s \<longleftrightarrow> subs_ok oc ofl s \<and> is_authorized (fst s)"

lemmas name_defs = CLIPBOARD_NAME_def FILE_CLIPBOARD_NAME_def AUDIO_NAME_def NAME_CURSOR_def NAME_POS_def NAME_WINDOW_FOCUS_def

lemmas permission_defs = clipboard_enabled_def peer_keyboard_enabled_def file_transfer_enabled_def audio_enabled_def
  can_sub_clipboard_service_def can_sub_file_clipboard_service_def

text \<open>Only allowed services, except perhaps those of \<open>T\<close>, which are still to be set.\<close>

definition allowed_except :: "bool \<Rightarrow> bool \<Rightarrow> Ctl \<Rightarrow> string set \<Rightarrow> World \<Rightarrow> bool" where
  "allowed_except oc ofl c T w \<longleftrightarrow> srv_inv (srv w) \<and> (\<forall>n. n \<notin> T \<longrightarrow> subed_at (srv w) n (cid c) \<longrightarrow> sub_allowed oc ofl c n)"

lemma subs_ok_iff:
  "subs_ok oc ofl (c, w, out) \<longleftrightarrow> is_remote_conn c \<and> authed_as c \<noteq> Some ViewCameraConn \<and> allowed_except oc ofl c {} w"
  by (simp add: subs_ok_def allowed_except_def)

lemma allowed_sub:
  assumes "allowed_except oc ofl c (insert n T) w" and "b \<Longrightarrow> sub_allowed oc ofl c n"
  shows "allowed_except oc ofl c T (sub n b c w)"
  using assms by (auto simp: allowed_except_def sub_def srv_inv_subscribe subed_at_subscribe cid_def split: if_splits)
    (metis subed_at_not_contained)

lemma allowed_start:
  assumes "allowed_except oc ofl c {} w" "inner c' = inner c" "\<And>n. n \<notin> T \<Longrightarrow> sub_allowed oc ofl c n \<Longrightarrow> sub_allowed oc ofl c' n"
  shows "allowed_except oc ofl c' T w"
  using assms by (auto simp: allowed_except_def cid_def)

lemma allowed_world:
  "allowed_except oc ofl c T (w\<lparr>pm := m\<rparr>) = allowed_except oc ofl c T w" "allowed_except oc ofl c T (w\<lparr>clip_files := cf\<rparr>) = allowed_except oc ofl c T w"
  "allowed_except oc ofl c T (w\<lparr>wfs := f\<rparr>) = allowed_except oc ofl c T w"
  by (simp_all add: allowed_except_def)

lemmas sub_rules = allowed_sub allowed_start

lemma allowed_clipboards:
  assumes "one_way_clipboard env = oc" "one_way_file_transfer (fc_env env) = ofl"
  shows "allowed_except oc ofl c (insert CLIPBOARD_NAME T) w \<Longrightarrow> allowed_except oc ofl c T (sub_clipboard env c w)"
    and "allowed_except oc ofl c (insert FILE_CLIPBOARD_NAME T) w \<Longrightarrow> allowed_except oc ofl c T (sub_file_clipboard env c w)"
  using assms unfolding sub_clipboard_def sub_file_clipboard_def
  by (auto intro!: allowed_sub simp: sub_allowed_def name_defs permission_defs)

lemma allowed_audio:
  assumes "allowed_except oc ofl c (insert AUDIO_NAME T) w" "is_authorized c" "\<not> is_authed_view_camera_conn c"
  shows "allowed_except oc ofl c T (sub_audio c w)"
  using assms unfolding sub_audio_def by (auto intro!: allowed_sub simp: sub_allowed_def name_defs)

lemma subs_auth_iff:
  "subs_auth oc ofl (c, w, out) \<longleftrightarrow> is_authorized c \<and> is_remote_conn c \<and> authed_as c \<noteq> Some ViewCameraConn \<and> allowed_except oc ofl c {} w"
  by (auto simp: subs_auth_def subs_ok_iff)

lemmas subs_simps = subs_ok_iff subs_auth_iff is_remote_conn_def is_authed_view_camera_conn_def Let_def sub_allowed_def name_defs
  permission_defs allowed_world

lemma subs_auth_same:
  assumes "subs_auth oc ofl (c, w, out)" "inner c' = inner c" "is_authorized c' = is_authorized c" "authed_as c' = authed_as c"
    "is_remote_conn c' = is_remote_conn c" "srv w' = srv w" "\<And>n. sub_allowed oc ofl c' n = sub_allowed oc ofl c n"
  shows "subs_auth oc ofl (c', w', out')"
  using assms by (auto simp: subs_auth_iff allowed_except_def cid_def)

interpretation subs: option_invariant env "subs_auth (one_way_clipboard env) (one_way_file_transfer (fc_env env))" for env
proof unfold_locales
  let ?J = "subs_auth (one_way_clipboard env) (one_way_file_transfer (fc_env env))"
  fix s :: ctl_state and opts b
  assume J: "?J s"
  obtain c w out where s: "s = (c, w, out)" by (metis prod_cases3)
  show "?J (opt_quality opts s)" "?J (opt_fps opts s)" "?J (opt_decoding opts s)"
    using J by (auto simp: s opt_quality_def opt_fps_def opt_decoding_def emit_def subs_auth_iff Let_def
        split: option.split image_quality.split)
  show "?J (opt_lock b s)" "?J (opt_follow_cursor b s)" "?J (opt_persistent b s)" "?J (opt_my_cursor env b s)"
    unfolding s opt_lock_def opt_follow_cursor_def opt_persistent_def opt_my_cursor_def prod.case
    by (rule subs_auth_same [OF J [unfolded s]]; simp add: subs_simps)+
  show "?J (opt_block_input b s)" using J by (simp add: s opt_block_input_def emit_def subs_auth_iff)
  show "?J (opt_privacy env b s)"
    using J by (auto simp: s opt_privacy_def privacy_def subs_auth_iff allowed_world split: prod.split)
  show "?J (opt_cursor b s)"
    using J by (auto simp: s opt_cursor_def subs_simps intro!: allowed_sub elim!: allowed_start)
  show "?J (opt_follow_window b s)"
    using J by (auto simp: s opt_follow_window_def subs_simps intro!: allowed_sub elim!: allowed_start)
  show "?J (opt_audio b s)"
    using J by (auto simp: s opt_audio_def subs_simps intro!: allowed_audio elim!: allowed_start)
  show "?J (opt_file_transfer env b s)" "?J (opt_clipboard env b s)"
    using J by (auto simp: s opt_file_transfer_def opt_clipboard_def subs_simps intro!: allowed_clipboards elim!: allowed_start)
  show "?J (opt_keyboard env b s)"
    using J by (auto simp: s opt_keyboard_def subs_simps intro!: allowed_sub allowed_clipboards elim!: allowed_start)
qed

lemma video_allowed: "is_video_service_name n \<Longrightarrow> sub_allowed oc ofl c n"
  by (auto simp: sub_allowed_def name_defs is_video_service_name_def)

lemma allowed_server:
  assumes "allowed_except oc ofl c {} w" "srv_inv sv"
    and "\<And>n. \<not> is_video_service_name n \<Longrightarrow> subed_at sv n (cid c) \<Longrightarrow> subed_at (srv w) n (cid c) \<or> n = NAME_WINDOW_FOCUS \<and> follow_remote_window c"
  shows "allowed_except oc ofl c {} (w\<lparr>srv := sv\<rparr>)"
proof -
  have "sub_allowed oc ofl c n" if "subed_at sv n (cid c)" for n
  proof (cases "is_video_service_name n")
    case True
    then show ?thesis by (rule video_allowed)
  next
    case False
    have "follow_remote_window c \<Longrightarrow> sub_allowed oc ofl c NAME_WINDOW_FOCUS" by (simp add: sub_allowed_def name_defs)
    with assms(3) [OF False that] assms(1) show ?thesis by (auto simp: allowed_except_def)
  qed
  with assms(2) show ?thesis by (simp add: allowed_except_def)
qed

lemma subed_at_switch_display:
  assumes "srv_inv sv" "\<not> is_video_service_name n"
  shows "subed_at (snd (switch_display_to p d c sv)) n i = subed_at sv n i"
proof -
  have ne: "n \<noteq> get_service_name src k" for src k using assms(2) get_service_name_video by metis
  show ?thesis
    using assms(1) by (auto simp: switch_display_to_def Let_def subed_at_subscribe ne srv_inv_subscribe srv_inv_add_service
        svc_inv_video subed_at_add_video)
qed

lemma subed_at_capture:
  assumes "srv_inv sv" "\<not> is_video_service_name n"
    and "subed_at (snd (conn_capture_displays add sb st c sv)) n i"
  shows "subed_at sv n i \<or> n = NAME_WINDOW_FOCUS \<and> follow_remote_window c"
  using assms by (auto simp: conn_capture_displays_def Let_def subed_at_subscribe srv_inv_subscribe capture_displays_inv ensure_services
      subed_at_capture_displays split: if_splits)

lemma truncate_simps [simp]:
  "inner (DisplayConn.truncate c) = inner c" "follow_remote_window (DisplayConn.truncate c) = follow_remote_window c"
  by (simp_all add: DisplayConn.truncate_def)

lemma subs_ok_same:
  assumes "subs_ok oc ofl (c, w, out)" "inner c' = inner c" "authed_as c' = authed_as c"
    "is_remote_conn c' = is_remote_conn c" "srv w' = srv w" "\<And>n. sub_allowed oc ofl c' n = sub_allowed oc ofl c n"
  shows "subs_ok oc ofl (c', w', out')"
  using assms by (auto simp: subs_ok_iff allowed_except_def cid_def)

lemma sub_allowed_same [simp]:
  "sub_allowed oc ofl (c\<lparr>fc := f\<rparr>) n = sub_allowed oc ofl c n" "sub_allowed oc ofl (c\<lparr>audio_sender := b\<rparr>) n = sub_allowed oc ofl c n"
  "sub_allowed oc ofl (c\<lparr>auto_disconnect_timer := t\<rparr>) n = sub_allowed oc ofl c n"
  "sub_allowed oc ofl (c\<lparr>pressed_modifiers := m\<rparr>) n = sub_allowed oc ofl c n"
  "sub_allowed oc ofl (c\<lparr>chat_unanswered := b\<rparr>) n = sub_allowed oc ofl c n"
  "sub_allowed oc ofl (c\<lparr>voice_calling := b\<rparr>) n = sub_allowed oc ofl c n"
  "sub_allowed oc ofl (c\<lparr>voice_call_request_timestamp := v\<rparr>) n = sub_allowed oc ofl c n"
  "sub_allowed oc ofl (c\<lparr>closed := b\<rparr>) n = sub_allowed oc ofl c n" "sub_allowed oc ofl (c\<lparr>is_port_forward := b\<rparr>) n = sub_allowed oc ofl c n"
  "sub_allowed oc ofl (c\<lparr>display_idx := k\<rparr>) n = sub_allowed oc ofl c n" "sub_allowed oc ofl (c\<lparr>multi_ui_session := b\<rparr>) n = sub_allowed oc ofl c n"
  by (simp_all add: sub_allowed_def permission_defs)

lemma create_and_start_kind:
  "create_and_start_read_job env fs i t src num h dt p lim f = (f', out) \<Longrightarrow> is_file_conn f' = is_file_conn f"
  by (auto simp: create_and_start_read_job_def process_new_read_job_def split: sum.splits)

lemma send_action_kind: "send_action env fs i p num h t f = (f', out) \<Longrightarrow> is_file_conn f' = is_file_conn f"
  by (auto simp: send_action_def dest!: create_and_start_kind split: JobType.splits if_splits prod.splits option.splits)

lemma on_file_action_kind:
  assumes "on_file_action env a f fs = Some (f', fs', out)" shows "is_file_conn f' = is_file_conn f"
proof (cases a)
  case (ASend i p num h t)
  with assms send_action_kind [of "env" fs i p num h t f] show ?thesis
    by (auto simp: on_file_action_def split: if_splits option.splits prod.splits)
qed (use assms in \<open>auto simp: on_file_action_def split: if_splits option.splits prod.splits sum.splits\<close>)

lemma on_cm_answer_kind: "on_cm_answer a f = (f', out) \<Longrightarrow> is_file_conn f' = is_file_conn f"
  by (cases a) (auto simp: handle_read_job_init_result_def handle_file_block_from_cm_def handle_file_read_done_def
      handle_file_read_error_def handle_file_digest_from_cm_def split: if_splits sum.splits)

lemma file_tick_kind: "file_tick env brk f fs = (go, f', out) \<Longrightarrow> is_file_conn f' = is_file_conn f"
  by (auto simp: file_tick_def split: if_splits prod.splits)

lemma subs_ok_emit: "subs_ok oc ofl (emit es s) = subs_ok oc ofl s" "subs_ok oc ofl (close_reason r s) = subs_ok oc ofl s"
  by (cases s; simp add: emit_def close_reason_def subs_ok_iff)+

lemma subs_ok_close: "subs_ok oc ofl s \<Longrightarrow> subs_ok oc ofl (on_close b s)"
  by (cases s) (auto simp: on_close_def subs_ok_iff is_remote_conn_def elim!: allowed_start)

lemma subs_ok_touch: "subs_ok oc ofl (c, w, out) \<Longrightarrow> subs_ok oc ofl (update_auto_disconnect_timer env c, w, out')"
  by (erule subs_ok_same) (simp_all add: update_auto_disconnect_timer_def is_remote_conn_def)

lemma subs_ok_touch_state: "subs_ok oc ofl s \<Longrightarrow> subs_ok oc ofl (touch env s)"
  by (cases s) (simp add: touch_def subs_ok_touch)

lemma subs_ok_refresh: "subs_ok oc ofl s \<Longrightarrow> subs_ok oc ofl (on_refresh d s)"
  by (cases s) (auto simp: on_refresh_def subs_ok_iff allowed_except_def srv_inv_refresh subed_at_refresh)

lemma subs_ok_resolution: "subs_ok oc ofl (change_resolution env d wd ht s) = subs_ok oc ofl s"
  by (cases s) (auto simp: change_resolution_def subs_ok_emit Let_def split: option.split)

lemma subs_ok_display: "subs_ok oc ofl (display_message env d s) = subs_ok oc ofl s"
  by (simp add: display_message_def subs_ok_emit)

lemma subs_ok_message:
  assumes "subs_auth (one_way_clipboard env) (one_way_file_transfer (fc_env env)) s"
    and "on_authorized_message env m s = Some (go, s')"
  shows "subs_ok (one_way_clipboard env) (one_way_file_transfer (fc_env env)) s'"
proof -
  let ?J = "subs_ok (one_way_clipboard env) (one_way_file_transfer (fc_env env))"
  obtain c w out where s: "s = (c, w, out)" by (metis prod_cases3)
  have ok: "?J (c, w, out)" using assms(1) by (simp add: subs_auth_def s)
  have inv: "srv_inv (srv w)" using ok by (simp add: subs_ok_iff allowed_except_def)
  have cam: "\<not> is_authed_view_camera_conn c" using ok by (simp add: subs_ok_iff is_authed_view_camera_conn_def)
  note m = assms(2) [unfolded s]
  show ?thesis
  proof (cases m)
    case (OptionMsg opts)
    with m subs.update_options [OF assms(1), of opts] show ?thesis by (auto simp: goes_def s subs_auth_def)
  next
    case (FileActionMsg a)
    with m obtain f fs os where "on_file_action (fc_env env) a (fc c) (wfs w) = Some (f, fs, os)"
      "s' = (c\<lparr>fc := f\<rparr>, w\<lparr>wfs := fs\<rparr>, out @ map FileOut os)"
      by (auto simp: on_files_def split: option.splits)
    with ok show ?thesis by (auto elim!: subs_ok_same simp: is_remote_conn_def dest!: on_file_action_kind)
  next
    case (CliprdrMsg u)
    with m ok show ?thesis
      by (auto simp: on_cliprdr_def subs_ok_iff allowed_world split: option.splits cliprdr_union.splits if_splits)
  next
    case (SwitchDisplayMsg d wd ht)
    obtain dc sv where h: "switch_display_to (primary_display env) d (DisplayConn.truncate c) (srv w) = (dc, sv)" by fastforce
    have "allowed_except (one_way_clipboard env) (one_way_file_transfer (fc_env env)) c {} (w\<lparr>srv := sv\<rparr>)"
      using ok srv_inv_switch_display [OF inv, of "primary_display env" d "DisplayConn.truncate c"]
        subed_at_switch_display [OF inv, of _ "primary_display env" d "DisplayConn.truncate c"] h
      by (intro allowed_server) (auto simp: subs_ok_iff)
    then have "?J (c\<lparr>display_idx := k\<rparr>, w\<lparr>srv := sv\<rparr>, out)" for k
      using ok by (auto simp: subs_ok_iff is_remote_conn_def elim!: allowed_start)
    with SwitchDisplayMsg m ok h show ?thesis
      by (auto simp: goes_def handle_switch_display_def Let_def subs_ok_display subs_ok_resolution)
  next
    case (CaptureDisplaysMsg add sb st)
    obtain dc sv where h: "conn_capture_displays add sb st (DisplayConn.truncate c) (srv w) = (dc, sv)" by fastforce
    have "allowed_except (one_way_clipboard env) (one_way_file_transfer (fc_env env)) c {} (w\<lparr>srv := sv\<rparr>)"
      using ok srv_inv_capture [OF inv, of add sb st "DisplayConn.truncate c"]
        subed_at_capture [OF inv, of _ add sb st "DisplayConn.truncate c"] h
      by (intro allowed_server) (auto simp: subs_ok_iff)
    then have "?J (c\<lparr>multi_ui_session := k\<rparr>, w\<lparr>srv := sv\<rparr>, out)" for k
      using ok by (auto simp: subs_ok_iff is_remote_conn_def elim!: allowed_start)
    with CaptureDisplaysMsg m h show ?thesis by (auto simp: goes_def on_capture_displays_def)
  next
    case (SwitchSidesRequestMsg u)
    with m ok show ?thesis by (auto simp: goes_def subs_ok_close subs_ok_emit split: option.splits)
  next
    case (RefreshVideoMsg r)
    with m subs_ok_refresh [OF ok] ok show ?thesis by (auto simp: goes_def subs_ok_touch_state split: if_splits)
  next
    case (RefreshVideoDisplayMsg d)
    with m subs_ok_refresh [OF ok] show ?thesis by (auto simp: goes_def subs_ok_touch_state)
  next
    case (KeyMsg me)
    have k: "?J (c\<lparr>pressed_modifiers := k\<rparr>, w, out)" for k using ok by (auto elim!: subs_ok_same simp: is_remote_conn_def)
    have "?J (update_auto_disconnect_timer env (c\<lparr>pressed_modifiers := k\<rparr>), w, out')" for k out' by (rule subs_ok_touch [OF k])
    with m subs_ok_touch [OF ok] KeyMsg show ?thesis by (auto simp only: on_authorized_message.simps goes_def on_key_def cam Let_def prod.case if_False simp_thms option.inject prod.inject split: if_splits)
  next
    case (ChatMsg t)
    have k: "?J (c\<lparr>chat_unanswered := True\<rparr>, w, out)" using ok by (auto elim!: subs_ok_same simp: is_remote_conn_def)
    with m ChatMsg subs_ok_touch [OF k] show ?thesis by (auto simp: goes_def)
  next
    case (VoiceCallRequestMsg b ts)
    with m ok cam show ?thesis
      by (auto simp: goes_def voice_call_request_def close_voice_call_def Let_def is_authed_view_camera_conn_def is_remote_conn_def
          elim!: subs_ok_same split: if_splits)
  next
    case (AudioFormatMsg f)
    with m ok show ?thesis by (auto simp: goes_def is_remote_conn_def elim!: subs_ok_same split: if_splits)
  next
    case (TogglePrivacyModeMsg b k)
    with m ok show ?thesis by (auto simp: goes_def privacy_def subs_ok_iff allowed_world split: prod.splits)
  next
    case (ScreenshotMsg d sid)
    with m ok show ?thesis by (auto simp: goes_def subs_ok_emit intro!: subs_ok_refresh split: if_splits)
  qed (use m ok cam in \<open>auto simp: goes_def on_mouse_def on_pointer_def subs_ok_emit subs_ok_touch subs_ok_resolution subs_ok_display
      split: if_splits\<close>)
qed

lemma subs_ok_switch_permission:
  assumes "subs_ok (one_way_clipboard env) (one_way_file_transfer (fc_env env)) (c, w, out)"
  shows "subs_ok (one_way_clipboard env) (one_way_file_transfer (fc_env env)) (switch_permission env n b (c, w, out))"
proof -
  note ok = assms [unfolded subs_ok_iff]
  let ?A = "allowed_except (one_way_clipboard env) (one_way_file_transfer (fc_env env))"
  have A: "?A c {} w" using ok by blast
  have cursor: "?A (c\<lparr>keyboard := b\<rparr>) {NAME_CURSOR, FILE_CLIPBOARD_NAME, CLIPBOARD_NAME} w"
    by (rule allowed_start [OF A]) (auto simp: sub_allowed_def name_defs permission_defs)
  have clip: "?A (c\<lparr>clipboard := b\<rparr>) {CLIPBOARD_NAME} w"
    by (rule allowed_start [OF A]) (auto simp: sub_allowed_def name_defs permission_defs)
  have aud: "?A (c\<lparr>audio := b\<rparr>) {AUDIO_NAME} w"
    by (rule allowed_start [OF A]) (auto simp: sub_allowed_def name_defs permission_defs)
  have aud2: "?A (c\<lparr>audio := b\<rparr>) {} w" if "\<not> is_authorized c"
    using that by (intro allowed_start [OF A]) (auto simp: sub_allowed_def name_defs permission_defs)
  have fil: "?A (c\<lparr>file_perm := b\<rparr>) {FILE_CLIPBOARD_NAME} w"
    by (rule allowed_start [OF A]) (auto simp: sub_allowed_def name_defs permission_defs)
  have rest: "?A (c\<lparr>restart := b\<rparr>) {} w" "?A (c\<lparr>recording := b\<rparr>) {} w" "?A (c\<lparr>block_input := b\<rparr>) {} w"
    by (rule allowed_start [OF A]; simp add: sub_allowed_def permission_defs)+
  have "?A (c\<lparr>keyboard := b\<rparr>) {} (sub NAME_CURSOR (b \<or> show_remote_cursor c) (c\<lparr>keyboard := b\<rparr>)
      (sub_file_clipboard env (c\<lparr>keyboard := b\<rparr>) (sub_clipboard env (c\<lparr>keyboard := b\<rparr>) w)))"
    using cursor by (intro allowed_sub allowed_clipboards) (auto simp: insert_commute sub_allowed_def name_defs)
  moreover have "?A (c\<lparr>clipboard := b\<rparr>) {} (sub_clipboard env (c\<lparr>clipboard := b\<rparr>) w)"
    using clip by (intro allowed_clipboards) auto
  moreover have "?A (c\<lparr>file_perm := b\<rparr>) {} (sub_file_clipboard env (c\<lparr>file_perm := b\<rparr>) w)"
    using fil by (intro allowed_clipboards) auto
  moreover have "?A (c\<lparr>audio := b\<rparr>) {} (sub_audio (c\<lparr>audio := b\<rparr>) w)" if "is_authorized c"
    using aud ok that by (intro allowed_audio) (auto simp: is_authed_view_camera_conn_def)
  ultimately show ?thesis
    using ok aud2 rest by (simp add: switch_permission_def subs_ok_iff Let_def is_remote_conn_def)
qed

lemma subs_ok_cm:
  assumes "subs_ok (one_way_clipboard env) (one_way_file_transfer (fc_env env)) s"
  shows "subs_ok (one_way_clipboard env) (one_way_file_transfer (fc_env env)) (snd (on_cm_data env d s))"
proof -
  let ?J = "subs_ok (one_way_clipboard env) (one_way_file_transfer (fc_env env))"
  obtain c w out where s: "s = (c, w, out)" by (metis prod_cases3)
  note ok = assms [unfolded s]
  have cam: "\<not> is_authed_view_camera_conn c" using ok by (simp add: subs_ok_iff is_authed_view_camera_conn_def)
  show ?thesis
  proof (cases d)
    case CmDataClose
    have "?J (c\<lparr>chat_unanswered := False, fc := (fc c)\<lparr>file_transferred := False\<rparr>\<rparr>, w, out)"
      using ok by (auto elim!: subs_ok_same simp: is_remote_conn_def)
    with CmDataClose show ?thesis by (simp add: s subs_ok_close subs_ok_emit)
  next
    case (CmFile a)
    obtain f os where h: "on_cm_answer a (fc c) = (f, os)" by fastforce
    with CmFile ok on_cm_answer_kind [OF h] show ?thesis by (auto simp: s is_remote_conn_def elim!: subs_ok_same)
  next
    case (CmVoiceCallResponse b)
    with ok cam show ?thesis
      by (auto simp: s handle_voice_call_def Let_def is_authed_view_camera_conn_def is_remote_conn_def elim!: subs_ok_same split: option.split)
  next
    case CmDataCloseVoiceCall
    with ok cam show ?thesis
      by (auto simp: s subs_ok_emit close_voice_call_def Let_def is_authed_view_camera_conn_def is_remote_conn_def elim!: subs_ok_same)
  next
    case (CmChatMessage t)
    with ok show ?thesis by (auto simp: s is_remote_conn_def elim!: subs_ok_same)
  qed (use ok in \<open>auto simp: s subs_ok_close subs_ok_emit subs_ok_switch_permission\<close>)
qed

lemma subs_ok_after_login:
  assumes "subs_auth (one_way_clipboard env) (one_way_file_transfer (fc_env env)) s"
  shows "subs_ok (one_way_clipboard env) (one_way_file_transfer (fc_env env)) (after_login env opts dir displays s)"
proof -
  let ?oc = "one_way_clipboard env" and ?of = "one_way_file_transfer (fc_env env)"
  let ?s = "case opts of None \<Rightarrow> s | Some x \<Rightarrow> update_options env x s"
  obtain c w out where s: "?s = (c, w, out)" by (metis prod_cases3)
  have "subs_auth ?oc ?of ?s" using assms subs.update_options [OF assms] by (cases opts) simp_all
  then have ok: "subs_auth ?oc ?of (c, w, out)" by (simp only: s)
  let ?sv = "try_add_primay_video_service (primary_display env) (srv w)"
  have inv: "srv_inv (srv w)" "srv_inv ?sv" using ok by (simp_all add: subs_auth_iff allowed_except_def srv_inv_primary)
  have same: "subed_at ?sv n i = subed_at (srv w) n i" for n i
    by (simp add: try_add_primay_video_service_def subed_at_add_video)
  have "sub_allowed ?oc ?of c n"
    if "subed_at (add_connection (primary_display env) (inner c) (noperms_of env c) ?sv) n (cid c)" for n
  proof -
    from that subed_at_add_connection [OF inv(2), of "primary_display env" "inner c" "noperms_of env c" n "cid c"] same
    consider "subed_at (srv w) n (cid c)" | "n \<notin> set (noperms_of env c)" by (auto simp: wanted_def)
    then show ?thesis
    proof cases
      case 1
      with ok show ?thesis by (auto simp: subs_auth_iff allowed_except_def)
    next
      case 2
      with ok show ?thesis by (auto simp: noperms_of_def sub_allowed_def name_defs permission_defs subs_auth_iff split: if_splits)
    qed
  qed
  then have "subs_ok ?oc ?of (c\<lparr>services_subed := True, auto_disconnect_timer := t\<rparr>,
      w\<lparr>srv := add_connection (primary_display env) (inner c) (noperms_of env c) ?sv\<rparr>, out)" for t
    using ok srv_inv_add_connection [OF inv(2)]
    by (auto simp: subs_ok_iff subs_auth_iff is_remote_conn_def allowed_except_def cid_def sub_allowed_def permission_defs)
  with ok show ?thesis
    by (auto simp: after_login_def s try_sub_monitor_services_def subs_auth_def is_remote_conn_def subs_ok_iff)
qed

lemma subs_ok_end: "subs_ok oc ofl s \<Longrightarrow> subs_ok oc ofl (conn_end env s)"
proof (cases s)
  case (fields c w out)
  assume ok: "subs_ok oc ofl s"
  obtain m as where h: "conn_end_privacy (pm_env env) (cid c) (pm w) = (m, as)" by fastforce
  have inv: "srv_inv (srv w)" using ok fields by (simp add: subs_ok_iff allowed_except_def)
  have "subs_ok oc ofl (c, w\<lparr>pm := m, srv := remove_connection (inner c) (srv w)\<rparr>, out')" for out'
    using ok srv_inv_remove_connection [OF inv, of "inner c"] subed_at_remove_connection [OF inv, of "inner c"]
    by (auto simp: fields subs_ok_iff allowed_except_def cid_def)
  then show ?thesis by (simp add: conn_end_def fields h subs_ok_close)
qed

text \<open>The events of a connection that logs in to control the screen.\<close>

fun remote_event :: "ctl_event \<Rightarrow> bool" where
  "remote_event (LoggedIn t _ _ _) = (t = Remote)"
| "remote_event _ = True"

lemma subs_ok_step:
  assumes ok: "subs_ok (one_way_clipboard env) (one_way_file_transfer (fc_env env)) s" and e: "remote_event e"
    and step: "ctl_step env e s = Some (go, s')"
  shows "subs_ok (one_way_clipboard env) (one_way_file_transfer (fc_env env)) s'"
proof -
  let ?J = "subs_ok (one_way_clipboard env) (one_way_file_transfer (fc_env env))"
  obtain c w out where s: "s = (c, w, out)" by (metis prod_cases3)
  show ?thesis
  proof (cases e)
    case (LoggedIn t opts dir displays)
    have "subs_auth (one_way_clipboard env) (one_way_file_transfer (fc_env env)) (c\<lparr>is_authorized := True, authed_as := Some t\<rparr>, w, out)"
      using ok e LoggedIn by (auto simp: s subs_auth_iff subs_ok_iff is_remote_conn_def sub_allowed_def permission_defs elim!: allowed_start)
    from subs_ok_after_login [OF this, of opts dir displays] LoggedIn step show ?thesis by (simp add: s goes_def)
  next
    case (Peer m)
    show ?thesis
    proof (cases "is_authorized c \<and> \<not> is_port_forward c")
      case True
      with ok have "subs_auth (one_way_clipboard env) (one_way_file_transfer (fc_env env)) s" by (simp add: subs_auth_def s)
      with True Peer step show ?thesis by (intro subs_ok_message) (auto simp: on_peer_message_def s)
    next
      case False
      with Peer step ok show ?thesis by (auto simp: on_peer_message_def s goes_def)
    qed
  next
    case (FromManager d)
    with step subs_ok_cm [OF ok, of d] show ?thesis by simp
  next
    case (HostClip x)
    with step ok show ?thesis by (auto simp: goes_def handle_file_clip_def s subs_ok_iff split: if_splits)
  next
    case (FileTimer brk)
    obtain g f os where h: "file_tick (fc_env env) brk (fc c) (wfs w) = (g, f, os)" by (metis prod_cases3)
    have "?J (c\<lparr>fc := f\<rparr>, w, out @ map FileOut os)"
      using ok file_tick_kind [OF h] by (auto simp: s is_remote_conn_def elim!: subs_ok_same)
    with FileTimer step h show ?thesis by (auto simp: file_timer_tick_def s Let_def subs_ok_close split: if_splits)
  next
    case Second
    have "?J (c\<lparr>fc := (fc c)\<lparr>remove_log := l\<rparr>\<rparr>, w, out')" for l out'
      using ok by (auto simp: s is_remote_conn_def elim!: subs_ok_same)
    with Second step ok show ?thesis
      by (auto simp: second_tick_def s subs_ok_close subs_ok_emit split: if_splits prod.splits option.splits)
  qed (use step ok in \<open>auto simp: subs_ok_close subs_ok_emit\<close>)
qed


section \<open>What the permissions do not cover\<close>

text \<open>Taking the clipboard permission away leaves the connection subscribed to the copied files, although its own test then says that
  it may not be.\<close>

theorem clipboard_off_keeps_copied_files:
  assumes "srv_inv (srv w)" "subed_at (srv w) FILE_CLIPBOARD_NAME (cid c)"
    and "ctl_step env (FromManager (SwitchPermission ''clipboard'' False)) (c, w, out) = Some (go, c', w', out')"
  shows "subed_at (srv w') FILE_CLIPBOARD_NAME (cid c') \<and> \<not> can_sub_file_clipboard_service env c'"
  using assms by (auto simp: switch_permission_def Let_def sub_clipboard_def sub_def subed_at_subscribe cid_def name_defs permission_defs)

section \<open>Idle connections end\<close>

fun activity :: "ctl_event \<Rightarrow> bool" where
  "activity (Peer (MouseMsg _)) = True"
| "activity (Peer (PointerMsg _)) = True"
| "activity (Peer (KeyMsg _)) = True"
| "activity (Peer (ChatMsg _)) = True"
| "activity (Peer (RefreshVideoMsg _)) = True"
| "activity (Peer (RefreshVideoDisplayMsg _)) = True"
| "activity (LoggedIn _ _ _ _) = True"
| "activity _ = False"

definition timer_is :: "(nat \<times> nat) option \<Rightarrow> ctl_state \<Rightarrow> bool" where
  "timer_is t s \<longleftrightarrow> auto_disconnect_timer (fst s) = t"

interpretation idle: option_invariant env "timer_is t" for env t
  by unfold_locales
    (auto simp: option_defs timer_is_def privacy_def Let_def split: option.splits image_quality.splits prod.splits)

lemma timer_is_simps [simp]:
  "timer_is t (emit es s) = timer_is t s" "timer_is t (close_reason r s) = timer_is t s" "timer_is t (on_close b s) = timer_is t s"
  "timer_is t (change_resolution env d wd ht s) = timer_is t s" "timer_is t (display_message env j s) = timer_is t s"
  "timer_is t (on_refresh x s) = timer_is t s" "timer_is t (close_voice_call s) = timer_is t s" "timer_is t (handle_voice_call b s) = timer_is t s"
  "timer_is t (privacy env b k s) = timer_is t s" "timer_is t (switch_permission env n b s) = timer_is t s"
  by (cases s; simp add: emit_def close_reason_def on_close_def change_resolution_def display_message_def on_refresh_def close_voice_call_def
      handle_voice_call_def privacy_def switch_permission_def timer_is_def Let_def split: option.split prod.split)+

lemma timer_is_pair: "timer_is t (c, w, out) \<longleftrightarrow> auto_disconnect_timer c = t"
  by (simp add: timer_is_def)

lemma timer_is_message:
  assumes "timer_is t s" "\<not> activity (Peer m)" "on_authorized_message env m s = Some (go, s')"
  shows "timer_is t s'"
proof -
  obtain c w out where s: "s = (c, w, out)" by (metis prod_cases3)
  have c: "auto_disconnect_timer c = t" using assms(1) by (simp add: timer_is_def s)
  show ?thesis
  proof (cases m)
    case (OptionMsg opts)
    with assms(3) idle.update_options [OF assms(1), of env opts] show ?thesis by (simp add: goes_def)
  next
    case (SwitchDisplayMsg d wd ht)
    have "timer_is t (c\<lparr>display_idx := k\<rparr>, w', out)" for k w' using c by (simp add: timer_is_def)
    with SwitchDisplayMsg assms(1,3) show ?thesis
      by (auto simp: goes_def handle_switch_display_def s Let_def split: prod.splits if_splits)
  next
    case (CliprdrMsg u)
    with assms(3) c show ?thesis
      by (auto simp: timer_is_def s on_cliprdr_def split: option.splits cliprdr_union.splits if_splits)
  qed (use assms c in \<open>auto simp: s goes_def voice_call_request_def on_capture_displays_def on_files_def timer_is_pair
      split: prod.splits if_splits option.splits\<close>)
qed

lemma timer_is_step:
  assumes "timer_is t s" "\<not> activity e" "ctl_step env e s = Some (go, s')"
  shows "timer_is t s'"
proof -
  obtain c w out where s: "s = (c, w, out)" by (metis prod_cases3)
  show ?thesis
  proof (cases e)
    case (Peer m)
    with assms timer_is_message [OF assms(1), of m env go s'] show ?thesis by (auto simp: on_peer_message_def goes_def split: if_splits)
  next
    case (FromManager d)
    with assms(1,3) show ?thesis
      by (cases d) (auto simp: s timer_is_pair split: prod.splits if_splits)
  qed (use assms in \<open>auto simp: s goes_def handle_file_clip_def file_timer_tick_def second_tick_def timer_is_pair Let_def
      split: prod.splits if_splits option.splits\<close>)
qed

lemma timer_is_run:
  assumes "timer_is t s" "\<forall>(env, e) \<in> set es. \<not> activity e" "ctl_run es s = Some s'" "\<not> closed (fst s')"
  shows "timer_is t s' \<and> ctl_run (es @ fs) s = ctl_run fs s'"
  using assms
proof (induction es arbitrary: s)
  case (Cons x es)
  obtain env e where x: "x = (env, e)" by fastforce
  with Cons.prems obtain go s1 where h: "ctl_step env e s = Some (go, s1)" by (auto split: option.splits)
  have "closed (fst (conn_end env s1))" by (cases s1) (auto simp: conn_end_def on_close_def split: prod.split)
  with Cons.prems h x have go: "go" by (auto split: if_splits)
  have "timer_is t s1" using Cons.prems x by (intro timer_is_step [OF _ _ h]) auto
  with Cons.IH [of s1] Cons.prems h x go show ?case by auto
qed simp

text \<open>C34: a host that ends idle sessions does: after any events without input, chat or a refresh, the first tick of the second timer more
  than the configured minutes after the last activity closes the connection, says why, and takes it off every service.\<close>

theorem idle_connection_ends:
  assumes w: "srv_inv (srv w)" and t: "auto_disconnect_timer c = Some (t, m)" and es: "\<forall>(env, e) \<in> set es. \<not> activity e"
    and run: "ctl_run es (c, w, []) = Some (c', w', out)" and open_: "\<not> closed c'"
    and m: "m < 2 ^ 58" and late: "secs (fc_env env) > t + m * 60"
  shows "\<exists>c'' w'' out'. ctl_run (es @ [(env, Second)]) (c, w, []) = Some (c'', w'', out') \<and> closed c'' \<and>
    SendCloseReason ''Connection failed due to inactivity'' \<in> set out' \<and> (\<forall>n. \<not> subed_at (srv w'') n (cid c''))"
proof -
  have "timer_is (Some (t, m)) (c, w, [])" using t by (simp add: timer_is_pair)
  from timer_is_run [OF this es run, of "[(env, Second)]"] open_ have c': "auto_disconnect_timer c' = Some (t, m)"
    and r: "ctl_run (es @ [(env, Second)]) (c, w, []) = ctl_run [(env, Second)] (c', w', out)"
    by (simp_all add: timer_is_pair)
  have inv: "srv_inv (srv w')" using server_ok_run [OF _ run] w by (simp add: server_ok_def)
  have "m * 60 mod 2 ^ 64 = m * 60" using m by (intro mod_less) simp
  with late have "secs (fc_env env) - t > m * 60 mod 2 ^ 64" by simp
  then show ?thesis
    using c' open_ subed_at_remove_connection [OF inv, of "inner c'"]
    by (auto simp: r second_tick_def close_reason_def emit_def on_close_def conn_end_def cid_def split: prod.split)
qed

section \<open>Examples\<close>

definition example_ctl_env :: "nat \<Rightarrow> CtlEnv" where
  "example_ctl_env t = \<lparr>fc_env = (example_fc_env False)\<lparr>secs := t\<rparr>, pm_env = example_pm_env, pm_creators = (\<lambda>_. None), time_ms = 0,
     primary_display = 0, camera_there = False, one_way_clipboard = False, allow_auto_disconnect = ''Y'', auto_disconnect_timeout = ''5'',
     whiteboard_supported = True, display_list = None, display_changed = (\<lambda>_. False), rdev_modifier = (\<lambda>_. None)\<rparr>"

definition example_ctl :: Ctl where
  "example_ctl = \<lparr>inner = conn_new 5 None None, view_camera = False, display_idx = 0, multi_ui_session = False,
     follow_remote_window = False, supports_multi_ui_session = True, my_peer_id = ''9'', version = ''1.4.2'', is_authorized = True,
     authed_as = Some Remote, is_port_forward = False, is_terminal = False, keyboard = True, clipboard = True, audio = True,
     file_perm = True, restart = False, recording = True, block_input = False, disable_audio = False, disable_clipboard = False,
     disable_keyboard = False, enable_file_transfer = True, lock_after_session_end = False, show_remote_cursor = False,
     follow_remote_cursor = False, show_my_cursor = False, voice_call_request_timestamp = None, voice_calling = False,
     audio_sender = False, pressed_modifiers = {}, services_subed = True, chat_unanswered = False,
     auto_disconnect_timer = Some (100, 5), ctl_persistent = False, closed = False, fc = (example_fc {})\<lparr>is_file_conn := False\<rparr>\<rparr>"

definition example_world :: World where
  "example_world = \<lparr>srv = example_server, pm = None, clip_files = example_clip, wfs = example_tree\<rparr>"

definition file_server :: Server where
  "file_server = subscribe FILE_CLIPBOARD_NAME (conn_new 5 None None) True (server_new 0 [service_new FILE_CLIPBOARD_NAME True])"




theorem clipboard_off_keeps_copied_files_witness:
  "\<exists>c' w' out'. ctl_step (example_ctl_env 0) (FromManager (SwitchPermission ''clipboard'' False))
       (example_ctl, example_world\<lparr>srv := file_server\<rparr>, []) = Some (True, c', w', out') \<and>
     subed_at (srv w') FILE_CLIPBOARD_NAME (cid c') \<and> \<not> can_sub_file_clipboard_service (example_ctl_env 0) c'"
proof -
  let ?w = "example_world\<lparr>srv := file_server\<rparr>"
  have new: "srv_inv (server_new 0 [service_new FILE_CLIPBOARD_NAME True])" by (rule srv_inv_server_new) (simp add: svc_inv_new)
  have inv: "srv_inv (srv ?w)" using srv_inv_subscribe [OF new] by (simp add: file_server_def)
  have sb: "subed_at (srv ?w) FILE_CLIPBOARD_NAME (cid example_ctl)"
    using subed_at_subscribe [OF new, of FILE_CLIPBOARD_NAME "conn_new 5 None None" True FILE_CLIPBOARD_NAME 5]
    by (simp add: file_server_def cid_def example_ctl_def contains_def server_new_def add_service_def service_new_def conn_new_def)
  obtain c' w' out' where r: "ctl_step (example_ctl_env 0) (FromManager (SwitchPermission ''clipboard'' False)) (example_ctl, ?w, []) =
      Some (True, c', w', out')" by (simp add: switch_permission_def Let_def)
  from clipboard_off_keeps_copied_files [OF inv sb r] r show ?thesis by blast
qed

theorem idle_connection_ends_witness:
  "\<exists>c' w' out. ctl_run [(example_ctl_env 200, Peer VideoReceivedMsg), (example_ctl_env 401, Second)] (example_ctl, example_world, []) =
      Some (c', w', out) \<and> closed c' \<and> SendCloseReason ''Connection failed due to inactivity'' \<in> set out"
proof -
  let ?e = "(example_ctl_env 200, Peer VideoReceivedMsg)"
  obtain c' w' out where r: "ctl_run [?e] (example_ctl, example_world, []) = Some (c', w', out)" "c' = example_ctl"
    by (simp add: on_peer_message_def goes_def emit_def example_ctl_def)
  have "srv_inv (srv example_world)" by (simp add: example_world_def example_server_inv)
  from idle_connection_ends [OF this _ _ r(1), of 100 5 "example_ctl_env 401"] show ?thesis
    by (auto simp: r(2) example_ctl_def example_ctl_env_def)
qed

end
