(* ===== verification/Rendezvous.thy ===== *)
theory Rendezvous
  imports Host_Policy Password_Policy Version_Number Addr_Mangle
begin

text \<open>
  The rendezvous mediator (\<open>src/rendezvous_mediator.rs\<close>) and the part of the configuration it works on: registration of the id and the
  key with a rendezvous server over UDP and over TCP, the choice of the transport, the answers to requests of a viewer (hole
  punching, local network, relay) and the direct access port. One mediator runs per server; the mediators share the configuration
  and a few global variables, which are the record \<open>RzWorld\<close>. Times are in microseconds. What the sockets answer, the
  random numbers, the parsers of addresses of the standard library and the test of the regex package for an IPv6 address are fields of
  \<open>RzEnv\<close>. The version string that is sent along is left out.
\<close>

section \<open>Data\<close>

datatype ip_addr = IpV4 u8 u8 u8 u8 | IpV6 bytes

datatype pk_result = PkOk | PkUuidMismatch | PkOther

record PunchHole =
  ph_addr :: bytes
  ph_relay :: string
  ph_nat :: int
  ph_udp_port :: int
  ph_force_relay :: bool
  ph_addr_v6 :: bytes
  ph_perms :: "nat option"

record RequestRelay =
  rr_uuid :: string
  rr_addr :: bytes
  rr_relay :: string
  rr_secure :: bool
  rr_perms :: "nat option"

record FetchLocalAddr =
  fla_addr :: bytes
  fla_relay :: string
  fla_addr_v6 :: bytes
  fla_perms :: "nat option"

datatype rz_msg =
  RegisterPeerResponse bool
| RegisterPkResponse pk_result int
| PunchHoleMsg PunchHole
| RequestRelayMsg RequestRelay
| FetchLocalAddrMsg FetchLocalAddr
| ConfigureUpdate "string list" int
| OtherRzMsg

text \<open>What a mediator does: messages to its server, tasks it spawns, and connections it makes or waits for.\<close>

datatype rz_out =
  SendRegisterPk string bytes bytes bool
| SendRegisterPeer string int
| SendHeartbeat
| Spawn rz_msg
| Rebind
| SendRelayResponse bytes bytes "(string \<times> string \<times> string) option"
| RelayConnection string string SocketAddr bool bool "nat option"
| SendLocalAddr string bytes bytes string bytes
| SendPunchHole bytes string string int bytes int
| DialPeer SocketAddr
| AcceptConnection SocketAddr bool "nat option"
| UdpListen SocketAddr SocketAddr "nat option"

record Mediator =
  addr_ipv4 :: bool
  host :: string
  host_prefix :: string
  keep_alive :: int

record RzWorld =
  settings :: Settings
  latencies :: "(string \<times> int) list"
  solving :: string
  sent_register_pk :: bool
  should_exit :: bool
  manual_restarted :: bool
  last_msg :: "SocketAddr \<times> nat"
  last_relay_msg :: "SocketAddr \<times> nat"
  direct_port :: int

record RzEnv =
  deps :: Deps
  fresh_salt :: string
  gen_id :: "string option"
  random_id :: nat
  public_key :: bytes
  machine_uuid :: bytes
  fresh_uuid :: string
  now :: nat
  mangle_time :: u32
  exe_server :: string
  prod_server :: string
  parse_ip :: "string \<Rightarrow> ip_addr option"
  parse_socket_ip :: "string \<Rightarrow> ip_addr option"
  ipv6_text :: "string \<Rightarrow> bool"
  using_public_server :: bool
  send_result :: "string + unit"
  rebound :: "string + bool option"
  connect_server :: "string + SocketAddr"
  connect_raw :: "string + unit"
  udp_socket :: "string + unit"
  ipv6_socket :: "bytes option"
  nat_listen :: "string + unit"

type_synonym 'a rz_result = "(string + 'a) \<times> RzWorld \<times> rz_out list"

definition RENDEZVOUS_PORT :: nat where "RENDEZVOUS_PORT = 21116"
definition RENDEZVOUS_SERVERS :: "string list" where "RENDEZVOUS_SERVERS = [''rev.dicad.cn'']"
definition REG_INTERVAL :: int where "REG_INTERVAL = 15000"
definition SERIAL :: int where "SERIAL = 3"
definition DEFAULT_KEEP_ALIVE :: int where "DEFAULT_KEEP_ALIVE = 60000"
definition DEFAULT_DIRECT_PORT :: int where "DEFAULT_DIRECT_PORT = 21118"
definition DIRECT_PORT_RANGE :: int where "DIRECT_PORT_RANGE = 10"
definition CONNECT_TIMEOUT :: nat where "CONNECT_TIMEOUT = 18000"

section \<open>Configuration\<close>

text \<open>\<open>rsplit_once\<close> of a character.\<close>

definition rsplit_once :: "char \<Rightarrow> string \<Rightarrow> (string \<times> string) option" where
  "rsplit_once c s =
     (if c \<in> set s
      then Some (rev (tl (dropWhile (\<lambda>x. x \<noteq> c) (rev s))), rev (takeWhile (\<lambda>x. x \<noteq> c) (rev s)))
      else None)"

definition parse_i32 :: "string \<Rightarrow> int option" where
  "parse_i32 s = (case parse_i64 s of Some v \<Rightarrow> if - (2 ^ 31) \<le> v \<and> v < 2 ^ 31 then Some v else None | None \<Rightarrow> None)"

text \<open>\<open>str::parse\<close> to a \<open>u16\<close>: a plus sign is accepted, a minus sign is not.\<close>

definition is_u16 :: "string \<Rightarrow> bool" where
  "is_u16 s = (\<not> starts_with ''-'' s \<and> (case parse_i64 s of Some v \<Rightarrow> v < 2 ^ 16 | None \<Rightarrow> False))"

definition endpoint_host :: "string \<Rightarrow> string" where
  "endpoint_host e =
     to_lowercase
       (if starts_with ''['' e \<and> CHR '']'' \<in> set (tl e) then takeWhile (\<lambda>c. c \<noteq> CHR '']'') (tl e)
        else case rsplit_once (CHR '':'') e of
          Some (h, p) \<Rightarrow> if CHR '':'' \<notin> set h \<and> is_u16 p then h else e
        | None \<Rightarrow> e)"

fun unusable_ip :: "ip_addr \<Rightarrow> bool" where
  "unusable_ip (IpV4 a b c d) =
     (a = 127 \<or> (a, b, c, d) = (0, 0, 0, 0) \<or> a = 169 \<and> b = 254 \<or> a = 192 \<and> b = 0 \<and> c = 2 \<or>
      a = 198 \<and> b = 51 \<and> c = 100 \<or> a = 203 \<and> b = 0 \<and> c = 113)"
| "unusable_ip (IpV6 o6) = (is_loopback o6 \<or> o6 = replicate 16 0)"

definition is_loopback_or_test_server :: "RzEnv \<Rightarrow> string \<Rightarrow> bool" where
  "is_loopback_or_test_server env s =
     (let e = trim s; h = endpoint_host e;
          ip = (case parse_ip env e of Some i \<Rightarrow> Some i | None \<Rightarrow> parse_socket_ip env e)
      in if e = [] then False
         else if h = ''localhost'' \<or> h = ''0.0.0.0'' then True
         else case (case ip of Some i \<Rightarrow> Some i | None \<Rightarrow> parse_ip env h) of
           None \<Rightarrow> False
         | Some i \<Rightarrow> unusable_ip i)"

definition get_rendezvous_servers :: "RzEnv \<Rightarrow> Settings \<Rightarrow> string list" where
  "get_rendezvous_servers env s =
     (case filter (\<lambda>x. x \<noteq> [] \<and> \<not> is_loopback_or_test_server env x)
             [exe_server env, get_option s ''custom-rendezvous-server'', prod_server env] of
        x # _ \<Rightarrow> [x]
      | [] \<Rightarrow>
          (let ss = filter (\<lambda>x. CHR ''.'' \<in> set x \<and> \<not> is_loopback_or_test_server env x)
                      (map trim (split_on (CHR '','') (get_option s ''rendezvous-servers'')))
           in if serial (config2 s) > SERIAL \<and> ss \<noteq> [] then ss else RENDEZVOUS_SERVERS))"

definition set_serial :: "Deps \<Rightarrow> int \<Rightarrow> Settings \<Rightarrow> Settings" where
  "set_serial D n s = (if n = serial (config2 s) then s else store2 D (s\<lparr>config2 := (config2 s)\<lparr>serial := n\<rparr>\<rparr>))"

definition get_serial :: "Settings \<Rightarrow> int" where "get_serial s = max (serial (config2 s)) SERIAL"

definition update_id :: "RzEnv \<Rightarrow> Settings \<Rightarrow> Settings" where
  "update_id env s =
     set_id (deps env) (fresh_salt env) (decimal (random_id env)) (snd (get_id (deps env) (fresh_salt env) (gen_id env) s))"

definition no_register_device :: "Settings \<Rightarrow> bool" where
  "no_register_device s = (map_of (builtin_settings s) ''register-device'' = Some ''N'')"

definition is_disable_tcp_listen :: "Settings \<Rightarrow> bool" where
  "is_disable_tcp_listen s = (map_of (hard_settings s) ''disable-tcp-listen'' = Some ''Y'')"

definition is_proxy :: "Settings \<Rightarrow> bool" where
  "is_proxy s =
     (map_of (overwrite_settings s) ''proxy-url'' \<noteq> None \<or> socks (config2 s) \<noteq> None \<or>
      map_of (default_settings s) ''proxy-url'' \<noteq> None)"

text \<open>The server with the smallest positive latency becomes the preferred one.\<close>

definition fastest :: "(string \<times> int) list \<Rightarrow> string" where
  "fastest ls = fst (fold (\<lambda>(h, d) (bh, bd). if d > 0 \<and> d < bd then (h, d) else (bh, bd)) ls ([], 2 ^ 63 - 1))"

definition update_latency :: "RzEnv \<Rightarrow> string \<Rightarrow> int \<Rightarrow> RzWorld \<Rightarrow> RzWorld" where
  "update_latency env h d w =
     (let ls = AList.update h d (latencies w); f = fastest ls; s = settings w
      in w\<lparr>latencies := ls,
           settings := (if f \<noteq> [] \<and> f \<noteq> rendezvous_server (config2 s)
                        then store2 (deps env) (s\<lparr>config2 := (config2 s)\<lparr>rendezvous_server := f\<rparr>\<rparr>) else s)\<rparr>)"

section \<open>Registration\<close>

definition get_host_prefix :: "string \<Rightarrow> string" where
  "get_host_prefix h = (let x = hd (split_on (CHR ''.'') h) in if parse_i32 x \<noteq> None then h else x)"

definition check_port :: "RzEnv \<Rightarrow> string \<Rightarrow> nat \<Rightarrow> string" where
  "check_port env h port =
     (if ipv6_text env h then (if starts_with ''['' h then h else ''['' @ h @ '']:'' @ decimal port)
      else if CHR '':'' \<notin> set h then h @ '':'' @ decimal port
      else h)"

definition register_pk :: "RzEnv \<Rightarrow> RzWorld \<Rightarrow> unit rz_result" where
  "register_pk env w =
     (case get_id (deps env) (fresh_salt env) (gen_id env) (settings w) of
        (i, s) \<Rightarrow>
          (case send_result env of
             Inl e \<Rightarrow> (Inl e, w\<lparr>settings := s\<rparr>, [])
           | Inr _ \<Rightarrow> (Inr (), w\<lparr>settings := s, sent_register_pk := True\<rparr>,
               [SendRegisterPk i (machine_uuid env) (public_key env) (no_register_device s)])))"

definition handle_uuid_mismatch :: "RzEnv \<Rightarrow> Mediator \<Rightarrow> RzWorld \<Rightarrow> unit rz_result" where
  "handle_uuid_mismatch env rz w =
     (if solving w = [] \<or> solving w = host rz
      then register_pk env (w\<lparr>settings := update_id env (set_key_confirmed (deps env) (fresh_salt env) False (settings w)),
                             solving := host rz\<rparr>)
      else (Inr (), w, []))"

definition register_peer :: "RzEnv \<Rightarrow> Mediator \<Rightarrow> RzWorld \<Rightarrow> unit rz_result" where
  "register_peer env rz w =
     (if \<not> (solving w = [] \<or> solving w = host rz) then (Inr (), w, [])
      else if \<not> key_confirmed (config (settings w)) \<or> \<not> get_host_key_confirmed (settings w) (host_prefix rz)
      then register_pk env w
      else (case get_id (deps env) (fresh_salt env) (gen_id env) (settings w) of
              (i, s) \<Rightarrow>
                (case send_result env of
                   Inl e \<Rightarrow> (Inl e, w\<lparr>settings := s\<rparr>, [])
                 | Inr _ \<Rightarrow> (Inr (), w\<lparr>settings := s\<rparr>, [SendRegisterPeer i (get_serial s)]))))"

definition restart :: "RzWorld \<Rightarrow> RzWorld" where
  "restart w = w\<lparr>should_exit := True, manual_restarted := True\<rparr>"

definition i32_mul :: "int \<Rightarrow> int \<Rightarrow> int" where
  "i32_mul a b = (a * b + 2 ^ 31) mod 2 ^ 32 - 2 ^ 31"

definition pk_response :: "RzEnv \<Rightarrow> Mediator \<Rightarrow> pk_result \<Rightarrow> RzWorld \<Rightarrow> unit rz_result" where
  "pk_response env rz r w =
     (case r of
        PkOk \<Rightarrow>
          register_peer env rz
            (w\<lparr>settings := set_host_key_confirmed (deps env) (fresh_salt env) (host_prefix rz) True
                             (set_key_confirmed (deps env) (fresh_salt env) True (settings w)),
               solving := []\<rparr>)
      | PkUuidMismatch \<Rightarrow> handle_uuid_mismatch env rz w
      | PkOther \<Rightarrow> (Inr (), w, []))"

definition configure_update :: "RzEnv \<Rightarrow> string list \<Rightarrow> int \<Rightarrow> RzWorld \<Rightarrow> RzWorld" where
  "configure_update env servers n w =
     (let joined = (case servers of [] \<Rightarrow> [] | x # xs \<Rightarrow> x @ concat (map (\<lambda>y. '','' @ y) xs));
          w1 = w\<lparr>settings := set_serial (deps env) n (set_option (deps env) ''rendezvous-servers'' joined (settings w))\<rparr>
      in if get_rendezvous_servers env (settings w) \<noteq> get_rendezvous_servers env (settings w1) then restart w1 else w1)"

text \<open>The answer of the server. \<open>upd\<close> is the closure of the loop that measures the latency; \<open>l\<close> is what it keeps.\<close>

fun handle_resp :: "RzEnv \<Rightarrow> ('l \<Rightarrow> RzWorld \<Rightarrow> 'l \<times> RzWorld) \<Rightarrow> rz_msg \<Rightarrow> Mediator \<Rightarrow> 'l \<Rightarrow> RzWorld \<Rightarrow>
    (string + unit) \<times> Mediator \<times> 'l \<times> RzWorld \<times> rz_out list" where
  "handle_resp env upd (RegisterPeerResponse request_pk) rz l w =
     (case upd l w of (l1, w1) \<Rightarrow>
        if request_pk then (case register_pk env w1 of (r, w2, ms) \<Rightarrow> (r, rz, l1, w2, ms)) else (Inr (), rz, l1, w1, []))"
| "handle_resp env upd (RegisterPkResponse res ka) rz l w =
     (case upd l w of (l1, w1) \<Rightarrow>
        (case pk_response env rz res w1 of
           (Inl e, w2, ms) \<Rightarrow> (Inl e, rz, l1, w2, ms)
         | (Inr _, w2, ms) \<Rightarrow> (Inr (), if ka > 0 then rz\<lparr>keep_alive := i32_mul ka 1000\<rparr> else rz, l1, w2, ms)))"
| "handle_resp env upd (ConfigureUpdate servers n) rz l w = (Inr (), rz, l, configure_update env servers n w, [])"
| "handle_resp env upd OtherRzMsg rz l w = (Inr (), rz, l, w, [])"
| "handle_resp env upd m rz l w = (Inr (), rz, l, w, [Spawn m])"

section \<open>The loop over UDP\<close>

definition MIN_REG_TIMEOUT :: int where "MIN_REG_TIMEOUT = 3000"
definition MAX_REG_TIMEOUT :: int where "MAX_REG_TIMEOUT = 30000"
definition MAX_FAILS1 :: int where "MAX_FAILS1 = 2"
definition MAX_FAILS2 :: int where "MAX_FAILS2 = 4"
definition DNS_INTERVAL :: int where "DNS_INTERVAL = 60000"
definition RECOVERY_REG_INTERVAL :: int where "RECOVERY_REG_INTERVAL = 5000"

lemmas rz_constants = REG_INTERVAL_def MIN_REG_TIMEOUT_def MAX_REG_TIMEOUT_def MAX_FAILS1_def MAX_FAILS2_def DNS_INTERVAL_def
  RECOVERY_REG_INTERVAL_def SERIAL_def DEFAULT_KEEP_ALIVE_def DEFAULT_DIRECT_PORT_def DIRECT_PORT_RANGE_def

record UdpLoop =
  reg_timeout :: int
  fails :: int
  last_register_resp :: "nat option"
  last_register_sent :: "nat option"
  last_dns_check :: nat
  old_latency :: int
  ema_latency :: int

definition elapsed_ms :: "RzEnv \<Rightarrow> nat \<Rightarrow> int" where "elapsed_ms env t = int ((now env - t) div 1000)"
definition elapsed_us :: "RzEnv \<Rightarrow> nat \<Rightarrow> int" where "elapsed_us env t = int (now env - t)"

definition udp_start :: "RzEnv \<Rightarrow> UdpLoop" where
  "udp_start env = \<lparr>reg_timeout = MIN_REG_TIMEOUT, fails = 0, last_register_resp = None, last_register_sent = None,
     last_dns_check = now env, old_latency = 0, ema_latency = 0\<rparr>"

definition new_mediator :: "RzEnv \<Rightarrow> bool \<Rightarrow> string \<Rightarrow> Mediator" where
  "new_mediator env v4 h0 =
     (let h = check_port env h0 RENDEZVOUS_PORT
      in \<lparr>addr_ipv4 = v4, host = h, host_prefix = get_host_prefix h, keep_alive = DEFAULT_KEEP_ALIVE\<rparr>)"

text \<open>A latency above a second is not counted; the average weighs a new one with a thirtieth, and is published when it moved by
  more than a fifth and 3 ms.\<close>

definition udp_update_latency :: "RzEnv \<Rightarrow> string \<Rightarrow> UdpLoop \<Rightarrow> RzWorld \<Rightarrow> UdpLoop \<times> RzWorld" where
  "udp_update_latency env h l w =
     (let d = (case last_register_sent l of Some t \<Rightarrow> elapsed_us env t | None \<Rightarrow> 0);
          l1 = l\<lparr>last_register_resp := Some (now env), fails := 0, reg_timeout := MIN_REG_TIMEOUT, last_register_sent := None\<rparr>
      in if d < 0 \<or> d > 1000000 then (l1, w)
         else
           (let ema = (if ema_latency l = 0 then d else d div 30 + ema_latency l * 29 div 30);
                n = max 3000 (ema div 5)
            in if abs (ema - old_latency l) > n \<or> old_latency l \<le> 0
               then (l1\<lparr>ema_latency := ema, old_latency := ema\<rparr>, update_latency env h ema w)
               else (l1\<lparr>ema_latency := ema\<rparr>, w)))"

datatype loop_end = Goes | Stops "string + unit"

type_synonym 'l loop_state = "loop_end \<times> Mediator \<times> 'l \<times> RzWorld \<times> rz_out list"

definition fallback_error :: "int \<Rightarrow> string" where
  "fallback_error n = ''UDP rendezvous registration timed out after '' @ decimal (nat n) @ '' attempts''"

text \<open>What a missed answer does: the error that ends the loop, or the new state.\<close>

definition missed_answer :: "RzEnv \<Rightarrow> Mediator \<Rightarrow> UdpLoop \<Rightarrow> RzWorld \<Rightarrow> (string + Mediator) \<times> UdpLoop \<times> RzWorld \<times> rz_out list" where
  "missed_answer env rz l0 w =
     (let l = l0\<lparr>fails := fails l0 + 1\<rparr>
      in if should_fallback_to_tcp (fails l) then (Inl (fallback_error (fails l)), l, update_latency env (host rz) (-1) w, [])
         else if fails l \<ge> MAX_FAILS2 then
           (let l1 = l\<lparr>old_latency := 0\<rparr>; w1 = update_latency env (host rz) (-1) w
            in if elapsed_ms env (last_dns_check l1) > DNS_INTERVAL
               then (case rebound env of
                       Inl e \<Rightarrow> (Inl e, l1, w1, [])
                     | Inr None \<Rightarrow> (Inr rz, l1\<lparr>last_dns_check := now env\<rparr>, w1, [])
                     | Inr (Some v4) \<Rightarrow> (Inr (rz\<lparr>addr_ipv4 := v4\<rparr>), l1\<lparr>last_dns_check := now env\<rparr>, w1, [Rebind]))
               else (Inr rz, l1, w1, []))
         else if fails l \<ge> MAX_FAILS1 then (Inr rz, l\<lparr>old_latency := 0\<rparr>, update_latency env (host rz) 0 w, [])
         else (Inr rz, l, w, []))"

definition registration_due :: "RzEnv \<Rightarrow> UdpLoop \<Rightarrow> bool" where
  "registration_due env l =
     (case last_register_resp l of
        None \<Rightarrow> True
      | Some t \<Rightarrow> elapsed_ms env t \<ge> (if fails l > 0 then RECOVERY_REG_INTERVAL else REG_INTERVAL))"

definition answer_missed :: "RzEnv \<Rightarrow> UdpLoop \<Rightarrow> bool" where
  "answer_missed env l = (case last_register_sent l of None \<Rightarrow> False | Some t \<Rightarrow> elapsed_ms env t \<ge> reg_timeout l)"

definition udp_register :: "RzEnv \<Rightarrow> Mediator \<Rightarrow> UdpLoop \<Rightarrow> RzWorld \<Rightarrow> rz_out list \<Rightarrow> UdpLoop loop_state" where
  "udp_register env rz l w ms =
     (case register_peer env rz w of
        (Inl e, w1, ms1) \<Rightarrow> (Stops (Inl e), rz, l, w1, ms @ ms1)
      | (Inr _, w1, ms1) \<Rightarrow> (Goes, rz, l\<lparr>last_register_sent := Some (now env)\<rparr>, w1, ms @ ms1))"

definition udp_tick :: "RzEnv \<Rightarrow> Mediator \<Rightarrow> UdpLoop \<Rightarrow> RzWorld \<Rightarrow> UdpLoop loop_state" where
  "udp_tick env rz l w =
     (if should_exit w then (Stops (Inr ()), rz, l, w, [])
      else
        (let missed = answer_missed env l;
             l1 = (if using_public_server env \<and> missed \<and> reg_timeout l < MAX_REG_TIMEOUT
                   then l\<lparr>reg_timeout := reg_timeout l + MIN_REG_TIMEOUT\<rparr> else l)
         in if missed then
              (case missed_answer env rz l1 w of
                 (Inl e, l2, w2, ms) \<Rightarrow> (Stops (Inl e), rz, l2, w2, ms)
               | (Inr rz2, l2, w2, ms) \<Rightarrow> udp_register env rz2 l2 w2 ms)
            else if last_register_sent l = None \<and> registration_due env l then udp_register env rz l1 w []
            else (Goes, rz, l1, w, [])))"

datatype udp_event = UdpMsg "rz_msg option" | UdpError string | UdpNone | UdpTick

fun udp_step :: "RzEnv \<Rightarrow> udp_event \<Rightarrow> Mediator \<Rightarrow> UdpLoop \<Rightarrow> RzWorld \<Rightarrow> UdpLoop loop_state" where
  "udp_step env (UdpMsg (Some m)) rz l w =
     (case handle_resp env (udp_update_latency env (host rz)) m rz l w of
        (Inl e, rz1, l1, w1, ms) \<Rightarrow> (Stops (Inl e), rz1, l1, w1, ms)
      | (Inr _, rz1, l1, w1, ms) \<Rightarrow> (Goes, rz1, l1, w1, ms))"
| "udp_step env (UdpMsg None) rz l w = (Goes, rz, l, w, [])"
| "udp_step env (UdpError e) rz l w = (Stops (Inl (''Failed to receive next: '' @ e)), rz, l, w, [])"
| "udp_step env UdpNone rz l w = (Stops (Inl ''Socket receive none. Maybe socks5 server is down.''), rz, l, w, [])"
| "udp_step env UdpTick rz l w = udp_tick env rz l w"

section \<open>The loop over TCP\<close>

record TcpLoop =
  last_recv_msg :: nat
  tcp_register_sent :: "nat option"

definition tcp_start :: "RzEnv \<Rightarrow> Mediator \<Rightarrow> RzWorld \<Rightarrow> TcpLoop \<times> RzWorld" where
  "tcp_start env rz w =
     (\<lparr>last_recv_msg = now env, tcp_register_sent = None\<rparr>,
      w\<lparr>settings := set_host_key_confirmed (deps env) (fresh_salt env) (host_prefix rz) False (settings w)\<rparr>)"

definition tcp_update_latency :: "RzEnv \<Rightarrow> string \<Rightarrow> TcpLoop \<Rightarrow> RzWorld \<Rightarrow> TcpLoop \<times> RzWorld" where
  "tcp_update_latency env h l w =
     (l, update_latency env h (case tcp_register_sent l of Some t \<Rightarrow> elapsed_us env t | None \<Rightarrow> 0) w)"

text \<open>The keep-alive time is compared as a \<open>u64\<close>, so a negative one is never reached.\<close>

definition keep_alive_limit :: "Mediator \<Rightarrow> nat" where
  "keep_alive_limit rz = nat ((keep_alive rz mod 2 ^ 64 * 3) mod 2 ^ 64 div 2)"

definition tcp_tick :: "RzEnv \<Rightarrow> Mediator \<Rightarrow> TcpLoop \<Rightarrow> RzWorld \<Rightarrow> TcpLoop loop_state" where
  "tcp_tick env rz l w =
     (if should_exit w then (Stops (Inr ()), rz, l, w, [])
      else if (now env - last_recv_msg l) div 1000 > keep_alive_limit rz
      then (Stops (Inl ''Rendezvous connection is timeout''), rz, l, w, [])
      else if (case tcp_register_sent l of Some t \<Rightarrow> elapsed_ms env t | None \<Rightarrow> REG_INTERVAL) \<ge> REG_INTERVAL
      then (case register_peer env rz w of
              (Inl e, w1, ms) \<Rightarrow> (Stops (Inl e), rz, l, w1, ms)
            | (Inr _, w1, ms) \<Rightarrow> (Goes, rz, l\<lparr>tcp_register_sent := Some (now env)\<rparr>, w1, ms))
      else (Goes, rz, l, w, []))"

datatype tcp_event = TcpMsg rz_msg | TcpHeartbeat | TcpFails string | TcpTick

fun tcp_step :: "RzEnv \<Rightarrow> tcp_event \<Rightarrow> Mediator \<Rightarrow> TcpLoop \<Rightarrow> RzWorld \<Rightarrow> TcpLoop loop_state" where
  "tcp_step env (TcpMsg m) rz l w =
     (case handle_resp env (tcp_update_latency env (host rz)) m rz (l\<lparr>last_recv_msg := now env\<rparr>) w of
        (Inl e, rz1, l1, w1, ms) \<Rightarrow> (Stops (Inl e), rz1, l1, w1, ms)
      | (Inr _, rz1, l1, w1, ms) \<Rightarrow> (Goes, rz1, l1, w1, ms))"
| "tcp_step env TcpHeartbeat rz l w =
     (case send_result env of
        Inl e \<Rightarrow> (Stops (Inl e), rz, l\<lparr>last_recv_msg := now env\<rparr>, w, [])
      | Inr _ \<Rightarrow> (Goes, rz, l\<lparr>last_recv_msg := now env\<rparr>, w, [SendHeartbeat]))"
| "tcp_step env (TcpFails e) rz l w = (Stops (Inl e), rz, l\<lparr>last_recv_msg := now env\<rparr>, w, [])"
| "tcp_step env TcpTick rz l w = tcp_tick env rz l w"

text \<open>A loop runs through what happens to it until it stops.\<close>

fun loop_run :: "(RzEnv \<Rightarrow> 'e \<Rightarrow> Mediator \<Rightarrow> 'l \<Rightarrow> RzWorld \<Rightarrow> 'l loop_state) \<Rightarrow> (RzEnv \<times> 'e) list \<Rightarrow> Mediator \<Rightarrow> 'l \<Rightarrow> RzWorld \<Rightarrow>
    'l loop_state" where
  "loop_run step [] rz l w = (Goes, rz, l, w, [])"
| "loop_run step ((env, e) # es) rz l w =
     (case step env e rz l w of
        (Stops r, rz1, l1, w1, ms) \<Rightarrow> (Stops r, rz1, l1, w1, ms)
      | (Goes, rz1, l1, w1, ms) \<Rightarrow>
          (case loop_run step es rz1 l1 w1 of (r, rz2, l2, w2, ms2) \<Rightarrow> (r, rz2, l2, w2, ms @ ms2)))"

text \<open>The transport that is tried first, and the other one when it fails and no exit was asked for.\<close>

definition start :: "bool \<Rightarrow> (RzWorld \<Rightarrow> (string + unit) \<times> RzWorld) \<Rightarrow> (RzWorld \<Rightarrow> (string + unit) \<times> RzWorld) \<Rightarrow> RzWorld \<Rightarrow>
    (string + unit) \<times> RzWorld" where
  "start tcp_first run_tcp run_udp w =
     (let (run_first, run_second) = (if tcp_first then (run_tcp, run_udp) else (run_udp, run_tcp))
      in case run_first w of
           (Inr _, w1) \<Rightarrow> (Inr (), w1)
         | (Inl e, w1) \<Rightarrow> if \<not> should_exit w1 then run_second w1 else (Inl e, w1))"

text \<open>One turn of \<open>start_all\<close>: \<open>run\<close> is the mediators of all servers until they have ended, with their results; the flags are cleared
  before and the latencies after. The second part is the pause in milliseconds, the third says that the connections are closed because
  the service is stopped.\<close>

definition start_timeout :: "(string + unit) list \<Rightarrow> nat" where
  "start_timeout rs =
     (if list_ex (\<lambda>r. case r of Inl e \<Rightarrow> contains_text ''10054'' e \<or> contains_text ''11001'' e | Inr _ \<Rightarrow> False) rs
      then 3000 else CONNECT_TIMEOUT)"

definition start_all_turn :: "RzEnv \<Rightarrow> bool \<Rightarrow> nat \<Rightarrow> (string list \<Rightarrow> RzWorld \<Rightarrow> (string + unit) list \<times> RzWorld) \<Rightarrow> RzWorld \<Rightarrow> RzWorld \<times> nat \<times> bool" where
  "start_all_turn env installing elapsed run w0 =
     (let w = w0\<lparr>solving := []\<rparr>;
          serving = (\<not> option2bool ''stop-service'' (get_option (settings w) ''stop-service'') \<and> \<not> installing);
          (rs, w1) = (if serving
            then (case run (get_rendezvous_servers env (settings w)) (w\<lparr>should_exit := False, manual_restarted := False\<rparr>) of
                    (rs, w2) \<Rightarrow> (rs, w2\<lparr>should_exit := should_exit w2 \<or> rs \<noteq> []\<rparr>))
            else ([], w));
          t = start_timeout rs
      in (w1\<lparr>latencies := []\<rparr>,
          if \<not> manual_restarted w1 then (if elapsed < t then (t - elapsed) div 1000 * 1000 else 0) else 33,
          \<not> serving))"

section \<open>Requests of a viewer\<close>

text \<open>\<open>increase_port\<close>: a port that is there and positive is raised, any other text is left. The split at a closing bracket and a colon
  is the one of the address in brackets, which the test for an IPv6 address admits once.\<close>

definition raise_port :: "string \<Rightarrow> string \<Rightarrow> string \<Rightarrow> int \<Rightarrow> string option" where
  "raise_port before sep port offset =
     (case parse_i32 port of
        Some p \<Rightarrow> if p > 0 then
          (let q = i32_add p offset
           in Some (before @ sep @ (if q < 0 then ''-'' @ decimal (nat (- q)) else decimal (nat q)))) else None
      | None \<Rightarrow> None)"

definition increase_port :: "RzEnv \<Rightarrow> string \<Rightarrow> int \<Rightarrow> string" where
  "increase_port env h offset =
     (let raised =
        (if ipv6_text env h then
           (if starts_with ''['' h
            then (case split_on (CHR '']'') h of
                    [a, b] \<Rightarrow> if starts_with '':'' b then raise_port a '']:'' (tl b) offset else None
                  | _ \<Rightarrow> None)
            else None)
         else (case split_on (CHR '':'') h of [a, b] \<Rightarrow> raise_port a '':'' b offset | _ \<Rightarrow> None))
      in case raised of Some x \<Rightarrow> x | None \<Rightarrow> h)"

definition get_relay_server :: "RzEnv \<Rightarrow> Mediator \<Rightarrow> string \<Rightarrow> RzWorld \<Rightarrow> string" where
  "get_relay_server env rz provided w =
     (let r = get_option (settings w) ''relay-server''
      in if \<not> is_loopback_or_test_server env r \<and> r \<noteq> [] then r
         else if provided \<noteq> [] then provided
         else increase_port env (host rz) 1)"

definition duplicate :: "RzEnv \<Rightarrow> SocketAddr \<Rightarrow> SocketAddr \<times> nat \<Rightarrow> bool" where
  "duplicate env a prev = (fst prev = a \<and> (now env - snd prev) div 1000 < 100)"

fun addr_port :: "SocketAddr \<Rightarrow> u16" where
  "addr_port (SockV4 a b c d p) = p"
| "addr_port (SockV6 o6 p) = p"

fun set_port :: "u16 \<Rightarrow> SocketAddr \<Rightarrow> SocketAddr" where
  "set_port p (SockV4 a b c d q) = SockV4 a b c d p"
| "set_port p (SockV6 o6 q) = SockV6 o6 p"

fun is_lan_ipv4 :: "SocketAddr \<Rightarrow> bool" where
  "is_lan_ipv4 (SockV4 a b c d p) = is_private (a, b, c, d)"
| "is_lan_ipv4 (SockV6 o6 p) = False"

definition create_relay :: "RzEnv \<Rightarrow> Mediator \<Rightarrow> bytes \<Rightarrow> string \<Rightarrow> string \<Rightarrow> bool \<Rightarrow> bool \<Rightarrow> bytes \<Rightarrow> nat option \<Rightarrow> RzWorld \<Rightarrow> unit rz_result" where
  "create_relay env rz saddr relay_server uid secure initiate v6 perms w =
     (case (case connect_server env of Inr _ \<Rightarrow> Inr () | Inl _ \<Rightarrow> connect_raw env) of
        Inl e \<Rightarrow> (Inl e, w, [])
      | Inr _ \<Rightarrow>
          (case (if initiate then get_id (deps env) (fresh_salt env) (gen_id env) (settings w) else ([], settings w)) of
             (i, s) \<Rightarrow>
               (case send_result env of
                  Inl e \<Rightarrow> (Inl e, w\<lparr>settings := s\<rparr>, [])
                | Inr _ \<Rightarrow> (Inr (), w\<lparr>settings := s\<rparr>,
                    [SendRelayResponse saddr v6 (if initiate then Some (uid, relay_server, i) else None),
                     RelayConnection relay_server uid (decode saddr) secure (addr_ipv4 rz) perms]))))"

definition handle_request_relay :: "RzEnv \<Rightarrow> Mediator \<Rightarrow> RequestRelay \<Rightarrow> RzWorld \<Rightarrow> unit rz_result" where
  "handle_request_relay env rz rr w =
     (let a = decode (rr_addr rr); w1 = w\<lparr>last_relay_msg := (a, now env)\<rparr>
      in if duplicate env a (last_relay_msg w) then (Inr (), w1, [])
         else create_relay env rz (rr_addr rr) (rr_relay rr) (rr_uuid rr) (rr_secure rr) False [] (rr_perms rr) w1)"

definition start_ipv6 :: "RzEnv \<Rightarrow> SocketAddr \<Rightarrow> SocketAddr \<Rightarrow> nat option \<Rightarrow> bytes \<times> rz_out list" where
  "start_ipv6 env v6 v4 perms =
     (case ipv6_socket env of Some a \<Rightarrow> (a, [UdpListen v6 v4 perms]) | None \<Rightarrow> ([], []))"

text \<open>The local address is printed without brackets and parsed again, which fails for an IPv6 address.\<close>

definition offer_local_addr :: "RzEnv \<Rightarrow> FetchLocalAddr \<Rightarrow> string \<Rightarrow> bytes \<Rightarrow> RzWorld \<Rightarrow> unit rz_result" where
  "offer_local_addr env fla relay_server v6 w =
     (case connect_server env of
        Inl e \<Rightarrow> (Inl e, w, [])
      | Inr (SockV6 _ _) \<Rightarrow> (Inl ''invalid socket address syntax'', w, [])
      | Inr local \<Rightarrow>
          (case get_id (deps env) (fresh_salt env) (gen_id env) (settings w) of
             (i, s) \<Rightarrow>
               (case send_result env of
                  Inl e \<Rightarrow> (Inl e, w\<lparr>settings := s\<rparr>, [])
                | Inr _ \<Rightarrow>
                    (let peer = decode (fla_addr fla)
                     in (Inr (), w\<lparr>settings := s\<rparr>,
                         [SendLocalAddr i (encode (mangle_time env) peer) (encode (mangle_time env) local) relay_server v6,
                          AcceptConnection peer True (fla_perms fla)])))))"

definition handle_intranet :: "RzEnv \<Rightarrow> Mediator \<Rightarrow> FetchLocalAddr \<Rightarrow> RzWorld \<Rightarrow> unit rz_result" where
  "handle_intranet env rz fla w0 =
     (let a = decode (fla_addr fla); w = w0\<lparr>last_msg := (a, now env)\<rparr>
      in if duplicate env a (last_msg w0) then (Inr (), w, [])
         else
           (let peer_v6 = decode (fla_addr_v6 fla);
                relay_server = get_relay_server env rz (fla_relay fla) w;
                relay = is_proxy (settings w);
                (v6, ms) = (if addr_port peer_v6 > 0 \<and> \<not> relay then start_ipv6 env peer_v6 a (fla_perms fla) else ([], []));
                (r, w1, ms1) =
                  (if addr_ipv4 rz \<and> \<not> relay \<and> (is_lan_ipv4 a \<or> \<not> is_disable_tcp_listen (settings w))
                   then offer_local_addr env fla relay_server v6 w else (Inl [], w, []))
            in case r of
                 Inr _ \<Rightarrow> (Inr (), w1, ms @ ms1)
               | Inl _ \<Rightarrow>
                   (case create_relay env rz (fla_addr fla) relay_server (fresh_uuid env) True True v6 (fla_perms fla) w1 of
                      (r2, w2, ms2) \<Rightarrow> (r2, w2, ms @ ms1 @ ms2))))"

definition SYMMETRIC :: int where "SYMMETRIC = 2"

text \<open>The message is sent once, then twice more by a task that ignores errors.\<close>

definition punch_udp_hole :: "RzEnv \<Rightarrow> SocketAddr \<Rightarrow> rz_out \<Rightarrow> nat option \<Rightarrow> RzWorld \<Rightarrow> unit rz_result" where
  "punch_udp_hole env peer msg perms w =
     (case udp_socket env of
        Inl e \<Rightarrow> (Inl e, w, [])
      | Inr _ \<Rightarrow>
          (case send_result env of
             Inl e \<Rightarrow> (Inl e, w, [])
           | Inr _ \<Rightarrow> (nat_listen env, w, [msg, msg, msg, UdpListen peer peer perms])))"

definition punch_tcp_hole :: "RzEnv \<Rightarrow> SocketAddr \<Rightarrow> rz_out \<Rightarrow> nat option \<Rightarrow> RzWorld \<Rightarrow> unit rz_result" where
  "punch_tcp_hole env peer msg perms w =
     (case connect_server env of
        Inl e \<Rightarrow> (Inl e, w, [])
      | Inr _ \<Rightarrow>
          (case send_result env of
             Inl e \<Rightarrow> (Inl e, w, [DialPeer peer])
           | Inr _ \<Rightarrow> (Inr (), w, [DialPeer peer, msg, AcceptConnection peer True perms])))"

definition must_relay :: "PunchHole \<Rightarrow> SocketAddr \<Rightarrow> Settings \<Rightarrow> bool" where
  "must_relay ph peer s =
     ((ph_nat ph = SYMMETRIC \<or> nat_type (config2 s) = SYMMETRIC \<or> is_proxy s \<or> ph_force_relay ph \<or>
       is_disable_tcp_listen s \<and> ph_udp_port ph \<le> 0) \<and> \<not> is_lan_ipv4 peer)"

text \<open>How the viewer is answered: over a relay, or by punching a hole over UDP or TCP.\<close>

definition answer_punch :: "RzEnv \<Rightarrow> Mediator \<Rightarrow> PunchHole \<Rightarrow> SocketAddr \<Rightarrow> string \<Rightarrow> bytes \<Rightarrow> RzWorld \<Rightarrow> unit rz_result" where
  "answer_punch env rz ph peer relay_server v6 w =
     (if must_relay ph peer (settings w)
      then create_relay env rz (ph_addr ph) relay_server (fresh_uuid env) True True v6 (ph_perms ph) w
      else
        (case get_id (deps env) (fresh_salt env) (gen_id env) (settings w) of
           (i, s) \<Rightarrow>
             (let nt = (if nat_type (config2 (settings w)) \<in> {0, 1, 2} then nat_type (config2 (settings w)) else 0);
                  port = (if get_option (settings w) ''direct-access-status'' = ''listening'' then direct_port w else 0);
                  msg = SendPunchHole (ph_addr ph) i relay_server nt v6 port
              in if ph_udp_port ph > 0
                 then punch_udp_hole env (set_port (word_of_int (ph_udp_port ph)) peer) msg (ph_perms ph) (w\<lparr>settings := s\<rparr>)
                 else punch_tcp_hole env peer msg (ph_perms ph) (w\<lparr>settings := s\<rparr>))))"

definition handle_punch_hole :: "RzEnv \<Rightarrow> Mediator \<Rightarrow> PunchHole \<Rightarrow> RzWorld \<Rightarrow> unit rz_result" where
  "handle_punch_hole env rz ph w0 =
     (let peer = decode (ph_addr ph); w = w0\<lparr>last_msg := (peer, now env)\<rparr>
      in if duplicate env peer (last_msg w0) then (Inr (), w, [])
         else
           (let peer_v6 = decode (ph_addr_v6 ph);
                relay = (is_proxy (settings w) \<or> ph_force_relay ph);
                (v6, ms) = (if addr_port peer_v6 > 0 \<and> \<not> relay then start_ipv6 env peer_v6 peer (ph_perms ph) else ([], []));
                relay_server = get_relay_server env rz (ph_relay ph) w;
                (r, w1, ms1) = answer_punch env rz ph peer relay_server v6 w
            in (r, w1, ms @ ms1)))"

section \<open>Direct access\<close>

definition set_direct_access_status :: "Deps \<Rightarrow> string \<Rightarrow> Settings \<Rightarrow> Settings" where
  "set_direct_access_status D status s =
     (if get_option s ''direct-access-status'' \<noteq> status then
        (let s1 = set_option D ''direct-access-status'' status s
         in if status \<noteq> ''listening''
            then set_option D ''upnp-status'' status (set_option D ''direct-access-public-port'' [] s1) else s1)
      else s)"

definition invalidate_direct_port :: "RzWorld \<Rightarrow> RzWorld" where
  "invalidate_direct_port w =
     w\<lparr>direct_port := (if direct_port w < DEFAULT_DIRECT_PORT + DIRECT_PORT_RANGE then direct_port w + 1 else DEFAULT_DIRECT_PORT)\<rparr>"

definition reset_direct_port :: "RzWorld \<Rightarrow> RzWorld" where
  "reset_direct_port w = w\<lparr>direct_port := DEFAULT_DIRECT_PORT\<rparr>"

text \<open>One turn of the loop that listens for direct connections: \<open>listener\<close> is the port that is bound. \<open>bound\<close> says whether the system
  grants a port. The mapping of the port in the router is a thread of its own and not modelled beyond the options that are set.\<close>

definition direct_disabled :: "Settings \<Rightarrow> bool" where
  "direct_disabled s =
     (\<not> option2bool ''direct-server'' (get_option s ''direct-server'') \<or> option2bool ''stop-service'' (get_option s ''stop-service''))"

definition direct_listen :: "Deps \<Rightarrow> (int \<Rightarrow> bool) \<Rightarrow> RzWorld \<Rightarrow> int option \<times> RzWorld" where
  "direct_listen D bound w =
     (let p = direct_port w
      in if bound p
         then (Some p, w\<lparr>settings :=
           set_option D ''direct-access-public-port'' [] (set_option D ''upnp-error'' [] (set_option D ''upnp-status'' ''pending''
             (set_option D ''direct-access-port'' (decimal (nat p)) (set_direct_access_status D ''listening'' (settings w)))))\<rparr>)
         else (None, invalidate_direct_port (w\<lparr>settings := set_direct_access_status D ''error'' (settings w)\<rparr>)))"

definition direct_turn :: "Deps \<Rightarrow> (int \<Rightarrow> bool) \<Rightarrow> int option \<times> RzWorld \<Rightarrow> int option \<times> RzWorld" where
  "direct_turn D bound st =
     (case st of (l, w) \<Rightarrow>
        (let dis = direct_disabled (settings w);
             w1 = (if dis \<and> l = None then w\<lparr>settings := set_direct_access_status D ''stopped'' (settings w)\<rparr> else w);
             (l2, w2) = (if \<not> dis \<and> l = None then direct_listen D bound w1 else (l, w1))
         in case l2 of
              None \<Rightarrow> (None, w2)
            | Some p \<Rightarrow>
                if dis \<or> p \<noteq> direct_port w2
                then (None, reset_direct_port (w2\<lparr>settings := set_direct_access_status D ''stopped'' (settings w2)\<rparr>))
                else (Some p, w2)))"

definition check_if_resend_pk :: "Deps \<Rightarrow> string \<Rightarrow> bytes option \<Rightarrow> bytes option \<Rightarrow> RzWorld \<Rightarrow> RzWorld" where
  "check_if_resend_pk D fresh before cached w =
     (if sent_register_pk w \<and> cached \<noteq> before then w\<lparr>settings := set_key_confirmed D fresh False (settings w)\<rparr> else w)"

end
