(* ===== verification/Registration.thy ===== *)
theory Registration
  imports Rendezvous
begin

text \<open>
  Properties of the rendezvous mediator: an id is announced only under a confirmed key, a registration never grows stale, a silent
  server is given up, a viewer is reached the way the host allows, and a free port for direct access is found.
\<close>

section \<open>What registration keeps of the configuration\<close>

lemma stored_config [simp]: "config (store D f s) = config s" "config2 (store D f s) = config2 s"
  by (simp_all add: store_def)

lemma stored2_config [simp]: "config (store2 D s) = config s" "config2 (store2 D s) = config2 s"
  by (simp_all add: store2_def)

definition confirmed :: "string \<Rightarrow> RzWorld \<Rightarrow> bool" where
  "confirmed p w = (key_confirmed (config (settings w)) \<and> get_host_key_confirmed (settings w) p)"

lemma set_id_config: "config (set_id D f i s) = (config s)\<lparr>cid := i\<rparr>"
  by (simp add: set_id_def)

lemma get_id_keys: "get_id D f n s = (i, s') \<Longrightarrow> key_confirmed (config s') = key_confirmed (config s) \<and> keys_confirmed (config s') = keys_confirmed (config s)"
  by (auto simp: get_id_def set_id_config split: if_splits option.splits)

lemma update_id_keys: "key_confirmed (config (update_id env s)) = key_confirmed (config s)" "keys_confirmed (config (update_id env s)) = keys_confirmed (config s)"
  by (cases "get_id (deps env) (fresh_salt env) (gen_id env) s"; simp add: update_id_def set_id_config get_id_keys)+

lemma update_latency_config [simp]:
  "config (settings (update_latency env h d w)) = config (settings w)" "should_exit (update_latency env h d w) = should_exit w"
  "solving (update_latency env h d w) = solving w"
  by (simp_all add: update_latency_def Let_def)

lemma set_option_config [simp]: "config (set_option D k v s) = config s"
  by (simp add: set_option_def Let_def set_config2_options_def)

lemma configure_update_config [simp]: "config (settings (configure_update env ss n w)) = config (settings w)"
  by (simp add: configure_update_def Let_def restart_def set_serial_def)

lemma confirmed_cong:
  "config (settings w') = config (settings w) \<Longrightarrow> confirmed p w' = confirmed p w"
  by (simp add: confirmed_def get_host_key_confirmed_def)

lemma register_pk_facts:
  assumes "register_pk env w = (r, w', ms)"
  shows "confirmed p w' = confirmed p w" "should_exit w' = should_exit w" "solving w' = solving w" "SendRegisterPeer i n \<notin> set ms"
    "send_result env = Inr () \<Longrightarrow> r = Inr ()"
  using assms get_id_keys
  by (auto simp: register_pk_def confirmed_def get_host_key_confirmed_def split: prod.splits sum.splits)

lemma register_peer_facts:
  assumes "register_peer env rz w = (r, w', ms)"
  shows "confirmed p w' = confirmed p w" "should_exit w' = should_exit w" "solving w' = solving w"
    "SendRegisterPeer i n \<in> set ms \<Longrightarrow> confirmed (host_prefix rz) w"
    "send_result env = Inr () \<Longrightarrow> r = Inr ()"
proof -
  note ids = get_id_keys [of "deps env" "fresh_salt env" "gen_id env" "settings w"]
  show "confirmed p w' = confirmed p w" "should_exit w' = should_exit w" "solving w' = solving w"
    "send_result env = Inr () \<Longrightarrow> r = Inr ()"
    using assms ids register_pk_facts(1,2,3,5) [of env w r w' ms]
    by (auto simp: register_peer_def confirmed_def get_host_key_confirmed_def split: prod.splits sum.splits if_splits)
  show "confirmed (host_prefix rz) w" if "SendRegisterPeer i n \<in> set ms"
    using assms that register_pk_facts(4) [of env w r w' ms i n]
    by (auto simp: register_peer_def confirmed_def split: prod.splits sum.splits if_splits)
qed

section \<open>A key that is not confirmed\<close>

fun pk_ok :: "rz_msg \<Rightarrow> bool" where
  "pk_ok (RegisterPkResponse PkOk _) = True"
| "pk_ok _ = False"

fun tcp_confirms :: "tcp_event \<Rightarrow> bool" where
  "tcp_confirms (TcpMsg m) = pk_ok m"
| "tcp_confirms _ = False"

fun udp_confirms :: "udp_event \<Rightarrow> bool" where
  "udp_confirms (UdpMsg (Some m)) = pk_ok m"
| "udp_confirms _ = False"

definition announces :: "rz_out list \<Rightarrow> bool" where
  "announces ms = (\<exists>i n. SendRegisterPeer i n \<in> set ms)"

lemma mismatch_facts:
  assumes "handle_uuid_mismatch env rz w = (r, w', ms)"
  shows "confirmed p w' \<Longrightarrow> confirmed p w" "\<not> announces ms"
    "solving w \<in> {[], host rz} \<Longrightarrow> \<not> confirmed p w'"
proof -
  let ?w = "w\<lparr>settings := update_id env (set_key_confirmed (deps env) (fresh_salt env) False (settings w)), solving := host rz\<rparr>"
  have u: "\<not> confirmed p ?w" by (simp add: confirmed_def update_id_keys set_key_confirmed_def)
  show "confirmed p w' \<Longrightarrow> confirmed p w" "\<not> announces ms" "solving w \<in> {[], host rz} \<Longrightarrow> \<not> confirmed p w'"
    using assms u register_pk_facts(1) [of env ?w r w' ms p] register_pk_facts(4) [of env ?w r w' ms]
    by (auto simp: handle_uuid_mismatch_def announces_def split: if_splits)
qed

text \<open>The closures that measure the latency leave the identity alone.\<close>

definition measures :: "('l \<Rightarrow> RzWorld \<Rightarrow> 'l \<times> RzWorld) \<Rightarrow> bool" where
  "measures upd = (\<forall>l w l' w'. upd l w = (l', w') \<longrightarrow> config (settings w') = config (settings w) \<and> should_exit w' = should_exit w \<and> solving w' = solving w)"

lemma measures_udp: "measures (udp_update_latency env h)"
  by (auto simp: measures_def udp_update_latency_def Let_def split: if_splits option.splits)

lemma measures_tcp: "measures (tcp_update_latency env h)"
  by (auto simp: measures_def tcp_update_latency_def)

lemma handle_resp_prefix:
  "handle_resp env upd m rz l w = (r, rz', l', w', ms) \<Longrightarrow> host_prefix rz' = host_prefix rz \<and> host rz' = host rz"
  by (cases m) (auto split: prod.splits sum.splits if_splits)

lemma handle_resp_unconfirmed:
  assumes "handle_resp env upd m rz l w = (r, rz', l', w', ms)" "measures upd" "\<not> pk_ok m" "\<not> confirmed p w"
  shows "\<not> confirmed p w' \<and> \<not> announces ms"
proof -
  have upd: "\<not> confirmed p w1" if "upd l w = (l1, w1)" for l1 w1
    using assms(2,4) that confirmed_cong [of w1 w p] by (auto simp: measures_def)
  show ?thesis
  proof (cases m)
    case (RegisterPeerResponse b)
    then show ?thesis using assms(1) upd register_pk_facts(1,4)
      by (fastforce simp: announces_def split: prod.splits if_splits)
  next
    case (RegisterPkResponse res ka)
    then show ?thesis using assms(1,3) upd mismatch_facts(1,2)
      by (cases res) (fastforce simp: pk_response_def announces_def split: prod.splits sum.splits)+
  qed (use assms confirmed_cong [of "configure_update _ _ _ w" w p] in \<open>auto simp: announces_def\<close>)
qed

lemma missed_answer_facts:
  assumes "missed_answer env rz l w = (r, l', w', ms)"
  shows "confirmed p w' = confirmed p w" "should_exit w' = should_exit w" "\<not> announces ms" "r = Inr rz' \<Longrightarrow> host_prefix rz' = host_prefix rz"
  using assms
  by (auto simp: missed_answer_def Let_def confirmed_def get_host_key_confirmed_def announces_def split: if_splits sum.splits option.splits)

lemma udp_register_facts:
  assumes "udp_register env rz l w ms = (r, rz', l', w', ms')"
  shows "confirmed p w' = confirmed p w" "should_exit w' = should_exit w" "rz' = rz"
    "\<not> confirmed (host_prefix rz) w \<Longrightarrow> \<not> announces ms \<Longrightarrow> \<not> announces ms'"
  using assms register_peer_facts
  by (fastforce simp: udp_register_def announces_def split: prod.splits sum.splits)+

lemma udp_tick_unconfirmed:
  assumes "udp_tick env rz l w = (r, rz', l', w', ms)" "\<not> confirmed (host_prefix rz) w"
  shows "\<not> confirmed (host_prefix rz) w' \<and> \<not> announces ms \<and> host_prefix rz' = host_prefix rz"
proof -
  have reg: "\<not> confirmed (host_prefix rz) w' \<and> \<not> announces ms \<and> host_prefix rz' = host_prefix rz"
    if "udp_register env rz2 l2 w2 ms2 = (r, rz', l', w', ms)" "host_prefix rz2 = host_prefix rz"
      "\<not> confirmed (host_prefix rz) w2" "\<not> announces ms2" for rz2 l2 w2 ms2
    using udp_register_facts [OF that(1)] that(2-) by auto
  show ?thesis
    using assms reg missed_answer_facts [of env rz _ w] 
    by (auto simp: udp_tick_def Let_def announces_def split: if_splits prod.splits sum.splits)
qed

lemma udp_step_unconfirmed:
  assumes "udp_step env e rz l w = (r, rz', l', w', ms)" "\<not> udp_confirms e" "\<not> confirmed (host_prefix rz) w"
  shows "\<not> confirmed (host_prefix rz) w' \<and> \<not> announces ms \<and> host_prefix rz' = host_prefix rz"
proof (cases e)
  case (UdpMsg m)
  then show ?thesis
  proof (cases m)
    case (Some x)
    obtain r1 where "handle_resp env (udp_update_latency env (host rz)) x rz l w = (r1, rz', l', w', ms)"
      using assms(1) UdpMsg Some by (auto split: prod.splits sum.splits)
    then show ?thesis
      using handle_resp_unconfirmed [OF _ measures_udp] handle_resp_prefix assms(2,3) UdpMsg Some by fastforce
  qed (use assms in \<open>auto simp: announces_def\<close>)
qed (use assms udp_tick_unconfirmed in \<open>auto simp: announces_def\<close>)

lemma tcp_step_unconfirmed:
  assumes "tcp_step env e rz l w = (r, rz', l', w', ms)" "\<not> tcp_confirms e" "\<not> confirmed (host_prefix rz) w"
  shows "\<not> confirmed (host_prefix rz) w' \<and> \<not> announces ms \<and> host_prefix rz' = host_prefix rz"
proof (cases e)
  case (TcpMsg x)
  obtain r1 where "handle_resp env (tcp_update_latency env (host rz)) x rz (l\<lparr>last_recv_msg := now env\<rparr>) w = (r1, rz', l', w', ms)"
    using assms(1) TcpMsg by (auto split: prod.splits sum.splits)
  then show ?thesis
    using handle_resp_unconfirmed [OF _ measures_tcp] handle_resp_prefix assms(2,3) TcpMsg by fastforce
next
  case TcpTick
  then show ?thesis
    using assms(1,3) register_peer_facts(1) [of env rz w _ _ _ "host_prefix rz"] register_peer_facts(4) [of env rz w]
    by (fastforce simp: tcp_tick_def announces_def split: if_splits prod.splits sum.splits)
qed (use assms in \<open>auto simp: announces_def split: sum.splits\<close>)

text \<open>A loop whose steps keep an invariant of the shared state, and send nothing of a kind while it holds, sends nothing of that kind.\<close>

locale quiet_loop =
  fixes step :: "RzEnv \<Rightarrow> 'e \<Rightarrow> Mediator \<Rightarrow> 'l \<Rightarrow> RzWorld \<Rightarrow> 'l loop_state" and confirms :: "'e \<Rightarrow> bool"
  assumes step_unconfirmed: "step env e rz l w = (r, rz', l', w', ms) \<Longrightarrow> \<not> confirms e \<Longrightarrow> \<not> confirmed (host_prefix rz) w \<Longrightarrow>
      \<not> confirmed (host_prefix rz) w' \<and> \<not> announces ms \<and> host_prefix rz' = host_prefix rz"
begin

lemma run_unconfirmed:
  assumes "loop_run step es rz l w = (r, rz', l', w', ms)" "\<forall>(env, e) \<in> set es. \<not> confirms e" "\<not> confirmed (host_prefix rz) w"
  shows "\<not> announces ms"
  using assms
proof (induction es arbitrary: rz l w ms)
  case Nil
  then show ?case by (simp add: announces_def)
next
  case (Cons x es)
  obtain env e where x: "x = (env, e)" by fastforce
  obtain r1 rz1 l1 w1 ms1 where s: "step env e rz l w = (r1, rz1, l1, w1, ms1)" by (cases "step env e rz l w") auto
  note f = step_unconfirmed [OF s]
  show ?case
  proof (cases r1)
    case Goes
    then obtain ms2 where "loop_run step es rz1 l1 w1 = (r, rz', l', w', ms2)" "ms = ms1 @ ms2"
      using Cons.prems(1) x s by (auto split: prod.splits)
    with Cons.IH [of rz1 l1 w1 ms2] Cons.prems(2,3) f x show ?thesis by (auto simp: announces_def)
  qed (use Cons.prems x s f in auto)
qed

end

interpretation udp: quiet_loop udp_step udp_confirms
  by unfold_locales (rule udp_step_unconfirmed)

interpretation tcp: quiet_loop tcp_step tcp_confirms
  by unfold_locales (rule tcp_step_unconfirmed)


section \<open>A silent server\<close>

text \<open>A loop that waits for nothing: it just started, or its last registration was answered.\<close>

definition quiet :: "nat \<Rightarrow> UdpLoop \<Rightarrow> bool" where
  "quiet t l = (last_register_sent l = None \<and> fails l = 0 \<and> reg_timeout l = MIN_REG_TIMEOUT \<and>
     (case last_register_resp l of None \<Rightarrow> True | Some r \<Rightarrow> r \<le> t))"

lemma quiet_start: "quiet t (udp_start env)"
  by (simp add: quiet_def udp_start_def)

lemma quiet_answered: "quiet (now env) (fst (udp_update_latency env h l w))"
  by (auto simp: quiet_def udp_update_latency_def Let_def)

text \<open>Ticks that follow each other after at most \<open>g\<close> microseconds.\<close>

fun ticking :: "nat \<Rightarrow> nat \<Rightarrow> RzEnv list \<Rightarrow> bool" where
  "ticking g t [] = True"
| "ticking g t (e # es) = (t \<le> now e \<and> now e \<le> t + g \<and> send_result e = Inr () \<and> ticking g (now e) es)"

text \<open>How late the registration after \<open>f\<close> missed answers is sent at most.\<close>

definition latest :: "nat \<Rightarrow> int \<Rightarrow> int" where
  "latest g f = 15000000 + int g + f * int g + 1500000 * f * (f + 1)"

definition waiting :: "nat \<Rightarrow> nat \<Rightarrow> nat \<Rightarrow> UdpLoop \<Rightarrow> bool" where
  "waiting g b t l = (0 \<le> fails l \<and> fails l \<le> 3 \<and> MIN_REG_TIMEOUT \<le> reg_timeout l \<and> reg_timeout l \<le> 3000 * (fails l + 1) \<and>
     (case last_register_sent l of
        None \<Rightarrow> quiet b l \<and> int t < int b + 15000000
      | Some s \<Rightarrow> s \<le> t \<and> int s \<le> int b + latest g (fails l) \<and> int t < int s + 1000 * reg_timeout l))"

lemma elapsed_less: "elapsed_ms env s < n \<Longrightarrow> int (now env) < int s + 1000 * n"
  by (simp add: elapsed_ms_def)

lemma not_elapsed: "\<not> n \<le> elapsed_ms env s \<Longrightarrow> int (now env) < int s + 1000 * n"
  by (simp add: elapsed_less)

lemma udp_register_sent:
  assumes "udp_register env rz l w ms = (r, rz', l', w', ms')" "send_result env = Inr ()"
  shows "r = Goes \<and> l' = l\<lparr>last_register_sent := Some (now env)\<rparr> \<and> should_exit w' = should_exit w \<and> rz' = rz"
  using assms register_peer_facts(2,5) [of env rz w]
  by (auto simp: udp_register_def split: prod.splits sum.splits)

lemma missed_answer_cases:
  assumes "missed_answer env rz l w = (r, l', w', ms)" "fails l \<le> 3"
  shows "(fails l = 3 \<and> r = Inl (fallback_error 4)) \<or>
    (fails l < 3 \<and> r = Inr rz \<and> fails l' = fails l + 1 \<and> reg_timeout l' = reg_timeout l \<and> last_register_resp l' = last_register_resp l)"
  using assms by (auto simp: missed_answer_def Let_def should_fallback_to_tcp_def rz_constants split: if_splits)

lemma latest_Suc: "latest g (f + 1) = latest g f + int g + 3000000 * (f + 1)"
  by (simp add: latest_def algebra_simps)

lemma quiet_waiting: "quiet b l \<Longrightarrow> waiting g b b l"
  by (simp add: waiting_def quiet_def rz_constants)

lemma waiting_tick:
  assumes tick: "udp_tick env rz l w = (r, rz', l', w', ms)" and ok: "send_result env = Inr ()" "\<not> should_exit w"
    and wait: "waiting g b t l" and t: "t \<le> now env" "now env \<le> t + g"
  shows "r = Stops (Inl (fallback_error 4)) \<or> r = Goes \<and> waiting g b (now env) l' \<and> \<not> should_exit w'"
proof (cases "last_register_sent l")
  case None
  then have q: "quiet b l" "int t < int b + 15000000" using wait by (auto simp: waiting_def)
  show ?thesis
  proof (cases "registration_due env l")
    case True
    then have "udp_register env rz l w [] = (r, rz', l', w', ms)"
      using tick ok None by (simp add: udp_tick_def Let_def answer_missed_def)
    from udp_register_sent [OF this ok(1)] show ?thesis
      using q t ok(2) by (auto simp: waiting_def quiet_def latest_def rz_constants)
  next
    case False
    then have "r = Goes" "l' = l" "w' = w" using tick ok None by (simp_all add: udp_tick_def Let_def answer_missed_def)
    moreover have "int (now env) < int b + 15000000"
      using False q(1) not_elapsed by (fastforce simp: registration_due_def quiet_def rz_constants split: option.splits)
    ultimately show ?thesis using wait None ok q by (simp add: waiting_def)
  qed
next
  case (Some s)
  then have f: "0 \<le> fails l" "fails l \<le> 3" "3000 \<le> reg_timeout l" "reg_timeout l \<le> 3000 * (fails l + 1)"
    "s \<le> t" "int s \<le> int b + latest g (fails l)" "int t < int s + 1000 * reg_timeout l"
    using wait by (auto simp: waiting_def rz_constants)
  show ?thesis
  proof (cases "answer_missed env l")
    case True
    define l1 where "l1 = (if using_public_server env \<and> reg_timeout l < MAX_REG_TIMEOUT then l\<lparr>reg_timeout := reg_timeout l + MIN_REG_TIMEOUT\<rparr> else l)"
    have l1: "fails l1 = fails l" "3000 \<le> reg_timeout l1" "reg_timeout l1 \<le> 3000 * (fails l + 2)"
      using f by (auto simp: l1_def rz_constants)
    obtain x l2 w2 ms2 where m: "missed_answer env rz l1 w = (x, l2, w2, ms2)" by (cases "missed_answer env rz l1 w") auto
    from missed_answer_cases [OF m] l1 f consider
      (stop) "x = Inl (fallback_error 4)"
    | (again) "x = Inr rz" "fails l < 3" "fails l2 = fails l + 1" "reg_timeout l2 = reg_timeout l1"
      by auto
    then show ?thesis
    proof cases
      case stop
      then show ?thesis using tick ok True m by (simp add: udp_tick_def Let_def l1_def split: if_splits)
    next
      case again
      then have "udp_register env rz l2 w2 ms2 = (r, rz', l', w', ms)"
        using tick ok True m by (simp add: udp_tick_def Let_def l1_def split: if_splits)
      from udp_register_sent [OF this ok(1)] show ?thesis
        using f t l1 again ok(2) missed_answer_facts(2) [OF m] latest_Suc [of g "fails l"]
        by (auto simp: waiting_def rz_constants)
    qed
  next
    case False
    then have "r = Goes" "l' = l" "w' = w" using tick ok Some by (simp_all add: udp_tick_def Let_def)
    moreover have "int (now env) < int s + 1000 * reg_timeout l"
      using False Some not_elapsed by (fastforce simp: answer_missed_def)
    ultimately show ?thesis using wait Some ok t by (auto simp: waiting_def)
  qed
qed

lemma ticking_run:
  assumes "loop_run udp_step (map (\<lambda>e. (e, UdpTick)) es) rz l w = (r, rz', l', w', ms)" "ticking g t es" "\<not> should_exit w" "waiting g b t l"
  shows "r = Stops (Inl (fallback_error 4)) \<or> r = Goes \<and> waiting g b (last (t # map now es)) l'"
  using assms
proof (induction es arbitrary: rz l w t ms)
  case (Cons e es)
  obtain r1 rz1 l1 w1 ms1 where s: "udp_tick e rz l w = (r1, rz1, l1, w1, ms1)" by (cases "udp_tick e rz l w") auto
  from waiting_tick [OF s _ Cons.prems(3,4)] Cons.prems(2)
  consider "r1 = Stops (Inl (fallback_error 4))" | "r1 = Goes" "waiting g b (now e) l1" "\<not> should_exit w1" by auto
  then show ?case
  proof cases
    case 2
    then obtain ms2 where "loop_run udp_step (map (\<lambda>e. (e, UdpTick)) es) rz1 l1 w1 = (r, rz', l', w', ms2)"
      using Cons.prems(1) s by (auto split: prod.splits)
    from Cons.IH [OF this _ 2(3,2)] Cons.prems(2) show ?thesis by auto
  qed (use Cons.prems(1) s in auto)
qed auto

text \<open>C26: a server that has gone silent is given up. Whatever state the mediator is in when it last had its answer, or has just
  started, once the ticks of its timer have gone on for 45 seconds and four gaps between ticks, the loop over UDP has ended with the
  error that makes the mediator change to TCP.\<close>

theorem silent_server_given_up:
  assumes "quiet b l" "ticking g b es" "\<not> should_exit w" "last (b # map now es) \<ge> b + 45000000 + 4 * g"
  shows "fst (loop_run udp_step (map (\<lambda>e. (e, UdpTick)) es) rz l w) = Stops (Inl (fallback_error 4))"
proof -
  obtain r rz' l' w' ms where run: "loop_run udp_step (map (\<lambda>e. (e, UdpTick)) es) rz l w = (r, rz', l', w', ms)"
    by (cases "loop_run udp_step (map (\<lambda>e. (e, UdpTick)) es) rz l w") auto
  let ?t = "last (b # map now es)"
  have "\<not> waiting g b ?t l'"
  proof
    assume wt: "waiting g b ?t l'"
    then have f: "fails l' \<in> {0, 1, 2, 3}" by (auto simp: waiting_def)
    show False
    proof (cases "last_register_sent l'")
      case None
      then show False using wt assms(4) by (simp add: waiting_def)
    next
      case (Some s)
      then have "int ?t < int b + latest g (fails l') + 3000000 * (fails l' + 1)" using wt by (auto simp: waiting_def)
      also have "\<dots> \<le> int b + 45000000 + 4 * int g" using f by (auto simp: latest_def)
      finally show False using assms(4) by linarith
    qed
  qed
  with ticking_run [OF run assms(2,3) quiet_waiting [OF assms(1)]] run show ?thesis by auto
qed

section \<open>A late confirmation\<close>

lemma length_decimal: "n < 10 ^ k \<Longrightarrow> k > 0 \<Longrightarrow> length (decimal n) \<le> k"
proof (induction n arbitrary: k rule: decimal.induct)
  case (1 n)
  show ?case
  proof (cases "n < 10")
    case True
    then show ?thesis using 1 by (subst decimal.simps) simp
  next
    case False
    then obtain j where k: "k = Suc j" "j > 0" using 1(2,3) by (cases k; cases "k - 1") auto
    then have "n div 10 < 10 ^ j" using 1(2) by (simp add: less_mult_imp_div_less mult.commute)
    with 1(1) False k show ?thesis by (subst decimal.simps) simp
  qed
qed

lemma decimal_nonempty: "decimal n \<noteq> []"
  using decimal_digits by blast

lemma get_id_short: "cid (config s) \<noteq> [] \<Longrightarrow> length (cid (config s)) \<le> 6 \<Longrightarrow> get_id D f n s = (cid (config s), s)"
  by (simp add: get_id_def)

lemma update_id_cid: "cid (config (update_id env s)) = decimal (random_id env)"
  by (simp add: update_id_def set_id_config)

text \<open>A late confirmation is taken for a new one. Let one server answer that the key does not match, so that the
  mediator draws a new id and registers its key there. When another server now confirms the key it was sent before, for the old id, the
  host counts the key as confirmed, drops the mark that the mismatch is being solved, and announces the new id to a server that
  has never been sent a key for it.\<close>

lemma late_confirmation_announces:
  assumes env: "send_result env = Inr ()" "random_id env < 1000000" and solve: "solving w = []"
    and mis: "handle_uuid_mismatch env a w = (ra, w1, ms1)"
    and ok: "pk_response env b PkOk w1 = (rb, w2, ms2)"
  shows "ms1 = [SendRegisterPk (decimal (random_id env)) (machine_uuid env) (public_key env) (no_register_device (settings w1))] \<and>
    (\<exists>n. ms2 = [SendRegisterPeer (decimal (random_id env)) n]) \<and> solving w2 = []"
proof -
  let ?i = "decimal (random_id env)"
  have i: "?i \<noteq> []" "length ?i \<le> 6" using length_decimal [of "random_id env" 6] env(2) decimal_nonempty by auto
  let ?s = "update_id env (set_key_confirmed (deps env) (fresh_salt env) False (settings w))"
  have g: "get_id (deps env) (fresh_salt env) (gen_id env) ?s = (?i, ?s)" using get_id_short [of ?s] i by (simp add: update_id_cid)
  have w1: "w1 = w\<lparr>settings := ?s, solving := host a, sent_register_pk := True\<rparr>"
    "ms1 = [SendRegisterPk ?i (machine_uuid env) (public_key env) (no_register_device (settings w1))]"
    using mis solve g env(1) by (auto simp: handle_uuid_mismatch_def register_pk_def)
  let ?s2 = "set_host_key_confirmed (deps env) (fresh_salt env) (host_prefix b) True (set_key_confirmed (deps env) (fresh_salt env) True ?s)"
  have c: "cid (config ?s2) = ?i" "key_confirmed (config ?s2)" "get_host_key_confirmed ?s2 (host_prefix b)"
    by (auto simp: set_host_key_confirmed_def set_key_confirmed_def update_id_cid get_host_key_confirmed_def update_conv')
  have "get_id (deps env) (fresh_salt env) (gen_id env) ?s2 = (?i, ?s2)" using get_id_short [of ?s2] i c by simp
  then have "ms2 = [SendRegisterPeer ?i (get_serial ?s2)]" "solving w2 = []"
    using ok w1(1) c env(1) by (auto simp: pk_response_def register_peer_def)
  with w1(2) show ?thesis by blast
qed

section \<open>Viewers\<close>

text \<open>What reveals an address of the host to the viewer, or takes up a connection without a relay.\<close>

fun is_direct :: "rz_out \<Rightarrow> bool" where
  "is_direct (SendLocalAddr _ _ _ _ _) = True"
| "is_direct (SendPunchHole _ _ _ _ _ _) = True"
| "is_direct (DialPeer _) = True"
| "is_direct (AcceptConnection _ _ _) = True"
| "is_direct (UdpListen _ _ _) = True"
| "is_direct _ = False"

fun is_relay :: "rz_out \<Rightarrow> bool" where
  "is_relay (SendRelayResponse _ _ _) = True"
| "is_relay (RelayConnection _ _ _ _ _ _) = True"
| "is_relay _ = False"

lemma create_relay_outs:
  "create_relay env rz a s u sec ini v6 p w = (r, w', ms) \<Longrightarrow> x \<in> set ms \<Longrightarrow> is_relay x \<and> \<not> is_direct x"
  by (auto simp: create_relay_def split: sum.splits prod.splits if_splits)

lemma answer_punch_outs:
  assumes "answer_punch env rz ph peer s v6 w = (r, w', ms)" "x \<in> set ms"
  shows "if must_relay ph peer (settings w) then is_relay x \<and> \<not> is_direct x else \<not> is_relay x"
  using assms create_relay_outs
  by (auto simp: answer_punch_def Let_def punch_udp_hole_def punch_tcp_hole_def split: if_splits sum.splits prod.splits)

lemma start_ipv6_outs: "start_ipv6 env a b p = (v6, ms) \<Longrightarrow> x \<in> set ms \<Longrightarrow> \<not> is_relay x"
  by (auto simp: start_ipv6_def split: option.splits)


section \<open>Direct access\<close>

definition in_range :: "int \<Rightarrow> bool" where
  "in_range p = (DEFAULT_DIRECT_PORT \<le> p \<and> p \<le> DEFAULT_DIRECT_PORT + DIRECT_PORT_RANGE)"

lemma status_keeps_option:
  "k \<notin> {''direct-access-status'', ''upnp-status'', ''direct-access-public-port''} \<Longrightarrow>
    get_option (set_direct_access_status D st s) k = get_option s k"
  by (simp add: set_direct_access_status_def Let_def option_set_get)

lemma direct_disabled_cong:
  "get_option s' ''direct-server'' = get_option s ''direct-server'' \<Longrightarrow> get_option s' ''stop-service'' = get_option s ''stop-service'' \<Longrightarrow>
    direct_disabled s' = direct_disabled s"
  by (simp add: direct_disabled_def)

lemma turn_listens:
  assumes "\<not> direct_disabled (settings w)" "bound (direct_port w)"
  shows "\<exists>w'. direct_turn D bound (None, w) = (Some (direct_port w), w')"
  using assms by (simp add: direct_turn_def Let_def direct_listen_def)

lemma turn_next_port:
  assumes "\<not> direct_disabled (settings w)" "\<not> bound (direct_port w)"
  shows "\<exists>w'. direct_turn D bound (None, w) = (None, w') \<and> \<not> direct_disabled (settings w') \<and>
    direct_port w' = (if direct_port w < DEFAULT_DIRECT_PORT + DIRECT_PORT_RANGE then direct_port w + 1 else DEFAULT_DIRECT_PORT)"
proof -
  have "\<not> direct_disabled (set_direct_access_status D ''error'' (settings w))"
    using assms(1) direct_disabled_cong [of "set_direct_access_status D ''error'' (settings w)" "settings w"] by (simp add: status_keeps_option)
  then show ?thesis using assms by (simp add: direct_turn_def Let_def direct_listen_def invalidate_direct_port_def)
qed

text \<open>The number of ports that are tried before \<open>p\<close>.\<close>

definition port_distance :: "int \<Rightarrow> int \<Rightarrow> nat" where
  "port_distance q p = nat (if q \<le> p then p - q else p - q + 11)"

lemma port_search:
  assumes "\<not> direct_disabled (settings w)" "in_range (direct_port w)" "in_range p" "bound p"
  shows "\<exists>n \<le> port_distance (direct_port w) p. \<exists>q w'. (direct_turn D bound ^^ Suc n) (None, w) = (Some q, w') \<and> bound q \<and> in_range q"
  using assms
proof (induction "port_distance (direct_port w) p" arbitrary: w rule: less_induct)
  case less
  show ?case
  proof (cases "bound (direct_port w)")
    case True
    then obtain w' where "direct_turn D bound (None, w) = (Some (direct_port w), w')" using turn_listens less.prems(1) by blast
    then show ?thesis using True less.prems by (intro exI [of _ 0]) auto
  next
    case False
    then obtain w1 where w1: "direct_turn D bound (None, w) = (None, w1)" "\<not> direct_disabled (settings w1)"
      "direct_port w1 = (if direct_port w < DEFAULT_DIRECT_PORT + DIRECT_PORT_RANGE then direct_port w + 1 else DEFAULT_DIRECT_PORT)"
      using turn_next_port [OF less.prems(1)] by blast
    have "direct_port w \<noteq> p" using False less.prems by auto
    then have d: "port_distance (direct_port w) p = Suc (port_distance (direct_port w1) p)" "in_range (direct_port w1)"
      using less.prems w1(3) by (auto simp: port_distance_def in_range_def rz_constants)
    then obtain n q w' where n: "n \<le> port_distance (direct_port w1) p" "(direct_turn D bound ^^ Suc n) (None, w1) = (Some q, w')" "bound q" "in_range q"
      using less.hyps [of w1] w1(2) less.prems by auto
    have "(direct_turn D bound ^^ Suc (Suc n)) (None, w) = (direct_turn D bound ^^ Suc n) (direct_turn D bound (None, w))"
      by (simp only: funpow_Suc_right o_apply)
    then have "(direct_turn D bound ^^ Suc (Suc n)) (None, w) = (Some q, w')" using w1(1) n(2) by simp
    then show ?thesis using d n by (intro exI [of _ "Suc n"]) auto
  qed
qed

text \<open>C29: direct access finds a port. While it is switched on and the system grants some port of the range, the loop listens on a
  granted port of the range after at most eleven turns, whatever port it starts from.\<close>

theorem direct_port_found:
  assumes "\<not> direct_disabled (settings w)" "in_range (direct_port w)" "in_range p" "bound p"
  shows "\<exists>n \<le> 11. \<exists>q w'. (direct_turn D bound ^^ n) (None, w) = (Some q, w') \<and> bound q \<and> in_range q"
proof -
  obtain n q w' where n: "n \<le> port_distance (direct_port w) p" "(direct_turn D bound ^^ Suc n) (None, w) = (Some q, w')" "bound q" "in_range q"
    using port_search [where bound = bound and D = D, OF assms] by blast
  have "port_distance (direct_port w) p \<le> 10" using assms by (auto simp: port_distance_def in_range_def rz_constants)
  with n show ?thesis by (intro exI [of _ "Suc n"]) auto
qed

section \<open>Examples\<close>

definition example_world :: RzWorld where
  "example_world = \<lparr>settings = empty_settings\<lparr>default_settings := [(''direct-server'', ''Y'')]\<rparr>, latencies = [], solving = [], sent_register_pk = False,
     should_exit = False, manual_restarted = False, last_msg = (SockV4 0 0 0 0 0, 0), last_relay_msg = (SockV4 0 0 0 0 0, 0),
     direct_port = 21118\<rparr>"

definition example_env :: "nat \<Rightarrow> RzEnv" where
  "example_env t = \<lparr>deps = toy_deps, fresh_salt = ''salt12'', gen_id = Some ''123456'', random_id = 654321, public_key = [1, 2], machine_uuid = [3],
     fresh_uuid = ''u'', now = t, mangle_time = 5, exe_server = [], prod_server = [], parse_ip = \<lambda>_. None, parse_socket_ip = \<lambda>_. None,
     ipv6_text = \<lambda>_. False, using_public_server = True, send_result = Inr (), rebound = Inr None,
     connect_server = Inr (SockV4 192 168 1 7 4000), connect_raw = Inr (), udp_socket = Inr (), ipv6_socket = None, nat_listen = Inr ()\<rparr>"

definition example_mediator :: Mediator where
  "example_mediator = new_mediator (example_env 0) True ''rev.dicad.cn''"

definition example_punch :: PunchHole where
  "example_punch = \<lparr>ph_addr = encode 5 (SockV4 8 8 4 4 5000), ph_relay = [], ph_nat = 1, ph_udp_port = 0, ph_force_relay = True, ph_addr_v6 = [],
     ph_perms = None\<rparr>"


theorem silent_server_given_up_witness:
  "fst (loop_run udp_step (map (\<lambda>e. (e, UdpTick)) (map (\<lambda>k. example_env (k * 12000000)) [1..<9]))
      example_mediator (udp_start (example_env 0)) example_world) = Stops (Inl (fallback_error 4))"
proof (rule silent_server_given_up)
  show "quiet 0 (udp_start (example_env 0))" by (rule quiet_start)
  show "ticking 12000000 0 (map (\<lambda>k. example_env (k * 12000000)) [1..<9])"
    by (simp add: upt_rec example_env_def)
  show "0 + 45000000 + 4 * 12000000 \<le> last (0 # map now (map (\<lambda>k. example_env (k * 12000000)) [1..<9]))"
    by (simp add: upt_rec example_env_def)
qed (simp add: example_world_def)

lemma example_punch_facts:
  "decode (ph_addr example_punch) = SockV4 8 8 4 4 5000" "\<not> is_lan_ipv4 (SockV4 8 8 4 4 5000)" "ph_force_relay example_punch"
  by (code_simp, simp, simp add: example_punch_def)

lemma example_punch_answered:
  "snd (snd (handle_punch_hole (example_env 1) example_mediator example_punch example_world)) \<noteq> []"
proof -
  have "\<not> duplicate (example_env 1) (SockV4 8 8 4 4 5000) (last_msg example_world)"
    by (simp add: duplicate_def example_world_def)
  then show ?thesis
    by (simp add: handle_punch_hole_def Let_def answer_punch_def must_relay_def example_punch_facts create_relay_def example_env_def split: prod.splits)
qed


theorem direct_port_found_witness:
  "\<exists>n \<le> 11. \<exists>q w'. (direct_turn toy_deps (\<lambda>p. p = 21120) ^^ n) (None, example_world) = (Some q, w') \<and> q = 21120 \<and> in_range q"
proof (rule direct_port_found [where p = 21120])
  show "\<not> direct_disabled (settings example_world)" by code_simp
qed (simp_all add: in_range_def example_world_def rz_constants)

end
