(* ===== verification/Handshake.thy ===== *)
theory Handshake
  imports Secure_Stream
begin

text \<open>
  The exchange of keys when a connection opens: the viewer's half (\<open>Client::secure_connection\<close> of \<open>src/client.rs\<close>) and the host's
  half (\<open>create_tcp_connection\<close> of \<open>src/server.rs\<close>), with \<open>decode_id_pk\<close> and \<open>create_symmetric_key_msg\<close> of \<open>src/common.rs\<close>. The
  rendezvous server vouches for the signing key of the host, the host signs a fresh box key, and the viewer seals a fresh symmetric
  key to it. Signatures, boxes, base64 and the encoding of \<open>IdPk\<close> are fields of \<open>HsCrypto\<close>.
\<close>

section \<open>Data\<close>

definition SIGN_PUBLICKEYBYTES :: nat where [simp]: "SIGN_PUBLICKEYBYTES = 32"
definition SIGN_SECRETKEYBYTES :: nat where [simp]: "SIGN_SECRETKEYBYTES = 64"

record HsCrypto =
  sign :: "bytes \<Rightarrow> bytes \<Rightarrow> bytes"
  verify :: "bytes \<Rightarrow> bytes \<Rightarrow> bytes option"
  box_seal :: "bytes \<Rightarrow> bytes \<Rightarrow> bytes \<Rightarrow> bytes \<Rightarrow> bytes"
  box_open :: "bytes \<Rightarrow> bytes \<Rightarrow> bytes \<Rightarrow> bytes \<Rightarrow> bytes option"
  id_pk_bytes :: "string \<times> bytes \<Rightarrow> bytes"
  parse_id_pk :: "bytes \<Rightarrow> (string \<times> bytes) option"
  decode64 :: "string \<Rightarrow> bytes option"
  rs_pub_key :: string

datatype hs_msg = SignedIdMsg bytes | PublicKeyMsg bytes bytes | EmptyMsg | OtherHsMsg

text \<open>What a read gives: a message or bytes that are none, an error, the end of the stream.\<close>

datatype incoming = Got "hs_msg option" | RecvError string | Closed

section \<open>Keys\<close>

definition get_pk :: "bytes \<Rightarrow> bytes option" where
  "get_pk pk = (if length pk = 32 then Some pk else None)"

definition get_rs_pk :: "HsCrypto \<Rightarrow> string \<Rightarrow> bytes option" where
  "get_rs_pk C s = (case decode64 C s of Some pk \<Rightarrow> get_pk pk | None \<Rightarrow> None)"

definition decode_id_pk :: "HsCrypto \<Rightarrow> bytes \<Rightarrow> bytes \<Rightarrow> (string \<times> bytes) option" where
  "decode_id_pk C voucher key =
     (case verify C voucher key of
        None \<Rightarrow> None
      | Some m \<Rightarrow>
          (case parse_id_pk C m of
             None \<Rightarrow> None
           | Some (i, pk) \<Rightarrow> (case get_pk pk of Some k \<Rightarrow> Some (i, k) | None \<Rightarrow> None)))"

text \<open>The box keys and the symmetric key are drawn at random: \<open>our_pk\<close>, \<open>our_sk\<close>, \<open>key\<close>.\<close>

definition create_symmetric_key_msg :: "HsCrypto \<Rightarrow> bytes \<Rightarrow> bytes \<Rightarrow> bytes \<Rightarrow> bytes \<Rightarrow> bytes \<times> bytes \<times> bytes" where
  "create_symmetric_key_msg C their_pk our_pk our_sk key =
     (our_pk, box_seal C key (replicate NONCEBYTES 0) their_pk our_sk, key)"

section \<open>The viewer\<close>

definition vouched_key :: "HsCrypto \<Rightarrow> string \<Rightarrow> bytes \<Rightarrow> string \<Rightarrow> bytes option" where
  "vouched_key C peer_id voucher key =
     (if voucher = [] then None
      else case get_rs_pk C (if key = [] then rs_pub_key C else key) of
        None \<Rightarrow> None
      | Some rs \<Rightarrow>
          (case decode_id_pk C voucher rs of
             Some (i, pk) \<Rightarrow> if i = peer_id then Some pk else None
           | None \<Rightarrow> None))"

text \<open>What is sent, and the symmetric key that is set.\<close>

definition viewer_answer :: "HsCrypto \<Rightarrow> string \<Rightarrow> bytes \<Rightarrow> bytes \<Rightarrow> bytes \<Rightarrow> bytes \<Rightarrow> hs_msg option \<Rightarrow> hs_msg \<times> bytes option" where
  "viewer_answer C peer_id sign_pk our_pk our_sk key m =
     (case m of
        Some (SignedIdMsg si) \<Rightarrow>
          (case decode_id_pk C si sign_pk of
             Some (i, their_pk) \<Rightarrow>
               if i = peer_id then
                 (case create_symmetric_key_msg C their_pk our_pk our_sk key of (a, s, k) \<Rightarrow> (PublicKeyMsg a s, Some k))
               else (EmptyMsg, None)
           | None \<Rightarrow> (PublicKeyMsg [] [], None))
      | _ \<Rightarrow> (EmptyMsg, None))"

definition secure_connection :: "HsCrypto \<Rightarrow> string \<Rightarrow> bytes \<Rightarrow> string \<Rightarrow> bytes \<Rightarrow> bytes \<Rightarrow> bytes \<Rightarrow> string + unit \<Rightarrow> incoming \<Rightarrow> FramedStream \<Rightarrow>
    (string + bytes option) \<times> FramedStream \<times> hs_msg list" where
  "secure_connection C peer_id voucher rs_key our_pk our_sk key sends inc s =
     (let v = vouched_key C peer_id voucher rs_key
      in case v of
           None \<Rightarrow> (case sends of Inl e \<Rightarrow> (Inl e, s, []) | Inr _ \<Rightarrow> (Inr None, s, [EmptyMsg]))
         | Some sign_pk \<Rightarrow>
             (case inc of
                Closed \<Rightarrow> (Inl ''Reset by the peer'', s, [])
              | RecvError e \<Rightarrow> (Inl e, s, [])
              | Got m \<Rightarrow>
                  (case viewer_answer C peer_id sign_pk our_pk our_sk key m of
                     (out, k) \<Rightarrow>
                       (case sends of
                          Inl e \<Rightarrow> (Inl e, s, [])
                        | Inr _ \<Rightarrow> (Inr v, (case k of Some x \<Rightarrow> set_key s x | None \<Rightarrow> s), [out])))))"

section \<open>The host\<close>

definition host_hello :: "HsCrypto \<Rightarrow> string \<Rightarrow> bytes \<Rightarrow> bytes \<Rightarrow> hs_msg" where
  "host_hello C own_id sk box_pk = SignedIdMsg (sign C (id_pk_bytes C (own_id, box_pk)) sk)"

definition handshake_text :: "handshake_error \<Rightarrow> string" where
  "handshake_text e =
     (case e of
        PkLength n \<Rightarrow> ''Handshake failed: pk length '' @ decimal n
      | BoxDecryptionFailure \<Rightarrow> ''Handshake failed: box decryption failure''
      | InvalidSecretKeyLength \<Rightarrow> ''Handshake failed: invalid secret key length from peer'')"

text \<open>The last component says that the key of the host is to be registered again.\<close>

definition create_tcp_connection :: "HsCrypto \<Rightarrow> bool \<Rightarrow> bytes \<Rightarrow> bytes \<Rightarrow> string \<Rightarrow> bytes \<Rightarrow> bytes \<Rightarrow> string + unit \<Rightarrow> incoming \<Rightarrow> FramedStream \<Rightarrow>
    (string + unit) \<times> FramedStream \<times> hs_msg list \<times> bool" where
  "create_tcp_connection C secure sk pk own_id box_pk box_sk sends inc s =
     (if \<not> (secure \<and> length pk = SIGN_PUBLICKEYBYTES \<and> length sk = SIGN_SECRETKEYBYTES) then (Inr (), s, [], False)
      else case sends of
        Inl e \<Rightarrow> (Inl e, s, [], False)
      | Inr _ \<Rightarrow>
          (let hello = host_hello C own_id sk box_pk
           in case inc of
                Closed \<Rightarrow> (Inl ''Failed to receive public key'', s, [hello], False)
              | RecvError e \<Rightarrow> (Inl e, s, [hello], False)
              | Got None \<Rightarrow> (Inl ''Handshake failed: invalid message format'', s, [hello], False)
              | Got (Some (PublicKeyMsg a sealed)) \<Rightarrow>
                  if length a = PUBLICKEYBYTES then
                    (case encrypt_decode (box_open C) sealed a box_sk of
                       Inl e \<Rightarrow> (Inl (handshake_text e), s, [hello], False)
                     | Inr k \<Rightarrow> (Inr (), set_key s k, [hello], False))
                  else if a = [] then (Inr (), s, [hello], True)
                  else (Inl ''Handshake failed: invalid public sign key length from peer'', s, [hello], False)
              | Got (Some _) \<Rightarrow> (Inr (), s, [hello], False)))"

section \<open>Agreement\<close>

text \<open>What the sodium library and the protobuf package document: a signature made with a secret key verifies under its public key, a
  box opens with the other pair of keys, and \<open>IdPk\<close> is read back.\<close>

definition hs_crypto_ok :: "HsCrypto \<Rightarrow> (bytes \<times> bytes) set \<Rightarrow> (bytes \<times> bytes) set \<Rightarrow> bool" where
  "hs_crypto_ok C sign_pairs box_pairs =
     ((\<forall>(pk, sk) \<in> sign_pairs. \<forall>m. verify C (sign C m sk) pk = Some m) \<and>
      (\<forall>(pa, sa) \<in> box_pairs. \<forall>(pb, sb) \<in> box_pairs. \<forall>m n. box_open C (box_seal C m n pb sa) n pa sb = Some m) \<and>
      (\<forall>x. parse_id_pk C (id_pk_bytes C x) = Some x))"

lemma decode_id_pk_signed:
  assumes "hs_crypto_ok C S B" "(pk, sk) \<in> S" "length k = 32"
  shows "decode_id_pk C (sign C (id_pk_bytes C (i, k)) sk) pk = Some (i, k)"
  using assms by (force simp: hs_crypto_ok_def decode_id_pk_def get_pk_def)

text \<open>C17: the two ends agree on a key. Let the rendezvous server vouch for the key with which the host signs, under the id the
  viewer asks for. Then the message of the host and the answer of the viewer secure both streams, with the symmetric key that the
  viewer has drawn and the first sequence numbers.\<close>

theorem handshake_agrees:
  assumes ok: "hs_crypto_ok C S B" and keys: "(rs_pk, rs_sk) \<in> S" "(pk, sk) \<in> S" "(hp, hs) \<in> B" "(vp, vs) \<in> B"
    and lens: "length rs_pk = 32" "length pk = 32" "length sk = 64" "length hp = 32" "length vp = 32" "length k = 32"
    and rs: "get_rs_pk C rs_key = Some rs_pk" "rs_key \<noteq> []" and voucher: "voucher = sign C (id_pk_bytes C (i, pk)) rs_sk" "voucher \<noteq> []"
    and viewer: "secure_connection C i voucher rs_key vp vs k (Inr ()) (Got (Some (host_hello C i sk hp))) vst = (r, vst', out)"
    and host: "create_tcp_connection C True sk pk i hp hs (Inr ()) (Got (Some (hd out))) hst = (r', hst', out', again)"
  shows "r = Inr (Some pk) \<and> r' = Inr () \<and> \<not> again \<and> out' = [host_hello C i sk hp] \<and>
    fs_encrypt vst' = Some (new_encrypt k) \<and> fs_encrypt hst' = Some (new_encrypt k)"
proof -
  have "decode_id_pk C voucher rs_pk = Some (i, pk)" using decode_id_pk_signed [OF ok keys(1) lens(2)] voucher by simp
  then have v: "vouched_key C i voucher rs_key = Some pk" using rs voucher by (simp add: vouched_key_def)
  have "decode_id_pk C (sign C (id_pk_bytes C (i, hp)) sk) pk = Some (i, hp)" using decode_id_pk_signed [OF ok keys(2) lens(4)] .
  then have out: "out = [PublicKeyMsg vp (box_seal C k (replicate 24 0) hp vs)]" "r = Inr (Some pk)" "vst' = set_key vst k"
    using viewer v by (auto simp: secure_connection_def viewer_answer_def host_hello_def create_symmetric_key_msg_def)
  have "box_open C (box_seal C k (replicate 24 0) hp vs) (replicate 24 0) vp hs = Some k" using ok keys(3,4) by (force simp: hs_crypto_ok_def)
  then show ?thesis using host out lens by (auto simp: create_tcp_connection_def encrypt_decode_def set_key_def)
qed

text \<open>C18: a viewer secures its stream only towards the peer it asked for. Whatever it receives, its stream gets a key only when the
  rendezvous server has signed a key for that id, the message it received is signed with that key for that id, and the
  symmetric key is sent sealed to the box key in it. A message that says otherwise leaves the stream as it was.\<close>

theorem viewer_keyed_only_for_peer:
  assumes "secure_connection C i voucher rs_key vp vs k sends inc s = (r, s', out)" "fs_encrypt s = None"
  shows "if is_secured s' then
      (\<exists>rs pk si hp. get_rs_pk C (if rs_key = [] then rs_pub_key C else rs_key) = Some rs \<and> decode_id_pk C voucher rs = Some (i, pk) \<and>
         inc = Got (Some (SignedIdMsg si)) \<and> decode_id_pk C si pk = Some (i, hp) \<and>
         out = [PublicKeyMsg vp (box_seal C k (replicate NONCEBYTES 0) hp vs)] \<and> fs_encrypt s' = Some (new_encrypt k))
    else s' = s"
  using assms
  by (auto simp: secure_connection_def Let_def viewer_answer_def vouched_key_def create_symmetric_key_msg_def is_secured_def set_key_def
      split: option.splits sum.splits incoming.splits hs_msg.splits prod.splits if_splits)

text \<open>The connection is not refused when the keys cannot be checked. If the rendezvous server vouches for nothing, the viewer sends an
  empty message, the host goes on, and both streams stay in the clear although both ends asked for a secure connection.\<close>

lemma unvouched_connection_in_the_clear:
  assumes "vouched_key C i voucher rs_key = None" "fs_encrypt vst = None" "fs_encrypt hst = None" "length pk = 32" "length sk = 64"
  shows "secure_connection C i voucher rs_key vp vs k (Inr ()) inc vst = (Inr None, vst, [EmptyMsg]) \<and>
    create_tcp_connection C True sk pk i hp hs (Inr ()) (Got (Some EmptyMsg)) hst = (Inr (), hst, [host_hello C i sk hp], False)"
  using assms by (simp add: secure_connection_def create_tcp_connection_def)

section \<open>An example\<close>

text \<open>A toy scheme: a signature is the key and the message, a box the message.\<close>

fun toy_id :: "string \<Rightarrow> bytes" where
  "toy_id [] = [0]"
| "toy_id (c # cs) = 1 # word_of_nat (of_char c) # toy_id cs"

fun toy_parse :: "bytes \<Rightarrow> (string \<times> bytes) option" where
  "toy_parse [] = None"
| "toy_parse (x # r) =
     (if x = 0 then Some ([], r)
      else case r of [] \<Rightarrow> None
        | b # r' \<Rightarrow> (case toy_parse r' of Some (i, k) \<Rightarrow> Some (char_of (unat b) # i, k) | None \<Rightarrow> None))"

lemma toy_parse_id: "toy_parse (toy_id i @ k) = Some (i, k)"
  by (induction i) (auto simp: unat_of_nat)

definition toy_hs :: HsCrypto where
  "toy_hs = \<lparr>sign = \<lambda>m sk. take 32 sk @ m, verify = \<lambda>s pk. if take 32 s = pk then Some (drop 32 s) else None,
     box_seal = \<lambda>m n pk sk. m, box_open = \<lambda>c n pk sk. Some c,
     id_pk_bytes = \<lambda>(i, k). toy_id i @ k, parse_id_pk = toy_parse, decode64 = \<lambda>_. Some (replicate 32 1), rs_pub_key = ''k''\<rparr>"

definition toy_pairs :: "(bytes \<times> bytes) set" where
  "toy_pairs = {(pk, sk). length sk = 64 \<and> pk = take 32 sk}"

lemma toy_hs_ok: "hs_crypto_ok toy_hs toy_pairs UNIV"
  by (auto simp: hs_crypto_ok_def toy_hs_def toy_pairs_def toy_parse_id)

theorem handshake_agrees_witness:
  "let rs_sk = replicate 64 1; sk = replicate 64 2; pk = replicate 32 2; k = replicate 32 9; hello = host_hello toy_hs ''h'' sk (replicate 32 3);
       voucher = sign toy_hs (id_pk_bytes toy_hs (''h'', pk)) rs_sk;
       v = secure_connection toy_hs ''h'' voucher ''x'' (replicate 32 4) [] k (Inr ()) (Got (Some hello)) framed_new;
       h = create_tcp_connection toy_hs True sk pk ''h'' (replicate 32 3) [] (Inr ()) (Got (Some (hd (snd (snd v))))) framed_new
   in fs_encrypt (fst (snd v)) = Some (new_encrypt k) \<and> fs_encrypt (fst (snd h)) = Some (new_encrypt k)"
proof -
  let ?sk = "replicate 64 (2 :: u8)" and ?pk = "replicate 32 (2 :: u8)" and ?k = "replicate 32 (9 :: u8)"
  let ?u = "sign toy_hs (id_pk_bytes toy_hs (''h'', ?pk)) (replicate 64 1)"
  obtain r s out where v: "secure_connection toy_hs ''h'' ?u ''x'' (replicate 32 4) [] ?k (Inr ())
      (Got (Some (host_hello toy_hs ''h'' ?sk (replicate 32 3)))) framed_new = (r, s, out)" by (metis prod.collapse)
  obtain r' s' out' again where h: "create_tcp_connection toy_hs True ?sk ?pk ''h'' (replicate 32 3) [] (Inr ()) (Got (Some (hd out))) framed_new
      = (r', s', out', again)" by (metis prod.collapse)
  have "r = Inr (Some ?pk) \<and> r' = Inr () \<and> \<not> again \<and> out' = [host_hello toy_hs ''h'' ?sk (replicate 32 3)] \<and>
      fs_encrypt s = Some (new_encrypt ?k) \<and> fs_encrypt s' = Some (new_encrypt ?k)"
    by (rule handshake_agrees [OF toy_hs_ok _ _ _ _ _ _ _ _ _ _ _ _ refl _ v h, where rs_pk = "replicate 32 1"])
      (simp_all add: toy_pairs_def toy_hs_def get_rs_pk_def get_pk_def)
  then show ?thesis using v h by (simp add: Let_def)
qed

theorem viewer_keyed_only_for_peer_witness:
  "fs_encrypt (fst (snd (secure_connection toy_hs ''h'' [1] ''x'' [] [] [] (Inr ()) (Got None) framed_new))) = None"
proof -
  obtain r s out where v: "secure_connection toy_hs ''h'' [1] ''x'' [] [] [] (Inr ()) (Got None) framed_new = (r, s, out)" by (metis prod.collapse)
  have "fs_encrypt framed_new = None" by (simp add: framed_new_def)
  from viewer_keyed_only_for_peer [OF v this] v this show ?thesis by (auto simp: is_secured_def split: if_splits)
qed

end
