(* ===== verification/Client_Login.thy ===== *)
theory Client_Login
  imports Login
begin

text \<open>
  The viewer's side of the login (\<open>src/client.rs\<close>): where its password comes from, the answer to the challenge of the host, what is
  remembered, and the messages shown on an error. \<open>LoginConfigHandler\<close> is the state of a
  session, \<open>peers\<close> the stored configurations of the peers (\<open>PeerConfig\<close> of \<open>libs/hbb_common/src/config.rs\<close>), whose secrets are
  encrypted. Hashes and byte vectors are strings. The hash function, base64, the address book, JSON, the name of the user and the
  machine are fields of \<open>ClientEnv\<close>.
\<close>

section \<open>State\<close>

datatype PasswordSource = PersonalAb string | SharedAb string | Undefined

datatype ConnType = DefaultConn | FileTransferType | PortForwardType | RdpType | ViewCameraType | TerminalType

record PeerConfig =
  pc_password :: string
  pc_options :: opts
  pc_info :: "string \<times> string \<times> string"
  lock_after_session_end :: bool

record ConnToken =
  tok_password :: string
  tok_source :: PasswordSource
  tok_session :: nat

record LoginConfigHandler =
  lc_id :: string
  conn_type :: ConnType
  is_terminal_admin :: bool
  lc_salt :: string
  lc_challenge :: string
  lc_password :: string
  remember :: bool
  lc_config :: PeerConfig
  port_forward :: "string \<times> int"
  lc_session :: nat
  force_relay :: bool
  switch_uuid :: "string option"
  other_server :: "(string \<times> string \<times> string) option"
  password_source :: PasswordSource
  shared_password :: "string option"

record ClientEnv =
  cl_deps :: Deps
  own_id :: string
  own_server :: string
  own_name :: string
  own_platform :: string
  own_hwid :: string
  own_version :: string
  builtin :: "string \<Rightarrow> string"
  access_token :: string
  ab_token :: string
  ab_entries :: "(bool \<times> (string \<times> string) list) list"
  base64_decode :: "string \<Rightarrow> string option"
  parse_uuid :: "string \<Rightarrow> string option"
  random_session :: nat
  terminal_admin_env :: bool
  proxied :: bool
  public_server_key :: string
  remote_dir_of :: "string \<Rightarrow> string \<Rightarrow> string"

datatype client_out =
  SendLogin LoginRequest string string
| SendSwitchLogin string LoginRequest
| MsgBox string string string string

type_synonym peers = "(string \<times> PeerConfig) list"

section \<open>Stored configurations\<close>

definition default_peer :: PeerConfig where
  "default_peer = \<lparr>pc_password = [], pc_options = [], pc_info = ([], [], []), lock_after_session_end = False\<rparr>"

definition secret_options :: "string list" where
  "secret_options = [''rdp_password'', ''os-username'', ''os-password'']"

definition on_secrets :: "(string \<Rightarrow> string) \<Rightarrow> opts \<Rightarrow> opts" where
  "on_secrets f os = map (\<lambda>(k, v). (k, if k \<in> set secret_options then f v else v)) os"

definition peer_encrypt :: "Deps \<Rightarrow> PeerConfig \<Rightarrow> PeerConfig" where
  "peer_encrypt D c =
     c\<lparr>pc_password := encrypt_vec_or_original (crypto D) (pc_password c) PASSWORD_ENC_VERSION ENCRYPT_MAX_LEN,
       pc_options := on_secrets (\<lambda>v. encrypt_str_or_original (crypto D) v PASSWORD_ENC_VERSION ENCRYPT_MAX_LEN) (pc_options c)\<rparr>"

definition peer_store :: "Deps \<Rightarrow> string \<Rightarrow> PeerConfig \<Rightarrow> peers \<Rightarrow> peers" where
  "peer_store D i c ps = AList.update i (peer_encrypt D c) ps"

text \<open>Loading decrypts; what was stored in the clear or under an old version is stored again.\<close>

definition peer_load :: "Deps \<Rightarrow> string \<Rightarrow> peers \<Rightarrow> PeerConfig \<times> peers" where
  "peer_load D i ps =
     (case map_of ps i of
        None \<Rightarrow> (default_peer, ps)
      | Some c \<Rightarrow>
          (let (pw, _, again) = decrypt_vec_or_original (crypto D) (pc_password c) PASSWORD_ENC_VERSION;
               dec = (\<lambda>v. decrypt_str_or_original (crypto D) v PASSWORD_ENC_VERSION);
               c1 = c\<lparr>pc_password := pw, pc_options := on_secrets (\<lambda>v. fst (dec v)) (pc_options c)\<rparr>;
               again2 = list_ex (\<lambda>(k, v). k \<in> set secret_options \<and> snd (snd (dec v))) (pc_options c)
           in (c1, if again \<or> again2 then peer_store D i c1 ps else ps)))"

definition lc_option :: "LoginConfigHandler \<Rightarrow> string \<Rightarrow> string" where
  "lc_option lc k = (case map_of (pc_options (lc_config lc)) k of Some v \<Rightarrow> v | None \<Rightarrow> [])"

definition save_config :: "Deps \<Rightarrow> PeerConfig \<Rightarrow> LoginConfigHandler \<Rightarrow> peers \<Rightarrow> LoginConfigHandler \<times> peers" where
  "save_config D c lc ps = (lc\<lparr>lc_config := c\<rparr>, peer_store D (lc_id lc) c ps)"

definition lc_set_option :: "Deps \<Rightarrow> string \<Rightarrow> string \<Rightarrow> LoginConfigHandler \<Rightarrow> peers \<Rightarrow> LoginConfigHandler \<times> peers" where
  "lc_set_option D k v lc ps =
     (case peer_load D (lc_id lc) ps of
        (c, ps1) \<Rightarrow> if v = lc_option lc k then (lc, ps1)
                   else save_config D (c\<lparr>pc_options := AList.update k v (pc_options c)\<rparr>) lc ps1)"

section \<open>Opening a session\<close>

definition ends_with :: "string \<Rightarrow> string \<Rightarrow> bool" where
  "ends_with suf s = (length suf \<le> length s \<and> drop (length s - length suf) s = suf)"

definition handle_relay_id :: "string \<Rightarrow> string" where
  "handle_relay_id i = (if ends_with [CHR 0x5C, CHR ''r''] i \<or> ends_with ''/r'' i then take (length i - 2) i else i)"

text \<open>An entry of a list of pieces, or the empty text.\<close>

definition piece :: "nat \<Rightarrow> string list \<Rightarrow> string" where
  "piece k xs = (if k < length xs then xs ! k else [])"

definition arg_value :: "string \<Rightarrow> string \<Rightarrow> string" where
  "arg_value k args =
     (case map_of (rev (map (\<lambda>a. (map (\<lambda>c. if 65 \<le> (of_char c :: nat) \<and> of_char c \<le> (90 :: nat) then char_of (of_char c + (32 :: nat)) else c)
                                     (takeWhile (\<lambda>c. c \<noteq> CHR ''='') a), tl (dropWhile (\<lambda>c. c \<noteq> CHR ''='') a)))
                     (filter (\<lambda>a. CHR ''='' \<in> set a) (split_on (CHR ''&'') args)))) k of
        Some v \<Rightarrow> v | None \<Rightarrow> [])"

definition split_id :: "ClientEnv \<Rightarrow> string \<Rightarrow> string \<times> bool \<times> (string \<times> string \<times> string) option" where
  "split_id env i =
     (if CHR ''@'' \<in> set i then
        (let v = split_on (CHR ''@'') i; raw = hd v; sk = split_on (CHR ''?'') (piece 1 v); server = hd sk;
             key = (if server = ''public'' then public_server_key env else arg_value ''key'' (piece 1 sk));
             real = handle_relay_id raw
         in (real @ ''@'' @ server, real \<noteq> raw, Some (real, server, key)))
      else (handle_relay_id i, handle_relay_id i \<noteq> i, None))"

definition initialize :: "ClientEnv \<Rightarrow> string \<Rightarrow> ConnType \<Rightarrow> string option \<Rightarrow> bool \<Rightarrow> string option \<Rightarrow> ConnToken option \<Rightarrow>
    LoginConfigHandler \<Rightarrow> peers \<Rightarrow> LoginConfigHandler \<times> peers" where
  "initialize env i t switch relay shared tok lc0 ps =
     (let (real, relayed, other) = split_id env i;
          lc = lc0\<lparr>lc_id := real, conn_type := t, other_server := (if other = None then other_server lc0 else other)\<rparr>;
          (c, ps1) = peer_load (cl_deps env) real ps;
          lc1 = lc\<lparr>remember := pc_password c \<noteq> [], lc_config := c\<rparr>;
          lc2 = (case tok of None \<Rightarrow> lc1 | Some k \<Rightarrow> lc1\<lparr>lc_password := tok_password k, password_source := tok_source k\<rparr>);
          sid = (case tok of Some k \<Rightarrow> tok_session k | None \<Rightarrow> 0);
          sid1 = (if sid = 0 then (if random_session env = 0 then 1 else random_session env) else sid);
          lc3 = lc2\<lparr>lc_session := sid1,
                    force_relay := option2bool ''force-always-relay'' (lc_option lc2 ''force-always-relay'') \<or> relay \<or> relayed \<or> proxied env,
                    other_server := (case other_server lc2 of
                       Some (r, s, k) \<Rightarrow> if lc_option lc2 ''other-server-key'' \<noteq> [] \<and> k = []
                                         then Some (r, s, lc_option lc2 ''other-server-key'') else Some (r, s, k)
                     | None \<Rightarrow> None)\<rparr>
      in (lc3\<lparr>switch_uuid := switch, shared_password := shared, is_terminal_admin := (t = TerminalType \<and> terminal_admin_env env)\<rparr>, ps1))"

section \<open>Logging in\<close>

definition is_personal_ab :: "PasswordSource \<Rightarrow> string \<Rightarrow> bool" where
  "is_personal_ab src pw = (pw \<noteq> [] \<and> src = PersonalAb pw)"

definition is_shared_ab :: "Deps \<Rightarrow> PasswordSource \<Rightarrow> string \<Rightarrow> string \<Rightarrow> bool" where
  "is_shared_ab D src pw sl = (pw \<noteq> [] \<and> (case src of SharedAb p \<Rightarrow> pw = sha256 D (p @ sl) | _ \<Rightarrow> False))"

definition get_key_terminal_service_id :: "LoginConfigHandler \<Rightarrow> string" where
  "get_key_terminal_service_id lc = (if is_terminal_admin lc then ''terminal-admin-service-id'' else ''terminal-service-id'')"

definition create_login_msg :: "ClientEnv \<Rightarrow> string \<Rightarrow> LoginConfigHandler \<Rightarrow> LoginRequest" where
  "create_login_msg env pw lc =
     \<lparr>lr_username = (case other_server lc of Some (i, _, _) \<Rightarrow> i | None \<Rightarrow> lc_id lc),
      lr_password = pw,
      my_id = (case other_server lc of Some _ \<Rightarrow> own_id env @ ''@'' @ own_server env | None \<Rightarrow> own_id env),
      my_name = own_name env, my_platform = own_platform env,
      lr_hwid = (if lc_option lc ''trust-this-device'' = ''Y'' then own_hwid env else []),
      lr_session_id = lc_session lc, lr_version = own_version env,
      lr_union = (case conn_type lc of
          FileTransferType \<Rightarrow> FileTransfer (remote_dir_of env (lc_option lc ''remote_dir'') (fst (pc_info (lc_config lc))))
            (lc_option lc ''remote_show_hidden'' \<noteq> [])
        | ViewCameraType \<Rightarrow> ViewCamera
        | PortForwardType \<Rightarrow> PortForward (fst (port_forward lc)) (snd (port_forward lc))
        | RdpType \<Rightarrow> PortForward (fst (port_forward lc)) (snd (port_forward lc))
        | TerminalType \<Rightarrow> Terminal (lc_option lc (get_key_terminal_service_id lc))
        | DefaultConn \<Rightarrow> NoUnion)\<rparr>"

definition personal_ab_password :: "ClientEnv \<Rightarrow> string \<Rightarrow> string" where
  "personal_ab_password env i =
     (if access_token env \<noteq> [] \<and> access_token env = ab_token env then
        (case find fst (ab_entries env) of
           None \<Rightarrow> []
         | Some (_, ps) \<Rightarrow>
             (case map_of ps i of
                None \<Rightarrow> []
              | Some hash \<Rightarrow> (case base64_decode env hash of Some p \<Rightarrow> p | None \<Rightarrow> [])))
      else [])"

text \<open>The password that is used, in the order in which its sources are asked, and where it came from.\<close>

definition choose_password :: "ClientEnv \<Rightarrow> string \<Rightarrow> LoginConfigHandler \<Rightarrow> string \<times> PasswordSource" where
  "choose_password env preset lc =
     (let H = (\<lambda>p. sha256 (cl_deps env) (p @ lc_salt lc));
          (p1, s1) = (if lc_password lc = [] \<and> preset \<noteq> [] then (H preset, Undefined) else (lc_password lc, password_source lc));
          (p2, s2) = (case shared_password lc of Some p \<Rightarrow> if p \<noteq> [] then (H p, SharedAb p) else (p1, s1) | None \<Rightarrow> (p1, s1));
          (p3, s3) = (if p2 = [] then (pc_password (lc_config lc), if pc_password (lc_config lc) \<noteq> [] then Undefined else s2) else (p2, s2));
          ab = personal_ab_password env (lc_id lc);
          (p4, s4) = (if p3 = [] \<and> ab \<noteq> [] then (ab, PersonalAb ab) else (p3, s3));
          d = builtin env ''default-connect-password''
      in if p4 = [] \<and> d \<noteq> [] then (H d, SharedAb d) else (p4, s4))"

definition handle_hash :: "ClientEnv \<Rightarrow> string \<Rightarrow> string \<Rightarrow> string \<Rightarrow> LoginConfigHandler \<Rightarrow> LoginConfigHandler \<times> client_out list" where
  "handle_hash env preset sl challenge lc0 =
     (let lc = lc0\<lparr>lc_salt := sl, lc_challenge := challenge, switch_uuid := None\<rparr>
      in case (case switch_uuid lc0 of Some u \<Rightarrow> parse_uuid env u | None \<Rightarrow> None) of
           Some uid \<Rightarrow> (lc\<lparr>password_source := Undefined\<rparr>, [SendSwitchLogin uid (create_login_msg env [] lc)])
         | None \<Rightarrow>
             (let (pw, src) = choose_password env preset lc;
                  lc1 = lc\<lparr>lc_password := pw, password_source := src, shared_password := None\<rparr>;
                  is_term = (conn_type lc1 = TerminalType)
              in if is_term \<and> is_terminal_admin lc1
                 then (lc1, [MsgBox (if pw = [] then ''terminal-admin-login-password'' else ''terminal-admin-login'') [] [] []])
                 else
                   (let answer = (if pw = [] then [] else sha256 (cl_deps env) (pw @ challenge))
                    in (lc1, (if pw = [] then [MsgBox ''input-password'' ''Password Required'' [] []] else []) @
                         [SendLogin (create_login_msg env answer lc1)
                            (if is_term then [] else lc_option lc1 ''os-username'') (if is_term then [] else lc_option lc1 ''os-password'')]))))"

definition handle_login_from_ui :: "ClientEnv \<Rightarrow> string \<Rightarrow> string \<Rightarrow> string \<Rightarrow> bool \<Rightarrow> LoginConfigHandler \<Rightarrow> LoginConfigHandler \<times> client_out list" where
  "handle_login_from_ui env os_user os_password pw rem lc =
     (let lc1 =
        (if pw = [] then
           (if lc_password lc \<noteq> [] then lc
            else lc\<lparr>lc_password := pc_password (lc_config lc),
                    password_source := (if pc_password (lc_config lc) \<noteq> [] then Undefined else password_source lc)\<rparr>)
         else lc\<lparr>password_source := Undefined, remember := rem, lc_password := sha256 (cl_deps env) (pw @ lc_salt lc)\<rparr>);
          answer = sha256 (cl_deps env) (lc_password lc1 @ lc_challenge lc1)
      in (lc1, [SendLogin (create_login_msg env answer lc1) os_user os_password]))"

definition LOGIN_ERROR_MAP :: "(string \<times> (string \<times> string \<times> string \<times> string) \<times> bool) list" where
  "LOGIN_ERROR_MAP =
    [(''Wayland login screen is not supported'', (''error'', ''Login Error'', ''Login screen using Wayland is not supported'',
        ''https://dicad.cn/docs/en/manual/linux/#login-screen''), True),
     (''Desktop session not ready'', (''session-login'', [], [], []), True),
     (''Desktop xsession failed'', (''session-re-login'', [], [], []), True),
     (''Desktop session another user login'', (''info-nocancel'', ''another_user_login_title_tip'', ''another_user_login_text_tip'', []), False),
     (''Desktop xorg not found'', (''info-nocancel'', ''xorg_not_found_title_tip'', ''xorg_not_found_text_tip'',
        ''https://github.com/luoda/luoda/wiki/Headless-Linux-Support''), True),
     (''Desktop none'', (''info-nocancel'', ''no_desktop_title_tip'', ''no_desktop_text_tip'',
        ''https://github.com/luoda/luoda/wiki/Headless-Linux-Support''), True),
     (''Desktop session not ready, password empty'', (''session-login-password'', [], [], []), True),
     (''Desktop session not ready, password wrong'', (''session-login-re-password'', [], [], []), True),
     (''No Password Access'', (''wait-remote-accept-nook'', ''Prompt'',
        ''Please wait for the remote side to accept your session request...'', []), True)]"

text \<open>The flag says whether the login can be tried again. \<open>x11\<close> says that the error asks for X11 and gives the link to show.\<close>

definition handle_login_error :: "ClientEnv \<Rightarrow> (string \<Rightarrow> string) \<Rightarrow> string \<Rightarrow> LoginConfigHandler \<Rightarrow> peers \<Rightarrow>
    bool \<times> LoginConfigHandler \<times> peers \<times> client_out list" where
  "handle_login_error env x11 err lc ps =
     (if err = ''Empty Password'' then (True, lc\<lparr>lc_password := []\<rparr>, ps, [MsgBox ''input-password'' ''Password Required'' [] []])
      else if err = ''Wrong Password'' then (True, lc\<lparr>lc_password := []\<rparr>, ps, [MsgBox ''re-input-password'' err ''Do you want to enter again?'' []])
      else if err = ''Wrong 2FA Code'' \<or> err = ''2FA Required'' then
        (case (if lc_option lc ''trust-this-device'' = ''Y'' then lc_set_option (cl_deps env) ''trust-this-device'' [] lc ps else (lc, ps)) of
           (lc1, ps1) \<Rightarrow> (True, lc1, ps1, [MsgBox ''input-2fa'' err [] []]))
      else case map_of LOGIN_ERROR_MAP err of
        Some ((t, title, txt, link), again) \<Rightarrow> (again, lc, ps, [MsgBox t title txt link])
      | None \<Rightarrow> (False, lc, ps, [MsgBox ''error'' ''Login Error'' err (x11 err)]))"

section \<open>After the login\<close>

definition kept_password :: "Deps \<Rightarrow> LoginConfigHandler \<Rightarrow> string \<Rightarrow> string" where
  "kept_password D lc old =
     (let pw = lc_password lc
      in if remember lc
         then (if pw \<noteq> [] \<and> pw \<noteq> old \<and> \<not> is_shared_ab D (password_source lc) pw (lc_salt lc) then pw else old)
         else (if is_personal_ab (password_source lc) pw then pw else []))"

definition handle_peer_info :: "ClientEnv \<Rightarrow> string \<times> string \<times> string \<Rightarrow> LoginConfigHandler \<Rightarrow> peers \<Rightarrow> LoginConfigHandler \<times> peers" where
  "handle_peer_info env info lc ps =
     (case peer_load (cl_deps env) (lc_id lc) ps of
        (c0, ps1) \<Rightarrow>
          (let c1 = c0\<lparr>pc_info := info, pc_password := kept_password (cl_deps env) lc (pc_password c0)\<rparr>;
               c2 = (case other_server lc of
                       Some (_, b, k) \<Rightarrow> if b \<noteq> ''public'' then c1\<lparr>pc_options := AList.update ''other-server-key'' k (pc_options c1)\<rparr> else c1
                     | None \<Rightarrow> c1);
               c3 = (if force_relay lc then c2\<lparr>pc_options := AList.update ''force-always-relay'' ''Y'' (pc_options c2)\<rparr> else c2)
           in save_config (cl_deps env) c3 lc ps1))"

definition get_conn_token :: "LoginConfigHandler \<Rightarrow> ConnToken option" where
  "get_conn_token lc =
     (if lc_password lc = [] then None
      else Some \<lparr>tok_password = lc_password lc, tok_source = password_source lc, tok_session = lc_session lc\<rparr>)"

definition should_auto_login :: "LoginConfigHandler \<Rightarrow> string" where
  "should_auto_login lc =
     (let p = lc_option lc ''os-password''
      in if p \<noteq> [] \<and> lock_after_session_end (lc_config lc) \<and> lc_option lc ''auto-login'' \<noteq> [] then p else [])"

section \<open>A viewer that knows the password\<close>

text \<open>The host accepts a plain password: it is the temporary one, or its hash is the stored permanent one.\<close>

definition host_accepts :: "LoginEnv \<Rightarrow> Conn \<Rightarrow> Host \<Rightarrow> string \<Rightarrow> bool" where
  "host_accepts env c h p =
     (p \<noteq> [] \<and>
      (temporary_enabled (settings h) \<and> temporary h = p \<or>
       permanent_enabled (settings h) \<and> password (config (settings h)) \<noteq> [] \<and>
       decode_permanent_password_h1_from_storage (deps env) (password (config (settings h))) = Some (sha256 (deps env) (p @ hash_salt c))))"

definition challenge_answer :: "Deps \<Rightarrow> string \<Rightarrow> string \<Rightarrow> string \<Rightarrow> string" where
  "challenge_answer D p sl ch = sha256 D (sha256 D (p @ sl) @ ch)"

lemma validate_accepts:
  assumes "host_accepts env c h p" "lr_password (lr c) = challenge_answer (deps env) p (hash_salt c) (hash_challenge c)"
  shows "fst (validate_password env c h)"
  using assms
  by (auto simp: validate_password_def host_accepts_def challenge_answer_def validate_one_password_def validate_password_plain_def verify_h1_iff
      validate_permanent_def validate_password_storage_def)

lemma answer_opens:
  assumes plain: "plain_request env h r" and c: "\<not> authorized c" "require_2fa c = None" and acc: "host_accepts env c h p"
    and pw: "lr_password r = challenge_answer (deps env) p (hash_salt c) (hash_challenge c)" "lr_password r \<noteq> []"
    and free: "fst (snd (check_failure (ip c) (minute env) (login_failures h 0)))"
  shows "authorized (fst (snd (on_message env (LoginRequestMsg r) c h)))"
proof -
  define c0 where "c0 = c\<lparr>lr := r\<rparr>"
  have c0: "lr c0 = r" "\<not> authorized c0" "require_2fa c0 = None" "ip c0 = ip c" using c by (simp_all add: c0_def)
  have u: "lr_union r = NoUnion" "desktop_error env = []" "\<not> click_only env h" using plain by (simp_all add: plain_request_def)
  have "host_accepts env c0 h p" using acc by (simp add: host_accepts_def c0_def)
  then have "fst (validate_password env c0 h)" using validate_accepts pw(1) by (simp add: c0_def)
  then obtain h1 where v: "validate_password env c0 h = (True, h1)" by (cases "validate_password env c0 h") auto
  obtain ft e where cf: "check_failure (ip c0) (minute env) (login_failures h 0) = (ft, True, e)"
    using free by (cases "check_failure (ip c) (minute env) (login_failures h 0)") (auto simp: c0)
  have l: "on_message env (LoginRequestMsg r) c h = (case login_by_mode env r c0 h of (k, c2, h2, as) \<Rightarrow> (k, c2, h2, StartCmIpc # as))"
    by (simp add: on_message_def plain_request_by_mode [OF plain c] c0_def)
  show ?thesis
    unfolding l using u c0 cf v pw(2) by (simp add: login_by_mode_def password_login_def logon_authorizes Let_def)
qed

lemma create_login_msg_password [simp]: "lr_password (create_login_msg env pw lc) = pw"
  by (simp add: create_login_msg_def)

lemma typed_password:
  assumes "handle_login_from_ui env u q p rem lc = (lc', out)" "p \<noteq> []"
  shows "out = [SendLogin (create_login_msg env (challenge_answer (cl_deps env) p (lc_salt lc) (lc_challenge lc)) lc') u q]"
    "lc_password lc' = sha256 (cl_deps env) (p @ lc_salt lc)" "remember lc' = rem" "password_source lc' = Undefined"
    "lc_id lc' = lc_id lc" "lc_salt lc' = lc_salt lc"
  using assms by (auto simp: handle_login_from_ui_def Let_def challenge_answer_def)

lemma handle_hash_hash: "lc_salt (fst (handle_hash env q sl ch lc)) = sl" "lc_challenge (fst (handle_hash env q sl ch lc)) = ch"
  by (auto simp: handle_hash_def Let_def split: option.splits prod.splits)

text \<open>C19: a viewer that knows the password gets in. Whether the password is preset for the connection or typed by the user after
  the challenge has come, the request the viewer sends is one that the host accepts: a connection that is not blocked and needs no
  second factor is authorized, with the temporary and with the permanent password.\<close>

theorem viewer_password_opens:
  assumes sent: "(lc_password lc = [] \<and> shared_password lc = None \<and> switch_uuid lc = None \<and>
        handle_hash cenv p (hash_salt c) (hash_challenge c) lc = (lc', [SendLogin r u q])) \<or>
      handle_login_from_ui cenv u q p rem (fst (handle_hash cenv preset (hash_salt c) (hash_challenge c) lc)) = (lc', [SendLogin r u q])"
    and sha: "cl_deps cenv = deps env" "\<And>x. sha256 (deps env) x \<noteq> []"
    and host: "plain_request env h r" "\<not> authorized c" "require_2fa c = None" "host_accepts env c h p"
      "fst (snd (check_failure (ip c) (minute env) (login_failures h 0)))"
  shows "authorized (fst (snd (on_message env (LoginRequestMsg r) c h)))"
proof (rule answer_opens [OF host(1-4) _ _ host(5)])
  have p: "p \<noteq> []" using host(4) by (simp add: host_accepts_def)
  from sent show a: "lr_password r = challenge_answer (deps env) p (hash_salt c) (hash_challenge c)"
  proof
    assume "lc_password lc = [] \<and> shared_password lc = None \<and> switch_uuid lc = None \<and>
        handle_hash cenv p (hash_salt c) (hash_challenge c) lc = (lc', [SendLogin r u q])"
    then show ?thesis using p sha
      by (auto simp: handle_hash_def Let_def choose_password_def challenge_answer_def split: if_splits)
  next
    assume "handle_login_from_ui cenv u q p rem (fst (handle_hash cenv preset (hash_salt c) (hash_challenge c) lc)) = (lc', [SendLogin r u q])"
    from typed_password(1) [OF this p] show ?thesis using sha by (auto simp: handle_hash_hash)
  qed
  show "lr_password r \<noteq> []" using a sha by (simp add: challenge_answer_def)
qed

section \<open>A remembered password\<close>

lemma map_of_on_secrets: "map_of (on_secrets f os) k = (if k \<in> set secret_options then map_option f (map_of os k) else map_of os k)"
  by (induction os) (auto simp: on_secrets_def)

lemma peer_load_stored:
  assumes "crypto_ok (crypto D)" "v \<noteq> []" "\<not> is_encrypted (crypto D) v" "length v \<le> 128" "pc_password c = v"
  shows "pc_password (fst (peer_load D i (peer_store D i c ps))) = v"
  using stored_bytes_roundtrip [OF assms(1-3), of 128] assms(4,5)
  by (auto simp: peer_load_def peer_store_def peer_encrypt_def update_conv' PASSWORD_ENC_VERSION_def ENCRYPT_MAX_LEN_def Let_def split: prod.splits)

lemma handle_peer_info_stores:
  "\<exists>c ps1. snd (handle_peer_info env info lc ps) = peer_store (cl_deps env) (lc_id lc) c ps1 \<and>
     pc_password c = kept_password (cl_deps env) lc (pc_password (fst (peer_load (cl_deps env) (lc_id lc) ps)))"
  by (cases "peer_load (cl_deps env) (lc_id lc) ps")
    (auto simp: handle_peer_info_def Let_def save_config_def split: option.splits prod.splits)

lemma initialize_facts:
  assumes "initialize env i t None relay None None lc0 ps = (lc, ps')" "CHR ''@'' \<notin> set i" "handle_relay_id i = i"
  shows "lc_id lc = i" "conn_type lc = t" "lc_password lc = lc_password lc0" "shared_password lc = None" "switch_uuid lc = None"
    "lc_config lc = fst (peer_load (cl_deps env) i ps)"
  using assms by (auto simp: initialize_def Let_def split_id_def split: prod.splits)

text \<open>C20: a remembered password opens the next session. Let the user type the password with the wish to remember it, and let the host
  answer with its data. Then a new session of the viewer to that peer logs in without asking: the stored hash, encrypted on disk and
  read back, answers the new challenge, and the host authorizes the connection as long as it keeps its salt and its password.\<close>

theorem remembered_password_reopens:
  assumes ui: "handle_login_from_ui cenv u q p True lc1 = (lc2, out1)" and id1: "lc_id lc1 = i" and salt1: "lc_salt lc1 = hash_salt c"
    and stored: "handle_peer_info cenv info lc2 ps = (lc3, ps1)"
    and start: "initialize cenv i DefaultConn None relay None None lc0 ps1 = (lc4, ps2)" "CHR ''@'' \<notin> set i" "handle_relay_id i = i" "lc_password lc0 = []"
    and next_: "handle_hash cenv [] (hash_salt c) (hash_challenge c) lc4 = (lc5, out)"
    and crypto: "cl_deps cenv = deps env" "crypto_ok (crypto (deps env))" "\<And>x. length (sha256 (deps env) x) = 32"
      "\<not> is_encrypted (crypto (deps env)) (sha256 (deps env) (p @ hash_salt c))"
    and host: "\<not> authorized c" "require_2fa c = None" "host_accepts env c h p"
      "fst (snd (check_failure (ip c) (minute env) (login_failures h 0)))"
  shows "\<exists>r u' q'. out = [SendLogin r u' q'] \<and> (plain_request env h r \<longrightarrow> authorized (fst (snd (on_message env (LoginRequestMsg r) c h))))"
proof -
  let ?D = "deps env" and ?v = "sha256 (deps env) (p @ hash_salt c)"
  have p: "p \<noteq> []" using host(3) by (simp add: host_accepts_def)
  note t = typed_password [OF ui p]
  have ne: "sha256 ?D x \<noteq> []" for x using crypto(3) [of x] by auto
  have k: "kept_password ?D lc2 old = ?v" for old
    using t crypto(1) salt1 ne by (auto simp: kept_password_def Let_def is_shared_ab_def)
  obtain c0 ps0 where ps1: "ps1 = peer_store ?D i c0 ps0" "pc_password c0 = ?v"
    using handle_peer_info_stores [of cenv info lc2 ps] stored k t(5) id1 crypto(1) by auto
  note f = initialize_facts [OF start(1-3)]
  have cfg: "pc_password (lc_config lc4) = ?v"
    using f(6) peer_load_stored [OF crypto(2) ne crypto(4), of c0 i ps0] crypto(1,3) ps1 by simp
  obtain r u' q' where out: "out = [SendLogin r u' q']" "lr_password r = challenge_answer ?D p (hash_salt c) (hash_challenge c)"
    using next_ f cfg start(4) ne crypto(1)
    by (auto simp: handle_hash_def Let_def choose_password_def challenge_answer_def split: if_splits)
  show ?thesis
    using answer_opens [OF _ host(1-3) out(2) _ host(4)] out ne by (auto simp: challenge_answer_def)
qed

text \<open>An empty field is not an empty password: the answer to the challenge is then the hash of the challenge alone, which the host counts
  as a wrong password.\<close>

lemma empty_field_answers:
  "lc_password lc = [] \<Longrightarrow> pc_password (lc_config lc) = [] \<Longrightarrow> handle_login_from_ui env u q [] rem lc = (lc', [SendLogin r u q]) \<Longrightarrow>
    lr_password r = sha256 (cl_deps env) (lc_challenge lc)"
  by (auto simp: handle_login_from_ui_def Let_def)

text \<open>A password of a shared address book is not written to the configuration of the peer.\<close>

lemma shared_password_not_kept:
  assumes "is_shared_ab D (password_source lc) (lc_password lc) (lc_salt lc)"
  shows "kept_password D lc old = (if remember lc then old else [])"
  using assms by (auto simp: kept_password_def Let_def is_shared_ab_def is_personal_ab_def)

section \<open>Examples\<close>

definition example_client :: ClientEnv where
  "example_client = \<lparr>cl_deps = toy_deps, own_id = ''p'', own_server = ''s'', own_name = ''n'', own_platform = ''Linux'', own_hwid = [], own_version = ''1.4.0'',
     builtin = \<lambda>_. [], access_token = [], ab_token = [], ab_entries = [], base64_decode = \<lambda>_. None, parse_uuid = \<lambda>_. None, random_session = 5,
     terminal_admin_env = False, proxied = False, public_server_key = ''k'', remote_dir_of = \<lambda>_ _. []\<rparr>"

definition example_handler :: LoginConfigHandler where
  "example_handler = \<lparr>lc_id = ''1.2.3.4'', conn_type = DefaultConn, is_terminal_admin = False, lc_salt = ''s'', lc_challenge = ''c'', lc_password = [],
     remember = False, lc_config = default_peer, port_forward = ([], 0), lc_session = 1, force_relay = False, switch_uuid = None, other_server = None,
     password_source = Undefined, shared_password = None\<rparr>"

lemma example_accepts: "host_accepts example_env example_start (example_host ''abcd'' [] []) ''abcd''"
  by (simp add: host_accepts_def example_host_def example_settings)

lemma example_sent_plain:
  "plain_request example_env (example_host ''abcd'' ss sw) (create_login_msg example_client pw example_handler)"
  using example_plain [of "''abcd''" ss sw pw]
  by (simp add: plain_request_def create_login_msg_def example_client_def example_handler_def example_env_def)

theorem viewer_password_opens_witness:
  "case handle_hash example_client ''abcd'' (hash_salt example_start) (hash_challenge example_start) example_handler of
     (lc', out) \<Rightarrow> (\<exists>r u q. out = [SendLogin r u q] \<and>
       authorized (fst (snd (on_message example_env (LoginRequestMsg r) example_start (example_host ''abcd'' [] [])))))"
proof -
  obtain lc' r u q where h: "handle_hash example_client ''abcd'' (hash_salt example_start) (hash_challenge example_start) example_handler = (lc', [SendLogin r u q])"
    "plain_request example_env (example_host ''abcd'' [] []) r"
    using example_sent_plain [of "[]" "[]"]
    by (auto simp: handle_hash_def choose_password_def Let_def example_handler_def example_client_def create_login_msg_def toy_deps_def plain_request_def lc_option_def default_peer_def)
  have "authorized (fst (snd (on_message example_env (LoginRequestMsg r) example_start (example_host ''abcd'' [] []))))"
  proof (rule viewer_password_opens [OF _ _ _ h(2) example_start_simps(1,2) example_accepts])
    show "(lc_password example_handler = [] \<and> shared_password example_handler = None \<and> switch_uuid example_handler = None \<and>
        handle_hash example_client ''abcd'' (hash_salt example_start) (hash_challenge example_start) example_handler = (lc', [SendLogin r u q])) \<or>
      handle_login_from_ui example_client u q ''abcd'' False (fst (handle_hash example_client [] (hash_salt example_start) (hash_challenge example_start) example_handler)) = (lc', [SendLogin r u q])"
      using h(1) by (simp add: example_handler_def)
    show "fst (snd (check_failure (ip example_start) (minute example_env) (login_failures (example_host ''abcd'' [] []) 0)))"
      using example_not_blocked by (simp add: example_start_simps)
  qed (simp_all add: example_client_def example_env_def toy_deps_def)
  then show ?thesis using h(1) by auto
qed

text \<open>The request of a desktop session without another server names the peer and asks for no other service.\<close>

lemma sent_request:
  assumes "handle_hash env preset sl ch lc = (lc', out)" "SendLogin r u q \<in> set out" "conn_type lc = DefaultConn" "other_server lc = None"
  shows "lr_username r = lc_id lc \<and> lr_union r = NoUnion \<and> my_id r = own_id env"
  using assms by (auto simp: handle_hash_def Let_def create_login_msg_def split: option.splits prod.splits if_splits)

lemma initialize_no_server:
  assumes "initialize env i t switch relay shared tok lc0 ps = (lc, ps')" "CHR ''@'' \<notin> set i" "other_server lc0 = None"
  shows "other_server lc = None"
  using assms by (auto simp: initialize_def Let_def split_id_def split: prod.splits option.splits)

lemma example_sent_plain_id:
  "lr_username r = ''1.2.3.4'' \<Longrightarrow> lr_union r = NoUnion \<Longrightarrow> my_id r = ''p'' \<Longrightarrow> plain_request example_env (example_host ''abcd'' ss sw) r"
  using example_plain [of "''abcd''" ss sw "[]"]
  by (simp add: plain_request_def example_login_request_def no_request_def)

theorem remembered_password_reopens_witness:
  "let lc2 = fst (handle_login_from_ui example_client [] [] ''abcd'' True example_handler);
       ps1 = snd (handle_peer_info example_client ([], [], []) lc2 []);
       lc4 = fst (initialize example_client ''1.2.3.4'' DefaultConn None False None None example_handler ps1)
   in \<exists>r u q. snd (handle_hash example_client [] ''s'' ''c'' lc4) = [SendLogin r u q] \<and>
        authorized (fst (snd (on_message example_env (LoginRequestMsg r) example_start (example_host ''abcd'' [] []))))"
proof -
  obtain lc2 o1 where ui: "handle_login_from_ui example_client [] [] ''abcd'' True example_handler = (lc2, o1)" by (metis prod.collapse)
  obtain lc3 ps1 where info: "handle_peer_info example_client ([], [], []) lc2 [] = (lc3, ps1)" by (metis prod.collapse)
  obtain lc4 ps2 where start: "initialize example_client ''1.2.3.4'' DefaultConn None False None None example_handler ps1 = (lc4, ps2)"
    by (metis prod.collapse)
  obtain lc5 out where hash: "handle_hash example_client [] (hash_salt example_start) (hash_challenge example_start) lc4 = (lc5, out)"
    by (metis prod.collapse)
  have i: "CHR ''@'' \<notin> set ''1.2.3.4''" "handle_relay_id ''1.2.3.4'' = ''1.2.3.4''" by (simp_all add: handle_relay_id_def ends_with_def)
  have "\<exists>r u' q'. out = [SendLogin r u' q'] \<and> (plain_request example_env (example_host ''abcd'' [] []) r \<longrightarrow>
      authorized (fst (snd (on_message example_env (LoginRequestMsg r) example_start (example_host ''abcd'' [] [])))))"
    by (rule remembered_password_reopens [OF ui _ _ info start i _ hash _ _ _ _ example_start_simps(1,2) example_accepts])
      (use example_not_blocked in \<open>simp_all add: example_handler_def example_client_def example_start_simps toy_deps_def toy_crypto_ok is_encrypted_def VERSION_LEN_def\<close>)
  then obtain r u q where r: "out = [SendLogin r u q]"
    "plain_request example_env (example_host ''abcd'' [] []) r \<longrightarrow>
      authorized (fst (snd (on_message example_env (LoginRequestMsg r) example_start (example_host ''abcd'' [] []))))" by blast
  have "other_server lc4 = None" using initialize_no_server [OF start i(1)] by (simp add: example_handler_def)
  then have "plain_request example_env (example_host ''abcd'' [] []) r"
    using sent_request [OF hash] r(1) initialize_facts(1,2) [OF start i] by (intro example_sent_plain_id) (auto simp: example_client_def)
  then show ?thesis using r ui info start hash by (auto simp: Let_def example_start_simps)
qed

end
