(* ===== verification/Spec2Isabelle.thy ===== *)
theory Spec2Isabelle
  imports Bytes_Codec Secure_Stream Video_Qos File_Delivery Settings Server Login Addr_Mangle Terminal_Service
    Shared_Counter Host_Policy Conn_Rights Registration Handshake Client_Login
begin

text \<open>
  A verification library for the host side of LUODA RemoteDesktop, a remote desktop program in Rust.

  \<^bold>\<open>The program.\<close> A host registers with a rendezvous server under an id; a viewer connects to it, directly or over a
  relay. Both ends frame their messages with a length prefix and, once keys are exchanged, seal each frame. The host
  checks the login of the viewer (password, session, two-factor code or a click of the user), and an authorized
  connection subscribes to the services of the host: video, audio, clipboard, input. The video service adapts frame
  rate and bit rate to the network. The same connection transfers files in both directions. Options, identity and
  passwords are kept in a configuration store whose secrets are encrypted.

  \<^bold>\<open>The theories\<close>, in the order of their dependencies:

  \<^item> \<open>Prelude\<close>: machine integers and bytes, I/O errors, little-endian numbers, decimal numbers; lemmas on lists and maps.
  \<^item> \<open>Bytes_Codec\<close> (\<open>libs/hbb_common/src/bytes_codec.rs\<close>): the record \<open>BytesCodec\<close>, \<open>decode\<close> with \<open>decode_head\<close> and
    \<open>decode_data\<close>, \<open>encode\<close>. Shown: what was encoded is decoded, however the stream is cut; what is delivered is
    within the limit and in the buffer; which packets and headers are refused.
  \<^item> \<open>Secure_Stream\<close> (\<open>libs/hbb_common/src/tcp.rs\<close>): \<open>Encrypt\<close>, the nonces, \<open>FramedStream\<close> sending and receiving over the
    codec; the boxes of sodiumoxide are arguments. Shown: round trip, authenticity, detection of replay and
    reordering, distinct nonces in a direction and equal ones in the two directions.
  \<^item> \<open>F32\<close>: rounding to binary32 on the rationals, used by \<open>Video_Qos\<close> (\<open>src/server/video_qos.rs\<close> and the ratios of
    \<open>libs/scrap/src/common/codec.rs\<close>): the whole controller. Shown: no call panics and the invariant holds, bounds of
    the frame rate and direction of the ratio, the incremental minimum of the round trip estimator equals its definition.
  \<^item> \<open>Std_Fs\<close>: the part of \<open>std::fs\<close> and \<open>std::path\<close> the transfer uses, over an explicit file system with links.
    \<open>File_Transfer\<close> (\<open>libs/hbb_common/src/fs.rs\<close>, \<open>compress.rs\<close>): the jobs and their operations. \<open>File_Confinement\<close>: writing
    stays in the download directory, and where it does not. \<open>File_Delivery\<close>: sender and receiver composed deliver the
    file, also when resumed, and nothing is sent before it is confirmed.
  \<^item> \<open>Password_Security\<close> (\<open>libs/hbb_common/src/password_security.rs\<close>): encryption of stored secrets. \<open>Password_Policy\<close> (the
    first part of the same file): which passwords count, the temporary password and its cache.
  \<^item> \<open>Settings\<close> (\<open>libs/hbb_common/src/config.rs\<close>): options in layers, identity, permanent password, salt, trusted devices,
    loading and storing.
  \<^item> \<open>Service\<close> (\<open>src/server/service.rs\<close>): a publish/subscribe service as a record, its critical sections as steps that the
    threads interleave; the locale \<open>subscription\<close> is the contract its clients rely on. Shown: the tables refine the set of
    subscribers, snapshots, the life cycle of the loops, the pause after errors.
  \<^item> \<open>Server\<close> (\<open>src/server.rs\<close>, the display requests of \<open>src/server/connection.rs\<close>): the tables of connections and services.
  \<^item> \<open>Login_Guard\<close> (\<open>check_failure\<close>, \<open>update_failure\<close> of \<open>src/server/connection.rs\<close>): the limits on failed logins.
  \<^item> \<open>Version_Number\<close> (\<open>get_version_number\<close> of \<open>libs/hbb_common/src/lib.rs\<close>).
  \<^item> \<open>Login\<close> (\<open>src/server/connection.rs\<close>): a connection from its start to its authorization, with the session table and the
    permissions. Shown: a credential is necessary, the temporary password suffices, and which paths skip a check.
  \<^item> \<open>Addr_Mangle\<close> (\<open>AddrMangle\<close> of \<open>libs/hbb_common/src/lib.rs\<close>): the address in rendezvous messages, with its round trip.
  \<^item> \<open>Codec_Negotiation\<close> (\<open>libs/scrap/src/common/codec.rs\<close>, \<open>hwcodec.rs\<close>, \<open>vram.rs\<close>, the set-up of an encoder in
    \<open>src/server/video_service.rs\<close>): what the viewers can decode, their vote, the fallback. Shown: the codec chosen can be decoded by
    all and encoded by the host, the vote is a majority vote, video starts whenever VP9 works.
  \<^item> \<open>Terminal_Buffer\<close> and \<open>Terminal_Service\<close> (\<open>src/server/terminal_service.rs\<close>): the output history, with the locale
    \<open>output_history\<close> as the contract a session relies on, and the registry of terminals, whose operations are the rules of
    \<open>terminal_step\<close>. Shown: reconnection continues the output, shells are accounted for, redrawing ends, the bound of the history
    and the input on which its loop does not end.
  \<^item> \<open>Shared_Counter\<close> (\<open>src/shared_counter.rs\<close>): the atomic accesses of two processes interleaved by \<open>shared_step\<close>. Shown: the last
    frame is announced until it is consumed.
  \<^item> \<open>Host_Policy\<close> (\<open>src/headless_policy.rs\<close>, \<open>host_startup.rs\<close>, \<open>rendezvous_transport.rs\<close>, \<open>tray_exit.rs\<close>,
    \<open>direct_access.rs\<close>): the decisions of the host as pure functions. Shown: which displays are captured, which address is offered.
  \<^item> \<open>File_Listing\<close> (\<open>read_dir\<close>, \<open>get_recursive_files\<close>, \<open>remove_all_empty_dir\<close> of \<open>libs/hbb_common/src/fs.rs\<close>): listing and
    removing trees. Shown: the listing is exact, removal ends and keeps every file.
  \<^item> \<open>Privacy_Mode\<close> (\<open>src/privacy_mode.rs\<close>, its implementations for macOS and with a topmost window, the handlers in
    \<open>connection.rs\<close>): the locale \<open>privacy_trait\<close> is the trait, interpreted on the implementations. Shown: one owner, the end with
    the connection, and the failed attempt that ends the mode of another.
  \<^item> \<open>Cm_Files\<close> (\<open>src/ui_cm_interface.rs\<close>): the file commands the connection manager runs. Shown: the limit of listings, and that an
    upload is never written.
  \<^item> \<open>Clipboard_Files\<close> (\<open>libs/clipboard/src/platform/unix\<close>, \<open>src/clipboard_file.rs\<close>): copied files, their binary list and the
    requests for their contents. Shown: the list is read back, a range is exact, and fails with bit 31 of the offset set.
  \<^item> \<open>Conn_Files\<close> (\<open>connection.rs\<close>): the file messages of a connection and the answers of the connection manager. Shown: a
    cancelled transfer is silent, and the one-way option protects the host.
  \<^item> \<open>Conn_Control\<close> (\<open>connection.rs\<close>): an authorized connection, its permissions, options, messages, commands of the connection
    manager, timers and end, composed with \<open>Server\<close>, \<open>Privacy_Mode\<close>, \<open>Clipboard_Files\<close> and \<open>Conn_Files\<close>. \<open>Conn_Rights\<close>: its
    properties, with the locale \<open>option_invariant\<close> for what every option keeps. Shown: effects need their permission, subscriptions
    follow permissions, the server keeps its form, idle connections end.
  \<^item> \<open>Rendezvous\<close> (\<open>src/rendezvous_mediator.rs\<close> and what it uses of \<open>config.rs\<close> and \<open>socket_client.rs\<close>): registration with the
    rendezvous servers over UDP and TCP, requests of a viewer, direct access; the servers share the record \<open>RzWorld\<close>.
    \<open>Registration\<close>: its properties, with the locale \<open>quiet_loop\<close> for both transports. Shown: no id is announced under an unconfirmed
    key, a silent server is given up in bounded time, relaying is respected, a free port is found.
  \<^item> \<open>Handshake\<close> (\<open>secure_connection\<close> of \<open>src/client.rs\<close>, \<open>create_tcp_connection\<close> of \<open>src/server.rs\<close>, \<open>decode_id_pk\<close> of
    \<open>src/common.rs\<close>): the exchange of keys. Shown: both ends agree on a key, the viewer is keyed only towards the peer it asked for,
    and without a vouched key both go on in the clear.
  \<^item> \<open>Client_Login\<close> (\<open>LoginConfigHandler\<close>, \<open>handle_hash\<close>, \<open>handle_login_from_ui\<close>, \<open>handle_peer_info\<close> of \<open>src/client.rs\<close>,
    \<open>PeerConfig\<close> of \<open>config.rs\<close>): the login of the viewer, composed with \<open>Login\<close>. Shown: a viewer that knows the password gets in,
    and a remembered password opens the next session.

  \<^bold>\<open>Conventions.\<close> A struct is a \<^theory_text>\<open>record\<close>, an enum a \<^theory_text>\<open>datatype\<close>, a method a function from the old state to the new one.
  Fixed-width integers are words where they wrap; counters that cannot reach their bound are natural numbers. A hash map is an
  association list with distinct keys. A panic and an early return with an error are values. Clock, random numbers,
  operating system answers, ciphers, hashes and compression are arguments; what is relied upon of them is a hypothesis of the theorem.
  Threads appear as sequences of critical sections (\<open>Service\<close>) or of operations on shared tables (\<open>Login_Guard\<close>, \<open>Login\<close>).

  \<^bold>\<open>Bounds and fuel.\<close> The loops over streams, blocks and packets recurse over the data they consume, so no fuel is used for them;
  the loop that trims a terminal history may not end and is a \<^theory_text>\<open>partial_function\<close> into \<open>option\<close>; a loop that runs for the life of a thread is a function of the list of what it observes in each turn, for every list.
  Collecting copied files follows links without a bound, so \<open>constr_file_lst\<close> has fuel, one unit a path, and running out is \<open>None\<close>.

  \<^bold>\<open>Not modelled.\<close> Screen capture and the codecs themselves, input injection, the clipboards of the systems, the platform layer, the user interface and its
  generated bindings, plugins and HTTP requests are calls of operating system and third-party interfaces. Of the viewer
  only the key exchange and the login are modelled, with the part of the peer configuration they use. Of an authorized connection the sending of video and sound, the
  delay test, port forwarding and the arms that other systems than Linux compile are left out.
\<close>

end
